(* ===== verification/Prelude.thy ===== *)
theory Prelude
  imports
    Main
    "HOL-Library.Word"
    "HOL-Library.Sublist"
    "HOL-Library.List_Lexorder"
    "HOL-Library.Char_ord"
begin

text \<open>
  What the components share. Rust strings are lists of bytes (\<open>string\<close>, one \<open>char\<close> per UTF-8
  byte, so \<open>length\<close> is \<open>str::len\<close>); \<open>Result\<close> is a sum with the error on the left; \<open>HashMap\<close> is a
  map, and where the code iterates over a hash table the order is a parameter \<open>enum\<close> of which only
  \<open>hash_order\<close> is known. The theory holds the operations of the standard library that several
  components use, the JSON values that the tools exchange, and two interfaces: a system of steps
  with an invariant, and a bounded buffer.
\<close>

named_theorems str_simps \<open>evaluation of the string operations\<close>
named_theorems step_defs \<open>definitions of the state transitions of a component\<close>

section \<open>Results\<close>

type_synonym u32 = "32 word"
type_synonym u64 = "64 word"

definition and_then :: "'e + 'a \<Rightarrow> ('a \<Rightarrow> 'e + 'b) \<Rightarrow> 'e + 'b" where
  "and_then r f = (case r of Inl e \<Rightarrow> Inl e | Inr x \<Rightarrow> f x)"

lemma and_then_simps [simp]:
  "and_then (Inl e) f = Inl e"
  "and_then (Inr x) f = f x"
  by (simp_all add: and_then_def)

lemma and_then_Inr_iff: "and_then r f = Inr y \<longleftrightarrow> (\<exists>x. r = Inr x \<and> f x = Inr y)"
  by (cases r) auto

definition unwrap_or :: "'a \<Rightarrow> 'a option \<Rightarrow> 'a" where
  "unwrap_or d x = (case x of None \<Rightarrow> d | Some v \<Rightarrow> v)"

lemma unwrap_or_simps [simp]:
  "unwrap_or d None = d"
  "unwrap_or d (Some v) = v"
  by (simp_all add: unwrap_or_def)

section \<open>Lists\<close>

lemma find_distinct_key:
  "distinct (map f xs) \<Longrightarrow> x \<in> set xs \<Longrightarrow> find (\<lambda>y. f y = f x) xs = Some x"
  by (induction xs) (auto simp: rev_image_eqI)

lemma find_SomeD: "find P xs = Some x \<Longrightarrow> x \<in> set xs \<and> P x"
  by (induction xs) (auto split: if_splits)

lemma find_NoneD: "find P xs = None \<Longrightarrow> x \<in> set xs \<Longrightarrow> \<not> P x"
  by (induction xs) (auto split: if_splits)

section \<open>Strings\<close>

text \<open>\<open>str::find\<close> with a string pattern: the byte index of the first occurrence.\<close>

fun find_sub :: "string \<Rightarrow> string \<Rightarrow> nat option" where
  "find_sub p [] = (if p = [] then Some 0 else None)"
| "find_sub p (c # cs) = (if prefix p (c # cs) then Some 0 else map_option Suc (find_sub p cs))"

definition contains_sub :: "string \<Rightarrow> string \<Rightarrow> bool" where
  "contains_sub p s \<longleftrightarrow> find_sub p s \<noteq> None"

definition strip_prefix_str :: "string \<Rightarrow> string \<Rightarrow> string option" where
  "strip_prefix_str p s = (if prefix p s then Some (drop (length p) s) else None)"

text \<open>\<open>Path::join\<close> with a relative path.\<close>

definition join_path :: "string \<Rightarrow> string \<Rightarrow> string" where
  "join_path base rel = (if base = [] \<or> last base = CHR ''/'' then base @ rel else base @ ''/'' @ rel)"

fun join_str :: "string \<Rightarrow> string list \<Rightarrow> string" where
  "join_str sep [] = []"
| "join_str sep [x] = x"
| "join_str sep (x # xs) = x @ sep @ join_str sep xs"

lemma find_sub_bound: "find_sub p s = Some i \<Longrightarrow> i + length p \<le> length s"
proof (induction p s arbitrary: i rule: find_sub.induct)
  case (1 p)
  then show ?case by (auto split: if_splits)
next
  case (2 p c cs)
  then show ?case
    by (auto split: if_splits dest: prefix_length_le)
qed

lemma find_sub_occurs: "find_sub p s = Some i \<Longrightarrow> prefix p (drop i s)"
proof (induction p s arbitrary: i rule: find_sub.induct)
  case (1 p)
  then show ?case by (auto split: if_splits)
next
  case (2 p c cs)
  then show ?case by (auto split: if_splits)
qed

lemma find_sub_first: "find_sub p s = Some i \<Longrightarrow> j < i \<Longrightarrow> \<not> prefix p (drop j s)"
proof (induction p s arbitrary: i j rule: find_sub.induct)
  case (1 p)
  then show ?case by (auto split: if_splits)
next
  case (2 p c cs)
  then obtain k where "i = Suc k" "find_sub p cs = Some k" and np: "\<not> prefix p (c # cs)"
    by (auto split: if_splits)
  with 2 show ?case by (cases j) auto
qed

lemma find_sub_None: "find_sub p s = None \<Longrightarrow> \<not> prefix p (drop j s)"
proof (induction p s arbitrary: j rule: find_sub.induct)
  case (1 p)
  then show ?case by (auto split: if_splits)
next
  case (2 p c cs)
  then show ?case by (cases j) (auto split: if_splits)
qed

lemma contains_sub_iff: "contains_sub p s \<longleftrightarrow> (\<exists>u v. s = u @ p @ v)"
proof
  assume "contains_sub p s"
  then obtain i where "find_sub p s = Some i" by (auto simp: contains_sub_def)
  then have "prefix p (drop i s)" by (rule find_sub_occurs)
  then obtain v where "drop i s = p @ v" by (auto simp: prefix_def)
  then have "s = take i s @ p @ v" by (metis append_take_drop_id)
  then show "\<exists>u v. s = u @ p @ v" by blast
next
  assume "\<exists>u v. s = u @ p @ v"
  then obtain u v where "s = u @ p @ v" by blast
  then have "prefix p (drop (length u) s)" by simp
  then show "contains_sub p s"
    using find_sub_None by (fastforce simp: contains_sub_def)
qed

text \<open>
  \<open>str::trim\<close>: the white space at the start or the end of a string, by its UTF-8 encoding
  (the code points with the property \<open>White_Space\<close>).
\<close>

definition ws_bytes :: "nat list list" where
  "ws_bytes =
     [[9], [10], [11], [12], [13], [32], [194, 133], [194, 160], [225, 154, 128],
      [226, 128, 128], [226, 128, 129], [226, 128, 130], [226, 128, 131], [226, 128, 132],
      [226, 128, 133], [226, 128, 134], [226, 128, 135], [226, 128, 136], [226, 128, 137],
      [226, 128, 138], [226, 128, 168], [226, 128, 169], [226, 128, 175], [226, 129, 159],
      [227, 128, 128]]"

definition ws_seqs :: "string list" where
  "ws_seqs = map (map char_of) ws_bytes"

definition ws_len :: "string list \<Rightarrow> string \<Rightarrow> nat" where
  "ws_len seqs s = (case find (\<lambda>w. prefix w s) seqs of None \<Rightarrow> 0 | Some w \<Rightarrow> length w)"

function trim_with :: "string list \<Rightarrow> string \<Rightarrow> string" where
  "trim_with seqs s =
     (if ws_len seqs s = 0 \<or> s = [] then s else trim_with seqs (drop (ws_len seqs s) s))"
  by pat_completeness auto

termination by (relation "measure (\<lambda>(seqs, s). length s)") auto

declare trim_with.simps [simp del]

definition trim_start :: "string \<Rightarrow> string" where
  "trim_start = trim_with ws_seqs"

definition trim_end :: "string \<Rightarrow> string" where
  "trim_end s = rev (trim_with (map rev ws_seqs) (rev s))"

definition trim :: "string \<Rightarrow> string" where
  "trim s = trim_end (trim_start s)"

lemma ws_len_trim_with: "ws_len seqs (trim_with seqs s) = 0 \<or> trim_with seqs s = []"
  by (induction seqs s rule: trim_with.induct) (subst (1 2) trim_with.simps, auto)

lemma suffix_trim_with: "suffix (trim_with seqs s) s"
proof (induction seqs s rule: trim_with.induct)
  case (1 seqs s)
  show ?case
    using 1 by (subst trim_with.simps) (auto intro: suffix_order.trans suffix_drop)
qed

lemma prefix_trim_end: "prefix (trim_end s) s"
  unfolding trim_end_def using suffix_trim_with [of _ "rev s"]
  by (metis rev_rev_ident suffix_to_prefix)

lemma ws_len_0_prefix: "ws_len seqs s = 0 \<Longrightarrow> prefix t s \<Longrightarrow> [] \<notin> set seqs \<Longrightarrow> ws_len seqs t = 0"
proof -
  assume "ws_len seqs s = 0" "prefix t s" "[] \<notin> set seqs"
  then have "\<forall>w\<in>set seqs. \<not> prefix w s"
    by (auto simp: ws_len_def split: option.splits dest: find_SomeD find_NoneD)
  with \<open>prefix t s\<close> have "\<forall>w\<in>set seqs. \<not> prefix w t"
    by (meson prefix_order.order_trans)
  then have "find (\<lambda>w. prefix w t) seqs = None" by (auto simp: find_None_iff)
  then show ?thesis by (simp add: ws_len_def)
qed

lemma trim_idem [simp]: "trim (trim s) = trim s"
proof -
  let ?b = "trim_with (map rev ws_seqs) (rev (trim_start s))"
  have ne: "[] \<notin> set ws_seqs" by (simp add: ws_seqs_def ws_bytes_def)
  have "ws_len ws_seqs (trim_start s) = 0 \<or> trim_start s = []"
    unfolding trim_start_def by (rule ws_len_trim_with)
  then have "ws_len ws_seqs (trim s) = 0 \<or> trim s = []"
    using ws_len_0_prefix [OF _ prefix_trim_end ne] prefix_trim_end [of "trim_start s"]
    by (auto simp: trim_def)
  then have start: "trim_start (trim s) = trim s"
    unfolding trim_start_def by (subst trim_with.simps) auto
  have "trim_with (map rev ws_seqs) ?b = ?b"
    using ws_len_trim_with [of "map rev ws_seqs" "rev (trim_start s)"]
    by (subst trim_with.simps) auto
  then have "trim_end (trim s) = trim s" by (simp add: trim_def trim_end_def)
  with start show ?thesis by (simp add: trim_def)
qed

text \<open>A string that starts and ends with a printable ASCII character is its own trim.\<close>

definition plain_char :: "char \<Rightarrow> bool" where
  "plain_char c \<longleftrightarrow> 32 < (of_char c :: nat) \<and> (of_char c :: nat) < 128"

lemma ws_seqs_ends:
  assumes "w \<in> set ws_seqs"
  shows "w \<noteq> []" and "\<not> plain_char (hd w)" and "\<not> plain_char (last w)"
  using assms by (auto simp: ws_seqs_def ws_bytes_def plain_char_def)

lemma ws_len_plain:
  assumes "plain_char (hd s)"
  shows "ws_len ws_seqs s = 0" and "ws_len (map rev ws_seqs) s = 0"
proof -
  have "\<not> prefix w s \<and> \<not> prefix (rev w) s" if "w \<in> set ws_seqs" for w
    using ws_seqs_ends [OF that] assms
    by (metis hd_append2 hd_rev prefix_def rev_is_Nil_conv)
  then have "find (\<lambda>w. prefix w s) ws_seqs = None" "find (\<lambda>w. prefix w s) (map rev ws_seqs) = None"
    by (auto simp: find_None_iff)
  then show "ws_len ws_seqs s = 0" and "ws_len (map rev ws_seqs) s = 0"
    by (simp_all add: ws_len_def)
qed

lemma trim_plain: "plain_char (hd s) \<Longrightarrow> plain_char (last s) \<Longrightarrow> trim s = s"
  by (simp add: trim_def trim_start_def trim_end_def trim_with.simps ws_len_plain hd_rev)

text \<open>\<open>str::split\<close> with a character, and \<open>str::lines\<close>.\<close>

fun split_char :: "char \<Rightarrow> string \<Rightarrow> string list" where
  "split_char c [] = [[]]"
| "split_char c (x # xs) =
     (if x = c then [] # split_char c xs
      else case split_char c xs of [] \<Rightarrow> [[x]] | w # ws \<Rightarrow> (x # w) # ws)"

definition em_dash :: string where
  "em_dash = [CHR 0xE2, CHR 0x80, CHR 0x94]"

definition newline :: char where
  "newline = CHR 0x0A"

definition strip_cr :: "string \<Rightarrow> string" where
  "strip_cr l = (if l \<noteq> [] \<and> last l = CHR 0x0D then butlast l else l)"

definition str_lines :: "string \<Rightarrow> string list" where
  "str_lines s =
     (let ls = split_char newline s
      in map strip_cr (if last ls = [] then butlast ls else ls))"

lemma split_char_nonempty [simp]: "split_char c s \<noteq> []"
  by (induction s) (auto split: list.splits)

lemma split_char_free: "w \<in> set (split_char c s) \<Longrightarrow> c \<notin> set w"
  by (induction s arbitrary: w) (auto split: list.splits if_splits)

lemma join_split_char: "join_str [c] (split_char c s) = s"
proof (induction s)
  case Nil
  then show ?case by simp
next
  case (Cons x xs)
  then show ?case by (cases "split_char c xs"; cases "tl (split_char c xs)") auto
qed

text \<open>Decimal rendering, as \<open>format!("{}", n)\<close> writes an unsigned integer.\<close>

definition digit_char :: "nat \<Rightarrow> char" where
  "digit_char d = char_of (48 + d)"

fun show_nat :: "nat \<Rightarrow> string" where
  "show_nat n = (if n < 10 then [digit_char n] else show_nat (n div 10) @ [digit_char (n mod 10)])"

declare show_nat.simps [simp del]

text \<open>A byte starts a character unless it is a UTF-8 continuation byte (\<open>10xxxxxx\<close>).\<close>

definition continuation_byte :: "char \<Rightarrow> bool" where
  "continuation_byte c \<longleftrightarrow> 128 \<le> (of_char c :: nat) \<and> (of_char c :: nat) < 192"

text \<open>\<open>str::is_char_boundary\<close>; slicing a string elsewhere panics.\<close>

definition char_boundary :: "string \<Rightarrow> nat \<Rightarrow> bool" where
  "char_boundary s n \<longleftrightarrow>
     n = 0 \<or> n = length s \<or> (n < length s \<and> \<not> continuation_byte (s ! n))"

text \<open>\<open>str::replace\<close> with a nonempty pattern; the first argument counts the bytes still to skip.\<close>

fun replace_from :: "nat \<Rightarrow> string \<Rightarrow> string \<Rightarrow> string \<Rightarrow> string" where
  "replace_from k pat new [] = []"
| "replace_from (Suc k) pat new (c # cs) = replace_from k pat new cs"
| "replace_from 0 pat new (c # cs) =
     (if prefix pat (c # cs) then new @ replace_from (length pat - 1) pat new cs
      else c # replace_from 0 pat new cs)"

definition replace_str :: "string \<Rightarrow> string \<Rightarrow> string \<Rightarrow> string" where
  "replace_str pat new s = replace_from 0 pat new s"

section \<open>JSON values\<close>

text \<open>
  The values of \<open>serde_json::Value\<close> that the tools exchange, and its accessors \<open>get\<close>, \<open>as_str\<close>,
  \<open>as_bool\<close>, \<open>as_array\<close> and \<open>as_u64\<close>. An object is an association list with distinct keys; a number
  is an integer or, for the floats that the code only passes on, its decimal text.
\<close>

datatype json =
    JNull
  | JBool bool
  | JInt int
  | JFloat string
  | JStr string
  | JArr "json list"
  | JObj "(string \<times> json) list"

fun jget :: "json \<Rightarrow> string \<Rightarrow> json option" where
  "jget (JObj kvs) k = map_of kvs k"
| "jget _ k = None"

fun jstr :: "json \<Rightarrow> string option" where
  "jstr (JStr s) = Some s"
| "jstr _ = None"

fun jbool :: "json \<Rightarrow> bool option" where
  "jbool (JBool b) = Some b"
| "jbool _ = None"

fun jarr :: "json \<Rightarrow> json list option" where
  "jarr (JArr xs) = Some xs"
| "jarr _ = None"

fun ju64 :: "json \<Rightarrow> nat option" where
  "ju64 (JInt i) = (if 0 \<le> i \<and> i < 2 ^ 64 then Some (nat i) else None)"
| "ju64 _ = None"

fun ji64 :: "json \<Rightarrow> int option" where
  "ji64 (JInt i) = (if - (2 ^ 63) \<le> i \<and> i < 2 ^ 63 then Some i else None)"
| "ji64 _ = None"

text \<open>\<open>get\<close> with an index.\<close>

definition jnth :: "json \<Rightarrow> nat \<Rightarrow> json option" where
  "jnth v n = (case jarr v of None \<Rightarrow> None | Some xs \<Rightarrow> if n < length xs then Some (xs ! n) else None)"

definition jget_str :: "json \<Rightarrow> string \<Rightarrow> string option" where
  "jget_str v k = Option.bind (jget v k) jstr"

section \<open>Iteration over hash tables\<close>

text \<open>
  The order in which a \<open>HashMap\<close> or \<open>HashSet\<close> yields its elements is unspecified. A definition that
  iterates over one takes the order as a function \<open>enum\<close> from finite sets to lists; the properties
  hold for every \<open>enum\<close> that yields each element once.
\<close>

definition hash_order :: "('a set \<Rightarrow> 'a list) \<Rightarrow> bool" where
  "hash_order enum \<longleftrightarrow> (\<forall>S. finite S \<longrightarrow> set (enum S) = S \<and> distinct (enum S))"

lemma hash_order_set [simp]: "hash_order enum \<Longrightarrow> finite S \<Longrightarrow> set (enum S) = S"
  by (simp add: hash_order_def)

lemma hash_order_distinct [simp]: "hash_order enum \<Longrightarrow> finite S \<Longrightarrow> distinct (enum S)"
  by (simp add: hash_order_def)

lemma hash_order_length: "hash_order enum \<Longrightarrow> finite S \<Longrightarrow> length (enum S) = card S"
  by (metis distinct_card hash_order_distinct hash_order_set)

lemma hash_order_sorted: "hash_order (sorted_list_of_set :: ('a::linorder) set \<Rightarrow> 'a list)"
  by (simp add: hash_order_def)

section \<open>Interface: a system of steps with an invariant\<close>

locale step_system =
  fixes step :: "'s \<Rightarrow> 'e \<Rightarrow> 's"
    and inv :: "'s \<Rightarrow> bool"
  assumes inv_step: "inv s \<Longrightarrow> inv (step s e)"
begin

lemma inv_run: "inv s \<Longrightarrow> inv (foldl step s es)"
  by (induction es arbitrary: s) (auto intro: inv_step)

lemma inv_prefix: "inv s \<Longrightarrow> prefix ds es \<Longrightarrow> inv (foldl step s ds)"
  by (rule inv_run)

end

section \<open>Interface: a bounded buffer\<close>

text \<open>
  A buffer of a fixed capacity that drops its oldest element to take a new one. The law is that of
  one \<open>push\<close>; the lemma gives the contents after any number of them.
\<close>

definition last_n :: "nat \<Rightarrow> 'a list \<Rightarrow> 'a list" where
  "last_n n xs = drop (length xs - n) xs"

lemma length_last_n [simp]: "length (last_n n xs) = min n (length xs)"
  by (simp add: last_n_def)

lemma last_n_append: "last_n n (last_n n xs @ ys) = last_n n (xs @ ys)"
proof (cases "n \<le> length xs")
  case True
  then have "length xs + length ys - n = length ys + (length xs - n)" by simp
  with True show ?thesis by (simp add: last_n_def)
next
  case False
  then show ?thesis by (simp add: last_n_def)
qed

locale bounded_buffer =
  fixes push :: "'x \<Rightarrow> 'b \<Rightarrow> 'b"
    and contents :: "'b \<Rightarrow> 'x list"
    and capacity :: "'b \<Rightarrow> nat"
  assumes capacity_push: "capacity (push x b) = capacity b"
    and contents_push:
      "0 < capacity b \<Longrightarrow> length (contents b) \<le> capacity b
        \<Longrightarrow> contents (push x b) = last_n (capacity b) (contents b @ [x])"
begin

lemma capacity_pushes: "capacity (fold push xs b) = capacity b"
  by (induction xs arbitrary: b) (auto simp: capacity_push)

lemma contents_pushes:
  assumes "0 < capacity b" and "length (contents b) \<le> capacity b"
  shows "contents (fold push xs b) = last_n (capacity b) (contents b @ xs)"
  using assms
proof (induction xs arbitrary: b)
  case Nil
  then show ?case by (simp add: last_n_def)
next
  case (Cons x xs)
  have "contents (fold push (x # xs) b)
      = last_n (capacity b) (last_n (capacity b) (contents b @ [x]) @ xs)"
    using Cons by (simp add: capacity_push contents_push)
  also have "\<dots> = last_n (capacity b) (contents b @ x # xs)"
    by (simp add: last_n_append)
  finally show ?case .
qed

end

text \<open>The same with a 64-bit count of the elements it has dropped.\<close>

locale counted_buffer = bounded_buffer +
  fixes dropped :: "'b \<Rightarrow> u64"
  assumes dropped_push:
    "dropped (push x b) = (if capacity b \<le> length (contents b) then dropped b + 1 else dropped b)"
begin

lemma dropped_pushes:
  assumes "0 < capacity b" and "length (contents b) \<le> capacity b"
  shows "dropped (fold push xs b) = dropped b + of_nat (length (contents b) + length xs - capacity b)"
  using assms
proof (induction xs arbitrary: b)
  case Nil
  then show ?case by simp
next
  case (Cons x xs)
  have l: "length (contents (push x b)) = min (capacity b) (Suc (length (contents b)))"
    using Cons.prems by (simp add: contents_push)
  have "dropped (fold push (x # xs) b)
      = dropped (push x b) + of_nat (length (contents (push x b)) + length xs - capacity b)"
    using Cons.IH [of "push x b"] Cons.prems l by (simp add: capacity_push)
  also have "\<dots> = dropped b + of_nat (length (contents b) + length (x # xs) - capacity b)"
    using Cons.prems l by (cases "length (contents b) = capacity b") (auto simp: dropped_push)
  finally show ?case .
qed

end

end
