(* ===== verification/Graphs.thy ===== *)
theory Graphs
  imports Prelude
begin

text \<open>
  Dependency graphs, as the cycle checks and the topological sorts of the components see them: a
  relation from a task to its dependencies. The theory gives the closed-set argument that makes a
  depth-first cycle check complete, and the interface of a layering: a list of waves in which every
  dependency of a task lies in an earlier wave.
\<close>

section \<open>Closed sets without cycles\<close>

text \<open>
  \<open>done_set E D\<close>: no edge leaves \<open>D\<close> and no node of \<open>D\<close> lies on a cycle. A depth-first search keeps
  it for the nodes it has left.
\<close>

definition done_set :: "('a \<times> 'a) set \<Rightarrow> 'a set \<Rightarrow> bool" where
  "done_set E D \<longleftrightarrow> E `` D \<subseteq> D \<and> (\<forall>x\<in>D. (x, x) \<notin> E\<^sup>+)"

lemma done_set_empty [simp, intro]: "done_set E {}"
  by (simp add: done_set_def)

lemma closed_trancl: "E `` D \<subseteq> D \<Longrightarrow> x \<in> D \<Longrightarrow> (x, y) \<in> E\<^sup>+ \<Longrightarrow> y \<in> D"
  by (rotate_tac 2, induction rule: trancl_induct) blast+

lemma done_set_insert:
  assumes "done_set E D" and "E `` {v} \<subseteq> D" and "v \<notin> D"
  shows "done_set E (insert v D)"
proof -
  from assms(1) have closed: "E `` D \<subseteq> D" by (simp add: done_set_def)
  have "(v, v) \<notin> E\<^sup>+"
  proof
    assume "(v, v) \<in> E\<^sup>+"
    then obtain w where "(v, w) \<in> E" and "(w, v) \<in> E\<^sup>*" by (meson tranclD)
    with assms(2) have "w \<in> D" by blast
    from \<open>(w, v) \<in> E\<^sup>*\<close> have "w = v \<or> (w, v) \<in> E\<^sup>+" by (metis rtranclD)
    with \<open>w \<in> D\<close> closed have "v \<in> D" by (auto dest: closed_trancl)
    with assms(3) show False ..
  qed
  with assms(1,2) show ?thesis by (auto simp: done_set_def)
qed

lemma done_set_acyclic:
  assumes "done_set E D" and "Domain E \<subseteq> D"
  shows "acyclic E"
  unfolding acyclic_def
proof (intro allI notI)
  fix x assume cyc: "(x, x) \<in> E\<^sup>+"
  then have "x \<in> Domain E" by (meson DomainI tranclD)
  with assms cyc show False by (auto simp: done_set_def)
qed

lemma cycle_not_acyclic: "(x, x) \<in> E\<^sup>+ \<Longrightarrow> \<not> acyclic E"
  by (auto simp: acyclic_def)

section \<open>A cycle is a set in which every node has a dependency inside the set\<close>

lemma stuck_set_cyclic:
  assumes "finite S" and "S \<noteq> {}" and "\<And>x. x \<in> S \<Longrightarrow> \<exists>y\<in>S. (x, y) \<in> E"
  shows "\<not> acyclic E"
proof
  assume "acyclic E"
  then have "acyclic ((E \<inter> S \<times> S)\<inverse>)"
    by (metis acyclic_converse acyclic_subset inf_le1)
  moreover have "finite ((E \<inter> S \<times> S)\<inverse>)"
    using assms(1) by (meson finite_Int finite_SigmaI finite_converse)
  ultimately have "wf ((E \<inter> S \<times> S)\<inverse>)" by (simp add: finite_acyclic_wf)
  then obtain x where "x \<in> S" and min: "\<And>y. (y, x) \<in> (E \<inter> S \<times> S)\<inverse> \<Longrightarrow> y \<notin> S"
    using assms(2) by (metis ex_in_conv wf_eq_minimal)
  with assms(3) show False by (metis IntI SigmaI converseI)
qed

section \<open>Interface: a layering of a dependency graph\<close>

text \<open>\<open>wave_of\<close> is the position of the wave that holds a task.\<close>

fun wave_of :: "'a list list \<Rightarrow> 'a \<Rightarrow> nat" where
  "wave_of [] x = 0"
| "wave_of (w # ws) x = (if x \<in> set w then 0 else Suc (wave_of ws x))"

lemma wave_of_less: "x \<in> set (concat ws) \<Longrightarrow> wave_of ws x < length ws"
  by (induction ws) auto

lemma wave_of_in: "x \<in> set (concat ws) \<Longrightarrow> x \<in> set (ws ! wave_of ws x)"
  by (induction ws) auto

lemma wave_of_unique:
  "distinct (concat ws) \<Longrightarrow> i < length ws \<Longrightarrow> x \<in> set (ws ! i) \<Longrightarrow> wave_of ws x = i"
proof (induction ws arbitrary: i)
  case Nil
  then show ?case by simp
next
  case (Cons w ws)
  show ?case
  proof (cases i)
    case 0
    with Cons.prems show ?thesis by simp
  next
    case (Suc j)
    with Cons.prems have "x \<in> set (concat ws)" by (auto dest: nth_mem)
    with Cons.prems have "x \<notin> set w" by auto
    with Cons Suc show ?thesis by simp
  qed
qed

text \<open>
  The contract of a topological sort by waves. When it succeeds, the waves hold the given nodes, each
  once, and every dependency of a task of a wave lies in an earlier one; when it fails, there are nodes
  each of which waits for something that is not a node or waits itself.
\<close>

locale wave_sort =
  fixes ok :: "'g \<Rightarrow> bool" and nodes :: "'g \<Rightarrow> 'a set" and deps :: "'g \<Rightarrow> ('a \<times> 'a) set"
    and sort :: "'g \<Rightarrow> 'a list list option"
  assumes finite_nodes: "ok g \<Longrightarrow> finite (nodes g)"
    and deps_of_nodes: "ok g \<Longrightarrow> (x, d) \<in> deps g \<Longrightarrow> x \<in> nodes g"
    and sort_nodes: "ok g \<Longrightarrow> sort g = Some ws \<Longrightarrow> set (concat ws) = nodes g"
    and sort_distinct: "ok g \<Longrightarrow> sort g = Some ws \<Longrightarrow> distinct (concat ws)"
    and sort_deps: "ok g \<Longrightarrow> sort g = Some ws \<Longrightarrow> i < length ws \<Longrightarrow> x \<in> set (ws ! i)
      \<Longrightarrow> (x, d) \<in> deps g \<Longrightarrow> \<exists>j<i. d \<in> set (ws ! j)"
    and sort_stuck: "ok g \<Longrightarrow> sort g = None \<Longrightarrow> \<exists>S. S \<noteq> {} \<and> S \<subseteq> nodes g
      \<and> (\<forall>x\<in>S. \<exists>d. (x, d) \<in> deps g \<and> d \<notin> nodes g - S)"
begin

lemma wave_of_dep:
  assumes "ok g" and "sort g = Some ws" and "(x, d) \<in> deps g"
  shows "wave_of ws d < wave_of ws x" and "d \<in> nodes g"
proof -
  note nodes = sort_nodes [OF assms(1,2)]
  have x: "x \<in> set (concat ws)" using deps_of_nodes [OF assms(1,3)] nodes by simp
  then obtain j where j: "j < wave_of ws x" "d \<in> set (ws ! j)"
    using sort_deps [OF assms(1,2) wave_of_less wave_of_in assms(3)] by blast
  then have len: "j < length ws" using wave_of_less [OF x] by simp
  with j(2) have "wave_of ws d = j"
    by (intro wave_of_unique [OF sort_distinct [OF assms(1,2)]])
  with j show "wave_of ws d < wave_of ws x" by simp
  from len j(2) have "d \<in> set (concat ws)" by (auto intro!: bexI [of _ "ws ! j"])
  with nodes show "d \<in> nodes g" by simp
qed

lemma sort_acyclic:
  assumes "ok g" and "sort g = Some ws"
  shows "acyclic (deps g)"
proof -
  have "deps g \<subseteq> (measure (wave_of ws))\<inverse>"
    using wave_of_dep(1) [OF assms] by auto
  then show ?thesis
    by (meson acyclic_converse acyclic_subset wf_acyclic wf_measure)
qed

text \<open>The sort succeeds on exactly the graphs without unknown dependencies and cycles.\<close>

lemma sort_iff:
  assumes "ok g"
  shows "(\<exists>ws. sort g = Some ws) \<longleftrightarrow> Range (deps g) \<subseteq> nodes g \<and> acyclic (deps g)"
proof
  assume "\<exists>ws. sort g = Some ws"
  then obtain ws where "sort g = Some ws" ..
  then show "Range (deps g) \<subseteq> nodes g \<and> acyclic (deps g)"
    using wave_of_dep(2) [OF assms] sort_acyclic [OF assms] by auto
next
  assume g: "Range (deps g) \<subseteq> nodes g \<and> acyclic (deps g)"
  show "\<exists>ws. sort g = Some ws"
  proof (rule ccontr)
    assume "\<nexists>ws. sort g = Some ws"
    then obtain S where S: "S \<noteq> {}" "S \<subseteq> nodes g"
      "\<forall>x\<in>S. \<exists>d. (x, d) \<in> deps g \<and> d \<notin> nodes g - S"
      using sort_stuck [OF assms] by auto
    have "\<exists>d\<in>S. (x, d) \<in> deps g" if "x \<in> S" for x
      using S(3) that g by (meson DiffI RangeI subsetD)
    moreover have "finite S" using S(2) finite_nodes [OF assms] by (rule finite_subset)
    ultimately have "\<not> acyclic (deps g)" using S(1) by (intro stuck_set_cyclic)
    with g show False by simp
  qed
qed

end

end
