(* ===== verification/Plan.thy ===== *)
theory Plan
  imports Graphs
begin

text \<open>
  The plan of \<open>mowis-orchestration/src/plan.rs\<close>: its data, the validation of its task graph by a
  depth-first cycle check, the model and tool policies read from it, and its multi-file format on
  disk. \<open>PlanId\<close> and \<open>TaskId\<close> are newtypes over a string. The TOML codec is a parameter (it is the
  \<open>toml\<close> crate), and so is which file operation fails.
\<close>

section \<open>Data\<close>

type_synonym plan_id = string
type_synonym task_id = string

datatype plan_status = Draft | AwaitingUser | Approved | Running | Done | Aborted

datatype model_tier = Fast | Mid | Flagship

datatype tier = Conductor | Critic | Captain | Crew

datatype provider = VertexAi | Grok | Groq | Anthropic | OpenAi | Gemini | Mimo

record model_ref =
  mr_provider :: provider
  mr_model :: string

record task_node =
  tn_id :: task_id
  tn_title :: string
  tn_description :: string
  tn_deps :: "task_id list"
  tn_model_tier :: model_tier
  tn_tool_budget :: u32
  tn_files_hint :: "string list"

record task_graph =
  tg_tasks :: "task_node list"

record sandbox_config =
  sc_image_rootfs :: string
  sc_ram_mb :: u32
  sc_cpu_millis :: u32
  sc_overlay_ram_mb :: u32
  sc_overlay_cpu_millis :: u32

record task_model_override =
  tmo_tier :: "string option"

record models_config =
  mc_tiers :: "string \<rightharpoonup> model_ref"
  mc_task_overrides :: "string \<rightharpoonup> task_model_override"

record tools_config =
  tc_allow_extra :: "string \<rightharpoonup> string list"
  tc_deny :: "string \<rightharpoonup> string list"

type_synonym path = "string list"

record plan =
  pl_plan_id :: plan_id
  pl_created_at :: string
  pl_conversation_id :: string
  pl_current_version :: u32
  pl_status :: plan_status
  pl_user_goal :: string
  pl_overview :: string
  pl_task_graph :: task_graph
  pl_sandbox_config :: sandbox_config
  pl_models_config :: models_config
  pl_tools_config :: tools_config
  pl_plans_dir :: path

definition default_sandbox_config :: sandbox_config where
  "default_sandbox_config = \<lparr> sc_image_rootfs = ''.mowis-cache/rootfs/ubuntu-24.04'',
     sc_ram_mb = 8192, sc_cpu_millis = 4000, sc_overlay_ram_mb = 1024,
     sc_overlay_cpu_millis = 1000 \<rparr>"

definition default_models_config :: models_config where
  "default_models_config = \<lparr> mc_tiers = Map.empty, mc_task_overrides = Map.empty \<rparr>"

definition default_tools_config :: tools_config where
  "default_tools_config = \<lparr> tc_allow_extra = Map.empty, tc_deny = Map.empty \<rparr>"

text \<open>\<open>Plan::new_draft\<close>; the clock reading \<open>now\<close> is an argument.\<close>

definition new_draft :: "string \<Rightarrow> plan_id \<Rightarrow> string \<Rightarrow> string \<Rightarrow> plan" where
  "new_draft now pid user_goal conversation_id = \<lparr>
     pl_plan_id = pid, pl_created_at = now, pl_conversation_id = conversation_id,
     pl_current_version = 1, pl_status = Draft, pl_user_goal = user_goal, pl_overview = [],
     pl_task_graph = \<lparr> tg_tasks = [] \<rparr>, pl_sandbox_config = default_sandbox_config,
     pl_models_config = default_models_config, pl_tools_config = default_tools_config,
     pl_plans_dir = [''.mowis'', ''plans''] \<rparr>"

fun show_plan_status :: "plan_status \<Rightarrow> string" where
  "show_plan_status Draft = ''draft''"
| "show_plan_status AwaitingUser = ''awaiting_user''"
| "show_plan_status Approved = ''approved''"
| "show_plan_status Running = ''running''"
| "show_plan_status Done = ''done''"
| "show_plan_status Aborted = ''aborted''"

text \<open>\<open>format!("{:?}", tier).to_lowercase()\<close>.\<close>

fun tier_key :: "tier \<Rightarrow> string" where
  "tier_key Conductor = ''conductor''"
| "tier_key Critic = ''critic''"
| "tier_key Captain = ''captain''"
| "tier_key Crew = ''crew''"

section \<open>Validation of the task graph\<close>

definition task_ids :: "task_graph \<Rightarrow> task_id list" where
  "task_ids g = map tn_id (tg_tasks g)"

definition find_task :: "task_graph \<Rightarrow> task_id \<Rightarrow> task_node option" where
  "find_task g v = find (\<lambda>t. tn_id t = v) (tg_tasks g)"

definition deps_of :: "task_graph \<Rightarrow> task_id \<Rightarrow> task_id list" where
  "deps_of g v = (case find_task g v of None \<Rightarrow> [] | Some t \<Rightarrow> tn_deps t)"

text \<open>
  \<open>dfs_cycle\<close> threads \<open>visited\<close> and \<open>in_stack\<close> and answers whether it met a cycle; \<open>dfs_deps\<close> is its
  loop over the dependencies of a task.
\<close>

function (sequential) dfs_cycle ::
  "task_graph \<Rightarrow> task_id \<Rightarrow> task_id set \<Rightarrow> task_id set \<Rightarrow> bool \<times> task_id set \<times> task_id set"
  and dfs_deps ::
  "task_graph \<Rightarrow> task_id list \<Rightarrow> task_id set \<Rightarrow> task_id set \<Rightarrow> bool \<times> task_id set \<times> task_id set"
where
  "dfs_cycle g v visited in_stack =
     (if v \<in> in_stack then (True, visited, in_stack)
      else if v \<in> visited then (False, visited, in_stack)
      else case dfs_deps g (deps_of g v) (insert v visited) (insert v in_stack) of
             (found, visited', in_stack') \<Rightarrow>
               if found then (True, visited', in_stack')
               else (False, visited', in_stack' - {v}))"
| "dfs_deps g [] visited in_stack = (False, visited, in_stack)"
| "dfs_deps g (d # ds) visited in_stack =
     (case dfs_cycle g d visited in_stack of
        (found, visited', in_stack') \<Rightarrow>
          if found then (True, visited', in_stack') else dfs_deps g ds visited' in_stack')"
  by pat_completeness auto

lemma dfs_visited_mono:
  "dfs_cycle_dfs_deps_dom (Inl (g, v, vis, stk)) \<Longrightarrow> vis \<subseteq> fst (snd (dfs_cycle g v vis stk))"
  "dfs_cycle_dfs_deps_dom (Inr (g, ds, vis, stk)) \<Longrightarrow> vis \<subseteq> fst (snd (dfs_deps g ds vis stk))"
proof (induction rule: dfs_cycle_dfs_deps.pinduct)
  case (1 g v vis stk)
  then show ?case
    by (cases "dfs_deps g (deps_of g v) (insert v vis) (insert v stk)")
       (auto simp: dfs_cycle.psimps)
next
  case (2 g vis stk)
  then show ?case by (simp add: dfs_deps.psimps)
next
  case (3 g d ds vis stk)
  then show ?case
    by (cases "dfs_cycle g d vis stk") (force simp: dfs_deps.psimps split: if_splits)
qed

lemma find_task_None: "find_task g v = None \<longleftrightarrow> v \<notin> set (task_ids g)"
  by (auto simp: find_task_def task_ids_def find_None_iff)

lemma deps_of_unknown: "v \<notin> set (task_ids g) \<Longrightarrow> deps_of g v = []"
  by (auto simp: deps_of_def find_task_def task_ids_def find_None_iff split: option.splits
      dest!: find_Some_iff [THEN iffD1] dest: nth_mem)

definition unvisited :: "task_graph \<Rightarrow> task_id set \<Rightarrow> nat" where
  "unvisited g vis = card (set (task_ids g) - vis)"

lemma unvisited_mono: "vis \<subseteq> vis' \<Longrightarrow> unvisited g vis' \<le> unvisited g vis"
  unfolding unvisited_def by (rule card_mono) auto

lemma unvisited_insert:
  "v \<in> set (task_ids g) \<Longrightarrow> v \<notin> vis \<Longrightarrow> unvisited g (insert v vis) < unvisited g vis"
  unfolding unvisited_def by (rule psubset_card_mono) auto

termination dfs_cycle
proof (relation "measures [
    (\<lambda>x. case x of Inl (g, v, vis, stk) \<Rightarrow> unvisited g vis | Inr (g, ds, vis, stk) \<Rightarrow> unvisited g vis),
    (\<lambda>x. case x of Inl _ \<Rightarrow> 1 | Inr (g, ds, vis, stk) \<Rightarrow> 2 * length ds)]", goal_cases)
  case 1
  show ?case by simp
next
  case (2 g v vis stk)
  have "unvisited g (insert v vis) \<le> unvisited g vis" by (rule unvisited_mono) blast
  with 2 show ?case
    by (cases "v \<in> set (task_ids g)") (auto simp: unvisited_insert deps_of_unknown)
next
  case (3 g d ds vis stk)
  show ?case by simp
next
  case (4 g d ds vis stk found r vis' stk')
  then have "vis \<subseteq> vis'" using dfs_visited_mono(1) [of g d vis stk] by (metis fst_conv snd_conv)
  then have "unvisited g vis' \<le> unvisited g vis" by (rule unvisited_mono)
  then show ?case by auto
qed

declare dfs_cycle.simps [simp del]

definition has_cycle :: "task_graph \<Rightarrow> bool" where
  "has_cycle g = fst (dfs_deps g (task_ids g) {} {})"

text \<open>The errors (\<open>anyhow::Error\<close>) of the crate; \<open>Bail\<close> carries a message.\<close>

datatype orch_error =
    DuplicateTask task_id
  | UnknownDep task_id task_id
  | GraphHasCycle
  | IoError
  | TomlError string
  | Bail string

definition check_deps :: "task_graph \<Rightarrow> task_node \<Rightarrow> orch_error + unit" where
  "check_deps g t =
     (case find (\<lambda>d. \<not> (\<exists>t' \<in> set (tg_tasks g). tn_id t' = d)) (tn_deps t) of
        None \<Rightarrow> Inr () | Some d \<Rightarrow> Inl (UnknownDep (tn_id t) d))"

fun check_tasks :: "task_graph \<Rightarrow> task_node list \<Rightarrow> task_id set \<Rightarrow> orch_error + unit" where
  "check_tasks g [] seen = Inr ()"
| "check_tasks g (t # ts) seen =
     (if tn_id t \<in> seen then Inl (DuplicateTask (tn_id t))
      else and_then (check_deps g t) (\<lambda>_. check_tasks g ts (insert (tn_id t) seen)))"

definition validate :: "plan \<Rightarrow> orch_error + unit" where
  "validate p =
     and_then (check_tasks (pl_task_graph p) (tg_tasks (pl_task_graph p)) {})
       (\<lambda>_. if has_cycle (pl_task_graph p) then Inl GraphHasCycle else Inr ())"

subsection \<open>The cycle check decides acyclicity\<close>

definition dep_rel :: "task_graph \<Rightarrow> (task_id \<times> task_id) set" where
  "dep_rel g = {(v, d). d \<in> set (deps_of g v)}"

lemma dep_rel_iff [simp]: "(v, d) \<in> dep_rel g \<longleftrightarrow> d \<in> set (deps_of g v)"
  by (simp add: dep_rel_def)

lemma Domain_dep_rel: "Domain (dep_rel g) \<subseteq> set (task_ids g)"
  using deps_of_unknown by (fastforce simp: dep_rel_def)

text \<open>A search that finds nothing leaves the stack as it was.\<close>

lemma dfs_cycle_clean_cases:
  assumes "dfs_cycle g v vis stk = (False, vis', stk')"
  obtains "v \<notin> stk" "v \<in> vis" "vis' = vis" "stk' = stk"
  | k where "v \<notin> stk" "v \<notin> vis" "stk' = k - {v}"
      "dfs_deps g (deps_of g v) (insert v vis) (insert v stk) = (False, vis', k)"
  using assms
  by (cases "dfs_deps g (deps_of g v) (insert v vis) (insert v stk)")
     (subst (asm) dfs_cycle.simps, auto split: if_splits)

lemma dfs_deps_clean_cases:
  assumes "dfs_deps g (d # ds) vis stk = (False, vis', stk')"
  obtains w k where "dfs_cycle g d vis stk = (False, w, k)" "dfs_deps g ds w k = (False, vis', stk')"
  using assms by (cases "dfs_cycle g d vis stk") (auto split: if_splits)

lemma dfs_stack:
  "dfs_cycle g v vis stk = (False, vis', stk') \<Longrightarrow> stk' = stk"
  "dfs_deps g ds vis stk = (False, vis', stk') \<Longrightarrow> stk' = stk"
proof (induction g v vis stk and g ds vis stk arbitrary: vis' stk' and vis' stk'
    rule: dfs_cycle_dfs_deps.induct)
  case (1 g v vis stk)
  from "1.prems" show ?case
  proof (cases rule: dfs_cycle_clean_cases)
    case 1
    then show ?thesis by simp
  next
    case (2 k)
    then have "k = insert v stk" by (intro "1.IH")
    with 2 show ?thesis by simp
  qed
next
  case (2 g vis stk)
  then show ?case by simp
next
  case (3 g d ds vis stk)
  from "3.prems" obtain w k where c: "dfs_cycle g d vis stk = (False, w, k)"
    and d: "dfs_deps g ds w k = (False, vis', stk')" by (rule dfs_deps_clean_cases)
  have "k = stk" using c by (rule "3.IH"(1))
  moreover have "stk' = k"
    by (rule "3.IH"(2) [OF c [symmetric] refl _ d]) simp
  ultimately show ?case by simp
qed

text \<open>Soundness: the stack is a path to the current task, so meeting it again closes a cycle.\<close>

lemma dfs_cycle_found_cases:
  assumes "dfs_cycle g v vis stk = (True, r)"
  obtains "v \<in> stk"
  | r' where "v \<notin> stk" "v \<notin> vis"
      "dfs_deps g (deps_of g v) (insert v vis) (insert v stk) = (True, r')"
  using assms
  by (cases "dfs_deps g (deps_of g v) (insert v vis) (insert v stk)")
     (subst (asm) dfs_cycle.simps, auto split: if_splits)

lemma dfs_found_cycle:
  "dfs_cycle g v vis stk = (True, r) \<Longrightarrow> \<forall>s\<in>stk. (s, v) \<in> (dep_rel g)\<^sup>+ \<Longrightarrow> \<not> acyclic (dep_rel g)"
  "dfs_deps g ds vis stk = (True, r) \<Longrightarrow> \<forall>s\<in>stk. \<forall>d\<in>set ds. (s, d) \<in> (dep_rel g)\<^sup>+
     \<Longrightarrow> \<not> acyclic (dep_rel g)"
proof (induction g v vis stk and g ds vis stk arbitrary: r and r rule: dfs_cycle_dfs_deps.induct)
  case (1 g v vis stk)
  from "1.prems"(1) show ?case
  proof (cases rule: dfs_cycle_found_cases)
    case 1
    then have "(v, v) \<in> (dep_rel g)\<^sup>+" using "1.prems"(2) by blast
    then show ?thesis by (rule cycle_not_acyclic)
  next
    case (2 r')
    have "\<forall>s\<in>insert v stk. \<forall>d\<in>set (deps_of g v). (s, d) \<in> (dep_rel g)\<^sup>+"
    proof (intro ballI)
      fix s d assume s: "s \<in> insert v stk" and "d \<in> set (deps_of g v)"
      then have e: "(v, d) \<in> dep_rel g" by simp
      show "(s, d) \<in> (dep_rel g)\<^sup>+"
      proof (cases "s = v")
        case True
        with e show ?thesis by (simp only: r_into_trancl)
      next
        case False
        with s "1.prems"(2) have "(s, v) \<in> (dep_rel g)\<^sup>+" by blast
        then show ?thesis using e by (rule trancl_into_trancl)
      qed
    qed
    then show ?thesis by (rule "1.IH" [OF 2])
  qed
next
  case (2 g vis stk)
  from "2.prems"(1) show ?case by simp
next
  case (3 g d ds vis stk)
  obtain b vis' stk' where c: "dfs_cycle g d vis stk = (b, vis', stk')"
    by (cases "dfs_cycle g d vis stk")
  show ?case
  proof (cases b)
    case True
    have "\<forall>s\<in>stk. (s, d) \<in> (dep_rel g)\<^sup>+" using "3.prems"(2) by simp
    then show ?thesis using c True by (intro "3.IH"(1)) simp_all
  next
    case False
    then have stk: "stk' = stk" using c by (intro dfs_stack(1)) simp
    have "dfs_deps g ds vis' stk' = (True, r)" using "3.prems"(1) c False by simp
    moreover have "\<forall>s\<in>stk'. \<forall>d\<in>set ds. (s, d) \<in> (dep_rel g)\<^sup>+"
      using "3.prems"(2) stk by simp
    ultimately show ?thesis by (rule "3.IH"(2) [OF c [symmetric] refl False])
  qed
qed

text \<open>
  Completeness: the tasks that were visited and have left the stack form a closed set without
  cycles, and every search that finds nothing adds its own task to it.
\<close>

lemma dfs_clean:
  "dfs_cycle g v vis stk = (False, vis', stk') \<Longrightarrow> done_set (dep_rel g) (vis - stk) \<Longrightarrow> stk \<subseteq> vis
     \<Longrightarrow> done_set (dep_rel g) (vis' - stk) \<and> vis \<subseteq> vis' \<and> v \<in> vis' - stk"
  "dfs_deps g ds vis stk = (False, vis', stk') \<Longrightarrow> done_set (dep_rel g) (vis - stk) \<Longrightarrow> stk \<subseteq> vis
     \<Longrightarrow> done_set (dep_rel g) (vis' - stk) \<and> vis \<subseteq> vis' \<and> set ds \<subseteq> vis' - stk"
proof (induction g v vis stk and g ds vis stk arbitrary: vis' stk' and vis' stk'
    rule: dfs_cycle_dfs_deps.induct)
  case (1 g v vis stk)
  from "1.prems"(1) have ns: "v \<notin> stk" by (auto simp: dfs_cycle.simps)
  show ?case
  proof (cases "v \<in> vis")
    case True
    with ns "1.prems" show ?thesis by (simp add: dfs_cycle.simps)
  next
    case nv: False
    obtain b w k where d: "dfs_deps g (deps_of g v) (insert v vis) (insert v stk) = (b, w, k)"
      by (cases "dfs_deps g (deps_of g v) (insert v vis) (insert v stk)")
    with "1.prems"(1) ns nv have b: "b = False" and w: "w = vis'"
      by (auto simp: dfs_cycle.simps split: if_splits)
    have "insert v vis - insert v stk = vis - stk" using nv by blast
    with "1.IH" [OF ns nv] d b "1.prems"(2,3)
    have "done_set (dep_rel g) (w - insert v stk)" "insert v vis \<subseteq> w"
      "set (deps_of g v) \<subseteq> w - insert v stk" by auto
    moreover from this have "done_set (dep_rel g) (insert v (w - insert v stk))"
      by (intro done_set_insert) auto
    moreover have "insert v (w - insert v stk) = w - stk"
      using ns \<open>insert v vis \<subseteq> w\<close> by blast
    ultimately show ?thesis using ns w by auto
  qed
next
  case (2 g vis stk)
  then show ?case by simp
next
  case (3 g d ds vis stk)
  obtain b w k where c: "dfs_cycle g d vis stk = (b, w, k)" by (cases "dfs_cycle g d vis stk")
  with "3.prems"(1) have b: "\<not> b" by (auto split: if_splits)
  with c have k: "k = stk" using dfs_stack(1) [of g d vis stk] by simp
  from b c "3.IH"(1) "3.prems"(2,3)
  have w: "done_set (dep_rel g) (w - stk)" "vis \<subseteq> w" "d \<in> w - stk" by auto
  with b c k "3.prems" "3.IH"(2) [of b "(w, k)" w k]
  have "done_set (dep_rel g) (vis' - stk) \<and> w \<subseteq> vis' \<and> set ds \<subseteq> vis' - stk" by auto
  with w show ?case by auto
qed

lemma has_cycle_iff: "has_cycle g \<longleftrightarrow> \<not> acyclic (dep_rel g)"
proof
  assume "has_cycle g"
  then obtain r where "dfs_deps g (task_ids g) {} {} = (True, r)"
    by (cases "dfs_deps g (task_ids g) {} {}") (simp add: has_cycle_def)
  then show "\<not> acyclic (dep_rel g)" by (rule dfs_found_cycle(2)) simp
next
  assume cyc: "\<not> acyclic (dep_rel g)"
  show "has_cycle g"
  proof (rule ccontr)
    assume "\<not> has_cycle g"
    then obtain w k where "dfs_deps g (task_ids g) {} {} = (False, w, k)"
      by (cases "dfs_deps g (task_ids g) {} {}") (simp add: has_cycle_def)
    then have "done_set (dep_rel g) w" and "set (task_ids g) \<subseteq> w"
      using dfs_clean(2) [of g "task_ids g" "{}" "{}"] by auto
    with Domain_dep_rel cyc show False by (meson done_set_acyclic order_trans)
  qed
qed

subsection \<open>Validation accepts exactly the well-formed graphs\<close>

definition wf_graph :: "task_graph \<Rightarrow> bool" where
  "wf_graph g \<longleftrightarrow> distinct (task_ids g)
     \<and> (\<forall>t\<in>set (tg_tasks g). set (tn_deps t) \<subseteq> set (task_ids g))
     \<and> acyclic {(tn_id t, d) | t d. t \<in> set (tg_tasks g) \<and> d \<in> set (tn_deps t)}"

lemma check_deps_ok: "check_deps g t = Inr () \<longleftrightarrow> set (tn_deps t) \<subseteq> set (task_ids g)"
proof (cases "find (\<lambda>d. \<not> (\<exists>t' \<in> set (tg_tasks g). tn_id t' = d)) (tn_deps t)")
  case None
  then show ?thesis by (auto simp: check_deps_def task_ids_def dest: find_NoneD)
next
  case (Some d)
  from find_SomeD [OF this] Some show ?thesis
    by (auto simp: check_deps_def task_ids_def)
qed

lemma check_tasks_ok:
  "check_tasks g ts seen = Inr () \<longleftrightarrow>
     distinct (map tn_id ts) \<and> set (map tn_id ts) \<inter> seen = {}
     \<and> (\<forall>t\<in>set ts. set (tn_deps t) \<subseteq> set (task_ids g))"
proof (induction ts arbitrary: seen)
  case Nil
  then show ?case by simp
next
  case (Cons t ts)
  then show ?case by (auto simp: and_then_Inr_iff check_deps_ok)
qed

lemma find_task_distinct:
  "distinct (task_ids g) \<Longrightarrow> t \<in> set (tg_tasks g) \<Longrightarrow> find_task g (tn_id t) = Some t"
  unfolding find_task_def task_ids_def by (rule find_distinct_key)

lemma dep_rel_distinct:
  assumes "distinct (task_ids g)"
  shows "dep_rel g = {(tn_id t, d) | t d. t \<in> set (tg_tasks g) \<and> d \<in> set (tn_deps t)}"
proof -
  have "(v, d) \<in> dep_rel g \<longleftrightarrow> (\<exists>t\<in>set (tg_tasks g). tn_id t = v \<and> d \<in> set (tn_deps t))" for v d
  proof
    assume e: "(v, d) \<in> dep_rel g"
    then have "v \<in> set (task_ids g)" using Domain_dep_rel by blast
    then obtain t where "t \<in> set (tg_tasks g)" "tn_id t = v" by (auto simp: task_ids_def)
    with e show "\<exists>t\<in>set (tg_tasks g). tn_id t = v \<and> d \<in> set (tn_deps t)"
      using find_task_distinct [OF assms] by (auto simp: deps_of_def)
  next
    assume "\<exists>t\<in>set (tg_tasks g). tn_id t = v \<and> d \<in> set (tn_deps t)"
    then show "(v, d) \<in> dep_rel g"
      using find_task_distinct [OF assms] by (auto simp: deps_of_def)
  qed
  then show ?thesis by auto
qed

lemma validate_ok_iff: "validate p = Inr () \<longleftrightarrow> wf_graph (pl_task_graph p)"
  by (auto simp: validate_def and_then_Inr_iff check_tasks_ok has_cycle_iff wf_graph_def
      task_ids_def dep_rel_distinct)

section \<open>Model and tool policies\<close>

subsection \<open>Interface: an allowlist\<close>

text \<open>
  Both \<open>ToolAllowlist\<close> types (here and in \<open>tools.rs\<close>) answer \<open>allows\<close> from a list of permitted
  names, where the empty list permits every name, and a list of denied prefixes, which wins.
\<close>

locale allowlist =
  fixes allows :: "'a \<Rightarrow> string \<Rightarrow> bool"
    and allowed :: "'a \<Rightarrow> string list"
    and denied :: "'a \<Rightarrow> string list"
  assumes allows_law:
    "allows a t \<longleftrightarrow> (\<forall>d\<in>set (denied a). \<not> prefix d t) \<and> (allowed a = [] \<or> t \<in> set (allowed a))"
begin

lemma deny_wins: "d \<in> set (denied a) \<Longrightarrow> prefix d t \<Longrightarrow> \<not> allows a t"
  by (auto simp: allows_law)

lemma allowed_only: "allows a t \<Longrightarrow> allowed a \<noteq> [] \<Longrightarrow> t \<in> set (allowed a)"
  by (auto simp: allows_law)

lemma deny_antitone:
  "set (denied a) \<subseteq> set (denied b) \<Longrightarrow> allowed a = allowed b \<Longrightarrow> allows b t \<Longrightarrow> allows a t"
  by (auto simp: allows_law)

lemma unrestricted: "denied a = [] \<Longrightarrow> allowed a = [] \<Longrightarrow> allows a t"
  by (simp add: allows_law)

end

record tool_allowlist =
  ta_allowed :: "string list"
  ta_denied :: "string list"

definition allowlist_allows :: "tool_allowlist \<Rightarrow> string \<Rightarrow> bool" where
  "allowlist_allows a tool_name =
     (if \<exists>d \<in> set (ta_denied a). prefix d tool_name then False
      else ta_allowed a = [] \<or> tool_name \<in> set (ta_allowed a))"

interpretation plan_allow: allowlist allowlist_allows ta_allowed ta_denied
  by unfold_locales (auto simp: allowlist_allows_def)

definition plan_tool_allowlist :: "plan \<Rightarrow> tier \<Rightarrow> tool_allowlist" where
  "plan_tool_allowlist p tier =
     \<lparr> ta_allowed = unwrap_or [] (tc_allow_extra (pl_tools_config p) (tier_key tier)),
       ta_denied = unwrap_or [] (tc_deny (pl_tools_config p) (tier_key tier)) \<rparr>"

definition default_model :: model_ref where
  "default_model = \<lparr> mr_provider = Anthropic, mr_model = ''claude-haiku-4-5-20251001'' \<rparr>"

definition override_model :: "plan \<Rightarrow> task_id \<Rightarrow> model_ref option" where
  "override_model p t =
     (case find_task (pl_task_graph p) t of
        None \<Rightarrow> None
      | Some _ \<Rightarrow>
          (case mc_task_overrides (pl_models_config p) t of
             None \<Rightarrow> None
           | Some ov \<Rightarrow>
               (case tmo_tier ov of
                  None \<Rightarrow> None
                | Some tier_str \<Rightarrow> mc_tiers (pl_models_config p) (''tier.'' @ tier_str))))"

definition model_for :: "plan \<Rightarrow> tier \<Rightarrow> task_id option \<Rightarrow> model_ref" where
  "model_for p tier task =
     (case Option.bind task (override_model p) of
        Some m \<Rightarrow> m
      | None \<Rightarrow>
          unwrap_or default_model (mc_tiers (pl_models_config p) (''tier.'' @ tier_key tier)))"

lemma model_for_unknown_task:
  "t \<notin> set (task_ids (pl_task_graph p)) \<Longrightarrow> model_for p tier (Some t) = model_for p tier None"
  by (auto simp: model_for_def override_model_def find_task_def task_ids_def
      split: option.splits dest!: find_SomeD)

lemma model_for_override:
  "t \<in> set (task_ids (pl_task_graph p)) \<Longrightarrow> mc_task_overrides (pl_models_config p) t = Some ov \<Longrightarrow>
   tmo_tier ov = Some s \<Longrightarrow> mc_tiers (pl_models_config p) (''tier.'' @ s) = Some m \<Longrightarrow>
   model_for p tier (Some t) = m"
  by (auto simp: model_for_def override_model_def find_task_def task_ids_def
      split: option.splits dest!: find_NoneD)

end
