(* ===== verification/Plan_Store.thy ===== *)
theory Plan_Store
  imports Plan
begin

text \<open>
  The plan on disk (\<open>Plan::load\<close>, \<open>save\<close>, \<open>atomic_write\<close> and \<open>snapshot_to_history\<close> of
  \<open>mowis-orchestration/src/plan.rs\<close>). The file system is a map from paths to contents. Each file
  operation takes the outcome the operating system gives it: success, failure without effect, or, for
  a write, a failure that leaves a prefix of the contents; a crash is a failure at that operation. The
  codec of the \<open>toml\<close> crate is a parameter; what \<open>load\<close> relies on are the named laws of
  \<open>codec_inverts\<close>.
\<close>

section \<open>The file system\<close>

type_synonym fs = "path \<rightharpoonup> string"

datatype io_result = IoOk | IoErr | IoTorn nat

type_synonym io = "nat \<Rightarrow> io_result"

text \<open>An action takes the outcomes, the number of operations done so far and the file system.\<close>

type_synonym 'a fs_action = "io \<Rightarrow> nat \<Rightarrow> fs \<Rightarrow> (orch_error + 'a) \<times> nat \<times> fs"

definition fs_return :: "'a \<Rightarrow> 'a fs_action" where
  "fs_return x io n fs = (Inr x, n, fs)"

definition fs_fail :: "orch_error \<Rightarrow> 'a fs_action" where
  "fs_fail e io n fs = (Inl e, n, fs)"

definition fs_bind :: "'a fs_action \<Rightarrow> ('a \<Rightarrow> 'b fs_action) \<Rightarrow> 'b fs_action" where
  "fs_bind m k io n fs =
     (case m io n fs of
        (Inl e, n', fs') \<Rightarrow> (Inl e, n', fs')
      | (Inr x, n', fs') \<Rightarrow> k x io n' fs')"

definition fs_create_dir_all :: "path \<Rightarrow> unit fs_action" where
  "fs_create_dir_all d io n fs =
     (case io n of IoOk \<Rightarrow> (Inr (), Suc n, fs) | _ \<Rightarrow> (Inl IoError, Suc n, fs))"

definition fs_write :: "path \<Rightarrow> string \<Rightarrow> unit fs_action" where
  "fs_write f content io n fs =
     (case io n of
        IoOk \<Rightarrow> (Inr (), Suc n, fs(f \<mapsto> content))
      | IoErr \<Rightarrow> (Inl IoError, Suc n, fs)
      | IoTorn k \<Rightarrow> (Inl IoError, Suc n, fs(f \<mapsto> take k content)))"

definition fs_rename :: "path \<Rightarrow> path \<Rightarrow> unit fs_action" where
  "fs_rename src dst io n fs =
     (case (io n, fs src) of
        (IoOk, Some content) \<Rightarrow> (Inr (), Suc n, (fs(src := None))(dst \<mapsto> content))
      | _ \<Rightarrow> (Inl IoError, Suc n, fs))"

definition fs_copy :: "path \<Rightarrow> path \<Rightarrow> unit fs_action" where
  "fs_copy src dst io n fs =
     (case fs src of
        None \<Rightarrow> (Inl IoError, Suc n, fs)
      | Some content \<Rightarrow> fs_write dst content io n fs)"

section \<open>Atomic writes\<close>

text \<open>\<open>Path::with_extension("tmp")\<close> of a file name.\<close>

definition file_stem :: "string \<Rightarrow> string" where
  "file_stem name =
     (let ext = takeWhile (\<lambda>c. c \<noteq> CHR ''.'') (rev name)
      in if length name \<le> Suc (length ext) then name else take (length name - Suc (length ext)) name)"

definition with_tmp :: "path \<Rightarrow> path" where
  "with_tmp f = butlast f @ [file_stem (last f) @ ''.tmp'']"

definition atomic_write :: "path \<Rightarrow> string \<Rightarrow> unit fs_action" where
  "atomic_write f content =
     fs_bind (fs_write (with_tmp f) content) (\<lambda>_. fs_rename (with_tmp f) f)"

section \<open>Save\<close>

record plan_head =
  ph_plan_id :: plan_id
  ph_created_at :: string
  ph_conversation_id :: string
  ph_current_version :: u32
  ph_status :: plan_status
  ph_user_goal :: string

definition head_of :: "plan \<Rightarrow> plan_head" where
  "head_of p = \<lparr> ph_plan_id = pl_plan_id p, ph_created_at = pl_created_at p,
     ph_conversation_id = pl_conversation_id p, ph_current_version = pl_current_version p,
     ph_status = pl_status p, ph_user_goal = pl_user_goal p \<rparr>"

text \<open>\<open>toml::to_string_pretty\<close> and \<open>toml::from_str\<close> at the types the plan uses.\<close>

record codec =
  enc_head :: "plan_head \<Rightarrow> string option"
  enc_tasks :: "task_graph \<Rightarrow> string option"
  enc_sandbox :: "sandbox_config \<Rightarrow> string option"
  enc_models :: "models_config \<Rightarrow> string option"
  enc_tools :: "tools_config \<Rightarrow> string option"
  dec_plan :: "string \<Rightarrow> plan option"
  dec_tasks :: "string \<Rightarrow> task_graph option"
  dec_sandbox :: "string \<Rightarrow> sandbox_config option"
  dec_models :: "string \<Rightarrow> models_config option"
  dec_tools :: "string \<Rightarrow> tools_config option"

definition plan_dir :: "plan \<Rightarrow> path" where
  "plan_dir p = pl_plans_dir p @ [pl_plan_id p]"

fun write_files :: "path \<Rightarrow> (string \<times> string option) list \<Rightarrow> unit fs_action" where
  "write_files d [] = fs_return ()"
| "write_files d ((name, None) # fs) = fs_fail (TomlError name)"
| "write_files d ((name, Some content) # fs) =
     fs_bind (atomic_write (d @ [name]) content) (\<lambda>_. write_files d fs)"

definition plan_files :: "codec \<Rightarrow> plan \<Rightarrow> (string \<times> string option) list" where
  "plan_files c p =
     [(''plan.toml'', enc_head c (head_of p)),
      (''overview.md'', Some (pl_overview p)),
      (''tasks.toml'', enc_tasks c (pl_task_graph p)),
      (''sandbox.toml'', enc_sandbox c (pl_sandbox_config p)),
      (''models.toml'', enc_models c (pl_models_config p)),
      (''tools.toml'', enc_tools c (pl_tools_config p))]"

definition save :: "codec \<Rightarrow> plan \<Rightarrow> unit fs_action" where
  "save c p = fs_bind (fs_create_dir_all (plan_dir p)) (\<lambda>_. write_files (plan_dir p) (plan_files c p))"

section \<open>Load\<close>

text \<open>\<open>std::fs::read_to_string(..).unwrap_or_default()\<close>, and a part that is kept when its file is empty.\<close>

definition read_or_default :: "fs \<Rightarrow> path \<Rightarrow> string" where
  "read_or_default fs f = unwrap_or [] (fs f)"

definition read_part :: "(string \<Rightarrow> 'a option) \<Rightarrow> fs \<Rightarrow> path \<Rightarrow> 'a \<Rightarrow> orch_error + 'a" where
  "read_part dec fs f old =
     (let s = read_or_default fs f in
      if s = [] then Inr old
      else case dec s of None \<Rightarrow> Inl (TomlError s) | Some x \<Rightarrow> Inr x)"

definition load :: "codec \<Rightarrow> fs \<Rightarrow> path \<Rightarrow> plan_id \<Rightarrow> orch_error + plan" where
  "load c fs plans_dir pid =
     (let d = plans_dir @ [pid] in
      case fs (d @ [''plan.toml'']) of
        None \<Rightarrow> Inl IoError
      | Some plan_toml \<Rightarrow>
          (case dec_plan c plan_toml of
             None \<Rightarrow> Inl (TomlError plan_toml)
           | Some p0 \<Rightarrow>
               and_then (read_part (dec_tasks c) fs (d @ [''tasks.toml'']) (pl_task_graph p0)) (\<lambda>tg.
               and_then (read_part (dec_sandbox c) fs (d @ [''sandbox.toml'']) (pl_sandbox_config p0)) (\<lambda>sc.
               and_then (read_part (dec_models c) fs (d @ [''models.toml'']) (pl_models_config p0)) (\<lambda>mc.
               and_then (read_part (dec_tools c) fs (d @ [''tools.toml'']) (pl_tools_config p0)) (\<lambda>tc.
               Inr (p0\<lparr> pl_plans_dir := plans_dir,
                        pl_overview := read_or_default fs (d @ [''overview.md'']),
                        pl_task_graph := tg, pl_sandbox_config := sc,
                        pl_models_config := mc, pl_tools_config := tc \<rparr>)))))))"

section \<open>Snapshots\<close>

definition snapshot_names :: "string list" where
  "snapshot_names = [''overview.md'', ''tasks.toml'', ''sandbox.toml'', ''models.toml'', ''tools.toml'']"

definition history_dir :: "plan \<Rightarrow> path" where
  "history_dir p = plan_dir p @ [''history'', ''v'' @ show_nat (unat (pl_current_version p))]"

fun copy_existing :: "path \<Rightarrow> path \<Rightarrow> string list \<Rightarrow> unit fs_action" where
  "copy_existing src dst [] = fs_return ()"
| "copy_existing src dst (name # names) =
     (\<lambda>io n fs.
        if fs (src @ [name]) \<noteq> None
        then fs_bind (fs_copy (src @ [name]) (dst @ [name]))
               (\<lambda>_. copy_existing src dst names) io n fs
        else copy_existing src dst names io n fs)"

definition snapshot_to_history :: "plan \<Rightarrow> unit fs_action" where
  "snapshot_to_history p =
     fs_bind (fs_create_dir_all (history_dir p))
       (\<lambda>_. copy_existing (plan_dir p) (history_dir p) snapshot_names)"

section \<open>What a write can leave behind\<close>

named_theorems fs_simps \<open>unfolding of file actions\<close>

lemmas [fs_simps] = fs_return_def fs_fail_def fs_bind_def fs_create_dir_all_def fs_write_def
  fs_rename_def fs_copy_def

lemma last_with_tmp: "last (with_tmp f) = file_stem (last f) @ ''.tmp''"
  by (simp add: with_tmp_def)

lemma with_tmp_file [simp]: "with_tmp (d @ [name]) = d @ [file_stem name @ ''.tmp'']"
  by (simp add: with_tmp_def)

text \<open>
  One atomic write, whatever the outcomes of its two operations: the target holds its old contents or
  the new ones, and no file other than the target and its temporary file changes.
\<close>

lemma atomic_write_effect:
  assumes "atomic_write f c io n fs = (r, n', fs')" and "with_tmp f \<noteq> f"
  shows "fs' f = fs f \<or> fs' f = Some c"
    and "r = Inr () \<Longrightarrow> fs' f = Some c"
    and "g \<noteq> f \<Longrightarrow> g \<noteq> with_tmp f \<Longrightarrow> fs' g = fs g"
  using assms
  by (auto simp: atomic_write_def fs_simps split: io_result.splits option.splits if_splits)

lemma atomic_write_ok:
  "with_tmp f \<noteq> f \<Longrightarrow> \<exists>n' fs'. atomic_write f c (\<lambda>_. IoOk) n fs = (Inr (), n', fs')"
  by (simp add: atomic_write_def fs_simps)

text \<open>No name of the list is the temporary name of another.\<close>

definition plain_names :: "string list \<Rightarrow> bool" where
  "plain_names ns \<longleftrightarrow> distinct ns \<and> (\<forall>x\<in>set ns. \<forall>y\<in>set ns. file_stem y @ ''.tmp'' \<noteq> x)"

lemma plain_names_Cons: "plain_names (n # ns) \<Longrightarrow> plain_names ns"
  by (simp add: plain_names_def)

lemma write_files_frame:
  assumes "write_files d files io n fs = (r, n', fs')" and "plain_names (map fst files)"
    and "\<forall>name\<in>set (map fst files). g \<noteq> d @ [name] \<and> g \<noteq> d @ [file_stem name @ ''.tmp'']"
  shows "fs' g = fs g"
  using assms
proof (induction d files arbitrary: n fs rule: write_files.induct)
  case (1 d)
  then show ?case by (simp add: fs_simps)
next
  case (2 d name rest)
  then show ?case by (simp add: fs_simps)
next
  case (3 d name content rest)
  obtain q m fs1 where aw: "atomic_write (d @ [name]) content io n fs = (q, m, fs1)"
    by (cases "atomic_write (d @ [name]) content io n fs")
  have "with_tmp (d @ [name]) \<noteq> d @ [name]" using "3.prems"(2) by (simp add: plain_names_def)
  from atomic_write_effect(3) [OF aw this] "3.prems"(3) have same: "fs1 g = fs g" by simp
  show ?case
  proof (cases q)
    case (Inl e)
    with aw "3.prems"(1) same show ?thesis by (simp add: fs_bind_def)
  next
    case (Inr u)
    with aw "3.prems"(1) have "write_files d rest io m fs1 = (r, n', fs')" by (simp add: fs_bind_def)
    from "3.IH" [OF this] "3.prems"(2,3) same show ?thesis by (simp add: plain_names_def)
  qed
qed

lemma write_files_atomic:
  assumes "write_files d files io n fs = (r, n', fs')" and "plain_names (map fst files)"
    and "(name, content) \<in> set files"
  shows "fs' (d @ [name]) = fs (d @ [name]) \<or> content \<noteq> None \<and> fs' (d @ [name]) = content"
  using assms
proof (induction d files arbitrary: n fs rule: write_files.induct)
  case (1 d)
  then show ?case by simp
next
  case (2 d nm rest)
  then show ?case by (simp add: fs_simps)
next
  case (3 d nm c rest)
  obtain q m fs1 where aw: "atomic_write (d @ [nm]) c io n fs = (q, m, fs1)"
    by (cases "atomic_write (d @ [nm]) c io n fs")
  have pn: "plain_names (map fst rest)" using "3.prems"(2) by (simp add: plain_names_def)
  have tmp: "with_tmp (d @ [nm]) \<noteq> d @ [nm]" using "3.prems"(2) by (simp add: plain_names_def)
  note eff = atomic_write_effect [OF aw tmp]
  show ?case
  proof (cases "nm = name")
    case True
    then have "(name, content) = (nm, Some c)"
      using "3.prems"(2,3) by (auto simp: plain_names_def rev_image_eqI)
    then have here: "fs1 (d @ [name]) = fs (d @ [name]) \<or> content \<noteq> None \<and> fs1 (d @ [name]) = content"
      using eff(1) True by simp
    show ?thesis
    proof (cases q)
      case (Inl e)
      with aw "3.prems"(1) here show ?thesis by (simp add: fs_bind_def)
    next
      case (Inr u)
      with aw "3.prems"(1) have w: "write_files d rest io m fs1 = (r, n', fs')"
        by (simp add: fs_bind_def)
      have "fs' (d @ [name]) = fs1 (d @ [name])"
        using "3.prems"(2) True by (intro write_files_frame [OF w pn]) (auto simp: plain_names_def)
      with here show ?thesis by simp
    qed
  next
    case False
    with "3.prems"(2,3) have same: "fs1 (d @ [name]) = fs (d @ [name])"
      by (intro eff(3)) (force simp: plain_names_def)+
    show ?thesis
    proof (cases q)
      case (Inl e)
      with aw "3.prems"(1) same show ?thesis by (simp add: fs_bind_def)
    next
      case (Inr u)
      with aw "3.prems"(1) have "write_files d rest io m fs1 = (r, n', fs')"
        by (simp add: fs_bind_def)
      from "3.IH" [OF this pn] "3.prems"(3) False same show ?thesis by simp
    qed
  qed
qed

lemma write_files_done:
  assumes "write_files d files io n fs = (Inr (), n', fs')" and "plain_names (map fst files)"
    and "(name, c) \<in> set files"
  shows "c \<noteq> None \<and> fs' (d @ [name]) = c"
  using assms
proof (induction d files arbitrary: n fs rule: write_files.induct)
  case (1 d)
  then show ?case by simp
next
  case (2 d nm rest)
  then show ?case by (simp add: fs_simps)
next
  case (3 d nm content rest)
  obtain q m fs1 where aw: "atomic_write (d @ [nm]) content io n fs = (q, m, fs1)"
    by (cases "atomic_write (d @ [nm]) content io n fs")
  have pn: "plain_names (map fst rest)" using "3.prems"(2) by (simp add: plain_names_def)
  have tmp: "with_tmp (d @ [nm]) \<noteq> d @ [nm]" using "3.prems"(2) by (simp add: plain_names_def)
  from aw "3.prems"(1) have q: "q = Inr ()" and w: "write_files d rest io m fs1 = (Inr (), n', fs')"
    by (auto simp: fs_bind_def split: sum.splits)
  show ?case
  proof (cases "(name, c) \<in> set rest")
    case True
    with "3.IH" [OF w pn] show ?thesis by blast
  next
    case False
    with "3.prems"(3) have nc: "name = nm" "c = Some content" by auto
    have "fs' (d @ [nm]) = fs1 (d @ [nm])"
      using "3.prems"(2) by (intro write_files_frame [OF w pn]) (auto simp: plain_names_def)
    with atomic_write_effect(2) [OF aw tmp q] nc show ?thesis by simp
  qed
qed

lemma write_files_succeeds:
  assumes "\<forall>(name, c)\<in>set files. c \<noteq> None" and "plain_names (map fst files)"
  shows "\<exists>n' fs'. write_files d files (\<lambda>_. IoOk) n fs = (Inr (), n', fs')"
  using assms
proof (induction d files arbitrary: n fs rule: write_files.induct)
  case (1 d)
  then show ?case by (simp add: fs_simps)
next
  case (2 d nm rest)
  then show ?case by simp
next
  case (3 d nm content rest)
  have "with_tmp (d @ [nm]) \<noteq> d @ [nm]" using "3.prems"(2) by (simp add: plain_names_def)
  from atomic_write_ok [OF this] obtain m fs1
    where "atomic_write (d @ [nm]) content (\<lambda>_. IoOk) n fs = (Inr (), m, fs1)" by blast
  with "3.IH" [of m fs1] "3.prems" show ?case by (simp add: fs_bind_def plain_names_def)
qed

lemma plain_plan_files: "plain_names (map fst (plan_files c p))"
  by (simp add: plain_names_def plan_files_def file_stem_def)

section \<open>Saving and loading\<close>

text \<open>
  What \<open>toml::from_str\<close> makes of \<open>plan.toml\<close>: the fields that the file does not hold take their
  \<open>serde(default)\<close>, and \<open>plans_dir\<close> is skipped.
\<close>

definition plan_of_head :: "plan_head \<Rightarrow> plan" where
  "plan_of_head h = \<lparr> pl_plan_id = ph_plan_id h, pl_created_at = ph_created_at h,
     pl_conversation_id = ph_conversation_id h, pl_current_version = ph_current_version h,
     pl_status = ph_status h, pl_user_goal = ph_user_goal h, pl_overview = [],
     pl_task_graph = \<lparr> tg_tasks = [] \<rparr>, pl_sandbox_config = default_sandbox_config,
     pl_models_config = default_models_config, pl_tools_config = default_tools_config,
     pl_plans_dir = [] \<rparr>"

text \<open>The law of the codec at one value: what it writes it reads back; an empty text is the default.\<close>

definition part_inverts :: "string option \<Rightarrow> (string \<Rightarrow> 'a option) \<Rightarrow> 'a \<Rightarrow> 'a \<Rightarrow> bool" where
  "part_inverts enc dec dflt x \<longleftrightarrow>
     (\<forall>s. enc = Some s \<longrightarrow> (if s = [] then x = dflt else dec s = Some x))"

definition codec_inverts :: "codec \<Rightarrow> plan \<Rightarrow> bool" where
  "codec_inverts c p \<longleftrightarrow>
     (\<forall>s. enc_head c (head_of p) = Some s \<longrightarrow> dec_plan c s = Some (plan_of_head (head_of p)))
     \<and> part_inverts (enc_tasks c (pl_task_graph p)) (dec_tasks c) \<lparr> tg_tasks = [] \<rparr> (pl_task_graph p)
     \<and> part_inverts (enc_sandbox c (pl_sandbox_config p)) (dec_sandbox c)
         default_sandbox_config (pl_sandbox_config p)
     \<and> part_inverts (enc_models c (pl_models_config p)) (dec_models c)
         default_models_config (pl_models_config p)
     \<and> part_inverts (enc_tools c (pl_tools_config p)) (dec_tools c)
         default_tools_config (pl_tools_config p)"

lemma read_part_inverts:
  assumes "part_inverts enc dec dflt x" and "enc \<noteq> None" and "fs f = enc"
  shows "read_part dec fs f dflt = Inr x"
  using assms
  by (auto simp: part_inverts_def read_part_def read_or_default_def Let_def split: if_splits)

lemma save_files:
  assumes "save c p io n fs = (r, n', fs')"
  shows "(r, fs') = (Inl IoError, fs) \<or>
    (\<exists>m. write_files (plan_dir p) (plan_files c p) io m fs = (r, n', fs'))"
  using assms by (auto simp: save_def fs_bind_def fs_create_dir_all_def split: io_result.splits)

lemma save_frame:
  assumes "save c p io n fs = (r, n', fs')" and "\<forall>name. g \<noteq> plan_dir p @ [name]"
  shows "fs' g = fs g"
  using save_files [OF assms(1)]
proof (elim disjE exE)
  assume "(r, fs') = (Inl IoError, fs)"
  then show ?thesis by simp
next
  fix m assume "write_files (plan_dir p) (plan_files c p) io m fs = (r, n', fs')"
  from write_files_frame [OF this plain_plan_files] assms(2) show ?thesis by simp
qed

text \<open>
  C2. A save, whatever becomes of each of its file operations (a crash is a failure of one of them),
  leaves every file of the plan with its old contents or with its new contents, never with a part of
  them, and a save that returns success has replaced all six.
\<close>

theorem save_all_or_nothing_per_file:
  assumes "save c p io n fs = (r, n', fs')" and "(name, content) \<in> set (plan_files c p)"
  shows "(fs' (plan_dir p @ [name]) = fs (plan_dir p @ [name])
      \<or> content \<noteq> None \<and> fs' (plan_dir p @ [name]) = content)
    \<and> (r = Inr () \<longrightarrow> content \<noteq> None \<and> fs' (plan_dir p @ [name]) = content)"
  using save_files [OF assms(1)]
proof (elim disjE exE)
  assume "(r, fs') = (Inl IoError, fs)"
  then show ?thesis by simp
next
  fix m assume w: "write_files (plan_dir p) (plan_files c p) io m fs = (r, n', fs')"
  with write_files_atomic [OF w plain_plan_files assms(2)]
    write_files_done [OF _ plain_plan_files assms(2)]
  show ?thesis by blast
qed

text \<open>A codec that knows one plan; it stands for the crate in the instances below.\<close>

definition demo_plan :: plan where
  "demo_plan = (new_draft ''now'' ''p1'' ''goal'' ''c1'')\<lparr> pl_overview := ''text'' \<rparr>"

definition demo_codec :: codec where
  "demo_codec = \<lparr> enc_head = (\<lambda>_. Some ''h''), enc_tasks = (\<lambda>_. Some ''t''),
     enc_sandbox = (\<lambda>_. Some ''s''), enc_models = (\<lambda>_. Some []), enc_tools = (\<lambda>_. Some ''o''),
     dec_plan = (\<lambda>_. Some (plan_of_head (head_of demo_plan))),
     dec_tasks = (\<lambda>_. Some (pl_task_graph demo_plan)),
     dec_sandbox = (\<lambda>_. Some (pl_sandbox_config demo_plan)),
     dec_models = (\<lambda>_. None), dec_tools = (\<lambda>_. Some (pl_tools_config demo_plan)) \<rparr>"

lemmas demo_simps = demo_plan_def demo_codec_def new_draft_def plan_files_def plan_dir_def head_of_def

lemma save_all_or_nothing_witness:
  "case save demo_codec demo_plan (\<lambda>i. if i = 3 then IoTorn 2 else IoOk) 0 Map.empty of
     (r, n', fs') \<Rightarrow>
       (fs' (plan_dir demo_plan @ [''overview.md'']) = None
         \<or> fs' (plan_dir demo_plan @ [''overview.md'']) = Some ''text'')
       \<and> (r = Inr () \<longrightarrow> fs' (plan_dir demo_plan @ [''overview.md'']) = Some ''text'')"
proof -
  obtain r n' fs' where s: "save demo_codec demo_plan (\<lambda>i. if i = 3 then IoTorn 2 else IoOk) 0 Map.empty
      = (r, n', fs')"
    by (cases "save demo_codec demo_plan (\<lambda>i. if i = 3 then IoTorn 2 else IoOk) 0 Map.empty")
  have "(''overview.md'', Some ''text'') \<in> set (plan_files demo_codec demo_plan)"
    by (simp add: demo_simps)
  from save_all_or_nothing_per_file [OF s this] show ?thesis by (simp add: s)
qed

lemma saved_plan_loads:
  assumes "codec_inverts c p" and "save c p io n fs = (Inr (), n', fs')"
  shows "load c fs' (pl_plans_dir p) (pl_plan_id p) = Inr p"
proof -
  from save_files [OF assms(2)] obtain m
    where "write_files (plan_dir p) (plan_files c p) io m fs = (Inr (), n', fs')" by auto
  then have f: "\<forall>(name, content)\<in>set (plan_files c p).
      content \<noteq> None \<and> fs' (plan_dir p @ [name]) = content"
    using write_files_done [OF _ plain_plan_files] by blast
  have pd: "pl_plans_dir p @ [pl_plan_id p] = plan_dir p" by (simp add: plan_dir_def)
  from f have head: "enc_head c (head_of p) \<noteq> None"
      "fs' (plan_dir p @ [''plan.toml'']) = enc_head c (head_of p)"
    and ov: "fs' (plan_dir p @ [''overview.md'']) = Some (pl_overview p)"
    and tasks: "enc_tasks c (pl_task_graph p) \<noteq> None"
      "fs' (plan_dir p @ [''tasks.toml'']) = enc_tasks c (pl_task_graph p)"
    and sandbox: "enc_sandbox c (pl_sandbox_config p) \<noteq> None"
      "fs' (plan_dir p @ [''sandbox.toml'']) = enc_sandbox c (pl_sandbox_config p)"
    and models: "enc_models c (pl_models_config p) \<noteq> None"
      "fs' (plan_dir p @ [''models.toml'']) = enc_models c (pl_models_config p)"
    and tools: "enc_tools c (pl_tools_config p) \<noteq> None"
      "fs' (plan_dir p @ [''tools.toml'']) = enc_tools c (pl_tools_config p)"
    unfolding plan_files_def by simp_all
  from head assms(1) obtain s where s: "fs' (plan_dir p @ [''plan.toml'']) = Some s"
      "dec_plan c s = Some (plan_of_head (head_of p))"
    by (auto simp: codec_inverts_def)
  note parts = assms(1) [unfolded codec_inverts_def]
  have "read_part (dec_tasks c) fs' (plan_dir p @ [''tasks.toml'']) \<lparr> tg_tasks = [] \<rparr>
      = Inr (pl_task_graph p)"
    using parts tasks by (intro read_part_inverts) auto
  moreover have "read_part (dec_sandbox c) fs' (plan_dir p @ [''sandbox.toml'']) default_sandbox_config
      = Inr (pl_sandbox_config p)"
    using parts sandbox by (intro read_part_inverts) auto
  moreover have "read_part (dec_models c) fs' (plan_dir p @ [''models.toml'']) default_models_config
      = Inr (pl_models_config p)"
    using parts models by (intro read_part_inverts) auto
  moreover have "read_part (dec_tools c) fs' (plan_dir p @ [''tools.toml'']) default_tools_config
      = Inr (pl_tools_config p)"
    using parts tools by (intro read_part_inverts) auto
  ultimately show ?thesis
    using s ov by (simp add: load_def pd plan_of_head_def head_of_def read_or_default_def Let_def)
qed

text \<open>
  C3. Loading a plan after a save that returned success gives the plan back, with its directory, for
  a codec that reads back what it wrote for the parts of this plan.
\<close>

theorem load_after_save:
  assumes "codec_inverts c p" and "save c p io n fs = (Inr (), n', fs')"
  shows "load c fs' (pl_plans_dir p) (pl_plan_id p) = Inr p"
  using assms by (rule saved_plan_loads)

lemma demo_codec_inverts: "codec_inverts demo_codec demo_plan"
  by (simp add: codec_inverts_def part_inverts_def demo_simps)

lemma load_after_save_witness:
  "\<exists>n' fs'. save demo_codec demo_plan (\<lambda>_. IoOk) 0 Map.empty = (Inr (), n', fs')
     \<and> load demo_codec fs' (pl_plans_dir demo_plan) (pl_plan_id demo_plan) = Inr demo_plan"
proof -
  have "\<exists>n' fs'. write_files (plan_dir demo_plan) (plan_files demo_codec demo_plan) (\<lambda>_. IoOk) 1 Map.empty
      = (Inr (), n', fs')"
    by (intro write_files_succeeds plain_plan_files) (simp add: demo_simps)
  then obtain n' fs' where "save demo_codec demo_plan (\<lambda>_. IoOk) 0 Map.empty = (Inr (), n', fs')"
    by (auto simp: save_def fs_bind_def fs_create_dir_all_def)
  with load_after_save [OF demo_codec_inverts this] show ?thesis by blast
qed

section \<open>Snapshots keep the old version\<close>

lemma copy_existing_frame:
  assumes "copy_existing src dst names io n fs = (r, n', fs')" and "\<forall>name\<in>set names. g \<noteq> dst @ [name]"
  shows "fs' g = fs g"
  using assms
proof (induction names arbitrary: n fs)
  case Nil
  then show ?case by (simp add: fs_simps)
next
  case (Cons name names)
  show ?case
  proof (cases "fs (src @ [name])")
    case None
    with Cons show ?thesis by simp
  next
    case (Some x)
    with Cons show ?thesis by (auto simp: fs_simps split: io_result.splits)
  qed
qed

lemma copy_existing_done:
  assumes "copy_existing src dst names io n fs = (Inr (), n', fs')" and "distinct names"
    and "src \<noteq> dst" and "name \<in> set names" and "fs (src @ [name]) = Some x"
  shows "fs' (dst @ [name]) = Some x"
  using assms
proof (induction names arbitrary: n fs)
  case Nil
  then show ?case by simp
next
  case (Cons nm names)
  show ?case
  proof (cases "fs (src @ [nm])")
    case None
    with Cons.prems Cons.IH [of n fs] show ?thesis by auto
  next
    case (Some y)
    with Cons.prems(1) have io: "io n = IoOk"
      and c: "copy_existing src dst names io (Suc n) (fs(dst @ [nm] \<mapsto> y)) = (Inr (), n', fs')"
      by (auto simp: fs_simps split: io_result.splits)
    show ?thesis
    proof (cases "name = nm")
      case True
      with Cons.prems(2) have "fs' (dst @ [nm]) = (fs(dst @ [nm] \<mapsto> y)) (dst @ [nm])"
        by (intro copy_existing_frame [OF c]) auto
      with True Some Cons.prems(5) show ?thesis by simp
    next
      case False
      with Cons.prems Cons.IH [OF c] show ?thesis by simp
    qed
  qed
qed

text \<open>
  Once \<open>snapshot_to_history\<close> has succeeded, the history directory of the version holds the five
  part files as they were, and a later save of the plan, complete or broken off anywhere, leaves them
  there.
\<close>

theorem snapshot_survives_save:
  assumes "snapshot_to_history p io n fs = (Inr (), n1, fs1)"
    and "save c p' io' m fs1 = (r, n2, fs2)" and "plan_dir p' = plan_dir p"
    and "name \<in> set snapshot_names" and "fs (plan_dir p @ [name]) = Some x"
  shows "fs2 (history_dir p @ [name]) = Some x"
proof -
  from assms(1) obtain k
    where "copy_existing (plan_dir p) (history_dir p) snapshot_names io k fs = (Inr (), n1, fs1)"
    by (auto simp: snapshot_to_history_def fs_simps split: io_result.splits)
  from copy_existing_done [OF this _ _ assms(4,5)] have "fs1 (history_dir p @ [name]) = Some x"
    by (simp add: snapshot_names_def history_dir_def)
  moreover have "fs2 (history_dir p @ [name]) = fs1 (history_dir p @ [name])"
    using assms(3) by (intro save_frame [OF assms(2)]) (simp add: history_dir_def)
  ultimately show ?thesis by simp
qed

lemma snapshot_survives_save_witness:
  "\<exists>n1 fs1. snapshot_to_history demo_plan (\<lambda>_. IoOk) 0 [plan_dir demo_plan @ [''overview.md''] \<mapsto> ''old'']
       = (Inr (), n1, fs1)
     \<and> snd (snd (save demo_codec demo_plan (\<lambda>_. IoErr) 0 fs1)) (history_dir demo_plan @ [''overview.md''])
       = Some ''old''"
proof -
  let ?fs = "[plan_dir demo_plan @ [''overview.md''] \<mapsto> ''old'']"
  have "\<exists>n1 fs1. snapshot_to_history demo_plan (\<lambda>_. IoOk) 0 ?fs = (Inr (), n1, fs1)"
    by (simp add: snapshot_to_history_def snapshot_names_def fs_simps)
  then obtain n1 fs1 where s: "snapshot_to_history demo_plan (\<lambda>_. IoOk) 0 ?fs = (Inr (), n1, fs1)"
    by blast
  obtain r n2 fs2 where t: "save demo_codec demo_plan (\<lambda>_. IoErr) 0 fs1 = (r, n2, fs2)"
    by (cases "save demo_codec demo_plan (\<lambda>_. IoErr) 0 fs1")
  have "fs2 (history_dir demo_plan @ [''overview.md'']) = Some ''old''"
    by (rule snapshot_survives_save [OF s t]) (simp_all add: snapshot_names_def)
  with s t show ?thesis by auto
qed

end
