(* ===== verification/Config.thy ===== *)
theory Config
  imports Plan_Store
begin

text \<open>
  The configuration of the orchestrator (\<open>mowis-orchestration/src/config.rs\<close>) and the encryption of
  the API keys in it (\<open>crypto.rs\<close>): the machine identifier, the derived key, the
  \<open>nonce:ciphertext\<close> format, and the model that a tier or a task gets. SHA-256, AES-GCM and Base64 are
  crates, and parameters here; the random bytes are arguments.
\<close>

section \<open>Encryption of the API keys\<close>

record crypto_env =
  ce_home :: "path option"
  ce_sha256 :: "string \<Rightarrow> string"
  ce_b64_enc :: "string \<Rightarrow> string"
  ce_b64_dec :: "string \<Rightarrow> string option"
  ce_seal :: "string \<Rightarrow> string \<Rightarrow> string \<Rightarrow> string option"
  ce_open :: "string \<Rightarrow> string \<Rightarrow> string \<Rightarrow> string option"
  ce_utf8 :: "string \<Rightarrow> bool"

definition config_dir :: "path option \<Rightarrow> path" where
  "config_dir home = unwrap_or [''tmp''] home @ [''.mowisai'']"

definition config_path :: "path option \<Rightarrow> path" where
  "config_path home = config_dir home @ [''mowis.toml'']"

definition machine_id_path :: "path option \<Rightarrow> path" where
  "machine_id_path home = config_dir home @ [''machine-id'']"

definition fs_read :: "path \<Rightarrow> string fs_action" where
  "fs_read f io n fs =
     (case (io n, fs f) of
        (IoOk, Some content) \<Rightarrow> (Inr content, Suc n, fs)
      | _ \<Rightarrow> (Inl IoError, Suc n, fs))"

definition machine_id :: "crypto_env \<Rightarrow> string \<Rightarrow> string fs_action" where
  "machine_id env raw io n fs =
     (if fs (machine_id_path (ce_home env)) \<noteq> None
      then fs_bind (fs_read (machine_id_path (ce_home env)))
             (\<lambda>content. let i = trim content in
                if i = [] then fs_fail (Bail ''machine-id file is empty'') else fs_return i) io n fs
      else let i = ce_b64_enc env raw in
        fs_bind (fs_create_dir_all (config_dir (ce_home env)))
          (\<lambda>_. fs_bind (fs_write (machine_id_path (ce_home env)) i) (\<lambda>_. fs_return i)) io n fs)"

definition machine_key :: "crypto_env \<Rightarrow> string \<Rightarrow> string fs_action" where
  "machine_key env raw =
     fs_bind (machine_id env raw) (\<lambda>i. fs_return (ce_sha256 env (i @ ''|mowisai-orch-key-v1'')))"

definition encrypt :: "crypto_env \<Rightarrow> string \<Rightarrow> string \<Rightarrow> string \<Rightarrow> string fs_action" where
  "encrypt env raw nonce plaintext =
     fs_bind (machine_key env raw) (\<lambda>key.
       case ce_seal env key nonce plaintext of
         None \<Rightarrow> fs_fail (Bail ''AES-GCM encrypt error'')
       | Some ct \<Rightarrow> fs_return (ce_b64_enc env nonce @ '':'' @ ce_b64_enc env ct))"

text \<open>\<open>str::split_once\<close> with a character.\<close>

definition split_once :: "char \<Rightarrow> string \<Rightarrow> (string \<times> string) option" where
  "split_once c s =
     (if c \<in> set s
      then Some (takeWhile (\<lambda>x. x \<noteq> c) s, tl (dropWhile (\<lambda>x. x \<noteq> c) s)) else None)"

definition decrypt :: "crypto_env \<Rightarrow> string \<Rightarrow> string \<Rightarrow> string fs_action" where
  "decrypt env raw encoded =
     (case split_once (CHR '':'') encoded of
        None \<Rightarrow> fs_fail (Bail ''invalid encrypted format (expected nonce:ciphertext)'')
      | Some (nonce_b64, ct_b64) \<Rightarrow>
          (case ce_b64_dec env nonce_b64 of
             None \<Rightarrow> fs_fail (Bail ''base64 decode nonce'')
           | Some nonce \<Rightarrow>
               (case ce_b64_dec env ct_b64 of
                  None \<Rightarrow> fs_fail (Bail ''base64 decode ciphertext'')
                | Some ct \<Rightarrow>
                    if length nonce \<noteq> 12 then fs_fail (Bail ''invalid nonce length'')
                    else fs_bind (machine_key env raw) (\<lambda>key.
                      case ce_open env key nonce ct of
                        None \<Rightarrow> fs_fail (Bail ''decryption failed'')
                      | Some plaintext \<Rightarrow>
                          if ce_utf8 env plaintext then fs_return plaintext
                          else fs_fail (Bail ''decrypted bytes are not valid UTF-8'')))))"

subsection \<open>Round trip\<close>

text \<open>What \<open>encrypt\<close> relies on of Base64 at one value: it decodes, and its alphabet has no colon and
  no white space.\<close>

definition b64_ok :: "crypto_env \<Rightarrow> string \<Rightarrow> bool" where
  "b64_ok env x \<longleftrightarrow> ce_b64_dec env (ce_b64_enc env x) = Some x
     \<and> CHR '':'' \<notin> set (ce_b64_enc env x) \<and> trim (ce_b64_enc env x) = ce_b64_enc env x
     \<and> (x \<noteq> [] \<longrightarrow> ce_b64_enc env x \<noteq> [])"

lemma split_once_append: "c \<notin> set a \<Longrightarrow> split_once c (a @ c # b) = Some (a, b)"
  by (induction a) (auto simp: split_once_def)

text \<open>Once the identifier has been read or written, every later reading gives the same one.\<close>

lemma machine_id_stable:
  assumes "machine_id env raw io n fs = (Inr i, n', fs')" and "b64_ok env raw" and "raw \<noteq> []"
  shows "machine_id env raw' (\<lambda>_. IoOk) m fs' = (Inr i, Suc m, fs')"
  using assms
  by (auto simp: machine_id_def fs_simps fs_read_def Let_def b64_ok_def
      split: if_splits io_result.splits option.splits)

lemma machine_key_stable:
  assumes "machine_key env raw io n fs = (Inr k, n', fs')" and "b64_ok env raw" and "raw \<noteq> []"
  shows "machine_key env raw' (\<lambda>_. IoOk) m fs' = (Inr k, Suc m, fs')"
proof -
  from assms(1) obtain i where "machine_id env raw io n fs = (Inr i, n', fs')"
    and k: "k = ce_sha256 env (i @ ''|mowisai-orch-key-v1'')"
    by (auto simp: machine_key_def fs_bind_def fs_return_def split: prod.splits sum.splits)
  from machine_id_stable [OF this(1) assms(2,3)] k show ?thesis
    by (simp add: machine_key_def fs_bind_def fs_return_def)
qed

text \<open>
  C4. Decrypting what \<open>encrypt\<close> returned, on the same machine and with whatever random bytes a new
  identifier would have taken, gives the plaintext: in particular the first encryption, which creates
  the identifier, and every later one use the same key.
\<close>

theorem decrypt_encrypt:
  assumes "encrypt env raw nonce plaintext io n fs = (Inr s, n1, fs1)"
    and "b64_ok env raw" and "raw \<noteq> []" and "b64_ok env nonce" and "length nonce = 12"
    and "\<And>k ct. ce_seal env k nonce plaintext = Some ct \<Longrightarrow>
           b64_ok env ct \<and> ce_open env k nonce ct = Some plaintext"
    and "ce_utf8 env plaintext"
  shows "decrypt env raw' s (\<lambda>_. IoOk) m fs1 = (Inr plaintext, Suc m, fs1)"
proof -
  from assms(1) obtain k ct where key: "machine_key env raw io n fs = (Inr k, n1, fs1)"
    and seal: "ce_seal env k nonce plaintext = Some ct"
    and s: "s = ce_b64_enc env nonce @ '':'' @ ce_b64_enc env ct"
    by (auto simp: encrypt_def fs_bind_def fs_fail_def fs_return_def
        split: prod.splits sum.splits option.splits)
  have "split_once (CHR '':'') s = Some (ce_b64_enc env nonce, ce_b64_enc env ct)"
    using assms(4) s by (simp add: split_once_append b64_ok_def)
  moreover have "ce_b64_dec env (ce_b64_enc env ct) = Some ct"
    "ce_open env k nonce ct = Some plaintext"
    using assms(6) [OF seal] by (simp_all add: b64_ok_def)
  ultimately show ?thesis
    using assms(4,5,7) machine_key_stable [OF key assms(2,3)]
    by (simp add: decrypt_def b64_ok_def fs_bind_def fs_return_def)
qed

definition demo_crypto :: crypto_env where
  "demo_crypto = \<lparr> ce_home = Some [''home'', ''u''], ce_sha256 = (\<lambda>s. s), ce_b64_enc = (\<lambda>s. s),
     ce_b64_dec = Some, ce_seal = (\<lambda>k n p. Some (rev p)), ce_open = (\<lambda>k n c. Some (rev c)),
     ce_utf8 = (\<lambda>_. True) \<rparr>"

lemma demo_b64_ok: "trim x = x \<Longrightarrow> CHR '':'' \<notin> set x \<Longrightarrow> b64_ok demo_crypto x"
  by (simp add: b64_ok_def demo_crypto_def)

lemma decrypt_encrypt_witness:
  "\<exists>s n1 fs1. encrypt demo_crypto ''id'' ''123456789012'' ''secret'' (\<lambda>_. IoOk) 0 Map.empty
      = (Inr s, n1, fs1)
    \<and> decrypt demo_crypto ''zz'' s (\<lambda>_. IoOk) 7 fs1 = (Inr ''secret'', 8, fs1)"
proof -
  let ?e = "encrypt demo_crypto ''id'' ''123456789012'' ''secret'' (\<lambda>_. IoOk) 0 Map.empty"
  have "\<exists>s n1 fs1. ?e = (Inr s, n1, fs1)"
    by (simp add: encrypt_def machine_key_def machine_id_def fs_simps demo_crypto_def Let_def)
  then obtain s n1 fs1 where e: "?e = (Inr s, n1, fs1)" by blast
  have "decrypt demo_crypto ''zz'' s (\<lambda>_. IoOk) 7 fs1 = (Inr ''secret'', Suc 7, fs1)"
    by (rule decrypt_encrypt [OF e]) (auto intro!: demo_b64_ok trim_plain simp: plain_char_def, auto simp: demo_crypto_def)
  with e show ?thesis by auto
qed

section \<open>The configuration\<close>

record provider_creds =
  pc_api_key_enc :: "string option"
  pc_project_id :: "string option"

record orch_config =
  oc_providers :: "provider \<rightharpoonup> provider_creds"
  oc_tiers :: "tier \<rightharpoonup> model_ref"
  oc_sandbox :: sandbox_config
  oc_plans_dir :: path

record llm_config =
  lc_provider :: provider
  lc_model :: string
  lc_vertex_project_id :: "string option"
  lc_api_key :: "string option"

definition default_config :: orch_config where
  "default_config = \<lparr> oc_providers = Map.empty,
     oc_tiers =
       [Conductor \<mapsto> \<lparr> mr_provider = Anthropic, mr_model = ''claude-opus-4-7'' \<rparr>,
        Critic \<mapsto> \<lparr> mr_provider = Anthropic, mr_model = ''claude-opus-4-7'' \<rparr>,
        Captain \<mapsto> \<lparr> mr_provider = Anthropic, mr_model = ''claude-sonnet-4-6'' \<rparr>,
        Crew \<mapsto> \<lparr> mr_provider = Anthropic, mr_model = ''claude-haiku-4-5-20251001'' \<rparr>],
     oc_sandbox = default_sandbox_config, oc_plans_dir = [''.mowis'', ''plans''] \<rparr>"

definition config_load :: "(string \<Rightarrow> orch_config option) \<Rightarrow> path option \<Rightarrow> orch_config fs_action" where
  "config_load dec home io n fs =
     (if fs (config_path home) = None then fs_return default_config io n fs
      else fs_bind (fs_read (config_path home))
             (\<lambda>contents. case dec contents of
                None \<Rightarrow> fs_fail (TomlError contents) | Some c \<Rightarrow> fs_return c) io n fs)"

definition config_save ::
  "(orch_config \<Rightarrow> string option) \<Rightarrow> path option \<Rightarrow> orch_config \<Rightarrow> unit fs_action" where
  "config_save enc home c =
     fs_bind (fs_create_dir_all (config_dir home)) (\<lambda>_.
       case enc c of
         None \<Rightarrow> fs_fail (TomlError []) | Some contents \<Rightarrow> fs_write (config_path home) contents)"

text \<open>\<open>creds.and_then(|c| c.api_key_enc).map(decrypt).transpose()\<close>.\<close>

definition api_key :: "crypto_env \<Rightarrow> string \<Rightarrow> provider_creds option \<Rightarrow> string option fs_action" where
  "api_key env raw creds =
     (case Option.bind creds pc_api_key_enc of
        None \<Rightarrow> fs_return None
      | Some enc \<Rightarrow> fs_bind (decrypt env raw enc) (\<lambda>k. fs_return (Some k)))"

definition llm_for :: "crypto_env \<Rightarrow> string \<Rightarrow> orch_config \<Rightarrow> tier \<Rightarrow> llm_config fs_action" where
  "llm_for env raw c tier =
     (case oc_tiers c tier of
        None \<Rightarrow> fs_fail (Bail ''no model configured for tier'')
      | Some mr \<Rightarrow>
          (let creds = oc_providers c (mr_provider mr) in
           fs_bind (api_key env raw creds) (\<lambda>key.
             fs_return \<lparr> lc_provider = mr_provider mr, lc_model = mr_model mr,
               lc_vertex_project_id = Option.bind creds pc_project_id, lc_api_key = key \<rparr>)))"

fun tier_of_task :: "model_tier \<Rightarrow> tier" where
  "tier_of_task Fast = Crew"
| "tier_of_task Mid = Captain"
| "tier_of_task Flagship = Conductor"

definition llm_for_task ::
  "crypto_env \<Rightarrow> string \<Rightarrow> orch_config \<Rightarrow> plan \<Rightarrow> task_node \<Rightarrow> llm_config fs_action" where
  "llm_for_task env raw c p t = llm_for env raw c (tier_of_task (tn_model_tier t))"

lemma config_load_missing: "fs (config_path home) = None \<Longrightarrow> config_load dec home io n fs
    = (Inr default_config, n, fs)"
  by (simp add: config_load_def fs_return_def)

lemma config_load_save:
  assumes "config_save enc home c io n fs = (Inr (), n', fs')"
    and "\<And>s. enc c = Some s \<Longrightarrow> dec s = Some c"
  shows "config_load dec home (\<lambda>_. IoOk) m fs' = (Inr c, Suc m, fs')"
  using assms
  by (auto simp: config_save_def config_load_def fs_read_def fs_simps
      split: option.splits io_result.splits)

text \<open>
  The default configuration serves every tier and every task: \<open>llm_for\<close> and \<open>llm_for_task\<close>
  return a model of Anthropic without a key and touch no file; a fast task gets the model of the crew,
  a mid one the captain's, a flagship one the conductor's.
\<close>

theorem default_config_total:
  "(\<exists>m. oc_tiers default_config tier = Some m
      \<and> llm_for env raw default_config tier io n fs =
          (Inr \<lparr> lc_provider = Anthropic, lc_model = mr_model m, lc_vertex_project_id = None,
             lc_api_key = None \<rparr>, n, fs))
   \<and> llm_for_task env raw default_config p t io n fs
       = llm_for env raw default_config (tier_of_task (tn_model_tier t)) io n fs
   \<and> (case tn_model_tier t of
        Fast \<Rightarrow> oc_tiers default_config (tier_of_task (tn_model_tier t))
                  = Some \<lparr> mr_provider = Anthropic, mr_model = ''claude-haiku-4-5-20251001'' \<rparr>
      | Mid \<Rightarrow> oc_tiers default_config (tier_of_task (tn_model_tier t))
                  = Some \<lparr> mr_provider = Anthropic, mr_model = ''claude-sonnet-4-6'' \<rparr>
      | Flagship \<Rightarrow> oc_tiers default_config (tier_of_task (tn_model_tier t))
                  = Some \<lparr> mr_provider = Anthropic, mr_model = ''claude-opus-4-7'' \<rparr>)"
  by (cases tier; cases "tn_model_tier t")
     (simp_all add: llm_for_def llm_for_task_def default_config_def api_key_def fs_simps Let_def)

end
