(* ===== verification/Protocol.thy ===== *)
theory Protocol
  imports Prelude "HOL-Library.Monad_Syntax"
begin

text \<open>
  The wire protocol between host and guest (\<open>mowis-protocol/src/lib.rs\<close>): the messages, the JSON
  values that the derived \<open>serde\<close> implementations make of them (\<open>tag = "kind"\<close>, snake case, skipped
  and defaulted options), and the framing by lines. The JSON text layer is the \<open>serde_json\<close> crate, a
  pair of parameters.
\<close>

section \<open>Messages\<close>

record resource_limits =
  rl_ram_bytes :: "u64 option"
  rl_cpu_millis :: "u64 option"

record sandbox_spec =
  ss_sandbox_id :: "string option"
  ss_image_rootfs :: "string option"
  ss_limits :: resource_limits

record sandbox_info =
  si_sandbox_id :: string
  si_root_path :: string

record exec_request =
  er_sandbox_id :: "string option"
  er_cmd :: string
  er_args :: "string list"
  er_env :: "(string \<times> string) list"

datatype payload =
    Ping
  | Version
  | Shutdown
  | CreateSandbox sandbox_spec
  | DestroySandbox string
  | ListSandboxes
  | Exec exec_request
  | InvokeTool string string json
  | CreateAgentOverlay string string resource_limits
  | MergeAgentOverlay string string
  | DiscardAgentOverlay string string
  | InvokeToolAsAgent string string string json string
  | UploadCodebase string string u32
  | HealthCheck
  | SendInput string string string
  | InteractiveStatus string string
  | AgentOverlayCreated string
  | AgentOverlayMerged string "string list"
  | AgentOverlayDiscarded string
  | CodebaseUploaded string u32
  | HealthOk u64 u64
  | InteractivePrompt string string bool
  | Pong string u32
  | SandboxCreated string
  | SandboxDestroyed string
  | SandboxList "sandbox_info list"
  | Stdout string
  | Stderr string
  | ExitCode "32 word"
  | ToolResult json
  | Error string

record envelope =
  env_id :: u64
  env_payload :: payload

definition default_limits :: resource_limits where
  "default_limits = \<lparr> rl_ram_bytes = None, rl_cpu_millis = None \<rparr>"

section \<open>Encoding\<close>

definition skip_none :: "string \<Rightarrow> ('a \<Rightarrow> json) \<Rightarrow> 'a option \<Rightarrow> (string \<times> json) list" where
  "skip_none k enc x = (case x of None \<Rightarrow> [] | Some v \<Rightarrow> [(k, enc v)])"

definition ju :: "'a::len word \<Rightarrow> json" where
  "ju w = JInt (uint w)"

definition js :: "'a::len word \<Rightarrow> json" where
  "js w = JInt (sint w)"

definition enc_limits :: "resource_limits \<Rightarrow> json" where
  "enc_limits l =
     JObj (skip_none ''ram_bytes'' ju (rl_ram_bytes l) @ skip_none ''cpu_millis'' ju (rl_cpu_millis l))"

definition enc_spec :: "sandbox_spec \<Rightarrow> (string \<times> json) list" where
  "enc_spec s = skip_none ''sandbox_id'' JStr (ss_sandbox_id s)
     @ skip_none ''image_rootfs'' JStr (ss_image_rootfs s) @ [(''limits'', enc_limits (ss_limits s))]"

definition enc_exec :: "exec_request \<Rightarrow> (string \<times> json) list" where
  "enc_exec r = skip_none ''sandbox_id'' JStr (er_sandbox_id r)
     @ [(''cmd'', JStr (er_cmd r)), (''args'', JArr (map JStr (er_args r))),
        (''env'', JArr (map (\<lambda>(k, v). JArr [JStr k, JStr v]) (er_env r)))]"

definition enc_info :: "sandbox_info \<Rightarrow> json" where
  "enc_info i = JObj [(''sandbox_id'', JStr (si_sandbox_id i)), (''root_path'', JStr (si_root_path i))]"

text \<open>The tag of a message and its fields.\<close>

fun enc_payload :: "payload \<Rightarrow> string \<times> (string \<times> json) list" where
  "enc_payload Ping = (''ping'', [])"
| "enc_payload Version = (''version'', [])"
| "enc_payload Shutdown = (''shutdown'', [])"
| "enc_payload (CreateSandbox s) = (''create_sandbox'', enc_spec s)"
| "enc_payload (DestroySandbox s) = (''destroy_sandbox'', [(''sandbox_id'', JStr s)])"
| "enc_payload ListSandboxes = (''list_sandboxes'', [])"
| "enc_payload (Exec r) = (''exec'', enc_exec r)"
| "enc_payload (InvokeTool s t i) =
     (''invoke_tool'', [(''sandbox_id'', JStr s), (''tool'', JStr t), (''input'', i)])"
| "enc_payload (CreateAgentOverlay p a l) = (''create_agent_overlay'',
     [(''parent_sandbox_id'', JStr p), (''agent_id'', JStr a), (''limits'', enc_limits l)])"
| "enc_payload (MergeAgentOverlay p a) =
     (''merge_agent_overlay'', [(''parent_sandbox_id'', JStr p), (''agent_id'', JStr a)])"
| "enc_payload (DiscardAgentOverlay p a) =
     (''discard_agent_overlay'', [(''parent_sandbox_id'', JStr p), (''agent_id'', JStr a)])"
| "enc_payload (InvokeToolAsAgent p a t i c) = (''invoke_tool_as_agent'',
     [(''parent_sandbox_id'', JStr p), (''agent_id'', JStr a), (''tool'', JStr t), (''input'', i),
      (''caller_tier'', JStr c)])"
| "enc_payload (UploadCodebase s b n) = (''upload_codebase'',
     [(''sandbox_id'', JStr s), (''archive_b64'', JStr b), (''file_count'', ju n)])"
| "enc_payload HealthCheck = (''health_check'', [])"
| "enc_payload (SendInput s a i) = (''send_input'',
     [(''sandbox_id'', JStr s), (''agent_id'', JStr a), (''input'', JStr i)])"
| "enc_payload (InteractiveStatus s a) =
     (''interactive_status'', [(''sandbox_id'', JStr s), (''agent_id'', JStr a)])"
| "enc_payload (AgentOverlayCreated a) = (''agent_overlay_created'', [(''agent_id'', JStr a)])"
| "enc_payload (AgentOverlayMerged a ps) = (''agent_overlay_merged'',
     [(''agent_id'', JStr a), (''changed_paths'', JArr (map JStr ps))])"
| "enc_payload (AgentOverlayDiscarded a) = (''agent_overlay_discarded'', [(''agent_id'', JStr a)])"
| "enc_payload (CodebaseUploaded s n) =
     (''codebase_uploaded'', [(''sandbox_id'', JStr s), (''file_count'', ju n)])"
| "enc_payload (HealthOk u n) = (''health_ok'', [(''uptime_secs'', ju u), (''sandbox_count'', ju n)])"
| "enc_payload (InteractivePrompt a p w) = (''interactive_prompt'',
     [(''agent_id'', JStr a), (''prompt'', JStr p), (''waiting'', JBool w)])"
| "enc_payload (Pong v p) = (''pong'', [(''version'', JStr v), (''protocol'', ju p)])"
| "enc_payload (SandboxCreated s) = (''sandbox_created'', [(''sandbox_id'', JStr s)])"
| "enc_payload (SandboxDestroyed s) = (''sandbox_destroyed'', [(''sandbox_id'', JStr s)])"
| "enc_payload (SandboxList xs) = (''sandbox_list'', [(''sandboxes'', JArr (map enc_info xs))])"
| "enc_payload (Stdout d) = (''stdout'', [(''data'', JStr d)])"
| "enc_payload (Stderr d) = (''stderr'', [(''data'', JStr d)])"
| "enc_payload (ExitCode c) = (''exit_code'', [(''code'', js c)])"
| "enc_payload (ToolResult v) = (''tool_result'', [(''output'', v)])"
| "enc_payload (Error m) = (''error'', [(''message'', JStr m)])"

definition enc_envelope :: "envelope \<Rightarrow> json" where
  "enc_envelope e =
     (case enc_payload (env_payload e) of
        (tag, kvs) \<Rightarrow> JObj [(''id'', ju (env_id e)), (''payload'', JObj ((''kind'', JStr tag) # kvs))])"

section \<open>Decoding\<close>

definition dec_u :: "json \<Rightarrow> 'a::len word option" where
  "dec_u v = (case v of JInt i \<Rightarrow> if 0 \<le> i \<and> i < 2 ^ LENGTH('a) then Some (word_of_int i) else None
     | _ \<Rightarrow> None)"

definition dec_s :: "json \<Rightarrow> 'a::len word option" where
  "dec_s v = (case v of
       JInt i \<Rightarrow> if - (2 ^ (LENGTH('a) - 1)) \<le> i \<and> i < 2 ^ (LENGTH('a) - 1)
                then Some (word_of_int i) else None
     | _ \<Rightarrow> None)"

fun dec_list :: "(json \<Rightarrow> 'a option) \<Rightarrow> json list \<Rightarrow> 'a list option" where
  "dec_list dec [] = Some []"
| "dec_list dec (v # vs) = do { x \<leftarrow> dec v; xs \<leftarrow> dec_list dec vs; Some (x # xs) }"

definition dec_arr :: "(json \<Rightarrow> 'a option) \<Rightarrow> json \<Rightarrow> 'a list option" where
  "dec_arr dec v = do { xs \<leftarrow> jarr v; dec_list dec xs }"

text \<open>A required field, an optional one (absent or null is \<open>None\<close>), and one with a default.\<close>

definition field :: "json \<Rightarrow> string \<Rightarrow> (json \<Rightarrow> 'a option) \<Rightarrow> 'a option" where
  "field v k dec = do { x \<leftarrow> jget v k; dec x }"

definition field_opt :: "json \<Rightarrow> string \<Rightarrow> (json \<Rightarrow> 'a option) \<Rightarrow> 'a option option" where
  "field_opt v k dec =
     (case jget v k of None \<Rightarrow> Some None | Some JNull \<Rightarrow> Some None | Some x \<Rightarrow> map_option Some (dec x))"

definition field_def :: "json \<Rightarrow> string \<Rightarrow> 'a \<Rightarrow> (json \<Rightarrow> 'a option) \<Rightarrow> 'a option" where
  "field_def v k d dec = (case jget v k of None \<Rightarrow> Some d | Some x \<Rightarrow> dec x)"

definition dec_limits :: "json \<Rightarrow> resource_limits option" where
  "dec_limits v =
     (case v of
        JObj _ \<Rightarrow> do { r \<leftarrow> field_opt v ''ram_bytes'' dec_u; c \<leftarrow> field_opt v ''cpu_millis'' dec_u;
                      Some \<lparr> rl_ram_bytes = r, rl_cpu_millis = c \<rparr> }
      | _ \<Rightarrow> None)"

definition dec_spec :: "json \<Rightarrow> sandbox_spec option" where
  "dec_spec v = do {
     i \<leftarrow> field_opt v ''sandbox_id'' jstr; r \<leftarrow> field_opt v ''image_rootfs'' jstr;
     l \<leftarrow> field_def v ''limits'' default_limits dec_limits;
     Some \<lparr> ss_sandbox_id = i, ss_image_rootfs = r, ss_limits = l \<rparr> }"

definition dec_pair :: "json \<Rightarrow> (string \<times> string) option" where
  "dec_pair v =
     (case jarr v of
        Some [a, b] \<Rightarrow> do { x \<leftarrow> jstr a; y \<leftarrow> jstr b; Some (x, y) }
      | _ \<Rightarrow> None)"

definition dec_exec :: "json \<Rightarrow> exec_request option" where
  "dec_exec v = do {
     i \<leftarrow> field_opt v ''sandbox_id'' jstr; c \<leftarrow> field v ''cmd'' jstr;
     a \<leftarrow> field_def v ''args'' [] (dec_arr jstr); e \<leftarrow> field_def v ''env'' [] (dec_arr dec_pair);
     Some \<lparr> er_sandbox_id = i, er_cmd = c, er_args = a, er_env = e \<rparr> }"

definition dec_info :: "json \<Rightarrow> sandbox_info option" where
  "dec_info v = do { i \<leftarrow> field v ''sandbox_id'' jstr; r \<leftarrow> field v ''root_path'' jstr;
     Some \<lparr> si_sandbox_id = i, si_root_path = r \<rparr> }"

definition dec_strs :: "json \<Rightarrow> string \<Rightarrow> string \<Rightarrow> (string \<Rightarrow> string \<Rightarrow> payload) \<Rightarrow> payload option" where
  "dec_strs v a b c = do { x \<leftarrow> field v a jstr; y \<leftarrow> field v b jstr; Some (c x y) }"

definition dec_str1 :: "json \<Rightarrow> string \<Rightarrow> (string \<Rightarrow> payload) \<Rightarrow> payload option" where
  "dec_str1 v a c = do { x \<leftarrow> field v a jstr; Some (c x) }"

definition dec_table :: "(string \<times> (json \<Rightarrow> payload option)) list" where
  "dec_table =
     [(''ping'', \<lambda>v. Some Ping), (''version'', \<lambda>v. Some Version), (''shutdown'', \<lambda>v. Some Shutdown),
      (''create_sandbox'', \<lambda>v. map_option CreateSandbox (dec_spec v)),
      (''destroy_sandbox'', \<lambda>v. dec_str1 v ''sandbox_id'' DestroySandbox),
      (''list_sandboxes'', \<lambda>v. Some ListSandboxes),
      (''exec'', \<lambda>v. map_option Exec (dec_exec v)),
      (''invoke_tool'', \<lambda>v. do { s \<leftarrow> field v ''sandbox_id'' jstr; t \<leftarrow> field v ''tool'' jstr;
         i \<leftarrow> field v ''input'' Some; Some (InvokeTool s t i) }),
      (''create_agent_overlay'', \<lambda>v. do { p \<leftarrow> field v ''parent_sandbox_id'' jstr;
         a \<leftarrow> field v ''agent_id'' jstr; l \<leftarrow> field v ''limits'' dec_limits;
         Some (CreateAgentOverlay p a l) }),
      (''merge_agent_overlay'', \<lambda>v. dec_strs v ''parent_sandbox_id'' ''agent_id'' MergeAgentOverlay),
      (''discard_agent_overlay'', \<lambda>v. dec_strs v ''parent_sandbox_id'' ''agent_id'' DiscardAgentOverlay),
      (''invoke_tool_as_agent'', \<lambda>v. do { p \<leftarrow> field v ''parent_sandbox_id'' jstr;
         a \<leftarrow> field v ''agent_id'' jstr; t \<leftarrow> field v ''tool'' jstr; i \<leftarrow> field v ''input'' Some;
         c \<leftarrow> field v ''caller_tier'' jstr; Some (InvokeToolAsAgent p a t i c) }),
      (''upload_codebase'', \<lambda>v. do { s \<leftarrow> field v ''sandbox_id'' jstr;
         b \<leftarrow> field v ''archive_b64'' jstr; n \<leftarrow> field v ''file_count'' dec_u;
         Some (UploadCodebase s b n) }),
      (''health_check'', \<lambda>v. Some HealthCheck),
      (''send_input'', \<lambda>v. do { s \<leftarrow> field v ''sandbox_id'' jstr; a \<leftarrow> field v ''agent_id'' jstr;
         i \<leftarrow> field v ''input'' jstr; Some (SendInput s a i) }),
      (''interactive_status'', \<lambda>v. dec_strs v ''sandbox_id'' ''agent_id'' InteractiveStatus),
      (''agent_overlay_created'', \<lambda>v. dec_str1 v ''agent_id'' AgentOverlayCreated),
      (''agent_overlay_merged'', \<lambda>v. do { a \<leftarrow> field v ''agent_id'' jstr;
         ps \<leftarrow> field v ''changed_paths'' (dec_arr jstr); Some (AgentOverlayMerged a ps) }),
      (''agent_overlay_discarded'', \<lambda>v. dec_str1 v ''agent_id'' AgentOverlayDiscarded),
      (''codebase_uploaded'', \<lambda>v. do { s \<leftarrow> field v ''sandbox_id'' jstr;
         n \<leftarrow> field v ''file_count'' dec_u; Some (CodebaseUploaded s n) }),
      (''health_ok'', \<lambda>v. do { u \<leftarrow> field v ''uptime_secs'' dec_u;
         n \<leftarrow> field v ''sandbox_count'' dec_u; Some (HealthOk u n) }),
      (''interactive_prompt'', \<lambda>v. do { a \<leftarrow> field v ''agent_id'' jstr;
         p \<leftarrow> field v ''prompt'' jstr; w \<leftarrow> field v ''waiting'' jbool; Some (InteractivePrompt a p w) }),
      (''pong'', \<lambda>v. do { s \<leftarrow> field v ''version'' jstr; p \<leftarrow> field v ''protocol'' dec_u;
         Some (Pong s p) }),
      (''sandbox_created'', \<lambda>v. dec_str1 v ''sandbox_id'' SandboxCreated),
      (''sandbox_destroyed'', \<lambda>v. dec_str1 v ''sandbox_id'' SandboxDestroyed),
      (''sandbox_list'', \<lambda>v. map_option SandboxList (field v ''sandboxes'' (dec_arr dec_info))),
      (''stdout'', \<lambda>v. dec_str1 v ''data'' Stdout),
      (''stderr'', \<lambda>v. dec_str1 v ''data'' Stderr),
      (''exit_code'', \<lambda>v. map_option ExitCode (field v ''code'' dec_s)),
      (''tool_result'', \<lambda>v. map_option ToolResult (field v ''output'' Some)),
      (''error'', \<lambda>v. dec_str1 v ''message'' Error)]"

definition dec_payload :: "json \<Rightarrow> payload option" where
  "dec_payload v = do { tag \<leftarrow> field v ''kind'' jstr; dec \<leftarrow> map_of dec_table tag; dec v }"

definition dec_envelope :: "json \<Rightarrow> envelope option" where
  "dec_envelope v = do { i \<leftarrow> field v ''id'' dec_u; p \<leftarrow> field v ''payload'' dec_payload;
     Some \<lparr> env_id = i, env_payload = p \<rparr> }"

section \<open>Framing\<close>

definition trim_newlines :: "string \<Rightarrow> string" where
  "trim_newlines s = rev (dropWhile (\<lambda>c. c = newline) (rev s))"

definition to_line :: "(json \<Rightarrow> string) \<Rightarrow> envelope \<Rightarrow> string" where
  "to_line text e = text (enc_envelope e) @ [newline]"

definition from_line :: "(string \<Rightarrow> json option) \<Rightarrow> string \<Rightarrow> envelope option" where
  "from_line parse line = do { v \<leftarrow> parse (trim_newlines line); dec_envelope v }"

section \<open>Decoding inverts encoding\<close>

lemma dec_u_ju [simp]: "dec_u (ju (w :: 'a::len word)) = Some w"
  using uint_lt2p [of w] by (simp add: dec_u_def ju_def)

lemma dec_s_js [simp]: "dec_s (js (w :: 'a::len word)) = Some w"
  using sint_greater_eq [of w] sint_less [of w] by (simp add: dec_s_def js_def)

lemma ju_not_null [simp]: "ju w \<noteq> JNull"
  by (simp add: ju_def)

lemma dec_list_map:
  "(\<And>x. x \<in> set xs \<Longrightarrow> dec (enc x) = Some x) \<Longrightarrow> dec_list dec (map enc xs) = Some xs"
  by (induction xs) auto

lemma dec_arr_map [simp]:
  "(\<And>x. dec (enc x) = Some x) \<Longrightarrow> dec_arr dec (JArr (map enc xs)) = Some xs"
  by (simp add: dec_arr_def dec_list_map)

lemma jget_Obj: "jget (JObj kvs) k = map_of kvs k"
  by simp

lemmas dec_simps = field_def field_opt_def field_def_def skip_none_def

lemma dec_limits_enc [simp]: "dec_limits (enc_limits l) = Some l"
proof -
  have u: "dec_u (JInt (uint w)) = Some w" for w :: u64
    using dec_u_ju [of w] by (simp add: ju_def)
  show ?thesis
    by (cases l; cases "rl_ram_bytes l"; cases "rl_cpu_millis l")
       (simp_all add: enc_limits_def dec_limits_def dec_simps ju_def u)
qed

lemma dec_pair_enc: "dec_pair ((\<lambda>(k, v). JArr [JStr k, JStr v]) kv) = Some kv"
  by (cases kv) (simp add: dec_pair_def)

lemma dec_info_enc: "dec_info (enc_info i) = Some i"
  by (cases i) (simp add: dec_info_def enc_info_def dec_simps)

lemma dec_spec_enc: "dec_spec (JObj ((''kind'', t) # enc_spec s)) = Some s"
  by (cases s; cases "ss_sandbox_id s"; cases "ss_image_rootfs s")
     (simp_all add: dec_spec_def enc_spec_def dec_simps)

lemma dec_exec_enc: "dec_exec (JObj ((''kind'', t) # enc_exec r)) = Some r"
  by (cases r; cases "er_sandbox_id r")
     (simp_all add: dec_exec_def enc_exec_def dec_simps dec_pair_enc)

lemma dec_table_at:
  "map_of dec_table ''ping'' = Some (\<lambda>v. Some Ping)"
  "map_of dec_table ''version'' = Some (\<lambda>v. Some Version)"
  "map_of dec_table ''shutdown'' = Some (\<lambda>v. Some Shutdown)"
  "map_of dec_table ''create_sandbox'' = Some (\<lambda>v. map_option CreateSandbox (dec_spec v))"
  "map_of dec_table ''destroy_sandbox'' = Some (\<lambda>v. dec_str1 v ''sandbox_id'' DestroySandbox)"
  "map_of dec_table ''list_sandboxes'' = Some (\<lambda>v. Some ListSandboxes)"
  "map_of dec_table ''exec'' = Some (\<lambda>v. map_option Exec (dec_exec v))"
  "map_of dec_table ''invoke_tool'' = Some (\<lambda>v. do { s \<leftarrow> field v ''sandbox_id'' jstr; t \<leftarrow> field v ''tool'' jstr;
         i \<leftarrow> field v ''input'' Some; Some (InvokeTool s t i) })"
  "map_of dec_table ''create_agent_overlay'' = Some (\<lambda>v. do { p \<leftarrow> field v ''parent_sandbox_id'' jstr;
         a \<leftarrow> field v ''agent_id'' jstr; l \<leftarrow> field v ''limits'' dec_limits;
         Some (CreateAgentOverlay p a l) })"
  "map_of dec_table ''merge_agent_overlay'' = Some (\<lambda>v. dec_strs v ''parent_sandbox_id'' ''agent_id'' MergeAgentOverlay)"
  "map_of dec_table ''discard_agent_overlay'' = Some (\<lambda>v. dec_strs v ''parent_sandbox_id'' ''agent_id'' DiscardAgentOverlay)"
  "map_of dec_table ''invoke_tool_as_agent'' = Some (\<lambda>v. do { p \<leftarrow> field v ''parent_sandbox_id'' jstr;
         a \<leftarrow> field v ''agent_id'' jstr; t \<leftarrow> field v ''tool'' jstr; i \<leftarrow> field v ''input'' Some;
         c \<leftarrow> field v ''caller_tier'' jstr; Some (InvokeToolAsAgent p a t i c) })"
  "map_of dec_table ''upload_codebase'' = Some (\<lambda>v. do { s \<leftarrow> field v ''sandbox_id'' jstr;
         b \<leftarrow> field v ''archive_b64'' jstr; n \<leftarrow> field v ''file_count'' dec_u;
         Some (UploadCodebase s b n) })"
  "map_of dec_table ''health_check'' = Some (\<lambda>v. Some HealthCheck)"
  "map_of dec_table ''send_input'' = Some (\<lambda>v. do { s \<leftarrow> field v ''sandbox_id'' jstr; a \<leftarrow> field v ''agent_id'' jstr;
         i \<leftarrow> field v ''input'' jstr; Some (SendInput s a i) })"
  "map_of dec_table ''interactive_status'' = Some (\<lambda>v. dec_strs v ''sandbox_id'' ''agent_id'' InteractiveStatus)"
  "map_of dec_table ''agent_overlay_created'' = Some (\<lambda>v. dec_str1 v ''agent_id'' AgentOverlayCreated)"
  "map_of dec_table ''agent_overlay_merged'' = Some (\<lambda>v. do { a \<leftarrow> field v ''agent_id'' jstr;
         ps \<leftarrow> field v ''changed_paths'' (dec_arr jstr); Some (AgentOverlayMerged a ps) })"
  "map_of dec_table ''agent_overlay_discarded'' = Some (\<lambda>v. dec_str1 v ''agent_id'' AgentOverlayDiscarded)"
  "map_of dec_table ''codebase_uploaded'' = Some (\<lambda>v. do { s \<leftarrow> field v ''sandbox_id'' jstr;
         n \<leftarrow> field v ''file_count'' dec_u; Some (CodebaseUploaded s n) })"
  "map_of dec_table ''health_ok'' = Some (\<lambda>v. do { u \<leftarrow> field v ''uptime_secs'' dec_u;
         n \<leftarrow> field v ''sandbox_count'' dec_u; Some (HealthOk u n) })"
  "map_of dec_table ''interactive_prompt'' = Some (\<lambda>v. do { a \<leftarrow> field v ''agent_id'' jstr;
         p \<leftarrow> field v ''prompt'' jstr; w \<leftarrow> field v ''waiting'' jbool; Some (InteractivePrompt a p w) })"
  "map_of dec_table ''pong'' = Some (\<lambda>v. do { s \<leftarrow> field v ''version'' jstr; p \<leftarrow> field v ''protocol'' dec_u;
         Some (Pong s p) })"
  "map_of dec_table ''sandbox_created'' = Some (\<lambda>v. dec_str1 v ''sandbox_id'' SandboxCreated)"
  "map_of dec_table ''sandbox_destroyed'' = Some (\<lambda>v. dec_str1 v ''sandbox_id'' SandboxDestroyed)"
  "map_of dec_table ''sandbox_list'' = Some (\<lambda>v. map_option SandboxList (field v ''sandboxes'' (dec_arr dec_info)))"
  "map_of dec_table ''stdout'' = Some (\<lambda>v. dec_str1 v ''data'' Stdout)"
  "map_of dec_table ''stderr'' = Some (\<lambda>v. dec_str1 v ''data'' Stderr)"
  "map_of dec_table ''exit_code'' = Some (\<lambda>v. map_option ExitCode (field v ''code'' dec_s))"
  "map_of dec_table ''tool_result'' = Some (\<lambda>v. map_option ToolResult (field v ''output'' Some))"
  "map_of dec_table ''error'' = Some (\<lambda>v. dec_str1 v ''message'' Error)"
  by (simp_all add: dec_table_def)

lemma dec_payload_tag:
  "map_of dec_table tag = Some dec
     \<Longrightarrow> dec_payload (JObj ((''kind'', JStr tag) # kvs)) = dec (JObj ((''kind'', JStr tag) # kvs))"
  by (simp add: dec_payload_def field_def)

lemma dec_payload_enc:
  "dec_payload (JObj ((''kind'', JStr (fst (enc_payload p))) # snd (enc_payload p))) = Some p"
  by (cases p)
     (simp_all add: dec_payload_tag dec_table_at dec_str1_def dec_strs_def dec_simps dec_spec_enc
       dec_exec_enc dec_info_enc)

lemma dec_envelope_enc: "dec_envelope (enc_envelope e) = Some e"
  by (cases e; cases "enc_payload (env_payload e)")
     (use dec_payload_enc [of "env_payload e"] in
       \<open>auto simp: dec_envelope_def enc_envelope_def dec_simps\<close>)

text \<open>What the framing relies on of the JSON text layer at one value: it reads back what it wrote, and
  the compact text has no line break.\<close>

definition json_text_ok :: "(json \<Rightarrow> string) \<Rightarrow> (string \<Rightarrow> json option) \<Rightarrow> json \<Rightarrow> bool" where
  "json_text_ok text parse v \<longleftrightarrow> parse (text v) = Some v \<and> newline \<notin> set (text v)"

lemma trim_newlines_free: "newline \<notin> set s \<Longrightarrow> trim_newlines s = s"
  by (cases s rule: rev_cases) (auto simp: trim_newlines_def)

lemma trim_newlines_snoc: "trim_newlines (s @ [newline]) = trim_newlines s"
  by (simp add: trim_newlines_def)

lemma split_char_line:
  "c \<notin> set l \<Longrightarrow> split_char c (l @ c # rest) = l # split_char c rest"
  by (induction l) auto

text \<open>
  C7. Every message survives the wire: a line that \<open>to_line\<close> made decodes to the envelope it was made
  of, whatever the message, and a stream of such lines, cut at the line breaks, decodes to the
  envelopes in their order.
\<close>

theorem wire_roundtrip:
  assumes "\<forall>e\<in>set es. json_text_ok text parse (enc_envelope e)"
  shows "map (\<lambda>e. from_line parse (to_line text e)) es = map Some es
    \<and> map (from_line parse) (butlast (split_char newline (concat (map (to_line text) es)))) = map Some es"
proof -
  have one: "from_line parse (text (enc_envelope e)) = Some e" if "e \<in> set es" for e
    using assms that by (simp add: from_line_def json_text_ok_def trim_newlines_free dec_envelope_enc)
  then have "map (\<lambda>e. from_line parse (to_line text e)) es = map Some es"
    by (auto simp: to_line_def from_line_def trim_newlines_snoc)
  moreover have "split_char newline (concat (map (to_line text) es))
      = map (\<lambda>e. text (enc_envelope e)) es @ [[]]"
    using assms by (induction es) (auto simp: to_line_def json_text_ok_def split_char_line)
  ultimately show ?thesis using one by simp
qed

definition demo_text :: "json \<Rightarrow> string" where
  "demo_text v = (if v = enc_envelope \<lparr> env_id = 1, env_payload = Ping \<rparr> then ''a'' else ''b'')"

definition demo_parse :: "string \<Rightarrow> json option" where
  "demo_parse s =
     (if s = ''a'' then Some (enc_envelope \<lparr> env_id = 1, env_payload = Ping \<rparr>)
      else if s = ''b'' then Some (enc_envelope \<lparr> env_id = 2, env_payload = ExitCode (- 1) \<rparr>)
      else None)"

lemma wire_roundtrip_witness:
  "map (from_line demo_parse) (butlast (split_char newline (concat (map (to_line demo_text)
       [\<lparr> env_id = 1, env_payload = Ping \<rparr>, \<lparr> env_id = 2, env_payload = ExitCode (- 1) \<rparr>]))))
     = map Some [\<lparr> env_id = 1, env_payload = Ping \<rparr>, \<lparr> env_id = 2, env_payload = ExitCode (- 1) \<rparr>]"
proof -
  have "\<forall>e\<in>set [\<lparr> env_id = 1, env_payload = Ping \<rparr>, \<lparr> env_id = 2, env_payload = ExitCode (- 1) \<rparr>].
      json_text_ok demo_text demo_parse (enc_envelope e)"
    by (simp add: json_text_ok_def demo_text_def demo_parse_def enc_envelope_def newline_def ju_def)
  from wire_roundtrip [OF this] show ?thesis by blast
qed

end
