(* ===== verification/Host_Tools.thy ===== *)
theory Host_Tools
  imports Prelude "HOL-Library.AList"
begin

text \<open>
  The local tools of \<open>mowis-orchestration/src/host_tools.rs\<close>: every tool a crew may call, run
  in the host's file system with its paths re-rooted into a work directory. The file system is an
  association list from absolute paths to files and directories (without symbolic links); which
  paths the operating system refuses, the processes that are started and the HTTP client are fields
  of \<open>host_env\<close>.
\<close>

section \<open>The file system and the environment\<close>

type_synonym hpath = "string list"

datatype node = File string | Dir

type_synonym tree = "(hpath \<times> node) list"

text \<open>The root is always a directory.\<close>

definition lookup :: "tree \<Rightarrow> hpath \<Rightarrow> node option" where
  "lookup fs p = (if p = [] then Some Dir else map_of fs p)"

definition is_dir :: "tree \<Rightarrow> hpath \<Rightarrow> bool" where
  "is_dir fs p \<longleftrightarrow> lookup fs p = Some Dir"

lemma lookup_root [simp]: "lookup fs [] = Some Dir"
  by (simp add: lookup_def)

lemma lookup_update [simp]:
  "lookup (AList.update k v fs) q = (if q = k \<and> q \<noteq> [] then Some v else lookup fs q)"
  by (simp add: lookup_def update_conv')

lemma lookup_delete [simp]:
  "lookup (AList.delete k fs) q = (if q = k \<and> q \<noteq> [] then None else lookup fs q)"
  by (simp add: lookup_def delete_conv')

record proc_call =
  pcl_program :: string
  pcl_args :: "string list"
  pcl_cwd :: "hpath option"
  pcl_envs :: "(string \<times> string) list"

record proc_output =
  po_code :: "int option"
  po_stdout :: string
  po_stderr :: string

record host_env =
  he_refuses :: "hpath \<Rightarrow> bool"
  he_os_error :: "hpath \<Rightarrow> string"
  he_readonly :: "hpath \<Rightarrow> bool"
  he_dir_size :: "hpath \<Rightarrow> nat"
  he_display :: "hpath \<Rightarrow> string"
  he_proc :: "proc_call \<Rightarrow> tree \<Rightarrow> proc_output option \<times> tree"
  he_http :: "string \<Rightarrow> string \<Rightarrow> string \<Rightarrow> (nat \<times> string) option"

type_synonym 'a tool_result = "(string + 'a) \<times> tree"

definition parent :: "hpath \<Rightarrow> hpath option" where
  "parent p = (if p = [] then None else Some (butlast p))"

subsection \<open>The operations of \<open>std::fs\<close>\<close>

definition os_err :: "host_env \<Rightarrow> hpath \<Rightarrow> tree \<Rightarrow> 'a tool_result" where
  "os_err env p fs = (Inl (he_os_error env p), fs)"

definition std_read :: "host_env \<Rightarrow> hpath \<Rightarrow> tree \<Rightarrow> string tool_result" where
  "std_read env p fs =
     (case lookup fs p of
        Some (File s) \<Rightarrow> if he_refuses env p then os_err env p fs else (Inr s, fs)
      | _ \<Rightarrow> os_err env p fs)"

text \<open>\<open>create_dir_all\<close> makes every missing ancestor, and nothing when one of them is a file.\<close>

definition make_dirs :: "hpath list \<Rightarrow> tree \<Rightarrow> tree" where
  "make_dirs = fold (\<lambda>q fs. if is_dir fs q then fs else AList.update q Dir fs)"

definition std_mkdirs :: "host_env \<Rightarrow> hpath \<Rightarrow> tree \<Rightarrow> unit tool_result" where
  "std_mkdirs env p fs =
     (if list_ex (\<lambda>q. case lookup fs q of Some (File _) \<Rightarrow> True | _ \<Rightarrow> False) (prefixes p)
         \<or> (list_ex (\<lambda>q. \<not> is_dir fs q) (prefixes p) \<and> he_refuses env p)
      then os_err env p fs
      else (Inr (), make_dirs (prefixes p) fs))"

definition std_write :: "host_env \<Rightarrow> hpath \<Rightarrow> string \<Rightarrow> tree \<Rightarrow> unit tool_result" where
  "std_write env p s fs =
     (if is_dir fs p \<or> \<not> is_dir fs (butlast p) \<or> he_refuses env p then os_err env p fs
      else (Inr (), AList.update p (File s) fs))"

definition std_append :: "host_env \<Rightarrow> hpath \<Rightarrow> string \<Rightarrow> tree \<Rightarrow> unit tool_result" where
  "std_append env p s fs =
     (if is_dir fs p \<or> \<not> is_dir fs (butlast p) \<or> he_refuses env p then os_err env p fs
      else case lookup fs p of
             Some (File old) \<Rightarrow> (Inr (), AList.update p (File (old @ s)) fs)
           | _ \<Rightarrow> (Inr (), AList.update p (File s) fs))"

definition std_remove_file :: "host_env \<Rightarrow> hpath \<Rightarrow> tree \<Rightarrow> unit tool_result" where
  "std_remove_file env p fs =
     (case lookup fs p of
        Some (File _) \<Rightarrow> if he_refuses env p then os_err env p fs else (Inr (), AList.delete p fs)
      | _ \<Rightarrow> os_err env p fs)"

definition std_copy :: "host_env \<Rightarrow> hpath \<Rightarrow> hpath \<Rightarrow> tree \<Rightarrow> unit tool_result" where
  "std_copy env src dst fs =
     (case std_read env src fs of
        (Inl e, _) \<Rightarrow> (Inl e, fs)
      | (Inr s, _) \<Rightarrow> std_write env dst s fs)"

text \<open>
  \<open>rename\<close> moves a file onto a file or a free name, and a directory with all it holds onto a free
  name or an empty directory outside itself.
\<close>

definition can_rename :: "tree \<Rightarrow> hpath \<Rightarrow> hpath \<Rightarrow> bool" where
  "can_rename fs src dst =
     (is_dir fs (butlast dst)
      \<and> (case lookup fs src of
           None \<Rightarrow> False
         | Some (File _) \<Rightarrow> \<not> is_dir fs dst
         | Some Dir \<Rightarrow> \<not> strict_prefix src dst
             \<and> (case lookup fs dst of
                  None \<Rightarrow> True
                | Some (File _) \<Rightarrow> False
                | Some Dir \<Rightarrow> src = dst \<or> \<not> list_ex (\<lambda>(q, _). strict_prefix dst q) fs)))"

definition move_tree :: "hpath \<Rightarrow> hpath \<Rightarrow> tree \<Rightarrow> tree" where
  "move_tree src dst fs =
     (if src = dst then fs
      else map (\<lambda>(q, n). (dst @ drop (length src) q, n)) (filter (\<lambda>(q, _). prefix src q) fs)
           @ filter (\<lambda>(q, _). \<not> prefix src q \<and> \<not> prefix dst q) fs)"

definition std_rename :: "host_env \<Rightarrow> hpath \<Rightarrow> hpath \<Rightarrow> tree \<Rightarrow> unit tool_result" where
  "std_rename env src dst fs =
     (if \<not> can_rename fs src dst \<or> he_refuses env dst then os_err env dst fs
      else (Inr (), move_tree src dst fs))"

definition std_read_dir :: "host_env \<Rightarrow> hpath \<Rightarrow> tree \<Rightarrow> (string \<times> node) list tool_result" where
  "std_read_dir env p fs =
     (if is_dir fs p \<and> \<not> he_refuses env p
      then (Inr (map (\<lambda>(q, n). (last q, n)) (filter (\<lambda>(q, _). q \<noteq> [] \<and> butlast q = p) fs)), fs)
      else os_err env p fs)"

section \<open>Paths\<close>

text \<open>\<open>Path::components\<close> of a Unix path, and \<open>resolve_path\<close>.\<close>

datatype component = RootDir | CurDir | ParentDir | Normal string

definition component_of :: "string \<Rightarrow> component" where
  "component_of w =
     (if w = [] \<or> w = ''.'' then CurDir else if w = ''..'' then ParentDir else Normal w)"

definition components :: "string \<Rightarrow> component list" where
  "components p = map component_of (split_char (CHR ''/'') p)"

fun push_component :: "component \<Rightarrow> hpath \<Rightarrow> hpath" where
  "push_component RootDir rel = rel"
| "push_component CurDir rel = rel"
| "push_component ParentDir rel = butlast rel"
| "push_component (Normal c) rel = rel @ [c]"

definition resolve_path :: "string \<Rightarrow> hpath \<Rightarrow> hpath" where
  "resolve_path p work_dir = work_dir @ fold push_component (components p) []"

definition plain_name :: "string \<Rightarrow> bool" where
  "plain_name c \<longleftrightarrow> c \<noteq> [] \<and> c \<noteq> ''.'' \<and> c \<noteq> ''..'' \<and> CHR ''/'' \<notin> set c"

lemma components_plain: "Normal c \<in> set (components p) \<Longrightarrow> plain_name c"
  unfolding components_def plain_name_def using split_char_free [of _ "CHR ''/''" p]
  by (auto simp: component_of_def split: if_splits)

lemma push_plain:
  "\<forall>c\<in>set rel. plain_name c \<Longrightarrow> \<forall>c. Normal c \<in> set cs \<longrightarrow> plain_name c
     \<Longrightarrow> \<forall>c\<in>set (fold push_component cs rel). plain_name c"
proof (induction cs arbitrary: rel)
  case Nil
  then show ?case by simp
next
  case (Cons k cs)
  have "\<forall>c\<in>set (push_component k rel). plain_name c"
    using Cons.prems by (cases k) (auto dest: in_set_butlastD)
  with Cons.IH Cons.prems(2) show ?case by simp
qed

text \<open>
  A path that a crew supplies never leaves the work directory: its resolution is the work
  directory followed by names none of which is empty, \<open>.\<close>, \<open>..\<close> or contains a slash, and a leading
  slash changes nothing.
\<close>

theorem resolve_path_jailed:
  "prefix wd (resolve_path p wd)
   \<and> list_all plain_name (drop (length wd) (resolve_path p wd))
   \<and> resolve_path (CHR ''/'' # p) wd = resolve_path p wd"
proof -
  have "list_all plain_name (drop (length wd) (resolve_path p wd))"
    using push_plain [of "[]" "components p"] components_plain
    by (simp add: resolve_path_def list_all_iff)
  moreover have "resolve_path (CHR ''/'' # p) wd = resolve_path p wd"
    by (simp add: resolve_path_def components_def component_of_def)
  ultimately show ?thesis by (simp add: resolve_path_def)
qed

section \<open>The tools\<close>

definition arg :: "json \<Rightarrow> string \<Rightarrow> string option" where
  "arg input k = jget_str input k"

text \<open>\<open>input.get(a).or_else(|| input.get(b)).and_then(Value::as_str)\<close>.\<close>

definition arg2 :: "json \<Rightarrow> string \<Rightarrow> string \<Rightarrow> string option" where
  "arg2 input a b =
     Option.bind (case jget input a of None \<Rightarrow> jget input b | Some v \<Rightarrow> Some v) jstr"

definition ok_json :: "(string \<times> json) list \<Rightarrow> json" where
  "ok_json kvs = JObj (kvs @ [(''success'', JBool True)])"

definition t_bind :: "'a tool_result \<Rightarrow> ('a \<Rightarrow> tree \<Rightarrow> 'b tool_result) \<Rightarrow> 'b tool_result" where
  "t_bind r k = (case r of (Inl e, fs) \<Rightarrow> (Inl e, fs) | (Inr x, fs) \<Rightarrow> k x fs)"

definition need :: "string \<Rightarrow> string option \<Rightarrow> tree \<Rightarrow> (string \<Rightarrow> json tool_result) \<Rightarrow> json tool_result" where
  "need what a fs k = (case a of None \<Rightarrow> (Inl what, fs) | Some x \<Rightarrow> k x)"

type_synonym tool = "host_env \<Rightarrow> json \<Rightarrow> hpath \<Rightarrow> tree \<Rightarrow> json tool_result"

definition read_file :: tool where
  "read_file env input wd fs =
     need ''read_file: missing `path`'' (arg input ''path'') fs (\<lambda>p.
       case std_read env (resolve_path p wd) fs of
         (Inl e, fs') \<Rightarrow> (Inl (''read_file: '' @ he_display env (resolve_path p wd)), fs')
       | (Inr s, fs') \<Rightarrow>
           (Inr (ok_json [(''content'', JStr s), (''size'', JInt (int (length s)))]), fs'))"

definition mkdir_parent :: "host_env \<Rightarrow> hpath \<Rightarrow> tree \<Rightarrow> unit tool_result" where
  "mkdir_parent env p fs = (case parent p of None \<Rightarrow> (Inr (), fs) | Some d \<Rightarrow> std_mkdirs env d fs)"

definition write_file :: tool where
  "write_file env input wd fs =
     need ''write_file: missing `path`'' (arg input ''path'') fs (\<lambda>p.
     need ''write_file: missing `contents`'' (arg2 input ''contents'' ''content'') fs (\<lambda>s.
       t_bind (mkdir_parent env (resolve_path p wd) fs) (\<lambda>_ fs1.
         case std_write env (resolve_path p wd) s fs1 of
           (Inl e, fs2) \<Rightarrow> (Inl (''write_file: '' @ he_display env (resolve_path p wd)), fs2)
         | (Inr _, fs2) \<Rightarrow>
             (Inr (ok_json [(''path'', JStr p), (''bytes'', JInt (int (length s)))]), fs2))))"

definition append_file :: tool where
  "append_file env input wd fs =
     need ''append_file: missing `path`'' (arg input ''path'') fs (\<lambda>p.
     need ''append_file: missing `contents`'' (arg2 input ''contents'' ''content'') fs (\<lambda>s.
       t_bind (std_append env (resolve_path p wd) s fs) (\<lambda>_ fs1.
         (Inr (ok_json [(''path'', JStr p), (''bytes'', JInt (int (length s)))]), fs1))))"

definition delete_file :: tool where
  "delete_file env input wd fs =
     need ''delete_file: missing `path`'' (arg input ''path'') fs (\<lambda>p.
       t_bind (std_remove_file env (resolve_path p wd) fs) (\<lambda>_ fs1.
         (Inr (ok_json [(''path'', JStr p)]), fs1)))"

definition list_dir :: tool where
  "list_dir env input wd fs =
     (let p = unwrap_or ''.'' (arg input ''path'') in
      t_bind (std_read_dir env (resolve_path p wd) fs) (\<lambda>entries fs1.
        (Inr (ok_json [(''path'', JStr p),
           (''entries'', JArr (map (\<lambda>(name, n). JObj [(''name'', JStr name),
              (''is_dir'', JBool (n = Dir)), (''is_symlink'', JBool False)]) entries)),
           (''count'', JInt (int (length entries)))]), fs1)))"

definition create_directory :: tool where
  "create_directory env input wd fs =
     need ''create_directory: missing `path`'' (arg input ''path'') fs (\<lambda>p.
       t_bind (std_mkdirs env (resolve_path p wd) fs) (\<lambda>_ fs1.
         (Inr (ok_json [(''path'', JStr p)]), fs1)))"

definition file_exists :: tool where
  "file_exists env input wd fs =
     need ''file_exists: missing `path`'' (arg input ''path'') fs (\<lambda>p.
       (Inr (ok_json [(''path'', JStr p),
          (''exists'', JBool (lookup fs (resolve_path p wd) \<noteq> None))]), fs))"

definition get_file_info :: tool where
  "get_file_info env input wd fs =
     need ''get_file_info: missing `path`'' (arg input ''path'') fs (\<lambda>p.
       let q = resolve_path p wd;
           info = (\<lambda>size d. (Inr (ok_json [(''path'', JStr p), (''size'', JInt (int size)),
              (''is_dir'', JBool d), (''is_file'', JBool (\<not> d)),
              (''readonly'', JBool (he_readonly env q))]), fs))
       in if is_dir fs q then info (he_dir_size env q) True
          else case lookup fs q of
                 Some (File s) \<Rightarrow> info (length s) False
               | _ \<Rightarrow> os_err env q fs)"

definition copy_file :: tool where
  "copy_file env input wd fs =
     need ''copy_file: missing `from`'' (arg2 input ''from'' ''src'') fs (\<lambda>f.
     need ''copy_file: missing `to`'' (arg2 input ''to'' ''dst'') fs (\<lambda>t.
       t_bind (mkdir_parent env (resolve_path t wd) fs) (\<lambda>_ fs1.
       t_bind (std_copy env (resolve_path f wd) (resolve_path t wd) fs1) (\<lambda>_ fs2.
         (Inr (ok_json [(''from'', JStr f), (''to'', JStr t)]), fs2)))))"

definition move_file :: tool where
  "move_file env input wd fs =
     need ''move_file: missing `from`'' (arg2 input ''from'' ''src'') fs (\<lambda>f.
     need ''move_file: missing `to`'' (arg2 input ''to'' ''dst'') fs (\<lambda>t.
       t_bind (mkdir_parent env (resolve_path t wd) fs) (\<lambda>_ fs1.
       t_bind (std_rename env (resolve_path f wd) (resolve_path t wd) fs1) (\<lambda>_ fs2.
         (Inr (ok_json [(''from'', JStr f), (''to'', JStr t)]), fs2)))))"

subsection \<open>Tools that start a process or send a request\<close>

definition run_proc :: "host_env \<Rightarrow> proc_call \<Rightarrow> string \<Rightarrow> tree \<Rightarrow> proc_output tool_result" where
  "run_proc env c err fs =
     (case he_proc env c fs of
        (None, fs') \<Rightarrow> (Inl err, fs')
      | (Some out, fs') \<Rightarrow> (Inr out, fs'))"

definition proc_success :: "proc_output \<Rightarrow> bool" where
  "proc_success out \<longleftrightarrow> po_code out = Some 0"

definition proc_json :: "proc_output \<Rightarrow> json" where
  "proc_json out = JObj [(''exit_code'', JInt (unwrap_or (- 1) (po_code out))),
     (''stdout'', JStr (po_stdout out)), (''stderr'', JStr (po_stderr out)),
     (''success'', JBool (proc_success out))]"

definition proc_tool :: "host_env \<Rightarrow> proc_call \<Rightarrow> string \<Rightarrow> tree \<Rightarrow> json tool_result" where
  "proc_tool env c err fs = t_bind (run_proc env c err fs) (\<lambda>out fs'. (Inr (proc_json out), fs'))"

definition plain_proc :: "string \<Rightarrow> string list \<Rightarrow> hpath option \<Rightarrow> proc_call" where
  "plain_proc program args cwd =
     \<lparr> pcl_program = program, pcl_args = args, pcl_cwd = cwd, pcl_envs = [] \<rparr>"

definition run_command :: tool where
  "run_command env input wd fs =
     need ''run_command: missing `cmd`'' (arg input ''cmd'') fs (\<lambda>cmd.
       let cwd = (case arg input ''cwd'' of None \<Rightarrow> wd | Some c \<Rightarrow> resolve_path c wd)
       in proc_tool env
            \<lparr> pcl_program = ''/bin/sh'', pcl_args = [''-c'', cmd], pcl_cwd = Some cwd,
              pcl_envs = [(''GIT_AUTHOR_NAME'', ''MowisAI''), (''GIT_AUTHOR_EMAIL'', ''agent@mowis.ai''),
                (''GIT_COMMITTER_NAME'', ''MowisAI''), (''GIT_COMMITTER_EMAIL'', ''agent@mowis.ai'')] \<rparr>
            (''run_command: '' @ cmd) fs)"

definition run_script :: tool where
  "run_script env input wd fs =
     (let interpreter = unwrap_or ''sh'' (arg input ''interpreter'');
          run = (\<lambda>script fs'. proc_tool env (plain_proc interpreter [he_display env script] (Some wd))
                   (he_os_error env script) fs')
      in case arg input ''path'' of
           Some p \<Rightarrow> run (resolve_path p wd) fs
         | None \<Rightarrow>
             (case arg input ''script'' of
                Some s \<Rightarrow>
                  t_bind (std_write env (wd @ [''_script_tmp.sh'']) s fs)
                    (\<lambda>_ fs'. run (wd @ [''_script_tmp.sh'']) fs')
              | None \<Rightarrow> (Inl ''run_script: need `path` or `script`'', fs)))"

definition grep :: tool where
  "grep env input wd fs =
     need ''grep: missing `pattern`'' (arg input ''pattern'') fs (\<lambda>pat.
       let q = resolve_path (unwrap_or ''.'' (arg input ''path'')) wd;
           inc = (case arg input ''include'' of None \<Rightarrow> [] | Some i \<Rightarrow> [''--include'', i])
       in t_bind (run_proc env
              (plain_proc ''grep'' ([''-rn'', ''--color=never'', pat] @ inc @ [he_display env q]) None)
              (he_os_error env q) fs)
            (\<lambda>out fs'. let matches = take 100 (str_lines (po_stdout out))
               in (Inr (ok_json [(''matches'', JArr (map JStr matches)),
                     (''count'', JInt (int (length matches)))]), fs')))"

definition find_files :: tool where
  "find_files env input wd fs =
     need ''find_files: missing `pattern`'' (arg input ''pattern'') fs (\<lambda>pat.
       let q = resolve_path (unwrap_or ''.'' (arg input ''path'')) wd
       in t_bind (run_proc env
              (plain_proc ''find'' [he_display env q, ''-maxdepth'', ''10'', ''-name'', pat] None)
              (he_os_error env q) fs)
            (\<lambda>out fs'. let files = str_lines (po_stdout out)
               in (Inr (ok_json [(''files'', JArr (map JStr files)),
                     (''count'', JInt (int (length files)))]), fs')))"

definition git_in :: "host_env \<Rightarrow> string list \<Rightarrow> hpath \<Rightarrow> tree \<Rightarrow> json tool_result" where
  "git_in env args cwd fs = proc_tool env (plain_proc ''git'' args (Some cwd)) (he_os_error env cwd) fs"

definition git_command :: "host_env \<Rightarrow> string list \<Rightarrow> hpath \<Rightarrow> string option \<Rightarrow> tree \<Rightarrow> json tool_result" where
  "git_command env args wd cwd fs =
     git_in env args (case cwd of None \<Rightarrow> wd | Some c \<Rightarrow> resolve_path c wd) fs"

text \<open>\<open>serde_json::from_value\<close> at \<open>Vec<String>\<close>.\<close>

definition string_list :: "json \<Rightarrow> string list option" where
  "string_list v =
     (case jarr v of
        None \<Rightarrow> None
      | Some xs \<Rightarrow>
          if list_all (\<lambda>x. jstr x \<noteq> None) xs then Some (map (\<lambda>x. the (jstr x)) xs) else None)"

definition git_add :: tool where
  "git_add env input wd fs =
     git_in env
       (''add'' # unwrap_or [''.''] (Option.bind (jget input ''files'') string_list))
       (resolve_path (unwrap_or ''.'' (arg input ''path'')) wd) fs"

definition git_commit :: tool where
  "git_commit env input wd fs =
     git_in env
       [''-c'', ''user.email=agent@mowis.ai'', ''-c'', ''user.name=MowisAI'', ''commit'', ''-m'',
        unwrap_or ''auto-commit'' (arg input ''message'')]
       (resolve_path (unwrap_or ''.'' (arg input ''path'')) wd) fs"

definition git_branch :: tool where
  "git_branch env input wd fs =
     git_in env (case arg input ''name'' of Some n \<Rightarrow> [''branch'', n] | None \<Rightarrow> [''branch''])
       (case arg input ''path'' of None \<Rightarrow> wd | Some p \<Rightarrow> resolve_path p wd) fs"

definition git_checkout :: tool where
  "git_checkout env input wd fs =
     need ''git_checkout: missing `branch`'' (arg input ''branch'') fs (\<lambda>b.
       git_in env [''checkout'', b] (resolve_path (unwrap_or ''.'' (arg input ''path'')) wd) fs)"

definition http_tool :: "host_env \<Rightarrow> string \<Rightarrow> string \<Rightarrow> string \<Rightarrow> tree \<Rightarrow> json tool_result" where
  "http_tool env verb url body fs =
     (case he_http env verb url body of
        None \<Rightarrow> (Inl ''http error'', fs)
      | Some (status, resp) \<Rightarrow>
          (Inr (JObj [(''status'', JInt (int status)), (''body'', JStr resp),
             (''success'', JBool (status < 400))]), fs))"

definition http_get :: tool where
  "http_get env input wd fs =
     need ''http_get: missing `url`'' (arg input ''url'') fs (\<lambda>url. http_tool env ''GET'' url [] fs)"

definition http_post :: tool where
  "http_post env input wd fs =
     need ''http_post: missing `url`'' (arg input ''url'') fs (\<lambda>url.
       http_tool env ''POST'' url (unwrap_or [] (arg input ''body'')) fs)"

section \<open>The dispatcher\<close>

definition run_tool :: "string \<Rightarrow> tool" where
  "run_tool name env input wd fs =
     (if name = ''read_file'' then read_file env input wd fs
      else if name = ''write_file'' then write_file env input wd fs
      else if name = ''append_file'' then append_file env input wd fs
      else if name = ''delete_file'' then delete_file env input wd fs
      else if name = ''list_files'' \<or> name = ''list_dir'' then list_dir env input wd fs
      else if name = ''create_directory'' then create_directory env input wd fs
      else if name = ''file_exists'' then file_exists env input wd fs
      else if name = ''get_file_info'' then get_file_info env input wd fs
      else if name = ''copy_file'' then copy_file env input wd fs
      else if name = ''move_file'' then move_file env input wd fs
      else if name = ''run_command'' then run_command env input wd fs
      else if name = ''run_script'' then run_script env input wd fs
      else if name = ''grep'' then grep env input wd fs
      else if name = ''find_files'' then find_files env input wd fs
      else if name = ''git_status'' then git_command env [''status'', ''--porcelain''] wd None fs
      else if name = ''git_add'' then git_add env input wd fs
      else if name = ''git_commit'' then git_commit env input wd fs
      else if name = ''git_diff'' then git_command env [''diff''] wd None fs
      else if name = ''git_branch'' then git_branch env input wd fs
      else if name = ''git_checkout'' then git_checkout env input wd fs
      else if name = ''http_get'' then http_get env input wd fs
      else if name = ''http_post'' then http_post env input wd fs
      else if name = ''send_input'' then
        (Inr (JObj [(''success'', JBool False),
           (''error'', JStr ''send_input not supported in local mode'')]), fs)
      else (Inl (''tool `'' @ name @ ''` not implemented for local execution''), fs))"

text \<open>\<open>execute_tool_local\<close> never fails: an error becomes a JSON object with an \<open>error\<close> field.\<close>

definition error_json :: "string \<Rightarrow> json" where
  "error_json e = JObj [(''error'', JStr e), (''success'', JBool False)]"

definition execute_tool_local :: "string \<Rightarrow> json \<Rightarrow> host_env \<Rightarrow> hpath \<Rightarrow> tree \<Rightarrow> json \<times> tree" where
  "execute_tool_local name input env wd fs =
     (case run_tool name env input wd fs of
        (Inr v, fs') \<Rightarrow> (v, fs')
      | (Inl e, fs') \<Rightarrow> (error_json e, fs'))"

section \<open>The file tools stay inside the work directory\<close>

text \<open>
  \<open>confined wd fs fs'\<close>: nothing outside \<open>wd\<close> differs between the two trees, and \<open>wd\<close> with all its
  ancestors is a directory in the second.
\<close>

definition dirs_above :: "hpath \<Rightarrow> tree \<Rightarrow> bool" where
  "dirs_above wd fs \<longleftrightarrow> list_all (is_dir fs) (prefixes wd)"

definition confined :: "hpath \<Rightarrow> tree \<Rightarrow> tree \<Rightarrow> bool" where
  "confined wd fs fs' \<longleftrightarrow> (\<forall>q. \<not> prefix wd q \<longrightarrow> lookup fs' q = lookup fs q) \<and> dirs_above wd fs'"

lemma dirs_above_iff: "dirs_above wd fs \<longleftrightarrow> (\<forall>q. prefix q wd \<longrightarrow> is_dir fs q)"
  by (auto simp: dirs_above_def list_all_iff)

lemma confined_refl [simp]: "dirs_above wd fs \<Longrightarrow> confined wd fs fs"
  by (simp add: confined_def)

lemma confined_trans: "confined wd a b \<Longrightarrow> confined wd b c \<Longrightarrow> confined wd a c"
  by (simp add: confined_def)

lemma confined_dirs: "confined wd a b \<Longrightarrow> dirs_above wd b"
  by (simp add: confined_def)

text \<open>A change below the work directory that is not at the work directory itself is confined.\<close>

lemma confined_change:
  assumes "dirs_above wd fs" and "\<And>q. \<not> strict_prefix wd q \<Longrightarrow> lookup fs' q = lookup fs q"
  shows "confined wd fs fs'"
proof -
  have "is_dir fs' q" if "prefix q wd" for q
  proof -
    from that have "\<not> strict_prefix wd q" by (meson prefix_order.leD)
    with assms that show ?thesis by (simp add: is_dir_def dirs_above_iff)
  qed
  with assms(2) show ?thesis by (auto simp: confined_def dirs_above_iff strict_prefix_def)
qed

lemma confined_update:
  "dirs_above wd fs \<Longrightarrow> prefix wd p \<Longrightarrow> \<not> is_dir fs p \<Longrightarrow> confined wd fs (AList.update p n fs)"
  by (rule confined_change) (auto simp: dirs_above_iff strict_prefix_def)

lemma lookup_make_dirs:
  "lookup (make_dirs qs fs) p = (if p \<in> set qs \<and> \<not> is_dir fs p then Some Dir else lookup fs p)"
proof (induction qs arbitrary: fs)
  case Nil
  then show ?case by (simp add: make_dirs_def)
next
  case (Cons q qs)
  have "is_dir (AList.update q Dir fs) p \<longleftrightarrow> p = q \<or> is_dir fs p"
    by (cases "q = []") (auto simp: is_dir_def)
  with Cons show ?case by (cases "is_dir fs q") (auto simp: is_dir_def make_dirs_def)
qed

lemma make_dirs_same: "\<forall>q\<in>set qs. is_dir fs q \<Longrightarrow> make_dirs qs fs = fs"
  by (induction qs) (auto simp: make_dirs_def)

text \<open>What \<open>create_dir_all\<close> leaves: the missing ancestors made, if it succeeds, and nothing else.\<close>

lemma std_mkdirs_cases:
  obtains (err) e where "std_mkdirs env p fs = (Inl e, fs)"
  | (ok) fs' where "std_mkdirs env p fs = (Inr (), fs')" and "dirs_above p fs'"
      and "\<And>q. lookup fs' q = (if prefix q p \<and> \<not> is_dir fs q then Some Dir else lookup fs q)"
proof (cases "std_mkdirs env p fs = (Inr (), make_dirs (prefixes p) fs)")
  case True
  have "dirs_above p (make_dirs (prefixes p) fs)"
    by (auto simp: dirs_above_iff is_dir_def lookup_make_dirs)
  with True ok show ?thesis by (simp add: lookup_make_dirs)
next
  case False
  with err show ?thesis by (auto simp: std_mkdirs_def os_err_def split: if_splits)
qed

lemma std_mkdirs_confined:
  assumes "dirs_above wd fs" and "prefix wd p \<or> prefix p wd"
  shows "confined wd fs (snd (std_mkdirs env p fs))"
proof (cases rule: std_mkdirs_cases [of env p fs])
  case (err e)
  with assms(1) show ?thesis by simp
next
  case (ok fs')
  have "lookup fs' q = lookup fs q" if "\<not> strict_prefix wd q" for q
  proof -
    have "prefix q p \<longrightarrow> prefix q wd"
      using assms(2) that by (metis prefix_order.dual_order.trans prefix_same_cases strict_prefix_def)
    with assms(1) ok(3) show ?thesis by (auto simp: dirs_above_iff)
  qed
  with ok(1) assms(1) show ?thesis by (simp add: confined_change)
qed

lemma std_mkdirs_present:
  assumes "dirs_above p fs"
  shows "std_mkdirs env p fs = (Inr (), fs)"
proof -
  have d: "\<forall>q\<in>set (prefixes p). is_dir fs q" using assms by (simp add: dirs_above_iff)
  then have "\<not> list_ex (\<lambda>q. case lookup fs q of Some (File _) \<Rightarrow> True | _ \<Rightarrow> False) (prefixes p)"
    "\<not> list_ex (\<lambda>q. \<not> is_dir fs q) (prefixes p)"
    by (auto simp: list_ex_iff is_dir_def)
  with make_dirs_same [OF d] show ?thesis by (simp add: std_mkdirs_def)
qed

lemma mkdir_parent_confined:
  assumes "dirs_above wd fs" and "prefix wd p"
  shows "confined wd fs (snd (mkdir_parent env p fs))"
proof (cases "parent p")
  case None
  with assms(1) show ?thesis by (simp add: mkdir_parent_def)
next
  case (Some d)
  then have "d = butlast p" by (simp add: parent_def split: if_splits)
  then have "prefix d p" by (simp add: prefixeq_butlast)
  with assms(2) have "prefix wd d \<or> prefix d wd" by (meson prefix_same_cases)
  with std_mkdirs_confined [OF assms(1)] Some show ?thesis by (simp add: mkdir_parent_def)
qed

lemma std_write_confined:
  "dirs_above wd fs \<Longrightarrow> prefix wd p \<Longrightarrow> confined wd fs (snd (std_write env p s fs))"
  by (simp add: std_write_def os_err_def confined_update)

lemma std_append_confined:
  "dirs_above wd fs \<Longrightarrow> prefix wd p \<Longrightarrow> confined wd fs (snd (std_append env p s fs))"
  by (auto simp: std_append_def os_err_def confined_update split: option.splits node.splits)

lemma std_remove_confined:
  assumes "dirs_above wd fs" and "prefix wd p"
  shows "confined wd fs (snd (std_remove_file env p fs))"
proof (cases "snd (std_remove_file env p fs) = fs")
  case True
  with assms(1) show ?thesis by simp
next
  case False
  then obtain s where f: "lookup fs p = Some (File s)"
    and fs': "snd (std_remove_file env p fs) = AList.delete p fs"
    by (auto simp: std_remove_file_def os_err_def split: option.splits node.splits if_splits)
  have "is_dir fs wd" using assms(1) by (simp add: dirs_above_iff)
  with f have "p \<noteq> wd" by (auto simp: is_dir_def)
  with assms(2) have "strict_prefix wd p" by (simp add: strict_prefix_def)
  with fs' show ?thesis by (intro confined_change [OF assms(1)]) auto
qed

lemma lookup_move_outside:
  assumes "\<not> prefix src q" and "\<not> prefix dst q"
  shows "lookup (move_tree src dst fs) q = lookup fs q"
proof (cases "src = dst")
  case True
  then show ?thesis by (simp add: move_tree_def)
next
  case False
  have "map_of (filter (\<lambda>(q, _). \<not> prefix src q \<and> \<not> prefix dst q) fs) q = map_of fs q"
    using assms by (induction fs) auto
  moreover have "map_of (map (\<lambda>(q, n). (dst @ drop (length src) q, n)) (filter (\<lambda>(q, _). prefix src q) fs)) q
      = None"
    using assms(2) by (auto simp: map_of_eq_None_iff)
  ultimately show ?thesis using False by (simp add: lookup_def move_tree_def map_add_def)
qed

lemma can_rename_inside:
  assumes "can_rename fs src dst" and "is_dir fs wd" and "prefix wd src" and "prefix wd dst"
    and "src \<noteq> dst"
  shows "strict_prefix wd src \<and> strict_prefix wd dst"
proof -
  have "src \<noteq> wd"
  proof
    assume "src = wd"
    with assms show False by (auto simp: can_rename_def is_dir_def strict_prefix_def)
  qed
  moreover have "dst \<noteq> wd"
  proof
    assume d: "dst = wd"
    then have str: "strict_prefix dst src" using assms(3,5) by (simp add: strict_prefix_def)
    from assms(1) obtain n where n: "lookup fs src = Some n" by (auto simp: can_rename_def split: option.splits)
    moreover have "src \<noteq> []" using str by auto
    ultimately have "(src, n) \<in> set fs" by (auto simp: lookup_def dest: map_of_SomeD)
    with str have "list_ex (\<lambda>(q, _). strict_prefix dst q) fs" by (auto simp: list_ex_iff)
    with assms(1,2,5) d n show False by (cases n) (auto simp: can_rename_def is_dir_def)
  qed
  ultimately show ?thesis using assms(3,4) by (simp add: strict_prefix_def)
qed

lemma std_rename_confined:
  assumes "dirs_above wd fs" and "prefix wd src" and "prefix wd dst"
  shows "confined wd fs (snd (std_rename env src dst fs))"
proof (cases "can_rename fs src dst \<and> \<not> he_refuses env dst \<and> src \<noteq> dst")
  case False
  then have "snd (std_rename env src dst fs) = fs"
    by (auto simp: std_rename_def os_err_def move_tree_def)
  with assms(1) show ?thesis by simp
next
  case True
  have "is_dir fs wd" using assms(1) by (simp add: dirs_above_iff)
  with True assms have "strict_prefix wd src \<and> strict_prefix wd dst" by (intro can_rename_inside) auto
  then have "lookup (move_tree src dst fs) q = lookup fs q" if "\<not> strict_prefix wd q" for q
    using that by (intro lookup_move_outside) (meson prefix_order.strict_trans1 prefix_order.less_le_trans)+
  with True assms(1) show ?thesis by (simp add: std_rename_def confined_change)
qed

lemma std_copy_confined:
  "dirs_above wd fs \<Longrightarrow> prefix wd dst \<Longrightarrow> confined wd fs (snd (std_copy env src dst fs))"
  by (auto simp: std_copy_def std_write_confined split: prod.splits sum.splits)

lemma std_copy_then:
  "confined wd a fs \<Longrightarrow> prefix wd dst \<Longrightarrow> confined wd a (snd (std_copy env src dst fs))"
  by (rule confined_trans [OF _ std_copy_confined [OF confined_dirs]])

lemma std_rename_then:
  "confined wd a fs \<Longrightarrow> prefix wd src \<Longrightarrow> prefix wd dst
     \<Longrightarrow> confined wd a (snd (std_rename env src dst fs))"
  by (rule confined_trans [OF _ std_rename_confined [OF confined_dirs]])

lemma std_read_tree [simp]: "snd (std_read env p fs) = fs"
  by (simp add: std_read_def os_err_def split: option.splits node.splits)

lemma std_read_dir_tree [simp]: "snd (std_read_dir env p fs) = fs"
  by (simp add: std_read_dir_def os_err_def)

lemma t_bind_confined:
  assumes "confined wd fs (snd r)"
    and "\<And>x fs'. confined wd fs fs' \<Longrightarrow> confined wd fs (snd (k x fs'))"
  shows "confined wd fs (snd (t_bind r k))"
  using assms by (cases r; cases "fst r") (auto simp: t_bind_def)

lemma need_confined:
  "confined wd fs fs \<Longrightarrow> (\<And>x. confined wd fs (snd (k x))) \<Longrightarrow> confined wd fs (snd (need w a fs k))"
  by (simp add: need_def split: option.splits)

lemma prefix_resolve [simp]: "prefix wd (resolve_path p wd)"
  by (simp add: resolve_path_def)

definition file_tools :: "string list" where
  "file_tools = [''read_file'', ''write_file'', ''append_file'', ''delete_file'', ''list_files'',
     ''list_dir'', ''create_directory'', ''file_exists'', ''get_file_info'', ''copy_file'', ''move_file'']"

lemma case_confined:
  "(\<And>e. confined wd fs (snd (f e fs'))) \<Longrightarrow> (\<And>x. confined wd fs (snd (g x fs'))) \<Longrightarrow>
   r = (v, fs') \<Longrightarrow>
   confined wd fs (snd (case r of (Inl e, fs1) \<Rightarrow> f e fs1 | (Inr x, fs1) \<Rightarrow> g x fs1))"
  by (cases v) auto

lemma file_tool_confined:
  assumes d: "dirs_above wd fs"
  shows "confined wd fs (snd (read_file env input wd fs))"
    and "confined wd fs (snd (write_file env input wd fs))"
    and "confined wd fs (snd (append_file env input wd fs))"
    and "confined wd fs (snd (delete_file env input wd fs))"
    and "confined wd fs (snd (list_dir env input wd fs))"
    and "confined wd fs (snd (create_directory env input wd fs))"
    and "confined wd fs (snd (file_exists env input wd fs))"
    and "confined wd fs (snd (get_file_info env input wd fs))"
    and "confined wd fs (snd (copy_file env input wd fs))"
    and "confined wd fs (snd (move_file env input wd fs))"
proof -
  show "confined wd fs (snd (read_file env input wd fs))"
    unfolding read_file_def using d
    by (intro need_confined) (auto split: prod.splits sum.splits dest: arg_cong [where f = snd])
  show "confined wd fs (snd (write_file env input wd fs))"
    unfolding write_file_def
  proof (intro need_confined t_bind_confined mkdir_parent_confined d prefix_resolve confined_refl)
    fix p s fs1 assume c: "confined wd fs fs1"
    have "confined wd fs1 (snd (std_write env (resolve_path p wd) s fs1))"
      using confined_dirs [OF c] by (rule std_write_confined) simp
    with confined_trans [OF c] show "confined wd fs (snd
        (case std_write env (resolve_path p wd) s fs1 of
          (Inl e, fs2) \<Rightarrow> (Inl (''write_file: '' @ he_display env (resolve_path p wd)), fs2)
        | (Inr _, fs2) \<Rightarrow>
            (Inr (ok_json [(''path'', JStr p), (''bytes'', JInt (int (length s)))]), fs2)))"
      by (cases "std_write env (resolve_path p wd) s fs1") (auto split: sum.splits)
  qed
  show "confined wd fs (snd (append_file env input wd fs))"
    unfolding append_file_def using d
    by (intro need_confined t_bind_confined std_append_confined) auto
  show "confined wd fs (snd (delete_file env input wd fs))"
    unfolding delete_file_def using d
    by (intro need_confined t_bind_confined std_remove_confined) auto
  show "confined wd fs (snd (list_dir env input wd fs))"
    unfolding list_dir_def Let_def using d by (intro t_bind_confined) auto
  show "confined wd fs (snd (create_directory env input wd fs))"
    unfolding create_directory_def using d
    by (intro need_confined t_bind_confined std_mkdirs_confined) auto
  show "confined wd fs (snd (file_exists env input wd fs))"
    unfolding file_exists_def using d by (intro need_confined) auto
  show "confined wd fs (snd (get_file_info env input wd fs))"
    unfolding get_file_info_def Let_def using d
    by (intro need_confined) (auto simp: os_err_def split: option.splits node.splits)
  show "confined wd fs (snd (copy_file env input wd fs))"
    unfolding copy_file_def
    by (intro need_confined t_bind_confined mkdir_parent_confined std_copy_then confined_refl d prefix_resolve)
       auto
  show "confined wd fs (snd (move_file env input wd fs))"
    unfolding move_file_def
    by (intro need_confined t_bind_confined mkdir_parent_confined std_rename_then confined_refl d prefix_resolve)
       auto
qed

definition file_step :: "host_env \<Rightarrow> hpath \<Rightarrow> tree \<Rightarrow> string \<times> json \<Rightarrow> tree" where
  "file_step env wd fs call =
     (if fst call \<in> set file_tools then snd (execute_tool_local (fst call) (snd call) env wd fs) else fs)"

lemma execute_tree: "snd (execute_tool_local name input env wd fs) = snd (run_tool name env input wd fs)"
  by (simp add: execute_tool_local_def split: prod.splits sum.splits)

lemma file_step_confined:
  assumes "dirs_above wd fs"
  shows "confined wd fs (file_step env wd fs call)"
proof (cases "fst call \<in> set file_tools")
  case False
  with assms show ?thesis by (simp add: file_step_def)
next
  case True
  then show ?thesis
    using file_tool_confined [OF assms]
    by (auto simp: file_step_def execute_tree file_tools_def run_tool_def)
qed

interpretation host_jail: step_system "file_step env wd" "confined wd fs0" for env wd fs0
  by unfold_locales (meson confined_dirs confined_trans file_step_confined)


definition demo_env :: host_env where
  "demo_env = \<lparr> he_refuses = (\<lambda>_. False), he_os_error = (\<lambda>_. ''os error''),
     he_readonly = (\<lambda>_. False), he_dir_size = (\<lambda>_. 4096), he_display = concat,
     he_proc = (\<lambda>_ fs. (None, fs)), he_http = (\<lambda>_ _ _. None) \<rparr>"

definition demo_tree :: tree where
  "demo_tree = [([''w''], Dir), ([''etc''], Dir), ([''etc'', ''passwd''], File ''root'')]"

definition demo_write :: "string \<Rightarrow> json" where
  "demo_write p = JObj [(''path'', JStr p), (''contents'', JStr ''x'')]"


section \<open>What a written file holds\<close>

lemma write_file_result:
  assumes "arg input ''path'' = Some p" and "arg2 input ''contents'' ''content'' = Some s"
    and "write_file env input wd fs = (Inr v, fs')"
  shows "lookup fs' (resolve_path p wd) = Some (File s)" and "\<not> he_refuses env (resolve_path p wd)"
proof -
  let ?q = "resolve_path p wd"
  from assms obtain fs1 where "std_write env ?q s fs1 = (Inr (), fs')"
    by (auto simp: write_file_def need_def t_bind_def split: prod.splits sum.splits)
  then have w: "\<not> is_dir fs1 ?q" "\<not> he_refuses env ?q" "fs' = AList.update ?q (File s) fs1"
    by (auto simp: std_write_def os_err_def split: if_splits)
  from w(1) have "?q \<noteq> []" by (auto simp: is_dir_def)
  with w show "lookup fs' ?q = Some (File s)" and "\<not> he_refuses env ?q" by simp_all
qed

text \<open>
  A \<open>write_file\<close> that reports success is read back by \<open>read_file\<close> under every path that
  resolves to the same place, with the same contents and their length in bytes.
\<close>

theorem read_after_write:
  assumes "execute_tool_local ''write_file'' input env wd fs = (v, fs')"
    and "jget v ''success'' = Some (JBool True)"
    and "arg input ''path'' = Some p" and "arg2 input ''contents'' ''content'' = Some s"
    and "arg input' ''path'' = Some p'" and "resolve_path p' wd = resolve_path p wd"
  shows "execute_tool_local ''read_file'' input' env wd fs'
      = (JObj [(''content'', JStr s), (''size'', JInt (int (length s))), (''success'', JBool True)], fs')"
proof -
  from assms(1,2) have "write_file env input wd fs = (Inr v, fs')"
    by (auto simp: execute_tool_local_def run_tool_def error_json_def split: prod.splits sum.splits)
  from write_file_result [OF assms(3,4) this] assms(5,6) show ?thesis
    by (simp add: execute_tool_local_def run_tool_def read_file_def need_def std_read_def ok_json_def)
qed

lemma read_after_write_witness:
  "\<exists>v fs'. execute_tool_local ''write_file'' (demo_write ''a'') demo_env [''w''] demo_tree = (v, fs')
     \<and> execute_tool_local ''read_file'' (JObj [(''path'', JStr ''/b/../a'')]) demo_env [''w''] fs'
       = (JObj [(''content'', JStr ''x''), (''size'', JInt 1), (''success'', JBool True)], fs')"
proof -
  obtain v fs' where w: "execute_tool_local ''write_file'' (demo_write ''a'') demo_env [''w''] demo_tree
      = (v, fs')"
    by (cases "execute_tool_local ''write_file'' (demo_write ''a'') demo_env [''w''] demo_tree")
  have r: "resolve_path ''a'' [''w''] = [''w'', ''a'']" "resolve_path ''/b/../a'' [''w''] = [''w'', ''a'']"
    by (simp_all add: resolve_path_def components_def component_of_def)
  have a: "arg (demo_write ''a'') ''path'' = Some ''a''"
    "arg2 (demo_write ''a'') ''contents'' ''content'' = Some ''x''"
    by (simp_all add: arg_def arg2_def jget_str_def demo_write_def)
  from w have "jget v ''success'' = Some (JBool True)"
    by (simp add: execute_tool_local_def run_tool_def write_file_def need_def a r t_bind_def
        mkdir_parent_def parent_def std_mkdirs_def make_dirs_def std_write_def is_dir_def lookup_def demo_tree_def
        demo_env_def os_err_def ok_json_def split: if_splits) auto
  from read_after_write [OF w this a, of "JObj [(''path'', JStr ''/b/../a'')]" "''/b/../a''"] w r
  show ?thesis by (simp add: arg_def jget_str_def)
qed

end
