(* ===== verification/Gateway.thy ===== *)
theory Gateway
  imports Plan Protocol Host_Tools
begin

text \<open>
  The tool gateway of \<open>mowis-orchestration/src/tools.rs\<close>: the allowlists of the tiers, the check
  before every call, and the transport behind it, which is either the local one of \<open>host_tools.rs\<close> or
  a connection to a guest (a parameter).
\<close>

section \<open>Allowlists\<close>

record gate_allowlist =
  ga_allowed :: "string list"
  ga_denied_prefixes :: "string list"

definition gate_allows :: "gate_allowlist \<Rightarrow> string \<Rightarrow> bool" where
  "gate_allows a tool_name =
     (if \<exists>d \<in> set (ga_denied_prefixes a). prefix d tool_name then False
      else ga_allowed a = [] \<or> tool_name \<in> set (ga_allowed a))"

interpretation gate_allow: allowlist gate_allows ga_allowed ga_denied_prefixes
  by unfold_locales (auto simp: gate_allows_def)

definition conductor_allowlist :: gate_allowlist where
  "conductor_allowlist = \<lparr> ga_allowed = [''read_file'', ''list_files'', ''list_dir'', ''grep'',
     ''find_files'', ''file_exists'', ''get_file_info''], ga_denied_prefixes = [] \<rparr>"

definition crew_allowlist :: gate_allowlist where
  "crew_allowlist = \<lparr> ga_allowed = [], ga_denied_prefixes = [] \<rparr>"

lemma crew_allows_all: "gate_allows crew_allowlist t"
  by (rule gate_allow.unrestricted) (simp_all add: crew_allowlist_def)

section \<open>The gateway\<close>

record tool_call =
  tcl_id :: string
  tcl_name :: string
  tcl_args :: json

text \<open>A transport answers a payload, or fails, and may change the world \<open>'w\<close>.\<close>

type_synonym 'w transport = "payload \<Rightarrow> 'w \<Rightarrow> (string + payload) \<times> 'w"

record 'w gateway =
  gw_transport :: "'w transport option"
  gw_tier :: tier
  gw_allowlist :: gate_allowlist
  gw_sandbox_id :: string
  gw_agent_id :: string

definition new_gateway :: "tier \<Rightarrow> gate_allowlist \<Rightarrow> string \<Rightarrow> string \<Rightarrow> 'w gateway" where
  "new_gateway tier a sandbox_id agent_id = \<lparr> gw_transport = None, gw_tier = tier,
     gw_allowlist = a, gw_sandbox_id = sandbox_id, gw_agent_id = agent_id \<rparr>"

definition set_transport :: "'w transport \<Rightarrow> 'w gateway \<Rightarrow> 'w gateway" where
  "set_transport t gw = gw\<lparr> gw_transport := Some t \<rparr>"

fun show_tier :: "tier \<Rightarrow> string" where
  "show_tier Conductor = ''Conductor''"
| "show_tier Critic = ''Critic''"
| "show_tier Captain = ''Captain''"
| "show_tier Crew = ''Crew''"

definition invoke :: "'w gateway \<Rightarrow> tool_call \<Rightarrow> 'w \<Rightarrow> (string + json) \<times> 'w" where
  "invoke gw call w =
     (if \<not> gate_allows (gw_allowlist gw) (tcl_name call)
      then (Inr (JObj [(''error'', JStr (''tool `'' @ tcl_name call @ ''` is forbidden for ''
              @ show_tier (gw_tier gw) @ '' tier''))]), w)
      else case gw_transport gw of
        None \<Rightarrow> (Inl ''ToolGateway: no transport configured'', w)
      | Some t \<Rightarrow>
          (case t (InvokeToolAsAgent (gw_sandbox_id gw) (gw_agent_id gw) (tcl_name call)
                     (tcl_args call) (tier_key (gw_tier gw))) w of
             (Inl e, w') \<Rightarrow> (Inl e, w')
           | (Inr (ToolResult output), w') \<Rightarrow> (Inr output, w')
           | (Inr (Error message), w') \<Rightarrow> (Inr (JObj [(''error'', JStr message)]), w')
           | (Inr other, w') \<Rightarrow> (Inl ''unexpected response from executor'', w')))"

definition local_transport :: "host_env \<Rightarrow> hpath \<Rightarrow> tree transport" where
  "local_transport env wd p fs =
     (case p of
        InvokeToolAsAgent _ _ tool input _ \<Rightarrow>
          (case execute_tool_local tool input env wd fs of (v, fs') \<Rightarrow> (Inr (ToolResult v), fs'))
      | InvokeTool _ tool input \<Rightarrow>
          (case execute_tool_local tool input env wd fs of (v, fs') \<Rightarrow> (Inr (ToolResult v), fs'))
      | _ \<Rightarrow> (Inl ''unsupported payload for local transport'', fs))"

section \<open>What the gateway guarantees\<close>

text \<open>
  C6. A call whose tool the allowlist does not admit never reaches the transport: the world is
  unchanged and the answer is a JSON object with an \<open>error\<close>, whatever transport is configured; a tool
  with a denied prefix is never admitted.
\<close>

theorem forbidden_call_blocked:
  assumes "\<not> gate_allows (gw_allowlist gw) (tcl_name call)
      \<or> (\<exists>d\<in>set (ga_denied_prefixes (gw_allowlist gw)). prefix d (tcl_name call))"
  shows "\<exists>msg. invoke gw call w = (Inr (JObj [(''error'', JStr msg)]), w)"
proof -
  have "\<not> gate_allows (gw_allowlist gw) (tcl_name call)"
    using assms by (auto dest: gate_allow.deny_wins)
  then show ?thesis by (simp add: invoke_def)
qed

lemma forbidden_call_blocked_witness:
  "\<exists>msg. invoke (set_transport (local_transport demo_env [''w'']) (new_gateway Conductor conductor_allowlist ''s'' ''a''))
      \<lparr> tcl_id = ''1'', tcl_name = ''delete_file'', tcl_args = JObj [(''path'', JStr ''x'')] \<rparr> demo_tree
    = (Inr (JObj [(''error'', JStr msg)]), demo_tree)"
  by (rule forbidden_call_blocked)
     (simp add: set_transport_def new_gateway_def gate_allows_def conductor_allowlist_def)

text \<open>The tools of the conductor read: they change no file unless \<open>grep\<close> or \<open>find\<close> do.\<close>

definition read_only_procs :: "host_env \<Rightarrow> bool" where
  "read_only_procs env \<longleftrightarrow>
     (\<forall>c fs. pcl_program c = ''grep'' \<or> pcl_program c = ''find'' \<longrightarrow> snd (he_proc env c fs) = fs)"

lemma need_tree: "(\<And>x. snd (k x) = fs) \<Longrightarrow> snd (need what a fs k) = fs"
  by (simp add: need_def split: option.splits)

lemma t_bind_tree: "snd r = fs \<Longrightarrow> (\<And>x. snd (k x fs) = fs) \<Longrightarrow> snd (t_bind r k) = fs"
  by (cases r; cases "fst r") (auto simp: t_bind_def)

lemma run_proc_snd: "snd (run_proc env c e fs) = snd (he_proc env c fs)"
  by (simp add: run_proc_def split: prod.splits option.splits)

lemma run_proc_tree:
  "read_only_procs env \<Longrightarrow> pcl_program c = ''grep'' \<or> pcl_program c = ''find''
     \<Longrightarrow> snd (run_proc env c e fs) = fs"
  by (auto simp: read_only_procs_def run_proc_snd)

lemma read_file_tree: "snd (read_file env input wd fs) = fs"
  unfolding read_file_def
proof (rule need_tree)
  fix p
  obtain v fs' where r: "std_read env (resolve_path p wd) fs = (v, fs')"
    by (cases "std_read env (resolve_path p wd) fs")
  with std_read_tree [of env "resolve_path p wd" fs] have "fs' = fs" by simp
  with r show "snd (case std_read env (resolve_path p wd) fs of
      (Inl e, fs') \<Rightarrow> (Inl (''read_file: '' @ he_display env (resolve_path p wd)), fs')
    | (Inr s, fs') \<Rightarrow>
        (Inr (ok_json [(''content'', JStr s), (''size'', JInt (int (length s)))]), fs')) = fs"
    by (cases v) simp_all
qed

lemma list_dir_tree: "snd (list_dir env input wd fs) = fs"
  unfolding list_dir_def Let_def by (intro t_bind_tree) simp_all

lemma file_exists_tree: "snd (file_exists env input wd fs) = fs"
  unfolding file_exists_def by (intro need_tree) simp

lemma get_file_info_tree: "snd (get_file_info env input wd fs) = fs"
  unfolding get_file_info_def Let_def
  by (intro need_tree) (simp add: os_err_def split: option.splits node.splits)

lemma grep_tree: "read_only_procs env \<Longrightarrow> snd (grep env input wd fs) = fs"
  unfolding grep_def Let_def
  by (intro need_tree t_bind_tree run_proc_tree) (simp_all add: plain_proc_def)

lemma find_files_tree: "read_only_procs env \<Longrightarrow> snd (find_files env input wd fs) = fs"
  unfolding find_files_def Let_def
  by (intro need_tree t_bind_tree run_proc_tree) (simp_all add: plain_proc_def)

lemmas reading_tools = read_file_tree list_dir_tree file_exists_tree get_file_info_tree grep_tree
  find_files_tree

lemma conductor_tool_tree:
  assumes "read_only_procs env" and "name \<in> set (ga_allowed conductor_allowlist)"
  shows "snd (run_tool name env input wd fs) = fs"
proof -
  from assms(2) have "name = ''read_file'' \<or> name = ''list_files'' \<or> name = ''list_dir''
      \<or> name = ''grep'' \<or> name = ''find_files'' \<or> name = ''file_exists'' \<or> name = ''get_file_info''"
    by (simp add: conductor_allowlist_def)
  then show ?thesis
    by (elim disjE) (simp_all only: run_tool_def if_True if_False simp_thms, simp_all add: reading_tools assms(1))
qed

definition conductor_gateway :: "host_env \<Rightarrow> hpath \<Rightarrow> string \<Rightarrow> string \<Rightarrow> tree gateway" where
  "conductor_gateway env wd sandbox_id agent_id =
     set_transport (local_transport env wd) (new_gateway Conductor conductor_allowlist sandbox_id agent_id)"

text \<open>
  Whatever calls are made through a gateway with the conductor's allowlist and the local
  transport, in any number and order, the file system stays as it was, given that the programs
  \<open>grep\<close> and \<open>find\<close> only read.
\<close>

theorem conductor_gateway_read_only:
  assumes "read_only_procs env"
  shows "foldl (\<lambda>fs call. snd (invoke (conductor_gateway env wd s a) call fs)) fs calls = fs"
proof (induction calls arbitrary: fs)
  case Nil
  then show ?case by simp
next
  case (Cons call calls)
  have "snd (invoke (conductor_gateway env wd s a) call fs) = fs"
  proof (cases "gate_allows conductor_allowlist (tcl_name call)")
    case True
    then have "tcl_name call \<in> set (ga_allowed conductor_allowlist)"
      by (rule gate_allow.allowed_only) (simp add: conductor_allowlist_def)
    from conductor_tool_tree [OF assms this]
    have "snd (execute_tool_local (tcl_name call) (tcl_args call) env wd fs) = fs"
      by (simp add: execute_tree)
    with True show ?thesis
      by (cases "execute_tool_local (tcl_name call) (tcl_args call) env wd fs")
         (simp add: invoke_def conductor_gateway_def set_transport_def new_gateway_def local_transport_def)
  next
    case False
    then show ?thesis
      by (simp add: invoke_def conductor_gateway_def set_transport_def new_gateway_def)
  qed
  with Cons show ?case by simp
qed

lemma conductor_gateway_read_only_witness:
  "foldl (\<lambda>fs call. snd (invoke (conductor_gateway demo_env [''w''] ''s'' ''a'') call fs)) demo_tree
     [\<lparr> tcl_id = ''1'', tcl_name = ''grep'', tcl_args = JObj [(''pattern'', JStr ''x'')] \<rparr>,
      \<lparr> tcl_id = ''2'', tcl_name = ''write_file'', tcl_args = demo_write ''x'' \<rparr>] = demo_tree"
  by (rule conductor_gateway_read_only) (simp add: read_only_procs_def demo_env_def)

end
