(* ===== verification/Events.thy ===== *)
theory Events
  imports Plan
begin

text \<open>
  The event bus vocabulary of \<open>mowis-orchestration/src/events.rs\<close> with the verdicts of
  \<open>critic.rs\<close>, and the digest buffer of \<open>digest.rs\<close> that condenses events for the conductor. The
  bus itself is a broadcast channel: a component that emits events is modelled by the list of events
  it emits.
\<close>

section \<open>Events\<close>

record issue =
  is_severity :: string
  is_section :: string
  is_message :: string
  is_suggested_fix :: "string option"

datatype verdict =
    Approve
  | Revise "issue list"
  | Block string "issue list"

datatype conductor_reply_kind =
    RkChat | RkPlanDrafted | RkPlanRevised | RkHotPatched | RkScopeChanged | RkAwaiting | RkError

record captain_status =
  cs_plan_id :: "plan_id option"
  cs_sandbox_id :: "string option"
  cs_in_flight :: "(task_id \<times> string \<times> u32) list"
  cs_completed :: "task_id list"
  cs_failed :: "(task_id \<times> string) list"

datatype event =
    PlanDrafted plan_id u32
  | PlanRevised plan_id u32
  | PlanSuperseded plan_id plan_id
  | PlanApproved plan_id
  | ConductorReply conductor_reply_kind string
  | CriticReviewing plan_id u32
  | CriticVerdict plan_id u32 verdict
  | UserApproved plan_id
  | UserOverride plan_id
  | UserCancelled plan_id
  | UserMessageReceived string
  | CaptainStarted plan_id string
  | CrewStarted plan_id task_id string
  | CrewToolSummary string string string bool
  | CrewDone plan_id string string
  | CrewFailed plan_id string string
  | MergeStarted plan_id string
  | MergeCompleted plan_id string
  | TaskInjected plan_id task_id string
  | PlanCompleted plan_id
  | PlanFailed plan_id string
  | CaptainStatusUpdate captain_status
  | ConversationEnded
  | CaptainShutdown string plan_status
  | StreamToken string
  | StreamDone
  | TokensUsed string string u32 u32 string

section \<open>The digest buffer\<close>

text \<open>A buffered event carries its time of arrival.\<close>

record digest =
  dg_events :: "(event \<times> string) list"
  dg_capacity :: nat
  dg_dropped_count :: u64

definition new_digest :: "nat \<Rightarrow> digest" where
  "new_digest cap = \<lparr> dg_events = [], dg_capacity = cap, dg_dropped_count = 0 \<rparr>"

definition digest_push :: "event \<times> string \<Rightarrow> digest \<Rightarrow> digest" where
  "digest_push e d =
     (let d' = (if dg_capacity d \<le> length (dg_events d)
                then d\<lparr> dg_events := tl (dg_events d), dg_dropped_count := dg_dropped_count d + 1 \<rparr>
                else d)
      in d'\<lparr> dg_events := dg_events d' @ [e] \<rparr>)"

fun is_relevant :: "event \<Rightarrow> bool" where
  "is_relevant (CrewToolSummary _ _ _ _) = True"
| "is_relevant (CrewDone _ _ _) = True"
| "is_relevant (CrewFailed _ _ _) = True"
| "is_relevant (CrewStarted _ _ _) = True"
| "is_relevant (MergeCompleted _ _) = True"
| "is_relevant (TaskInjected _ _ _) = True"
| "is_relevant (PlanCompleted _) = True"
| "is_relevant (PlanFailed _ _) = True"
| "is_relevant _ = False"

text \<open>The counters and lines that \<open>drain_markdown\<close> collects in its loop over the events.\<close>

record tally =
  ty_lines :: "string list"
  ty_tool_calls :: nat
  ty_crews_done :: nat
  ty_crews_failed :: nat
  ty_crews_running :: "string set"
  ty_last_files :: "string list"
  ty_merges_completed :: nat
  ty_tasks_injected :: nat

definition empty_tally :: tally where
  "empty_tally = \<lparr> ty_lines = [], ty_tool_calls = 0, ty_crews_done = 0, ty_crews_failed = 0,
     ty_crews_running = {}, ty_last_files = [], ty_merges_completed = 0, ty_tasks_injected = 0 \<rparr>"

fun tally_event :: "event \<Rightarrow> tally \<Rightarrow> tally" where
  "tally_event (CrewToolSummary _ text _ _) t =
     t\<lparr> ty_tool_calls := ty_tool_calls t + 1, ty_last_files := ty_last_files t @ [text] \<rparr>"
| "tally_event (CrewDone _ agent_id summary) t =
     t\<lparr> ty_crews_done := ty_crews_done t + 1, ty_crews_running := ty_crews_running t - {agent_id},
        ty_lines := ty_lines t @ [''- Crew finished: '' @ summary] \<rparr>"
| "tally_event (CrewFailed _ agent_id reason) t =
     t\<lparr> ty_crews_failed := ty_crews_failed t + 1, ty_crews_running := ty_crews_running t - {agent_id},
        ty_lines := ty_lines t @ [''- Crew failed: '' @ reason] \<rparr>"
| "tally_event (CrewStarted _ task_id agent_id) t =
     t\<lparr> ty_crews_running := insert agent_id (ty_crews_running t),
        ty_lines := ty_lines t @ [''- Crew started task '' @ task_id] \<rparr>"
| "tally_event (MergeCompleted _ agent_id) t =
     t\<lparr> ty_merges_completed := ty_merges_completed t + 1,
        ty_lines := ty_lines t @ [''- Merged overlay for '' @ agent_id] \<rparr>"
| "tally_event (TaskInjected _ task_id reason) t =
     t\<lparr> ty_tasks_injected := ty_tasks_injected t + 1,
        ty_lines := ty_lines t @ [''- Task '' @ task_id @ '' injected: '' @ reason] \<rparr>"
| "tally_event (PlanCompleted plan_id) t =
     t\<lparr> ty_lines := ty_lines t @ [''- Plan '' @ plan_id @ '' completed!''] \<rparr>"
| "tally_event (PlanFailed plan_id reason) t =
     t\<lparr> ty_lines := ty_lines t @ [''- Plan '' @ plan_id @ '' failed: '' @ reason] \<rparr>"
| "tally_event _ t = t"

definition tally_of :: "event list \<Rightarrow> tally" where
  "tally_of es = fold tally_event es empty_tally"

definition line_if :: "bool \<Rightarrow> string \<Rightarrow> string" where
  "line_if b s = (if b then s @ [newline] else [])"

definition render_tally :: "tally \<Rightarrow> u64 \<Rightarrow> string" where
  "render_tally t dropped =
     ''While you were away:'' @ [newline, newline]
     @ line_if (0 < ty_tool_calls t) (''- '' @ show_nat (ty_tool_calls t) @ '' tool calls across ''
         @ show_nat (ty_crews_done t + card (ty_crews_running t)) @ '' crews'')
     @ line_if (0 < ty_crews_done t) (''- '' @ show_nat (ty_crews_done t) @ '' crews finished'')
     @ line_if (ty_crews_running t \<noteq> {})
         (''- '' @ show_nat (card (ty_crews_running t)) @ '' crews still running'')
     @ line_if (0 < ty_crews_failed t) (''- '' @ show_nat (ty_crews_failed t) @ '' crews failed'')
     @ line_if (0 < ty_merges_completed t)
         (''- '' @ show_nat (ty_merges_completed t) @ '' merges completed'')
     @ line_if (0 < ty_tasks_injected t)
         (''- '' @ show_nat (ty_tasks_injected t) @ '' tasks injected mid-run'')
     @ line_if (ty_last_files t \<noteq> [])
         (''- Recent activity: '' @ join_str ''; '' (take 5 (rev (ty_last_files t))))
     @ line_if (0 < dropped)
         (''- '' @ show_nat (unat dropped) @ '' dropped events (digest buffer overflow)'')
     @ concat (map (\<lambda>l. l @ [newline]) (ty_lines t))"

definition drain_markdown :: "digest \<Rightarrow> string \<times> digest" where
  "drain_markdown d =
     (if dg_events d = [] \<and> dg_dropped_count d = 0 then ([], d)
      else (render_tally (tally_of (map fst (dg_events d))) (dg_dropped_count d),
            d\<lparr> dg_dropped_count := 0 \<rparr>))"

section \<open>The buffer is bounded and keeps the newest events\<close>

lemma digest_push_contents:
  "0 < dg_capacity d \<Longrightarrow> length (dg_events d) \<le> dg_capacity d \<Longrightarrow>
   dg_events (digest_push e d) = last_n (dg_capacity d) (dg_events d @ [e])"
  by (cases "dg_events d") (auto simp: digest_push_def last_n_def Let_def)

lemma digest_push_capacity: "dg_capacity (digest_push e d) = dg_capacity d"
  by (simp add: digest_push_def Let_def)

interpretation digest_buffer:
  counted_buffer digest_push dg_events dg_capacity dg_dropped_count
  by unfold_locales
     (simp_all add: digest_push_capacity digest_push_contents, simp add: digest_push_def Let_def)

text \<open>
  C8. After any sequence of events a digest of positive capacity holds exactly the newest ones, as
  many as fit, in their order, and counts the others as dropped (modulo 2 to the power 64): no event is
  lost uncounted.
\<close>

theorem digest_keeps_newest:
  assumes "0 < cap"
  shows "dg_events (fold digest_push es (new_digest cap)) = last_n cap es
    \<and> dg_dropped_count (fold digest_push es (new_digest cap)) = of_nat (length es - cap)"
  using digest_buffer.contents_pushes [of "new_digest cap" es]
    digest_buffer.dropped_pushes [of "new_digest cap" es] assms
  by (simp add: new_digest_def)

lemma digest_keeps_newest_witness:
  "dg_events (fold digest_push [(StreamDone, ''1''), (StreamDone, ''2''), (StreamDone, ''3'')]
     (new_digest 2)) = [(StreamDone, ''2''), (StreamDone, ''3'')]
   \<and> dg_dropped_count (fold digest_push [(StreamDone, ''1''), (StreamDone, ''2''), (StreamDone, ''3'')]
     (new_digest 2)) = 1"
  using digest_keeps_newest [of 2 "[(StreamDone, ''1''), (StreamDone, ''2''), (StreamDone, ''3'')]"]
  by (simp add: last_n_def)

section \<open>What a digest reports\<close>

text \<open>
  The numbers of the digest are the numbers of the events of each kind, and a crew runs if it was
  started after its last end.
\<close>

lemma tally_counts:
  "ty_tool_calls (fold tally_event es t)
     = ty_tool_calls t + length (filter (\<lambda>e. case e of CrewToolSummary _ _ _ _ \<Rightarrow> True | _ \<Rightarrow> False) es)"
  "ty_crews_done (fold tally_event es t)
     = ty_crews_done t + length (filter (\<lambda>e. case e of CrewDone _ _ _ \<Rightarrow> True | _ \<Rightarrow> False) es)"
  "ty_crews_failed (fold tally_event es t)
     = ty_crews_failed t + length (filter (\<lambda>e. case e of CrewFailed _ _ _ \<Rightarrow> True | _ \<Rightarrow> False) es)"
  "ty_merges_completed (fold tally_event es t)
     = ty_merges_completed t + length (filter (\<lambda>e. case e of MergeCompleted _ _ \<Rightarrow> True | _ \<Rightarrow> False) es)"
  "ty_tasks_injected (fold tally_event es t)
     = ty_tasks_injected t + length (filter (\<lambda>e. case e of TaskInjected _ _ _ \<Rightarrow> True | _ \<Rightarrow> False) es)"
proof (induction es arbitrary: t)
  case Nil
  { case 1 then show ?case by simp next case 2 then show ?case by simp next
    case 3 then show ?case by simp next case 4 then show ?case by simp next
    case 5 then show ?case by simp }
next
  case (Cons e es)
  { case 1 show ?case by (cases e) (simp_all add: Cons.IH(1)) next
    case 2 show ?case by (cases e) (simp_all add: Cons.IH(2)) next
    case 3 show ?case by (cases e) (simp_all add: Cons.IH(3)) next
    case 4 show ?case by (cases e) (simp_all add: Cons.IH(4)) next
    case 5 show ?case by (cases e) (simp_all add: Cons.IH(5)) }
qed

lemma tally_ignores_irrelevant: "\<not> is_relevant e \<Longrightarrow> tally_event e t = t"
  by (cases e) auto

lemma tally_relevant: "fold tally_event (filter is_relevant es) t = fold tally_event es t"
  by (induction es arbitrary: t) (auto simp: tally_ignores_irrelevant)

text \<open>
  Draining does not empty the buffer: it resets the dropped count and keeps the events, so that
  a second digest with no event in between reports the same events again. The subscriber's filter
  loses nothing: the report of the relevant events is the report of all of them.
\<close>

theorem drain_repeats:
  "dg_events (snd (drain_markdown d)) = dg_events d
   \<and> dg_dropped_count (snd (drain_markdown d)) = 0
   \<and> (dg_events d \<noteq> [] \<longrightarrow>
        fst (drain_markdown (snd (drain_markdown d))) = render_tally (tally_of (map fst (dg_events d))) 0)
   \<and> tally_of (filter is_relevant es) = tally_of es"
  by (simp add: drain_markdown_def tally_of_def tally_relevant)

lemma drain_repeats_witness:
  "fst (drain_markdown (snd (drain_markdown (digest_push (CrewDone ''p'' ''a'' ''ok'', ''t'') (new_digest 4)))))
     = render_tally (tally_of [CrewDone ''p'' ''a'' ''ok'']) 0"
  using drain_repeats [of "digest_push (CrewDone ''p'' ''a'' ''ok'', ''t'') (new_digest 4)"]
  by (simp add: digest_push_def new_digest_def)

end
