(* ===== verification/Review.thy ===== *)
theory Review
  imports Events Config
begin

text \<open>
  The critic (\<open>mowis-orchestration/src/critic.rs\<close>): how a response of the model becomes a verdict,
  one review, and the reaction to what arrives on the bus. The model, the JSON parser and the TOML
  printer are parameters.
\<close>

section \<open>Verdicts\<close>

definition parse_issue :: "json \<Rightarrow> issue option" where
  "parse_issue v =
     (case (jget_str v ''severity'', jget_str v ''section'', jget_str v ''message'') of
        (Some sev, Some sec, Some msg) \<Rightarrow>
          Some \<lparr> is_severity = sev, is_section = sec, is_message = msg,
                 is_suggested_fix = jget_str v ''suggested_fix'' \<rparr>
      | _ \<Rightarrow> None)"

definition parse_issues :: "json \<Rightarrow> issue list" where
  "parse_issues parsed =
     (case Option.bind (jget parsed ''issues'') jarr of
        None \<Rightarrow> [] | Some arr \<Rightarrow> List.map_filter parse_issue arr)"

definition unparsed_issue :: issue where
  "unparsed_issue = \<lparr> is_severity = ''warn'', is_section = ''overview.md'',
     is_message = ''Critic response could not be parsed; requesting a revision so the plan is reviewed again.'',
     is_suggested_fix = None \<rparr>"

definition parse_verdict :: "(string \<Rightarrow> json option) \<Rightarrow> string \<Rightarrow> verdict" where
  "parse_verdict parse response =
     (case parse response of
        None \<Rightarrow> Revise [unparsed_issue]
      | Some parsed \<Rightarrow>
          (let v = unwrap_or ''revise'' (jget_str parsed ''verdict'') in
           if v = ''approve'' then Approve
           else if v = ''revise'' then Revise (parse_issues parsed)
           else if v = ''block'' then
             Block (unwrap_or ''plan blocked by critic'' (jget_str parsed ''reason'')) (parse_issues parsed)
           else Revise (parse_issues parsed)))"

text \<open>
  The critic approves only on an explicit approval: the verdict is \<open>Approve\<close> exactly when the
  response is JSON whose \<open>verdict\<close> is the string "approve". It blocks exactly on "block", and on
  everything else, text that is no JSON and unknown verdicts included, it asks for a revision.
\<close>

theorem approve_only_explicit:
  "(parse_verdict parse r = Approve
      \<longleftrightarrow> Option.bind (parse r) (\<lambda>v. jget_str v ''verdict'') = Some ''approve'')
   \<and> ((\<exists>why is. parse_verdict parse r = Block why is)
      \<longleftrightarrow> Option.bind (parse r) (\<lambda>v. jget_str v ''verdict'') = Some ''block'')
   \<and> ((\<exists>is. parse_verdict parse r = Revise is)
      \<longleftrightarrow> Option.bind (parse r) (\<lambda>v. jget_str v ''verdict'') \<notin> {Some ''approve'', Some ''block''})"
  by (cases "parse r"; cases "jget_str (the (parse r)) ''verdict''")
     (auto simp: parse_verdict_def Let_def)

lemma parse_issues_length: "length (parse_issues v) \<le> length (unwrap_or [] (Option.bind (jget v ''issues'') jarr))"
proof -
  have "length (List.map_filter f xs) \<le> length xs" for f :: "json \<Rightarrow> issue option" and xs
    by (induction xs) (auto simp: List.map_filter_simps split: option.splits)
  then show ?thesis by (simp add: parse_issues_def split: option.splits)
qed

section \<open>One review and the loop over the bus\<close>

record critic_env =
  cr_crypto :: crypto_env
  cr_random :: string
  cr_cfg :: orch_config
  cr_codec :: codec
  cr_prompt :: string
  cr_parse :: "string \<Rightarrow> json option"
  cr_llm :: "llm_config \<Rightarrow> string \<Rightarrow> string \<Rightarrow> orch_error + string"

definition plan_context :: "codec \<Rightarrow> plan \<Rightarrow> string" where
  "plan_context c p =
     ''# Plan Overview'' @ [newline, newline] @ pl_overview p @ [newline, newline]
     @ ''# Tasks'' @ [newline, newline] @ unwrap_or [] (enc_tasks c (pl_task_graph p)) @ [newline, newline]
     @ ''# Sandbox Config'' @ [newline, newline] @ unwrap_or [] (enc_sandbox c (pl_sandbox_config p))
     @ [newline, newline]
     @ ''# Models Config'' @ [newline, newline] @ unwrap_or [] (enc_models c (pl_models_config p))"

definition review_once :: "critic_env \<Rightarrow> plan \<Rightarrow> verdict fs_action" where
  "review_once env p =
     fs_bind (llm_for (cr_crypto env) (cr_random env) (cr_cfg env) Critic) (\<lambda>lc.
       case cr_llm env lc (cr_prompt env) (plan_context (cr_codec env) p) of
         Inl e \<Rightarrow> fs_fail e
       | Inr response \<Rightarrow> fs_return (parse_verdict (cr_parse env) response))"

datatype received = Received event | Lagged nat | Closed

text \<open>
  The reaction of \<open>Critic::run\<close> to one message of the bus: the events it emits and whether the loop
  goes on. Errors are logged and the loop continues; a closed bus ends it.
\<close>

definition critic_step ::
  "critic_env \<Rightarrow> io \<Rightarrow> received \<Rightarrow> nat \<times> fs \<Rightarrow> event list \<times> bool \<times> (nat \<times> fs)" where
  "critic_step env io r s =
     (case r of
        Received (PlanDrafted pid version) \<Rightarrow>
          (case load (cr_codec env) (snd s) (oc_plans_dir (cr_cfg env)) pid of
             Inl e \<Rightarrow> ([CriticReviewing pid version], True, s)
           | Inr p \<Rightarrow>
               (case review_once env p io (fst s) (snd s) of
                  (Inl e, s') \<Rightarrow> ([CriticReviewing pid version], True, s')
                | (Inr v, s') \<Rightarrow> ([CriticReviewing pid version, CriticVerdict pid version v], True, s')))
      | Received _ \<Rightarrow> ([], True, s)
      | Lagged n \<Rightarrow> ([], True, s)
      | Closed \<Rightarrow> ([], False, s))"

fun critic_run :: "critic_env \<Rightarrow> io \<Rightarrow> received list \<Rightarrow> nat \<times> fs \<Rightarrow> event list" where
  "critic_run env io [] s = []"
| "critic_run env io (r # rs) s =
     (case critic_step env io r s of
        (es, go_on, s') \<Rightarrow> es @ (if go_on then critic_run env io rs s' else []))"

lemma critic_step_events:
  "critic_step env io r s = (es, go_on, s') \<Longrightarrow>
     (es = [] \<and> (\<forall>pid v. r \<noteq> Received (PlanDrafted pid v)) \<and> (go_on \<longleftrightarrow> r \<noteq> Closed))
     \<or> (\<exists>pid v. r = Received (PlanDrafted pid v) \<and> go_on
          \<and> (es = [CriticReviewing pid v] \<or> (\<exists>w. es = [CriticReviewing pid v, CriticVerdict pid v w])))"
  by (auto simp: critic_step_def split: received.splits event.splits sum.splits prod.splits)

text \<open>
  The critic answers every drafted plan and nothing else: until the bus closes, the reviews it
  announces are the drafts it received, in their order, with their versions, and a verdict on a plan
  is only ever given for a draft of that plan and version that it has received; a plan that cannot be
  loaded or a model that fails costs no later review.
\<close>

theorem critic_reviews_every_draft:
  assumes "Closed \<notin> set rs"
  shows "filter (\<lambda>e. case e of CriticReviewing _ _ \<Rightarrow> True | _ \<Rightarrow> False) (critic_run env io rs s)
       = List.map_filter (\<lambda>r. case r of Received (PlanDrafted pid v) \<Rightarrow> Some (CriticReviewing pid v)
           | _ \<Rightarrow> None) rs
    \<and> (\<forall>pid v w. CriticVerdict pid v w \<in> set (critic_run env io rs s)
         \<longrightarrow> Received (PlanDrafted pid v) \<in> set rs)"
  using assms
proof (induction rs arbitrary: s)
  case Nil
  then show ?case by (simp add: List.map_filter_simps)
next
  case (Cons r rs)
  obtain es go_on s' where st: "critic_step env io r s = (es, go_on, s')"
    by (cases "critic_step env io r s")
  from critic_step_events [OF st] show ?case
  proof (elim disjE exE conjE)
    assume "es = []" "\<forall>pid v. r \<noteq> Received (PlanDrafted pid v)" "go_on = (r \<noteq> Closed)"
    with Cons st show ?thesis
      by (auto simp: List.map_filter_simps split: received.splits event.splits)
  next
    fix pid v assume "r = Received (PlanDrafted pid v)" "go_on" "es = [CriticReviewing pid v]"
    with Cons st show ?thesis by (auto simp: List.map_filter_simps)
  next
    fix pid v w assume "r = Received (PlanDrafted pid v)" "go_on"
      "es = [CriticReviewing pid v, CriticVerdict pid v w]"
    with Cons st show ?thesis by (auto simp: List.map_filter_simps)
  qed
qed

definition demo_critic :: critic_env where
  "demo_critic = \<lparr> cr_crypto = demo_crypto, cr_random = ''r'', cr_cfg = default_config,
     cr_codec = demo_codec, cr_prompt = ''prompt'',
     cr_parse = (\<lambda>s. if s = ''ok'' then Some (JObj [(''verdict'', JStr ''approve'')]) else None),
     cr_llm = (\<lambda>_ _ _. Inr ''ok'') \<rparr>"

lemma critic_reviews_every_draft_witness:
  "filter (\<lambda>e. case e of CriticReviewing _ _ \<Rightarrow> True | _ \<Rightarrow> False)
     (critic_run demo_critic (\<lambda>_. IoOk)
        [Received (PlanDrafted ''p1'' 1), Received StreamDone, Lagged 3, Received (PlanDrafted ''p2'' 2)]
        (0, Map.empty))
   = [CriticReviewing ''p1'' 1, CriticReviewing ''p2'' 2]"
  using critic_reviews_every_draft
    [of "[Received (PlanDrafted ''p1'' 1), Received StreamDone, Lagged 3, Received (PlanDrafted ''p2'' 2)]"
      demo_critic "\<lambda>_. IoOk" "(0, Map.empty)"]
  by (simp add: List.map_filter_simps)

end
