(* ===== verification/Copying.thy ===== *)
theory Copying
  imports Host_Tools
begin

text \<open>
  The two recursive copies: \<open>copy_tree\<close> of \<open>conductor.rs\<close>, by which the user's project receives the
  sandbox, and \<open>copy_dir_recursive\<close> of \<open>merger.rs\<close> (and, the same text, of
  \<open>mowis-executor/src/sandbox.rs\<close>), by which an agent's overlay is merged into its base. The source
  is a snapshot of a directory tree; the destination is the file system of \<open>Host_Tools\<close>. The two
  trees are disjoint, as the upper directory of an overlay and its base are.
\<close>

section \<open>Directory trees\<close>

datatype dirtree = DFile string | DDir "(string \<times> dirtree) list"

type_synonym entries = "(string \<times> dirtree) list"

section \<open>\<open>copy_tree\<close>\<close>

definition skip :: "string \<Rightarrow> bool" where
  "skip name \<longleftrightarrow> name \<in> {''node_modules'', ''target'', ''.git'', ''dist'', ''.mowis''}"

text \<open>\<open>recurse\<close> makes its destination directory and copies the entries, counting the files.\<close>

function (sequential) copy_entries ::
  "host_env \<Rightarrow> hpath \<Rightarrow> entries \<Rightarrow> nat \<Rightarrow> tree \<Rightarrow> nat tool_result" where
  "copy_entries env dst [] n fs = (Inr n, fs)"
| "copy_entries env dst ((name, DDir es) # rest) n fs =
     (if skip name then copy_entries env dst rest n fs
      else case std_mkdirs env (dst @ [name]) fs of
             (Inl e, fs1) \<Rightarrow> (Inl e, fs1)
           | (Inr _, fs1) \<Rightarrow>
               (case copy_entries env (dst @ [name]) es n fs1 of
                  (Inl e, fs2) \<Rightarrow> (Inl e, fs2)
                | (Inr n', fs2) \<Rightarrow> copy_entries env dst rest n' fs2))"
| "copy_entries env dst ((name, DFile s) # rest) n fs =
     (if skip name then copy_entries env dst rest n fs
      else case mkdir_parent env (dst @ [name]) fs of
             (Inl e, fs1) \<Rightarrow> (Inl e, fs1)
           | (Inr _, fs1) \<Rightarrow>
               (case std_write env (dst @ [name]) s fs1 of
                  (Inl e, fs2) \<Rightarrow> (Inl e, fs2)
                | (Inr _, fs2) \<Rightarrow> copy_entries env dst rest (Suc n) fs2))"
  by pat_completeness auto

termination
  by (relation "measure (\<lambda>(env, dst, es, n, fs). size_list (size_prod (\<lambda>_. 0) size) es)") auto

text \<open>A missing source (\<open>None\<close>) is copied without effect.\<close>

definition copy_tree :: "host_env \<Rightarrow> entries option \<Rightarrow> hpath \<Rightarrow> tree \<Rightarrow> nat tool_result" where
  "copy_tree env src dst fs =
     (case src of
        None \<Rightarrow> (Inr 0, fs)
      | Some es \<Rightarrow> t_bind (std_mkdirs env dst fs) (\<lambda>_ fs1. copy_entries env dst es 0 fs1))"

section \<open>\<open>copy_dir_recursive\<close>\<close>

text \<open>
  The recursion passes \<open>dst_base\<close> on while the path of an entry is taken relative to the directory
  it is in. The list of changed paths is threaded through.
\<close>

function (sequential) copy_dir_entries ::
  "host_env \<Rightarrow> hpath \<Rightarrow> entries \<Rightarrow> string list \<Rightarrow> tree \<Rightarrow> string list tool_result" where
  "copy_dir_entries env dst_base [] changed fs = (Inr changed, fs)"
| "copy_dir_entries env dst_base ((name, DDir es) # rest) changed fs =
     (case std_mkdirs env (dst_base @ [name]) fs of
        (Inl e, fs1) \<Rightarrow> (Inl e, fs1)
      | (Inr _, fs1) \<Rightarrow>
          (case copy_dir_entries env dst_base es changed fs1 of
             (Inl e, fs2) \<Rightarrow> (Inl e, fs2)
           | (Inr changed', fs2) \<Rightarrow> copy_dir_entries env dst_base rest changed' fs2))"
| "copy_dir_entries env dst_base ((name, DFile s) # rest) changed fs =
     (case mkdir_parent env (dst_base @ [name]) fs of
        (Inl e, fs1) \<Rightarrow> (Inl e, fs1)
      | (Inr _, fs1) \<Rightarrow>
          (case std_write env (dst_base @ [name]) s fs1 of
             (Inl e, fs2) \<Rightarrow> (Inl e, fs2)
           | (Inr _, fs2) \<Rightarrow> copy_dir_entries env dst_base rest (changed @ [name]) fs2))"
  by pat_completeness auto

termination
  by (relation "measure (\<lambda>(env, dst, es, n, fs). size_list (size_prod (\<lambda>_. 0) size) es)") auto

definition copy_dir_recursive ::
  "host_env \<Rightarrow> entries option \<Rightarrow> hpath \<Rightarrow> tree \<Rightarrow> string list tool_result" where
  "copy_dir_recursive env src dst_base fs =
     (case src of None \<Rightarrow> (Inr [], fs) | Some es \<Rightarrow> copy_dir_entries env dst_base es [] fs)"

section \<open>What \<open>copy_tree\<close> copies\<close>

text \<open>The files it is to copy, with their paths relative to the source.\<close>

function (sequential) kept_files :: "entries \<Rightarrow> (hpath \<times> string) list" where
  "kept_files [] = []"
| "kept_files ((name, DDir es) # rest) =
     (if skip name then [] else map (\<lambda>(p, s). (name # p, s)) (kept_files es)) @ kept_files rest"
| "kept_files ((name, DFile s) # rest) =
     (if skip name then [] else [([name], s)]) @ kept_files rest"
  by pat_completeness auto

termination by (relation "measure (\<lambda>es. size_list (size_prod (\<lambda>_. 0) size) es)") auto

text \<open>The names in every directory are distinct.\<close>

function (sequential) distinct_names :: "entries \<Rightarrow> bool" where
  "distinct_names [] = True"
| "distinct_names ((name, DDir es) # rest) =
     (name \<notin> set (map fst rest) \<and> distinct_names es \<and> distinct_names rest)"
| "distinct_names ((name, DFile s) # rest) = (name \<notin> set (map fst rest) \<and> distinct_names rest)"
  by pat_completeness auto

termination by (relation "measure (\<lambda>es. size_list (size_prod (\<lambda>_. 0) size) es)") auto

lemma kept_files_head: "(p, s) \<in> set (kept_files es) \<Longrightarrow> p \<noteq> [] \<and> hd p \<in> set (map fst es)"
  by (induction es arbitrary: p rule: kept_files.induct) (auto split: if_splits)

text \<open>What the copy of some entries into \<open>dst\<close> may change.\<close>

definition within :: "hpath \<Rightarrow> string set \<Rightarrow> hpath \<Rightarrow> bool" where
  "within dst names q \<longleftrightarrow> (\<exists>name\<in>names. prefix (dst @ [name]) q)"

lemma within_mono: "within dst A q \<Longrightarrow> A \<subseteq> B \<Longrightarrow> within dst B q"
  by (auto simp: within_def)

lemma mkdirs_within:
  assumes "dirs_above dst fs" and "std_mkdirs env (dst @ [name]) fs = (Inr (), fs')"
  shows "dirs_above (dst @ [name]) fs'"
    and "\<not> prefix (dst @ [name]) q \<Longrightarrow> lookup fs' q = lookup fs q"
proof -
  have "dirs_above (dst @ [name]) fs' \<and> (\<not> prefix (dst @ [name]) q \<longrightarrow> lookup fs' q = lookup fs q)"
  proof (cases rule: std_mkdirs_cases [of env "dst @ [name]" fs])
    case (err e)
    with assms(2) show ?thesis by simp
  next
    case (ok fs1)
    with assms show ?thesis by (auto simp: dirs_above_iff prefix_snoc)
  qed
  then show "dirs_above (dst @ [name]) fs'"
    and "\<not> prefix (dst @ [name]) q \<Longrightarrow> lookup fs' q = lookup fs q" by auto
qed

lemma dirs_above_same:
  "dirs_above dst fs \<Longrightarrow> (\<And>q. prefix q dst \<Longrightarrow> lookup fs' q = lookup fs q) \<Longrightarrow> dirs_above dst fs'"
  by (simp add: dirs_above_iff is_dir_def)

lemma within_above: "within dst A q \<Longrightarrow> \<not> prefix q dst"
  by (auto simp: within_def dest!: prefix_length_le)

lemma not_below: "prefix (q :: hpath) dst \<Longrightarrow> \<not> prefix (dst @ [name]) q"
  using within_above [of dst "{name}" q] by (auto simp: within_def)

lemma within_inside: "\<not> prefix d q \<Longrightarrow> \<not> within d A q"
  unfolding within_def using append_prefixD by blast

lemma mkdir_parent_present:
  "dirs_above dst fs \<Longrightarrow> mkdir_parent env (dst @ [name]) fs = (Inr (), fs)"
  by (simp add: mkdir_parent_def parent_def std_mkdirs_present)

lemma std_write_ok:
  assumes "std_write env (dst @ [name]) s fs = (Inr (), fs')"
  shows "lookup fs' (dst @ [name]) = Some (File s)"
    and "q \<noteq> dst @ [name] \<Longrightarrow> lookup fs' q = lookup fs q"
  using assms by (auto simp: std_write_def os_err_def split: if_splits)

text \<open>
  A successful copy counts the kept files, gives each of them its contents at its own place, and
  changes nothing but what lies at or below the entries.
\<close>

definition copied :: "hpath \<Rightarrow> entries \<Rightarrow> tree \<Rightarrow> tree \<Rightarrow> bool" where
  "copied dst es fs fs' \<longleftrightarrow>
     (\<forall>(p, s)\<in>set (kept_files es). lookup fs' (dst @ p) = Some (File s))
     \<and> (\<forall>q. \<not> within dst (set (map fst es)) q \<longrightarrow> lookup fs' q = lookup fs q)"

lemma copied_dirs: "copied dst es fs fs' \<Longrightarrow> dirs_above dst fs \<Longrightarrow> dirs_above dst fs'"
  unfolding copied_def by (rule dirs_above_same) (use within_above in blast)+

text \<open>The copy of one entry followed by that of the others.\<close>

lemma copied_Cons:
  assumes files: "\<forall>(p, s)\<in>set fl. lookup fs1 (dst @ name # p) = Some (File s)"
    and frame: "\<And>q. \<not> prefix (dst @ [name]) q \<Longrightarrow> lookup fs1 q = lookup fs q"
    and rest: "copied dst rest fs1 fs'" and fresh: "name \<notin> set (map fst rest)"
    and kept: "kept_files (e # rest) = map (\<lambda>(p, s). (name # p, s)) fl @ kept_files rest"
    and e: "fst e = name"
  shows "copied dst (e # rest) fs fs'"
proof -
  have keep: "lookup fs' (dst @ name # p) = lookup fs1 (dst @ name # p)" for p
  proof -
    have "\<not> within dst (set (map fst rest)) (dst @ name # p)"
      using fresh by (auto simp: within_def)
    with rest show ?thesis unfolding copied_def by blast
  qed
  have "lookup fs' (dst @ p) = Some (File s)" if "(p, s) \<in> set (kept_files (e # rest))" for p s
    using that kept files rest by (auto simp: keep copied_def)
  moreover have "lookup fs' q = lookup fs q" if "\<not> within dst (set (map fst (e # rest))) q" for q
  proof -
    from that e have "\<not> prefix (dst @ [name]) q" "\<not> within dst (set (map fst rest)) q"
      by (auto simp: within_def)
    with frame rest show ?thesis by (simp add: copied_def)
  qed
  ultimately show ?thesis by (auto simp: copied_def)
qed

lemma copy_entries_copied:
  assumes "copy_entries env dst es n fs = (Inr m, fs')" and "dirs_above dst fs" and "distinct_names es"
  shows "m = n + length (kept_files es) \<and> copied dst es fs fs'"
  using assms
proof (induction env dst es n fs arbitrary: m fs' rule: copy_entries.induct)
  case (1 env dst n fs)
  then show ?case by (simp add: copied_def)
next
  case (2 env dst name es rest n fs)
  show ?case
  proof (cases "skip name")
    case True
    with 2 have "m = n + length (kept_files rest) \<and> copied dst rest fs fs'" by simp
    with True show ?thesis by (auto simp: copied_def within_def)
  next
    case False
    from "2.prems"(1) False obtain fs1 n' fs2 where mk: "std_mkdirs env (dst @ [name]) fs = (Inr (), fs1)"
      and inner: "copy_entries env (dst @ [name]) es n fs1 = (Inr n', fs2)"
      and outer: "copy_entries env dst rest n' fs2 = (Inr m, fs')"
      by (auto split: prod.splits sum.splits)
    note mkw = mkdirs_within [OF "2.prems"(2) mk]
    have i: "n' = n + length (kept_files es) \<and> copied (dst @ [name]) es fs1 fs2"
      using "2.IH"(2) [OF False mk [symmetric] refl inner mkw(1)] "2.prems"(3) by simp
    have frame: "lookup fs2 q = lookup fs q" if "\<not> prefix (dst @ [name]) q" for q
    proof -
      have "\<not> within (dst @ [name]) (set (map fst es)) q"
        using that by (rule within_inside)
      with i mkw(2) [OF that] show ?thesis by (simp add: copied_def)
    qed
    have "dirs_above dst fs2"
      using "2.prems"(2) by (rule dirs_above_same) (intro frame not_below)
    then have r: "m = n' + length (kept_files rest) \<and> copied dst rest fs2 fs'"
      using "2.IH"(3) [OF False mk [symmetric] refl inner [symmetric] refl outer] "2.prems"(3) by simp
    have "copied dst ((name, DDir es) # rest) fs fs'"
      by (rule copied_Cons [where fl = "kept_files es" and ?fs1.0 = fs2 and name = name])
         (use i r frame "2.prems"(3) False in \<open>auto simp: copied_def\<close>)
    with i r False show ?thesis by simp
  qed
next
  case (3 env dst name s rest n fs)
  show ?case
  proof (cases "skip name")
    case True
    with 3 have "m = n + length (kept_files rest) \<and> copied dst rest fs fs'" by simp
    with True show ?thesis by (auto simp: copied_def within_def)
  next
    case False
    note mk = mkdir_parent_present [OF "3.prems"(2), of env name]
    from "3.prems"(1) False mk obtain fs2 where w: "std_write env (dst @ [name]) s fs = (Inr (), fs2)"
      and outer: "copy_entries env dst rest (Suc n) fs2 = (Inr m, fs')"
      by (auto split: prod.splits sum.splits)
    have frame: "lookup fs2 q = lookup fs q" if "\<not> prefix (dst @ [name]) q" for q
      using that by (intro std_write_ok(2) [OF w]) auto
    have "dirs_above dst fs2"
      using "3.prems"(2) by (rule dirs_above_same) (intro frame not_below)
    then have r: "m = Suc n + length (kept_files rest) \<and> copied dst rest fs2 fs'"
      using "3.IH"(2) [OF False mk [symmetric] refl w [symmetric] refl outer] "3.prems"(3) by simp
    have "copied dst ((name, DFile s) # rest) fs fs'"
      by (rule copied_Cons [where fl = "[([], s)]" and ?fs1.0 = fs2 and name = name])
         (use r frame "3.prems"(3) False std_write_ok(1) [OF w] in auto)
    with r False show ?thesis by simp
  qed
qed


definition demo_source :: entries where
  "demo_source = [(''src'', DDir [(''a.js'', DFile ''A'')]), (''target'', DDir [(''x'', DFile ''X'')]),
     (''b.md'', DFile ''B'')]"


section \<open>What a merge of an overlay does\<close>

function (sequential) leaf_names :: "entries \<Rightarrow> string list" where
  "leaf_names [] = []"
| "leaf_names ((name, DDir es) # rest) = leaf_names es @ leaf_names rest"
| "leaf_names ((name, DFile s) # rest) = name # leaf_names rest"
  by pat_completeness auto

termination by (relation "measure (\<lambda>es. size_list (size_prod (\<lambda>_. 0) size) es)") auto

definition child :: "hpath \<Rightarrow> hpath \<Rightarrow> bool" where
  "child d q \<longleftrightarrow> q \<noteq> [] \<and> butlast q = d"

lemma child_snoc [simp]: "child d (d @ [x])"
  by (simp add: child_def)

lemma child_not_above: "prefix q d \<Longrightarrow> \<not> child d q"
  by (cases q rule: rev_cases) (auto simp: child_def dest: prefix_length_le)

lemma mkdirs_child:
  assumes "dirs_above dst fs" and "std_mkdirs env (dst @ [name]) fs = (Inr (), fs')"
    and "\<not> child dst q"
  shows "lookup fs' q = lookup fs q"
proof (cases rule: std_mkdirs_cases [of env "dst @ [name]" fs])
  case (err e)
  with assms(2) show ?thesis by simp
next
  case (ok fs1)
  with assms show ?thesis by (auto simp: dirs_above_iff prefix_snoc)
qed

lemma copy_dir_entries_flat:
  assumes "copy_dir_entries env dst es changed fs = (Inr changed', fs')" and "dirs_above dst fs"
  shows "changed' = changed @ leaf_names es \<and> (\<forall>q. \<not> child dst q \<longrightarrow> lookup fs' q = lookup fs q)"
  using assms
proof (induction env dst es changed fs arbitrary: changed' fs' rule: copy_dir_entries.induct)
  case (1 env dst changed fs)
  then show ?case by simp
next
  case (2 env dst name es rest changed fs)
  from "2.prems"(1) obtain fs1 c fs2 where mk: "std_mkdirs env (dst @ [name]) fs = (Inr (), fs1)"
    and inner: "copy_dir_entries env dst es changed fs1 = (Inr c, fs2)"
    and outer: "copy_dir_entries env dst rest c fs2 = (Inr changed', fs')"
    by (auto split: prod.splits sum.splits)
  note f1 = mkdirs_child [OF "2.prems"(2) mk]
  have d1: "dirs_above dst fs1"
    using "2.prems"(2) by (rule dirs_above_same) (intro f1 child_not_above)
  have i: "c = changed @ leaf_names es \<and> (\<forall>q. \<not> child dst q \<longrightarrow> lookup fs2 q = lookup fs1 q)"
    by (rule "2.IH"(1) [OF mk [symmetric] refl inner d1])
  have "dirs_above dst fs2"
    using d1 by (rule dirs_above_same) (use i child_not_above in blast)
  from "2.IH"(2) [OF mk [symmetric] refl inner [symmetric] refl outer this] i f1
  show ?case by simp
next
  case (3 env dst name s rest changed fs)
  note mk = mkdir_parent_present [OF "3.prems"(2), of env name]
  from "3.prems"(1) mk obtain fs2 where w: "std_write env (dst @ [name]) s fs = (Inr (), fs2)"
    and outer: "copy_dir_entries env dst rest (changed @ [name]) fs2 = (Inr changed', fs')"
    by (auto split: prod.splits sum.splits)
  have f: "lookup fs2 q = lookup fs q" if "\<not> child dst q" for q
    using that by (intro std_write_ok(2) [OF w]) auto
  have "dirs_above dst fs2"
    using "3.prems"(2) by (rule dirs_above_same) (intro f child_not_above)
  from "3.IH" [OF mk [symmetric] refl w [symmetric] refl outer this] f
  show ?case by simp
qed

text \<open>
  A merge by \<open>copy_dir_recursive\<close> flattens the overlay: however deep a file lies, the merge
  reports it under its bare name, and it changes nothing but the direct children of the base, so that
  no file of a subdirectory of the overlay arrives at its place in the base.
\<close>

theorem merge_flattens_overlay:
  assumes "copy_dir_recursive env (Some es) base fs = (Inr changed, fs')" and "dirs_above base fs"
  shows "changed = leaf_names es \<and> (\<not> child base q \<longrightarrow> lookup fs' q = lookup fs q)"
  using copy_dir_entries_flat [of env base es "[]" fs changed fs'] assms
  by (simp add: copy_dir_recursive_def)

lemma merge_flattens_overlay_witness:
  "\<exists>changed fs'. copy_dir_recursive demo_env (Some demo_source) [''w''] demo_tree = (Inr changed, fs')
     \<and> changed = [''a.js'', ''x'', ''b.md'']
     \<and> lookup fs' [''w'', ''src'', ''a.js''] = None \<and> lookup fs' [''w'', ''a.js''] = Some (File ''A'')"
proof -
  note eval = copy_dir_recursive_def demo_source_def std_mkdirs_def make_dirs_def is_dir_def
    lookup_def demo_tree_def demo_env_def os_err_def mkdir_parent_def parent_def std_write_def
  have "\<exists>changed fs'. copy_dir_recursive demo_env (Some demo_source) [''w''] demo_tree = (Inr changed, fs')
      \<and> lookup fs' [''w'', ''a.js''] = Some (File ''A'')"
    by (simp add: eval)
  then obtain changed fs' where
    c: "copy_dir_recursive demo_env (Some demo_source) [''w''] demo_tree = (Inr changed, fs')"
    and a: "lookup fs' [''w'', ''a.js''] = Some (File ''A'')" by blast
  have "dirs_above [''w''] demo_tree" by (simp add: dirs_above_def is_dir_def lookup_def demo_tree_def)
  from merge_flattens_overlay [OF c this, of "[''w'', ''src'', ''a.js'']"] c a show ?thesis
    by (simp add: demo_source_def child_def lookup_def demo_tree_def)
qed

end
