(* ===== verification/Merger.thy ===== *)
theory Merger
  imports Events Copying
begin

text \<open>
  The merger of \<open>mowis-orchestration/src/merger.rs\<close>: the changes that agents record, the conflicts
  among them, and the promotion of one agent's overlay. The two hash tables are iterated in an order
  that \<open>eo\<close> (agents) and \<open>po\<close> (paths) give.
\<close>

record merge_conflict =
  mc_path :: string
  mc_agent_a :: string
  mc_agent_b :: string
  mc_resolution :: "string option"

record merge_result =
  mr_success :: bool
  mr_merged_files :: "string list"
  mr_conflicts :: "merge_conflict list"

type_synonym changes = "string \<rightharpoonup> string list"

definition record_agent_completion :: "string \<Rightarrow> string list \<Rightarrow> changes \<Rightarrow> changes" where
  "record_agent_completion agent paths ch = ch(agent \<mapsto> paths)"

text \<open>The entry of a path in \<open>file_agents\<close>: an agent for every time it lists the path.\<close>

definition file_agents :: "string list \<Rightarrow> changes \<Rightarrow> string \<Rightarrow> string list" where
  "file_agents agents ch path =
     concat (map (\<lambda>a. map (\<lambda>_. a) (filter (\<lambda>p. p = path) (unwrap_or [] (ch a)))) agents)"

definition changed_paths :: "string list \<Rightarrow> changes \<Rightarrow> string list" where
  "changed_paths agents ch = concat (map (\<lambda>a. unwrap_or [] (ch a)) agents)"

definition conflict_at :: "string list \<Rightarrow> changes \<Rightarrow> string \<Rightarrow> merge_conflict option" where
  "conflict_at agents ch path =
     (case file_agents agents ch path of
        a # b # _ \<Rightarrow>
          Some \<lparr> mc_path = path, mc_agent_a = a, mc_agent_b = b, mc_resolution = None \<rparr>
      | _ \<Rightarrow> None)"

definition merge_all ::
  "(string set \<Rightarrow> string list) \<Rightarrow> (string set \<Rightarrow> string list) \<Rightarrow> changes \<Rightarrow> merge_result" where
  "merge_all eo po ch =
     (let agents = eo (dom ch);
          paths = po (set (changed_paths agents ch));
          conflicts = List.map_filter (conflict_at agents ch) paths
      in \<lparr> mr_success = (conflicts = []), mr_merged_files = paths, mr_conflicts = conflicts \<rparr>)"

definition promote_agent ::
  "host_env \<Rightarrow> plan_id \<Rightarrow> entries option \<Rightarrow> hpath \<Rightarrow> string \<Rightarrow> tree
     \<Rightarrow> string list tool_result \<times> event list" where
  "promote_agent env pid upper base agent fs =
     (case copy_dir_recursive env upper base fs of
        (Inl e, fs') \<Rightarrow> ((Inl e, fs'), [])
      | (Inr changed, fs') \<Rightarrow> ((Inr changed, fs'), [MergeCompleted pid agent]))"

section \<open>Conflicts\<close>

lemma file_agents_length:
  "length (file_agents agents ch path) = count_list (changed_paths agents ch) path"
proof -
  have "filter (\<lambda>p. p = path) xs = filter ((=) path) xs" for xs
    by (rule arg_cong [where f = "\<lambda>P. filter P xs"]) auto
  then show ?thesis
    by (induction agents)
       (simp_all add: file_agents_def changed_paths_def count_list_eq_length_filter filter_concat)
qed

lemma conflict_at_None:
  "conflict_at agents ch path = None \<longleftrightarrow> count_list (changed_paths agents ch) path \<le> 1"
  unfolding file_agents_length [symmetric] conflict_at_def
  by (cases "file_agents agents ch path"; cases "tl (file_agents agents ch path)") auto

lemma map_filter_Nil: "List.map_filter f xs = [] \<longleftrightarrow> (\<forall>x\<in>set xs. f x = None)"
  by (induction xs) (auto simp: List.map_filter_simps split: option.splits)

lemma set_map_filter_iff: "y \<in> set (List.map_filter f xs) \<longleftrightarrow> (\<exists>x\<in>set xs. f x = Some y)"
  by (induction xs) (auto simp: List.map_filter_simps split: option.splits)

lemma distinct_count_le: "distinct xs \<longleftrightarrow> (\<forall>x. count_list xs x \<le> 1)"
proof (induction xs)
  case Nil
  then show ?case by simp
next
  case (Cons y ys)
  have "count_list ys y = 0 \<longleftrightarrow> y \<notin> set ys" by (simp add: count_list_0_iff)
  with Cons show ?case by (auto simp: le_Suc_eq)
qed

lemma pairwise_insert_sym:
  assumes sym: "\<And>a b. D a b \<Longrightarrow> D b a" and x: "x \<notin> A"
  shows "(\<forall>a\<in>insert x A. P a \<and> (\<forall>b\<in>insert x A. a \<noteq> b \<longrightarrow> D a b)) \<longleftrightarrow>
    P x \<and> (\<forall>b\<in>A. D x b) \<and> (\<forall>a\<in>A. P a \<and> (\<forall>b\<in>A. a \<noteq> b \<longrightarrow> D a b))"
proof -
  have one: "(\<forall>b\<in>insert x A. x \<noteq> b \<longrightarrow> D x b) \<longleftrightarrow> (\<forall>b\<in>A. D x b)" using x by auto
  have two: "(\<forall>b\<in>insert x A. a \<noteq> b \<longrightarrow> D a b) \<longleftrightarrow> D x a \<and> (\<forall>b\<in>A. a \<noteq> b \<longrightarrow> D a b)" if "a \<in> A" for a
    using x that sym [of a x] sym [of x a] by auto
  have "(\<forall>a\<in>insert x A. P a \<and> (\<forall>b\<in>insert x A. a \<noteq> b \<longrightarrow> D a b)) \<longleftrightarrow>
    (P x \<and> (\<forall>b\<in>A. D x b)) \<and> (\<forall>a\<in>A. P a \<and> D x a \<and> (\<forall>b\<in>A. a \<noteq> b \<longrightarrow> D a b))"
    using one two by simp
  then show ?thesis by blast
qed
lemma distinct_concat_map:
  assumes "distinct as"
  shows "distinct (concat (map f as)) \<longleftrightarrow>
    (\<forall>a\<in>set as. distinct (f a) \<and> (\<forall>b\<in>set as. a \<noteq> b \<longrightarrow> set (f a) \<inter> set (f b) = {}))"
  using assms
proof (induction as)
  case Nil
  then show ?case by simp
next
  case (Cons x as)
  have "distinct (concat (map f (x # as))) \<longleftrightarrow>
      distinct (f x) \<and> distinct (concat (map f as)) \<and> (\<forall>b\<in>set as. set (f x) \<inter> set (f b) = {})"
    by auto
  moreover have "x \<notin> set as" "distinct as" using Cons.prems by simp_all
  ultimately show ?case
    using pairwise_insert_sym [of "\<lambda>a b. set (f a) \<inter> set (f b) = {}" x "set as" "\<lambda>a. distinct (f a)"] Cons.IH
    by (simp only: list.set Int_commute) blast
qed

lemma conflict_at_agents:
  assumes "conflict_at agents ch p = Some c"
  shows "mc_path c = p" and "p \<in> set (unwrap_or [] (ch (mc_agent_a c)))"
    and "p \<in> set (unwrap_or [] (ch (mc_agent_b c)))"
proof -
  from assms obtain rest where fa: "file_agents agents ch p = mc_agent_a c # mc_agent_b c # rest"
    and "mc_path c = p" by (auto simp: conflict_at_def split: list.splits)
  have "p \<in> set (unwrap_or [] (ch a))" if "a \<in> set (file_agents agents ch p)" for a
    using that by (auto simp: file_agents_def)
  with fa \<open>mc_path c = p\<close> show "mc_path c = p" "p \<in> set (unwrap_or [] (ch (mc_agent_a c)))"
    "p \<in> set (unwrap_or [] (ch (mc_agent_b c)))" by simp_all
qed

lemma conflict_paths:
  "mc_path ` {c. \<exists>p\<in>set (changed_paths agents ch). conflict_at agents ch p = Some c}
     = {p. 1 < count_list (changed_paths agents ch) p}"
proof (intro set_eqI iffI)
  fix p assume "p \<in> mc_path ` {c. \<exists>p\<in>set (changed_paths agents ch). conflict_at agents ch p = Some c}"
  then obtain c where "conflict_at agents ch p = Some c" using conflict_at_agents(1) by auto
  then have "\<not> count_list (changed_paths agents ch) p \<le> 1" using conflict_at_None [of agents ch p] by simp
  then show "p \<in> {p. 1 < count_list (changed_paths agents ch) p}" by simp
next
  fix p assume "p \<in> {p. 1 < count_list (changed_paths agents ch) p}"
  then have two: "\<not> count_list (changed_paths agents ch) p \<le> 1" by simp
  then obtain c where c: "conflict_at agents ch p = Some c" using conflict_at_None [of agents ch p] by auto
  from two have "p \<in> set (changed_paths agents ch)"
    using count_list_0_iff [of "changed_paths agents ch" p] by force
  with c conflict_at_agents(1) [OF c]
  show "p \<in> mc_path ` {c. \<exists>p\<in>set (changed_paths agents ch). conflict_at agents ch p = Some c}" by blast
qed

lemma merge_success:
  assumes "set ps = set xs"
  shows "List.map_filter (conflict_at agents ch) ps = []
    \<longleftrightarrow> (\<forall>p\<in>set xs. count_list (changed_paths agents ch) p \<le> 1)"
  using assms by (simp only: map_filter_Nil conflict_at_None)



end
