(* ===== verification/Summaries.thy ===== *)
theory Summaries
  imports Gateway
begin

text \<open>
  The summaries of tool calls that the user sees (\<open>mowis-orchestration/src/summaries.rs\<close>). A result
  \<open>None\<close> is a panic: \<open>truncate\<close> slices its text at a byte index, which panics inside a character.
\<close>

section \<open>Outcomes\<close>

datatype tool_outcome =
    OutcomeOk json
  | OutcomeErr string
  | OutcomeDenied

fun outcome_is_ok :: "tool_outcome \<Rightarrow> bool" where
  "outcome_is_ok (OutcomeOk _) = True"
| "outcome_is_ok _ = False"

fun ok_value :: "tool_outcome \<Rightarrow> json option" where
  "ok_value (OutcomeOk v) = Some v"
| "ok_value _ = None"

definition outcome_of :: "json \<Rightarrow> tool_outcome" where
  "outcome_of v =
     (case jget v ''error'' of
        None \<Rightarrow> OutcomeOk v
      | Some err \<Rightarrow> (case jstr err of Some msg \<Rightarrow> OutcomeErr msg | None \<Rightarrow> OutcomeOk v))"

section \<open>Texts\<close>

definition truncate_text :: "string \<Rightarrow> nat \<Rightarrow> string option" where
  "truncate_text s n =
     (if length s \<le> n then Some s
      else if char_boundary s n then Some (take n s @ ''...'') else None)"

text \<open>
  \<open>n as f64\<close> rounds to 53 significant bits, and \<open>{:.1}\<close> to a tenth, both to the nearest value and to
  the even one of two that are equally near. The divisions by powers of 1024 are exact.
\<close>

definition div_half_even :: "nat \<Rightarrow> nat \<Rightarrow> nat" where
  "div_half_even n d =
     (let q = n div d; r = n mod d in
      if 2 * r < d then q else if d < 2 * r then q + 1 else q + q mod 2)"

fun bit_length :: "nat \<Rightarrow> nat" where
  "bit_length n = (if n = 0 then 0 else Suc (bit_length (n div 2)))"

declare bit_length.simps [simp del]

definition as_f64 :: "nat \<Rightarrow> nat" where
  "as_f64 n = (let e = bit_length n - 53 in div_half_even n (2 ^ e) * 2 ^ e)"

definition tenths :: "nat \<Rightarrow> nat \<Rightarrow> string" where
  "tenths n d =
     (let t = div_half_even (10 * as_f64 n) d in show_nat (t div 10) @ ''.'' @ show_nat (t mod 10))"

definition human_bytes :: "nat \<Rightarrow> string" where
  "human_bytes n =
     (if n < 1024 then show_nat n @ '' B''
      else if n < 1024 * 1024 then tenths n 1024 @ '' KB''
      else if n < 1024 * 1024 * 1024 then tenths n (1024 * 1024) @ '' MB''
      else tenths n (1024 * 1024 * 1024) @ '' GB'')"

definition ascii_upper :: "char \<Rightarrow> char" where
  "ascii_upper c =
     (let n = (of_char c :: nat) in if 97 \<le> n \<and> n \<le> 122 then char_of (n - 32) else c)"

section \<open>\<open>summarize\<close>\<close>

definition err_tail :: "tool_outcome \<Rightarrow> string option" where
  "err_tail outcome =
     (case outcome of
        OutcomeErr e \<Rightarrow> map_option (\<lambda>t. '' (FAILED: '' @ t @ '')'') (truncate_text e 60)
      | OutcomeDenied \<Rightarrow> Some '' (DENIED by tool whitelist)''
      | OutcomeOk _ \<Rightarrow> Some [])"

definition arg_str :: "tool_call \<Rightarrow> string \<Rightarrow> string \<Rightarrow> string" where
  "arg_str call k d = unwrap_or d (jget_str (tcl_args call) k)"

definition outcome_get :: "tool_outcome \<Rightarrow> string \<Rightarrow> json option" where
  "outcome_get outcome k = Option.bind (ok_value outcome) (\<lambda>v. jget v k)"

definition outcome_u64 :: "tool_outcome \<Rightarrow> string \<Rightarrow> nat option" where
  "outcome_u64 outcome k = Option.bind (outcome_get outcome k) ju64"

definition quote :: "string \<Rightarrow> string" where
  "quote s = CHR 0x27 # s @ [CHR 0x27]"

definition http_names :: "string list" where
  "http_names = [''http_get'', ''http_post'', ''http_put'', ''http_delete'', ''http_patch'']"

text \<open>The text, given the tail that tells an error.\<close>

definition read_summary :: "tool_call \<Rightarrow> tool_outcome \<Rightarrow> string \<Rightarrow> string" where
  "read_summary call outcome tail =
     (let path = arg_str call ''path'' ''<unknown>'' in
      if outcome_is_ok outcome
      then ''Agent read '' @ path @ '' ('' @ unwrap_or ''?'' (map_option human_bytes (outcome_u64 outcome ''size'')) @ '')''
      else ''Agent tried to read '' @ path @ tail)"

definition written_lines :: "tool_call \<Rightarrow> nat" where
  "written_lines call =
     unwrap_or 0 (map_option (\<lambda>s. length (str_lines s))
       (Option.bind (case jget (tcl_args call) ''contents'' of
            Some v \<Rightarrow> Some v | None \<Rightarrow> jget (tcl_args call) ''content'') jstr))"

definition write_summary :: "tool_call \<Rightarrow> tool_outcome \<Rightarrow> string \<Rightarrow> string" where
  "write_summary call outcome tail =
     (let path = arg_str call ''path'' ''<unknown>'' in
      if outcome_is_ok outcome
      then ''Agent wrote '' @ show_nat (written_lines call) @ '' lines to '' @ path
      else ''Agent tried to write to '' @ path @ tail)"

definition list_summary :: "tool_call \<Rightarrow> tool_outcome \<Rightarrow> string \<Rightarrow> string" where
  "list_summary call outcome tail =
     (let path = arg_str call ''path'' ''.'';
          n = unwrap_or 0 (map_option length (Option.bind (outcome_get outcome ''entries'') jarr)) in
      if outcome_is_ok outcome then ''Agent listed '' @ show_nat n @ '' entries in '' @ path
      else ''Agent tried to list '' @ path @ tail)"

definition search_summary :: "tool_call \<Rightarrow> tool_outcome \<Rightarrow> string \<Rightarrow> string option" where
  "search_summary call outcome tail =
     (let pattern = arg_str call ''pattern'' ''<unknown>''; path = arg_str call ''path'' ''.'';
          n = unwrap_or 0 (outcome_u64 outcome ''count'') in
      if outcome_is_ok outcome
      then map_option (\<lambda>t. ''Agent searched for `'' @ t @ ''` in '' @ path @ '' ('' @ show_nat n @ '' matches)'')
             (truncate_text pattern 40)
      else Some (''Agent tried to search for `'' @ pattern @ ''`'' @ tail))"

definition commit_summary :: "tool_call \<Rightarrow> tool_outcome \<Rightarrow> string \<Rightarrow> string option" where
  "commit_summary call outcome tail =
     (let n = unwrap_or 0 (outcome_u64 outcome ''files_changed'') in
      if outcome_is_ok outcome
      then map_option (\<lambda>t. ''Agent committed: '' @ quote t @ '' ('' @ show_nat n @ '' files)'')
             (truncate_text (arg_str call ''message'' []) 50)
      else Some (''Agent tried to commit'' @ tail))"

definition http_summary :: "tool_call \<Rightarrow> tool_outcome \<Rightarrow> string \<Rightarrow> string option" where
  "http_summary call outcome tail =
     (let url = arg_str call ''url'' ''<unknown>''; verb = map ascii_upper (drop 5 (tcl_name call));
          status = unwrap_or [] (map_option (\<lambda>s. '' ('' @ show_nat s @ '')'') (outcome_u64 outcome ''status'')) in
      if outcome_is_ok outcome
      then map_option (\<lambda>t. ''Agent fetched '' @ verb @ '' '' @ t @ status) (truncate_text url 60)
      else Some (''Agent tried to fetch '' @ verb @ '' '' @ url @ tail))"

text \<open>The tools whose text is one phrase for success and another for failure.\<close>

definition phrase :: "tool_outcome \<Rightarrow> string \<Rightarrow> string \<Rightarrow> string \<Rightarrow> string" where
  "phrase outcome yes no tail = (if outcome_is_ok outcome then yes else no @ tail)"

definition summary_text :: "tool_call \<Rightarrow> tool_outcome \<Rightarrow> string \<Rightarrow> string option" where
  "summary_text call outcome tail =
     (let name = tcl_name call; path = arg_str call ''path'' ''<unknown>'' in
      if name = ''run_command'' \<or> name = ''shell_exec'' then
        map_option (\<lambda>t. ''Agent ran a terminal command: `'' @ t @ ''`'' @ tail)
          (truncate_text (arg_str call ''cmd'' ''<unknown>'') 80)
      else if name = ''read_file'' then Some (read_summary call outcome tail)
      else if name = ''write_file'' then Some (write_summary call outcome tail)
      else if name = ''append_file'' then
        Some (phrase outcome (''Agent appended to '' @ path) (''Agent tried to append to '' @ path) tail)
      else if name = ''list_files'' \<or> name = ''list_dir'' then Some (list_summary call outcome tail)
      else if name = ''grep'' \<or> name = ''find_files'' then search_summary call outcome tail
      else if name = ''git_commit'' then commit_summary call outcome tail
      else if name = ''git_diff'' then Some (''Agent diffed '' @ arg_str call ''path'' ''(repo)'' @ tail)
      else if name = ''git_status'' then Some (''Agent checked git status'' @ tail)
      else if name = ''git_add'' then Some (''Agent staged files'' @ tail)
      else if name \<in> set http_names then http_summary call outcome tail
      else if name = ''docker_run'' then
        map_option (\<lambda>t. ''Agent ran docker container: '' @ arg_str call ''image'' ''<unknown>'' @ '' '' @ t @ tail)
          (truncate_text (arg_str call ''cmd'' []) 40)
      else if name = ''apply_patch'' then
        Some (phrase outcome (''Agent applied patch to '' @ path) (''Agent failed to apply patch to '' @ path) tail)
      else if name = ''delete_file'' then
        Some (phrase outcome (''Agent deleted '' @ path) (''Agent tried to delete '' @ path) tail)
      else if name = ''create_directory'' then
        Some (phrase outcome (''Agent created directory '' @ path) (''Agent tried to create directory '' @ path) tail)
      else if name = ''copy_file'' then
        (let ft = arg_str call ''from'' ''<unknown>'' @ '' to '' @ arg_str call ''to'' ''<unknown>'' in
         Some (phrase outcome (''Agent copied '' @ ft) (''Agent tried to copy '' @ ft) tail))
      else if name = ''run_script'' then
        (let script = arg_str call ''path'' ''<inline>'' in
         Some (phrase outcome (''Agent ran script '' @ script) (''Agent script '' @ script @ '' failed'') tail))
      else Some (''Agent invoked `'' @ name @ ''`'' @ tail))"

definition summarize :: "tool_call \<Rightarrow> tool_outcome \<Rightarrow> string option" where
  "summarize call outcome = Option.bind (err_tail outcome) (summary_text call outcome)"

section \<open>When a summary panics\<close>

definition cuttable :: "string \<Rightarrow> nat \<Rightarrow> bool" where
  "cuttable s n \<longleftrightarrow> length s \<le> n \<or> char_boundary s n"

lemma truncate_text_None [simp]: "truncate_text s n = None \<longleftrightarrow> \<not> cuttable s n"
  by (simp add: truncate_text_def cuttable_def)

text \<open>The texts that a summary cuts, with the length it cuts them to.\<close>

definition cut_texts :: "tool_call \<Rightarrow> tool_outcome \<Rightarrow> (string \<times> nat) list" where
  "cut_texts call outcome =
     (let name = tcl_name call; ok = outcome_is_ok outcome in
      if name = ''run_command'' \<or> name = ''shell_exec'' then [(arg_str call ''cmd'' ''<unknown>'', 80)]
      else if name = ''docker_run'' then [(arg_str call ''cmd'' [], 40)]
      else if ok \<and> (name = ''grep'' \<or> name = ''find_files'') then [(arg_str call ''pattern'' ''<unknown>'', 40)]
      else if ok \<and> name = ''git_commit'' then [(arg_str call ''message'' [], 50)]
      else if ok \<and> name \<in> set http_names then [(arg_str call ''url'' ''<unknown>'', 60)]
      else [])"

lemma summary_text_None:
  "summary_text call outcome tail = None \<longleftrightarrow> (\<exists>(s, n)\<in>set (cut_texts call outcome). \<not> cuttable s n)"
  unfolding summary_text_def cut_texts_def Let_def
  by (simp add: search_summary_def commit_summary_def http_summary_def http_names_def Let_def
      split: if_split)

lemma cuttable_ascii:
  assumes "\<forall>c\<in>set s. (of_char c :: nat) < 128"
  shows "cuttable s n"
proof (cases "length s \<le> n")
  case False
  with assms have "(of_char (s ! n) :: nat) < 128" by simp
  with False show ?thesis by (simp add: cuttable_def char_boundary_def continuation_byte_def)
qed (simp add: cuttable_def)

lemma truncate_text_length: "truncate_text s n = Some t \<Longrightarrow> length t \<le> n + 3"
  by (auto simp: truncate_text_def split: if_splits)

lemma summarize_None:
  "summarize call outcome = None \<longleftrightarrow>
     (\<exists>e. outcome = OutcomeErr e \<and> \<not> cuttable e 60)
     \<or> (\<exists>(s, n)\<in>set (cut_texts call outcome). \<not> cuttable s n)"
proof (cases outcome)
  case (OutcomeErr e)
  then have "err_tail outcome = None \<longleftrightarrow> \<not> cuttable e 60" by (simp add: err_tail_def)
  then show ?thesis
    by (cases "err_tail outcome") (auto simp: OutcomeErr summarize_def summary_text_None)
qed (auto simp: summarize_def err_tail_def summary_text_None)

text \<open>
  A summary panics exactly when it cuts a text in the middle of a character: an error text after 60
  bytes, or, depending on the tool, its command, pattern, message or URL after the length the code
  gives. In particular it is defined for every call whose texts are ASCII.
\<close>

theorem summarize_panics_iff:
  "(summarize call outcome = None \<longleftrightarrow>
     (\<exists>e. outcome = OutcomeErr e \<and> \<not> cuttable e 60)
     \<or> (\<exists>(s, n)\<in>set (cut_texts call outcome). \<not> cuttable s n))
   \<and> ((\<forall>c\<in>set s. (of_char c :: nat) < 128) \<longrightarrow> cuttable s n)"
  by (intro conjI summarize_None impI) (rule cuttable_ascii)

definition euro_call :: tool_call where
  "euro_call = \<lparr> tcl_id = ''1'', tcl_name = ''run_command'',
     tcl_args = JObj [(''cmd'', JStr (replicate 79 CHR ''a'' @ [CHR 0xE2, CHR 0x82, CHR 0xAC]))] \<rparr>"

lemma summarize_panics_iff_witness: "summarize euro_call (OutcomeOk (JObj [])) = None"
proof -
  have "cut_texts euro_call (OutcomeOk (JObj []))
      = [(replicate 79 CHR ''a'' @ [CHR 0xE2, CHR 0x82, CHR 0xAC], 80)]"
    by (simp add: cut_texts_def euro_call_def arg_str_def jget_str_def)
  moreover have "\<not> cuttable (replicate 79 CHR ''a'' @ [CHR 0xE2, CHR 0x82, CHR 0xAC]) 80"
    by (simp add: cuttable_def char_boundary_def continuation_byte_def nth_append)
  ultimately show ?thesis by (simp add: summarize_panics_iff [THEN conjunct1])
qed

end
