(* ===== verification/Utf8.thy ===== *)
theory Utf8
  imports Prelude
begin

text \<open>
  \<open>String::from_utf8_lossy\<close> on lists of bytes: a byte sequence that is not a character of UTF-8 becomes
  the replacement character, one for each maximal prefix of a character. The decoder gives the length
  of the next character, or of the prefix it replaces.
\<close>

section \<open>The decoder\<close>

abbreviation byte_nat :: "char \<Rightarrow> nat" where
  "byte_nat c \<equiv> of_char c"

text \<open>The bytes that may come second after a first byte; \<open>None\<close> if the byte starts no longer character.\<close>

definition second_range :: "char \<Rightarrow> (nat \<times> nat) option" where
  "second_range c =
     (let n = byte_nat c in
      if 0xC2 \<le> n \<and> n \<le> 0xDF then Some (0x80, 0xBF)
      else if n = 0xE0 then Some (0xA0, 0xBF)
      else if 0xE1 \<le> n \<and> n \<le> 0xEC \<or> n = 0xEE \<or> n = 0xEF then Some (0x80, 0xBF)
      else if n = 0xED then Some (0x80, 0x9F)
      else if n = 0xF0 then Some (0x90, 0xBF)
      else if 0xF1 \<le> n \<and> n \<le> 0xF3 then Some (0x80, 0xBF)
      else if n = 0xF4 then Some (0x80, 0x8F)
      else None)"

definition char_width :: "char \<Rightarrow> nat" where
  "char_width c = (let n = byte_nat c in if n < 0x80 then 1 else if n < 0xE0 then 2 else if n < 0xF0 then 3 else 4)"

definition is_cont :: "char \<Rightarrow> bool" where
  "is_cont c \<longleftrightarrow> 0x80 \<le> byte_nat c \<and> byte_nat c \<le> 0xBF"

text \<open>
  Whether the string starts with a character, and how many bytes the step consumes: for a character
  of two bytes or more, the third and the fourth byte.
\<close>

definition utf8_tail :: "nat \<Rightarrow> string \<Rightarrow> bool \<times> nat" where
  "utf8_tail w rest =
     (if w = 2 then (True, 2)
      else case rest of
        [] \<Rightarrow> (False, 2)
      | c3 # rest3 \<Rightarrow>
          if \<not> is_cont c3 then (False, 2)
          else if w = 3 then (True, 3)
          else case rest3 of
            [] \<Rightarrow> (False, 3)
          | c4 # _ \<Rightarrow> if \<not> is_cont c4 then (False, 3) else (True, 4))"

definition utf8_step :: "string \<Rightarrow> bool \<times> nat" where
  "utf8_step s =
     (case s of
        [] \<Rightarrow> (True, 0)
      | c # rest \<Rightarrow>
          if byte_nat c < 0x80 then (True, 1)
          else case second_range c of
            None \<Rightarrow> (False, 1)
          | Some (lo, hi) \<Rightarrow>
              (case rest of
                 [] \<Rightarrow> (False, 1)
               | c2 # rest2 \<Rightarrow>
                   if \<not> (lo \<le> byte_nat c2 \<and> byte_nat c2 \<le> hi) then (False, 1)
                   else utf8_tail (char_width c) rest2))"

definition replacement :: string where
  "replacement = [CHR 0xEF, CHR 0xBF, CHR 0xBD]"

lemma utf8_tail_bounds: "0 < snd (utf8_tail w rest) \<and> snd (utf8_tail w rest) \<le> 2 + length rest"
  by (auto simp: utf8_tail_def split: list.split)

lemma utf8_step_pos: "s \<noteq> [] \<Longrightarrow> 0 < snd (utf8_step s)"
  using utf8_tail_bounds by (auto simp: utf8_step_def split: list.split option.split)

lemma utf8_step_le: "snd (utf8_step s) \<le> length s"
  using utf8_tail_bounds by (auto simp: utf8_step_def split: list.split option.split)

function utf8_lossy :: "string \<Rightarrow> string" where
  "utf8_lossy s =
     (if s = [] then []
      else (if fst (utf8_step s) then take (snd (utf8_step s)) s else replacement)
        @ utf8_lossy (drop (snd (utf8_step s)) s))"
  by pat_completeness auto
termination
  by (relation "measure length") (simp_all add: utf8_step_pos diff_less)

declare utf8_lossy.simps [simp del]

lemma utf8_lossy_Nil [simp]: "utf8_lossy [] = []"
  by (subst utf8_lossy.simps) simp

section \<open>Valid text\<close>

function utf8_valid :: "string \<Rightarrow> bool" where
  "utf8_valid s =
     (if s = [] then True
      else if fst (utf8_step s) then utf8_valid (drop (snd (utf8_step s)) s) else False)"
  by pat_completeness auto
termination
  by (relation "measure length") (simp_all add: utf8_step_pos diff_less)

declare utf8_valid.simps [simp del]

lemma utf8_valid_Nil [simp]: "utf8_valid []"
  by (subst utf8_valid.simps) simp

lemma utf8_lossy_valid: "utf8_valid s \<Longrightarrow> utf8_lossy s = s"
proof (induction s rule: utf8_lossy.induct)
  case (1 s)
  show ?case
  proof (cases "s = []")
    case False
    with "1.prems" have v: "fst (utf8_step s)" "utf8_valid (drop (snd (utf8_step s)) s)"
      by (simp_all add: utf8_valid.simps [of s] split: if_splits)
    with False "1.IH" show ?thesis by (simp add: utf8_lossy.simps [of s])
  qed simp
qed

lemma utf8_tail_append: "fst (utf8_tail w rest) \<Longrightarrow> utf8_tail w (rest @ t) = utf8_tail w rest"
  by (auto simp: utf8_tail_def split: list.splits if_splits)

lemma utf8_step_append:
  "fst (utf8_step s) \<Longrightarrow> s \<noteq> [] \<Longrightarrow> utf8_step (s @ t) = utf8_step s"
  by (auto simp: utf8_step_def utf8_tail_append split: list.splits option.splits if_splits)

lemma utf8_valid_append: "utf8_valid s \<Longrightarrow> utf8_valid t \<Longrightarrow> utf8_valid (s @ t)"
proof (induction s rule: utf8_lossy.induct)
  case (1 s)
  show ?case
  proof (cases "s = []")
    case False
    with "1.prems" have v: "fst (utf8_step s)" "utf8_valid (drop (snd (utf8_step s)) s)"
      by (simp_all add: utf8_valid.simps [of s] split: if_splits)
    have "drop (snd (utf8_step s)) (s @ t) = drop (snd (utf8_step s)) s @ t"
      using utf8_step_le [of s] by simp
    with False v "1.IH" "1.prems"(2) show ?thesis
      by (simp add: utf8_valid.simps [of "s @ t"] utf8_step_append)
  qed (use 1 in simp)
qed

lemma utf8_lossy_ascii: "byte_nat c < 128 \<Longrightarrow> utf8_lossy (c # s) = c # utf8_lossy s"
  by (simp add: utf8_lossy.simps [of "c # s"] utf8_step_def)

lemma utf8_lossy_bad:
  "utf8_step (c # s) = (False, 1) \<Longrightarrow> utf8_lossy (c # s) = replacement @ utf8_lossy s"
  by (simp add: utf8_lossy.simps [of "c # s"])

lemma utf8_valid_ascii: "\<forall>c\<in>set s. byte_nat c < 128 \<Longrightarrow> utf8_valid s"
proof (induction s)
  case (Cons c s)
  then have "utf8_step (c # s) = (True, 1)" by (simp add: utf8_step_def)
  with Cons show ?case by (simp add: utf8_valid.simps [of "c # s"])
qed simp

end
