(* ===== verification/Providers.thy ===== *)
theory Providers
  imports Config Gateway Utf8
begin

text \<open>
  The clients of the language models (\<open>mowis-orchestration/src/providers.rs\<close>): the conversation, the
  retries, and for each of the three APIs the requests, the replies and the streams of events. Sending a
  request, the JSON text layer, the \<open>gcloud\<close> process and the clock are fields of the environment; an
  error is the text that \<open>to_string\<close> gives, so \<open>context\<close> replaces the text of the error it wraps. The
  floats of a request are passed on as their decimal text.
\<close>

section \<open>Conversations\<close>

datatype conv_message =
    MUser string
  | MAssistantText string
  | MAssistantToolCalls "tool_call list"
  | MToolResults "(string \<times> string \<times> json) list"

type_synonym conversation = "conv_message list"

definition push_user :: "string \<Rightarrow> conversation \<Rightarrow> conversation" where
  "push_user text conv = conv @ [MUser text]"

definition push_assistant :: "string \<Rightarrow> conversation \<Rightarrow> conversation" where
  "push_assistant text conv = conv @ [MAssistantText text]"

definition push_assistant_tool_calls :: "tool_call list \<Rightarrow> conversation \<Rightarrow> conversation" where
  "push_assistant_tool_calls calls conv = conv @ [MAssistantToolCalls calls]"

definition push_tool_results :: "(tool_call \<times> json) list \<Rightarrow> conversation \<Rightarrow> conversation" where
  "push_tool_results results conv =
     conv @ [MToolResults (map (\<lambda>(tc, r). (tcl_id tc, tcl_name tc, r)) results)]"

definition round_count :: "conversation \<Rightarrow> nat" where
  "round_count conv =
     length (filter (\<lambda>m. case m of MAssistantToolCalls _ \<Rightarrow> True | _ \<Rightarrow> False) conv)"

record token_usage =
  tu_input :: u32
  tu_output :: u32

record agent_round =
  ar_text :: "string option"
  ar_tool_calls :: "tool_call list"
  ar_usage :: token_usage

definition is_final :: "agent_round \<Rightarrow> bool" where
  "is_final r \<longleftrightarrow> ar_tool_calls r = []"

record cache_hints =
  ch_system :: bool
  ch_tools :: bool
  ch_history_up_to :: "nat option"

definition no_hints :: cache_hints where
  "no_hints = \<lparr> ch_system = False, ch_tools = False, ch_history_up_to = None \<rparr>"

definition conductor_hints :: cache_hints where
  "conductor_hints = \<lparr> ch_system = True, ch_tools = True, ch_history_up_to = None \<rparr>"

fun show_provider :: "provider \<Rightarrow> string" where
  "show_provider VertexAi = ''vertex_ai''"
| "show_provider Grok = ''grok''"
| "show_provider Groq = ''groq''"
| "show_provider Anthropic = ''anthropic''"
| "show_provider OpenAi = ''openai''"
| "show_provider Gemini = ''gemini''"
| "show_provider Mimo = ''mimo''"

section \<open>The environment\<close>

record http_request =
  hr_url :: string
  hr_headers :: "(string \<times> string) list"
  hr_body :: json
  hr_timeout_s :: nat

record http_response =
  hp_success :: bool
  hp_status :: string
  hp_text :: "string option"
  hp_json :: "string + json"
  hp_chunks :: "(string + string) list"

text \<open>\<open>pe_send n\<close> is what the \<open>n\<close>-th attempt to send gives.\<close>

record provider_env =
  pe_send :: "nat \<Rightarrow> http_request \<Rightarrow> string + http_response"
  pe_to_string :: "json \<Rightarrow> string option"
  pe_from_str :: "string \<Rightarrow> json option"
  pe_lower :: "string \<Rightarrow> string"
  pe_config_loads :: bool
  pe_gcloud :: "string option"
  pe_nanos :: "nat \<Rightarrow> nat"

definition with_context :: "string \<Rightarrow> string + 'a \<Rightarrow> string + 'a" where
  "with_context ctx r = (case r of Inl _ \<Rightarrow> Inl ctx | Inr x \<Rightarrow> Inr x)"

definition ok_or :: "'e \<Rightarrow> 'a option \<Rightarrow> 'e + 'a" where
  "ok_or e x = (case x of None \<Rightarrow> Inl e | Some v \<Rightarrow> Inr v)"

definition to_text :: "provider_env \<Rightarrow> json \<Rightarrow> string" where
  "to_text env v = unwrap_or [] (pe_to_string env v)"

section \<open>Retries\<close>

definition is_retryable_error :: "provider_env \<Rightarrow> string \<Rightarrow> bool" where
  "is_retryable_error env err =
     list_ex (\<lambda>pat. contains_sub pat (pe_lower env err))
       [''timeout'', ''connection reset'', ''connection refused'', ''broken pipe'', ''eof'', ''dns'']"

definition MAX_LLM_RETRIES :: nat where
  "MAX_LLM_RETRIES = 3"

text \<open>\<open>with_retry\<close> from an attempt on, with the number of retries that are left.\<close>

fun retry_from :: "provider_env \<Rightarrow> nat \<Rightarrow> nat \<Rightarrow> (nat \<Rightarrow> string + 'a) \<Rightarrow> string + 'a" where
  "retry_from env 0 attempt f = f attempt"
| "retry_from env (Suc left) attempt f =
     (case f attempt of
        Inr result \<Rightarrow> Inr result
      | Inl e \<Rightarrow> if is_retryable_error env e then retry_from env left (Suc attempt) f else Inl e)"

definition with_retry :: "provider_env \<Rightarrow> nat \<Rightarrow> (nat \<Rightarrow> string + 'a) \<Rightarrow> string + 'a" where
  "with_retry env max_retries f = retry_from env max_retries 0 f"

section \<open>JSON paths\<close>

fun jpath :: "json \<Rightarrow> string list \<Rightarrow> json option" where
  "jpath v [] = Some v"
| "jpath v (k # ks) = Option.bind (jget v k) (\<lambda>w. jpath w ks)"

definition path_u32 :: "json \<Rightarrow> string list \<Rightarrow> u32" where
  "path_u32 v ks = of_nat (unwrap_or 0 (Option.bind (jpath v ks) ju64))"

definition usage_at :: "json \<Rightarrow> string \<Rightarrow> string \<Rightarrow> string \<Rightarrow> token_usage" where
  "usage_at v grp input output =
     \<lparr> tu_input = path_u32 v [grp, input], tu_output = path_u32 v [grp, output] \<rparr>"

text \<open>\<open>v.get(field).and_then(|c| c.get(0))\<close>.\<close>

definition first_of :: "json \<Rightarrow> string \<Rightarrow> json option" where
  "first_of v key = Option.bind (jget v key) (\<lambda>c. jnth c 0)"

section \<open>Requests\<close>

definition http_post_json ::
  "provider_env \<Rightarrow> nat \<Rightarrow> string \<Rightarrow> (string \<times> string) list \<Rightarrow> json \<Rightarrow> string \<Rightarrow> string \<Rightarrow> string + http_response" where
  "http_post_json env n url headers body ctx api =
     and_then (with_context ctx (pe_send env n
         \<lparr> hr_url = url, hr_headers = headers, hr_body = body, hr_timeout_s = 900 \<rparr>))
       (\<lambda>resp. if hp_success resp then Inr resp
          else Inl (api @ '' API error ('' @ hp_status resp @ ''): '' @ unwrap_or [] (hp_text resp)))"

definition default_gemini :: "string \<Rightarrow> string" where
  "default_gemini model = (if model = [] then ''gemini-2.5-pro'' else model)"

definition gemini_url_and_auth :: "provider_env \<Rightarrow> llm_config \<Rightarrow> string + (string \<times> string option)" where
  "gemini_url_and_auth env cfg =
     (case lc_provider cfg of
        VertexAi \<Rightarrow>
          and_then (ok_or ''Vertex AI requires project_id'' (lc_vertex_project_id cfg)) (\<lambda>project_id.
            let token = if pe_config_loads env then map_option trim (pe_gcloud env) else None in
            Inr (''https://us-central1-aiplatform.googleapis.com/v1/projects/'' @ project_id
                 @ ''/locations/us-central1/publishers/google/models/''
                 @ default_gemini (lc_model cfg) @ '':generateContent'',
               map_option (\<lambda>t. ''Bearer '' @ t) token))
      | Gemini \<Rightarrow>
          and_then (ok_or ''Gemini requires api_key'' (lc_api_key cfg)) (\<lambda>api_key.
            Inr (''https://generativelanguage.googleapis.com/v1beta/models/''
                 @ default_gemini (lc_model cfg) @ '':generateContent'',
               Some (''goog:'' @ api_key)))
      | _ \<Rightarrow> Inl ''Not a Gemini provider'')"

definition openai_compat_url_and_key :: "llm_config \<Rightarrow> string + (string \<times> string)" where
  "openai_compat_url_and_key cfg =
     and_then (ok_or (''No API key for '' @ show_provider (lc_provider cfg)) (lc_api_key cfg)) (\<lambda>key.
       case lc_provider cfg of
         OpenAi \<Rightarrow> Inr (''https://api.openai.com/v1/chat/completions'', key)
       | Grok \<Rightarrow> Inr (''https://api.x.ai/v1/chat/completions'', key)
       | Groq \<Rightarrow> Inr (''https://api.groq.com/openai/v1/chat/completions'', key)
       | Mimo \<Rightarrow> Inr (''https://token-plan-ams.xiaomimimo.com/v1/chat/completions'', key)
       | _ \<Rightarrow> Inl ''Not an OpenAI-compat provider'')"

definition anthropic_key :: "llm_config \<Rightarrow> string + string" where
  "anthropic_key cfg = ok_or ''No Anthropic API key'' (lc_api_key cfg)"

definition json_header :: "string \<times> string" where
  "json_header = (''Content-Type'', ''application/json'')"

text \<open>The authorisation header of Gemini: a key is marked by the prefix \<open>goog:\<close>.\<close>

definition gemini_headers :: "string option \<Rightarrow> (string \<times> string) list" where
  "gemini_headers auth =
     json_header # (case auth of
        None \<Rightarrow> []
      | Some h \<Rightarrow> if prefix ''goog:'' h then [(''x-goog-api-key'', drop 5 h)] else [(''Authorization'', h)])"

definition openai_headers :: "string \<Rightarrow> (string \<times> string) list" where
  "openai_headers key = [(''Authorization'', ''Bearer '' @ key), json_header]"

definition anthropic_headers :: "string \<Rightarrow> (string \<times> string) list" where
  "anthropic_headers key = [(''x-api-key'', key), (''anthropic-version'', ''2024-04-01''), json_header]"

definition anthropic_url :: string where
  "anthropic_url = ''https://api.anthropic.com/v1/messages''"

definition jtext :: "string \<Rightarrow> json" where
  "jtext t = JObj [(''text'', JStr t)]"

definition jmsg :: "string \<Rightarrow> json \<Rightarrow> json" where
  "jmsg role content = JObj [(''role'', JStr role), (''content'', content)]"

definition gemini_msg :: "string \<Rightarrow> json list \<Rightarrow> json" where
  "gemini_msg role parts = JObj [(''role'', JStr role), (''parts'', JArr parts)]"

definition ephemeral :: json where
  "ephemeral = JObj [(''type'', JStr ''ephemeral'')]"

definition anthropic_system_with_cache :: "string \<Rightarrow> json" where
  "anthropic_system_with_cache system_prompt =
     JArr [JObj [(''type'', JStr ''text''), (''text'', JStr system_prompt), (''cache_control'', ephemeral)]]"

definition anthropic_system :: "cache_hints \<Rightarrow> string \<Rightarrow> json" where
  "anthropic_system hints system_prompt =
     (if ch_system hints then anthropic_system_with_cache system_prompt else JStr system_prompt)"

section \<open>Replies\<close>

definition extract_gemini_text :: "json \<Rightarrow> string + string" where
  "extract_gemini_text resp =
     ok_or ''Gemini: unexpected response format''
       (Option.bind (first_of resp ''candidates'') (\<lambda>c.
        Option.bind (jpath c [''content'', ''parts'']) (\<lambda>parts.
        Option.bind (jarr parts) (\<lambda>arr.
          let texts = List.map_filter (\<lambda>p. jget_str p ''text'') arr in
          if texts = [] then None else Some (concat texts)))))"

definition hex_digit :: "nat \<Rightarrow> char" where
  "hex_digit d = (if d < 10 then char_of (48 + d) else char_of (87 + d))"

fun show_hex :: "nat \<Rightarrow> string" where
  "show_hex n = (if n < 16 then [hex_digit n] else show_hex (n div 16) @ [hex_digit (n mod 16)])"

declare show_hex.simps [simp del]

definition uuid_simple :: "provider_env \<Rightarrow> nat \<Rightarrow> string" where
  "uuid_simple env k = show_hex (pe_nanos env k)"

definition empty_obj :: json where
  "empty_obj = JObj []"

text \<open>The \<open>k\<close>-th call of a reply reads the clock for the \<open>k\<close>-th time.\<close>

definition gemini_call :: "provider_env \<Rightarrow> nat \<Rightarrow> json \<Rightarrow> tool_call" where
  "gemini_call env k fc =
     \<lparr> tcl_id = ''gemini-'' @ uuid_simple env k, tcl_name = unwrap_or [] (jget_str fc ''name''),
       tcl_args = unwrap_or empty_obj (jget fc ''args'') \<rparr>"

definition extract_gemini_tool_calls :: "provider_env \<Rightarrow> json \<Rightarrow> tool_call list" where
  "extract_gemini_tool_calls env resp =
     unwrap_or [] (Option.bind (first_of resp ''candidates'') (\<lambda>c.
        Option.bind (jpath c [''content'', ''parts'']) (\<lambda>parts.
        map_option (\<lambda>arr. map (\<lambda>(k, fc). gemini_call env k fc)
            (List.enumerate 0 (List.map_filter (\<lambda>p. jget p ''functionCall'') arr)))
          (jarr parts))))"

definition openai_message :: "json \<Rightarrow> json option" where
  "openai_message resp = Option.bind (first_of resp ''choices'') (\<lambda>c. jget c ''message'')"

definition openai_text :: "json \<Rightarrow> string option" where
  "openai_text resp = Option.bind (openai_message resp) (\<lambda>m. jget_str m ''content'')"

definition openai_call :: "provider_env \<Rightarrow> json \<Rightarrow> tool_call" where
  "openai_call env tc =
     \<lparr> tcl_id = unwrap_or [] (jget_str tc ''id''),
       tcl_name = unwrap_or [] (Option.bind (jpath tc [''function'', ''name'']) jstr),
       tcl_args = unwrap_or empty_obj
         (Option.bind (Option.bind (jpath tc [''function'', ''arguments'']) jstr) (pe_from_str env)) \<rparr>"

definition openai_tool_calls :: "provider_env \<Rightarrow> json \<Rightarrow> tool_call list" where
  "openai_tool_calls env resp =
     unwrap_or [] (Option.bind (openai_message resp) (\<lambda>m.
       Option.bind (jget m ''tool_calls'') (\<lambda>tc. map_option (map (openai_call env)) (jarr tc))))"

definition anthropic_content :: "json \<Rightarrow> json list option" where
  "anthropic_content resp = Option.bind (jget resp ''content'') jarr"

definition has_type :: "string \<Rightarrow> json \<Rightarrow> bool" where
  "has_type ty b \<longleftrightarrow> jget_str b ''type'' = Some ty"

definition anthropic_text :: "json \<Rightarrow> string option" where
  "anthropic_text resp =
     Option.bind (anthropic_content resp) (\<lambda>arr.
       Option.bind (find (has_type ''text'') arr) (\<lambda>b. jget_str b ''text''))"

definition anthropic_call :: "json \<Rightarrow> tool_call" where
  "anthropic_call b =
     \<lparr> tcl_id = unwrap_or [] (jget_str b ''id''), tcl_name = unwrap_or [] (jget_str b ''name''),
       tcl_args = unwrap_or empty_obj (jget b ''input'') \<rparr>"

definition anthropic_tool_calls :: "json \<Rightarrow> tool_call list" where
  "anthropic_tool_calls resp =
     unwrap_or [] (map_option (\<lambda>arr. map anthropic_call (filter (has_type ''tool_use'') arr))
       (anthropic_content resp))"

definition gemini_usage :: "json \<Rightarrow> token_usage" where
  "gemini_usage resp = usage_at resp ''usageMetadata'' ''promptTokenCount'' ''candidatesTokenCount''"

definition openai_usage :: "json \<Rightarrow> token_usage" where
  "openai_usage resp = usage_at resp ''usage'' ''prompt_tokens'' ''completion_tokens''"

definition anthropic_usage :: "json \<Rightarrow> token_usage" where
  "anthropic_usage resp = usage_at resp ''usage'' ''input_tokens'' ''output_tokens''"

section \<open>The messages of a conversation\<close>

fun gemini_message :: "conv_message \<Rightarrow> json" where
  "gemini_message (MUser text) = gemini_msg ''user'' [jtext text]"
| "gemini_message (MAssistantText text) = gemini_msg ''model'' [jtext text]"
| "gemini_message (MAssistantToolCalls calls) = gemini_msg ''model''
     (map (\<lambda>tc. JObj [(''functionCall'', JObj [(''name'', JStr (tcl_name tc)), (''args'', tcl_args tc)])]) calls)"
| "gemini_message (MToolResults results) = gemini_msg ''user''
     (map (\<lambda>(_, name, r). JObj [(''functionResponse'', JObj [(''name'', JStr name), (''response'', r)])]) results)"

definition openai_call_json :: "provider_env \<Rightarrow> tool_call \<Rightarrow> json" where
  "openai_call_json env tc =
     JObj [(''id'', JStr (tcl_id tc)), (''type'', JStr ''function''),
       (''function'', JObj [(''name'', JStr (tcl_name tc)), (''arguments'', JStr (to_text env (tcl_args tc)))])]"

fun openai_messages :: "provider_env \<Rightarrow> conv_message \<Rightarrow> json list" where
  "openai_messages env (MUser text) = [jmsg ''user'' (JStr text)]"
| "openai_messages env (MAssistantText text) = [jmsg ''assistant'' (JStr text)]"
| "openai_messages env (MAssistantToolCalls calls) =
     [JObj [(''role'', JStr ''assistant''), (''tool_calls'', JArr (map (openai_call_json env) calls))]]"
| "openai_messages env (MToolResults results) =
     map (\<lambda>(call_id, _, r). JObj [(''role'', JStr ''tool''), (''tool_call_id'', JStr call_id),
       (''content'', JStr (to_text env r))]) results"

definition anthropic_call_json :: "tool_call \<Rightarrow> json" where
  "anthropic_call_json tc =
     JObj [(''type'', JStr ''tool_use''), (''id'', JStr (tcl_id tc)), (''name'', JStr (tcl_name tc)),
       (''input'', tcl_args tc)]"

fun anthropic_message :: "provider_env \<Rightarrow> conv_message \<Rightarrow> json" where
  "anthropic_message env (MUser text) = jmsg ''user'' (JStr text)"
| "anthropic_message env (MAssistantText text) = jmsg ''assistant'' (JStr text)"
| "anthropic_message env (MAssistantToolCalls calls) =
     jmsg ''assistant'' (JArr (map anthropic_call_json calls))"
| "anthropic_message env (MToolResults results) = jmsg ''user''
     (JArr (map (\<lambda>(call_id, _, r). JObj [(''type'', JStr ''tool_result''), (''tool_use_id'', JStr call_id),
       (''content'', JStr (to_text env r))]) results))"

definition anthropic_tool :: "json \<Rightarrow> (string \<times> json) list" where
  "anthropic_tool schema =
     [(''name'', JStr (unwrap_or [] (jget_str schema ''name''))),
      (''description'', JStr (unwrap_or [] (jget_str schema ''description''))),
      (''input_schema'', unwrap_or empty_obj (jget schema ''parameters''))]"

definition cache_last :: "(string \<times> json) list list \<Rightarrow> (string \<times> json) list list" where
  "cache_last ts = (if ts = [] then [] else butlast ts @ [last ts @ [(''cache_control'', ephemeral)]])"

definition anthropic_tools :: "cache_hints \<Rightarrow> json list \<Rightarrow> json" where
  "anthropic_tools hints schemas =
     (let tools = map anthropic_tool schemas in
      JArr (map JObj (if ch_tools hints then cache_last tools else tools)))"

definition openai_tools :: "json list \<Rightarrow> json" where
  "openai_tools schemas =
     JArr (map (\<lambda>schema. JObj [(''type'', JStr ''function''), (''function'', schema)]) schemas)"

section \<open>One round of an agent\<close>

text \<open>The argument \<open>n\<close> of an operation is the number of the attempt.\<close>

definition gemini_body :: "json list \<Rightarrow> string \<Rightarrow> json \<Rightarrow> (string \<times> json) list" where
  "gemini_body contents system_prompt gen_config =
     [(''contents'', JArr contents),
      (''systemInstruction'', JObj [(''parts'', JArr [jtext system_prompt])]),
      (''generationConfig'', gen_config)]"

definition call_agent_round_gemini ::
  "provider_env \<Rightarrow> nat \<Rightarrow> llm_config \<Rightarrow> conversation \<Rightarrow> json list \<Rightarrow> string \<Rightarrow> string + agent_round" where
  "call_agent_round_gemini env n cfg conv schemas system_prompt =
     and_then (gemini_url_and_auth env cfg) (\<lambda>(url, auth).
     and_then (http_post_json env n url (gemini_headers auth)
         (JObj (gemini_body (map gemini_message conv) system_prompt
            (JObj [(''temperature'', JFloat ''0.7''), (''maxOutputTokens'', JInt 65536)])
            @ [(''tools'', JArr [JObj [(''functionDeclarations'', JArr schemas)]])]))
         ''Gemini agent round failed'' ''Gemini'') (\<lambda>resp.
     and_then (hp_json resp) (\<lambda>v.
       Inr \<lparr> ar_text = (case extract_gemini_text v of Inl _ \<Rightarrow> None | Inr t \<Rightarrow> Some t),
             ar_tool_calls = extract_gemini_tool_calls env v, ar_usage = gemini_usage v \<rparr>)))"

definition openai_body ::
  "llm_config \<Rightarrow> json list \<Rightarrow> (string \<times> json) list \<Rightarrow> json" where
  "openai_body cfg messages rest =
     JObj ((''model'', JStr (lc_model cfg)) # (''messages'', JArr messages) # rest)"

definition system_message :: "string \<Rightarrow> json" where
  "system_message system_prompt = jmsg ''system'' (JStr system_prompt)"

definition call_agent_round_openai_compat ::
  "provider_env \<Rightarrow> nat \<Rightarrow> llm_config \<Rightarrow> conversation \<Rightarrow> json list \<Rightarrow> string \<Rightarrow> string + agent_round" where
  "call_agent_round_openai_compat env n cfg conv schemas system_prompt =
     and_then (openai_compat_url_and_key cfg) (\<lambda>(url, key).
     and_then (http_post_json env n url (openai_headers key)
         (openai_body cfg (system_message system_prompt # concat (map (openai_messages env) conv))
           [(''tools'', openai_tools schemas), (''temperature'', JFloat ''0.7''), (''max_tokens'', JInt 16384)])
         ''OpenAI-compat agent round failed'' (show_provider (lc_provider cfg))) (\<lambda>resp.
     and_then (hp_json resp) (\<lambda>v.
       Inr \<lparr> ar_text = openai_text v, ar_tool_calls = openai_tool_calls env v, ar_usage = openai_usage v \<rparr>)))"

definition call_agent_round_anthropic ::
  "provider_env \<Rightarrow> nat \<Rightarrow> llm_config \<Rightarrow> conversation \<Rightarrow> json list \<Rightarrow> string \<Rightarrow> cache_hints \<Rightarrow> string + agent_round" where
  "call_agent_round_anthropic env n cfg conv schemas system_prompt hints =
     and_then (anthropic_key cfg) (\<lambda>key.
     and_then (http_post_json env n anthropic_url (anthropic_headers key)
         (JObj [(''model'', JStr (lc_model cfg)), (''system'', anthropic_system hints system_prompt),
            (''messages'', JArr (map (anthropic_message env) conv)), (''tools'', anthropic_tools hints schemas),
            (''max_tokens'', JInt 16384), (''temperature'', JFloat ''0.7'')])
         ''Anthropic agent round failed'' ''Anthropic'') (\<lambda>resp.
     and_then (hp_json resp) (\<lambda>v.
       Inr \<lparr> ar_text = anthropic_text v, ar_tool_calls = anthropic_tool_calls v, ar_usage = anthropic_usage v \<rparr>)))"

definition call_agent_round_inner ::
  "provider_env \<Rightarrow> nat \<Rightarrow> llm_config \<Rightarrow> conversation \<Rightarrow> json list \<Rightarrow> string \<Rightarrow> cache_hints \<Rightarrow> string + agent_round" where
  "call_agent_round_inner env n cfg conv schemas system_prompt hints =
     (if lc_provider cfg \<in> {VertexAi, Gemini} then
        call_agent_round_gemini env n cfg conv schemas system_prompt
      else if lc_provider cfg \<in> {OpenAi, Grok, Groq, Mimo} then
        call_agent_round_openai_compat env n cfg conv schemas system_prompt
      else call_agent_round_anthropic env n cfg conv schemas system_prompt hints)"

definition call_agent_round_with_hints ::
  "provider_env \<Rightarrow> llm_config \<Rightarrow> conversation \<Rightarrow> json list \<Rightarrow> string \<Rightarrow> cache_hints \<Rightarrow> string + agent_round" where
  "call_agent_round_with_hints env cfg conv schemas system_prompt hints =
     with_retry env MAX_LLM_RETRIES (\<lambda>n. call_agent_round_inner env n cfg conv schemas system_prompt hints)"

definition call_agent_round ::
  "provider_env \<Rightarrow> llm_config \<Rightarrow> conversation \<Rightarrow> json list \<Rightarrow> string \<Rightarrow> string + agent_round" where
  "call_agent_round env cfg conv schemas system_prompt =
     call_agent_round_with_hints env cfg conv schemas system_prompt no_hints"

section \<open>Text and chat\<close>

definition generate_text_gemini ::
  "provider_env \<Rightarrow> nat \<Rightarrow> llm_config \<Rightarrow> string \<Rightarrow> string \<Rightarrow> bool \<Rightarrow> string \<Rightarrow> u32 \<Rightarrow> string + string" where
  "generate_text_gemini env n cfg system_prompt user_message json_mode temperature max_tokens =
     and_then (gemini_url_and_auth env cfg) (\<lambda>(url, auth).
     and_then (http_post_json env n url (gemini_headers auth)
         (JObj (gemini_body [gemini_msg ''user'' [jtext user_message]] system_prompt
            (JObj ([(''temperature'', JFloat temperature), (''maxOutputTokens'', JInt (uint max_tokens))]
               @ (if json_mode then [(''responseMimeType'', JStr ''application/json'')] else [])))))
         ''Gemini request failed'' ''Gemini'') (\<lambda>resp.
     and_then (hp_json resp) extract_gemini_text))"

definition generate_text_openai_compat ::
  "provider_env \<Rightarrow> nat \<Rightarrow> llm_config \<Rightarrow> string \<Rightarrow> string \<Rightarrow> bool \<Rightarrow> string \<Rightarrow> u32 \<Rightarrow> string + string" where
  "generate_text_openai_compat env n cfg system_prompt user_message json_mode temperature max_tokens =
     and_then (openai_compat_url_and_key cfg) (\<lambda>(url, key).
     and_then (http_post_json env n url (openai_headers key)
         (openai_body cfg [system_message system_prompt, jmsg ''user'' (JStr user_message)]
           ([(''temperature'', JFloat temperature), (''max_tokens'', JInt (uint max_tokens))]
            @ (if json_mode then [(''response_format'', JObj [(''type'', JStr ''json_object'')])] else [])))
         ''OpenAI-compat request failed'' (show_provider (lc_provider cfg))) (\<lambda>resp.
     and_then (hp_json resp) (\<lambda>v.
       ok_or (show_provider (lc_provider cfg) @ '': unexpected response'') (openai_text v))))"

definition generate_text_anthropic ::
  "provider_env \<Rightarrow> nat \<Rightarrow> llm_config \<Rightarrow> string \<Rightarrow> string \<Rightarrow> string \<Rightarrow> u32 \<Rightarrow> cache_hints \<Rightarrow> string + string" where
  "generate_text_anthropic env n cfg system_prompt user_message temperature max_tokens hints =
     and_then (anthropic_key cfg) (\<lambda>key.
     and_then (http_post_json env n anthropic_url (anthropic_headers key)
         (JObj [(''model'', JStr (lc_model cfg)), (''system'', anthropic_system hints system_prompt),
            (''messages'', JArr [jmsg ''user'' (JStr user_message)]),
            (''max_tokens'', JInt (uint max_tokens)), (''temperature'', JFloat temperature)])
         ''Anthropic request failed'' ''Anthropic'') (\<lambda>resp.
     and_then (hp_json resp) (\<lambda>v. ok_or ''Anthropic: unexpected response'' (anthropic_text v))))"

definition generate_text_inner ::
  "provider_env \<Rightarrow> nat \<Rightarrow> llm_config \<Rightarrow> string \<Rightarrow> string \<Rightarrow> bool \<Rightarrow> string \<Rightarrow> u32 \<Rightarrow> cache_hints \<Rightarrow> string + string" where
  "generate_text_inner env n cfg system_prompt user_message json_mode temperature max_tokens hints =
     (if lc_provider cfg \<in> {VertexAi, Gemini} then
        generate_text_gemini env n cfg system_prompt user_message json_mode temperature max_tokens
      else if lc_provider cfg \<in> {OpenAi, Grok, Groq, Mimo} then
        generate_text_openai_compat env n cfg system_prompt user_message json_mode temperature max_tokens
      else generate_text_anthropic env n cfg system_prompt user_message temperature max_tokens hints)"

definition generate_text_with_hints ::
  "provider_env \<Rightarrow> llm_config \<Rightarrow> string \<Rightarrow> string \<Rightarrow> bool \<Rightarrow> string \<Rightarrow> u32 \<Rightarrow> cache_hints \<Rightarrow> string + string" where
  "generate_text_with_hints env cfg system_prompt user_message json_mode temperature max_tokens hints =
     with_retry env MAX_LLM_RETRIES
       (\<lambda>n. generate_text_inner env n cfg system_prompt user_message json_mode temperature max_tokens hints)"

definition generate_text ::
  "provider_env \<Rightarrow> llm_config \<Rightarrow> string \<Rightarrow> string \<Rightarrow> bool \<Rightarrow> string \<Rightarrow> string + string" where
  "generate_text env cfg system_prompt user_message json_mode temperature =
     generate_text_with_hints env cfg system_prompt user_message json_mode temperature 16384 no_hints"

definition gemini_history :: "json \<Rightarrow> json" where
  "gemini_history msg =
     (let role = unwrap_or ''user'' (jget_str msg ''role'') in
      gemini_msg (if role = ''assistant'' then ''model'' else role)
        [jtext (unwrap_or [] (jget_str msg ''content''))])"

definition generate_chat_gemini ::
  "provider_env \<Rightarrow> nat \<Rightarrow> llm_config \<Rightarrow> string \<Rightarrow> json list \<Rightarrow> string \<Rightarrow> string + (string \<times> token_usage)" where
  "generate_chat_gemini env n cfg system_prompt history temperature =
     and_then (gemini_url_and_auth env cfg) (\<lambda>(url, auth).
     and_then (http_post_json env n url (gemini_headers auth)
         (JObj (gemini_body (map gemini_history history) system_prompt
            (JObj [(''temperature'', JFloat temperature), (''maxOutputTokens'', JInt 16384)])))
         ''Gemini chat request failed'' ''Gemini'') (\<lambda>resp.
     and_then (hp_json resp) (\<lambda>v.
     and_then (extract_gemini_text v) (\<lambda>text. Inr (text, gemini_usage v)))))"

definition generate_chat_openai_compat ::
  "provider_env \<Rightarrow> nat \<Rightarrow> llm_config \<Rightarrow> string \<Rightarrow> json list \<Rightarrow> string \<Rightarrow> string + (string \<times> token_usage)" where
  "generate_chat_openai_compat env n cfg system_prompt history temperature =
     and_then (openai_compat_url_and_key cfg) (\<lambda>(url, key).
     and_then (http_post_json env n url (openai_headers key)
         (openai_body cfg (system_message system_prompt # history)
           [(''temperature'', JFloat temperature), (''max_tokens'', JInt 16384)])
         ''OpenAI-compat chat request failed'' (show_provider (lc_provider cfg))) (\<lambda>resp.
     and_then (hp_json resp) (\<lambda>v.
     and_then (ok_or (show_provider (lc_provider cfg) @ '': unexpected response in chat'') (openai_text v))
       (\<lambda>text. Inr (text, openai_usage v)))))"

definition anthropic_history :: "json \<Rightarrow> json" where
  "anthropic_history msg =
     jmsg (unwrap_or ''user'' (jget_str msg ''role'')) (JStr (unwrap_or [] (jget_str msg ''content'')))"

definition generate_chat_anthropic ::
  "provider_env \<Rightarrow> nat \<Rightarrow> llm_config \<Rightarrow> string \<Rightarrow> json list \<Rightarrow> string \<Rightarrow> cache_hints \<Rightarrow> string + (string \<times> token_usage)" where
  "generate_chat_anthropic env n cfg system_prompt history temperature hints =
     and_then (anthropic_key cfg) (\<lambda>key.
     and_then (http_post_json env n anthropic_url (anthropic_headers key)
         (JObj [(''model'', JStr (lc_model cfg)), (''system'', anthropic_system hints system_prompt),
            (''messages'', JArr (map anthropic_history history)),
            (''max_tokens'', JInt 16384), (''temperature'', JFloat temperature)])
         ''Anthropic chat request failed'' ''Anthropic'') (\<lambda>resp.
     and_then (hp_json resp) (\<lambda>v.
     and_then (ok_or ''Anthropic: unexpected response in chat'' (anthropic_text v))
       (\<lambda>text. Inr (text, anthropic_usage v)))))"

definition generate_chat_inner ::
  "provider_env \<Rightarrow> nat \<Rightarrow> llm_config \<Rightarrow> string \<Rightarrow> json list \<Rightarrow> string \<Rightarrow> cache_hints \<Rightarrow> string + (string \<times> token_usage)" where
  "generate_chat_inner env n cfg system_prompt history temperature hints =
     (if lc_provider cfg \<in> {VertexAi, Gemini} then
        generate_chat_gemini env n cfg system_prompt history temperature
      else if lc_provider cfg \<in> {OpenAi, Grok, Groq, Mimo} then
        generate_chat_openai_compat env n cfg system_prompt history temperature
      else generate_chat_anthropic env n cfg system_prompt history temperature hints)"

definition generate_chat_with_hints ::
  "provider_env \<Rightarrow> llm_config \<Rightarrow> string \<Rightarrow> json list \<Rightarrow> string \<Rightarrow> cache_hints \<Rightarrow> string + (string \<times> token_usage)" where
  "generate_chat_with_hints env cfg system_prompt history temperature hints =
     with_retry env MAX_LLM_RETRIES (\<lambda>n. generate_chat_inner env n cfg system_prompt history temperature hints)"

definition generate_chat ::
  "provider_env \<Rightarrow> llm_config \<Rightarrow> string \<Rightarrow> json list \<Rightarrow> string \<Rightarrow> string + (string \<times> token_usage)" where
  "generate_chat env cfg system_prompt history temperature =
     generate_chat_with_hints env cfg system_prompt history temperature no_hints"

section \<open>What the retries do\<close>

lemma retry_from_result:
  "\<exists>k \<le> left. retry_from env left attempt f = f (attempt + k)
     \<and> (\<forall>j<k. \<exists>e. f (attempt + j) = Inl e \<and> is_retryable_error env e)
     \<and> (k = left \<or> (\<forall>e. f (attempt + k) = Inl e \<longrightarrow> \<not> is_retryable_error env e))"
proof (induction left arbitrary: attempt)
  case 0
  then show ?case by simp
next
  case (Suc left)
  show ?case
  proof (cases "\<exists>e. f attempt = Inl e \<and> is_retryable_error env e")
    case True
    then obtain e where e: "f attempt = Inl e" "is_retryable_error env e" by blast
    from Suc.IH [of "Suc attempt"] obtain k where k: "k \<le> left"
      "retry_from env left (Suc attempt) f = f (Suc attempt + k)"
      "\<forall>j<k. \<exists>e. f (Suc attempt + j) = Inl e \<and> is_retryable_error env e"
      "k = left \<or> (\<forall>e. f (Suc attempt + k) = Inl e \<longrightarrow> \<not> is_retryable_error env e)" by blast
    have "\<forall>j<Suc k. \<exists>e. f (attempt + j) = Inl e \<and> is_retryable_error env e"
      using k(3) e by (auto simp: less_Suc_eq_0_disj)
    with k e show ?thesis by (intro exI [of _ "Suc k"]) auto
  next
    case False
    then show ?thesis by (intro exI [of _ 0]) (auto split: sum.split)
  qed
qed

text \<open>
  The retry loop always returns, after at most one more attempt than there are retries. Its result
  is that of the first attempt that succeeds or fails with an error that is not retryable, or of the
  last attempt if every earlier one fails with a retryable error.
\<close>

theorem with_retry_result:
  "\<exists>k \<le> max_retries. with_retry env max_retries f = f k
     \<and> (\<forall>j<k. \<exists>e. f j = Inl e \<and> is_retryable_error env e)
     \<and> (k = max_retries \<or> (\<forall>e. f k = Inl e \<longrightarrow> \<not> is_retryable_error env e))"
  using retry_from_result [of max_retries env 0 f] by (simp add: with_retry_def)

text \<open>\<open>str::to_lowercase\<close> on ASCII text; what it does to other characters is not needed.\<close>

definition ascii_lower :: "char \<Rightarrow> char" where
  "ascii_lower c =
     (let n = (of_char c :: nat) in if 65 \<le> n \<and> n \<le> 90 then char_of (n + 32) else c)"

definition lowers_ascii :: "provider_env \<Rightarrow> bool" where
  "lowers_ascii env \<longleftrightarrow>
     (\<forall>s. (\<forall>c\<in>set s. byte_nat c < 128) \<longrightarrow> pe_lower env s = map ascii_lower s)"

text \<open>The texts that the rounds put in the place of an error of the transport.\<close>

definition round_contexts :: "string list" where
  "round_contexts = [''Gemini agent round failed'', ''OpenAI-compat agent round failed'',
     ''Anthropic agent round failed'']"

lemma round_context_final:
  assumes "lowers_ascii env" and "ctx \<in> set round_contexts"
  shows "\<not> is_retryable_error env ctx"
proof -
  have "\<forall>c\<in>set ctx. byte_nat c < 128" using assms(2) by (auto simp: round_contexts_def)
  with assms(1) have "pe_lower env ctx = map ascii_lower ctx" by (simp add: lowers_ascii_def)
  then show ?thesis
    using assms(2)
    by (auto simp: round_contexts_def is_retryable_error_def contains_sub_def ascii_lower_def)
qed

definition has_credentials :: "llm_config \<Rightarrow> bool" where
  "has_credentials cfg \<longleftrightarrow>
     (if lc_provider cfg = VertexAi then lc_vertex_project_id cfg \<noteq> None else lc_api_key cfg \<noteq> None)"

lemma round_send_failed:
  assumes "has_credentials cfg" and "\<forall>req. \<exists>e. pe_send env n req = Inl e"
  shows "\<exists>ctx\<in>set round_contexts. call_agent_round_inner env n cfg conv schemas prompt hints = Inl ctx"
proof -
  have post: "http_post_json env n url headers body ctx api = Inl ctx" for url headers body ctx api
    using assms(2) [rule_format, of "\<lparr> hr_url = url, hr_headers = headers, hr_body = body, hr_timeout_s = 900 \<rparr>"]
    by (auto simp: http_post_json_def with_context_def)
  show ?thesis
    using assms(1)
    by (cases "lc_provider cfg")
       (auto simp: has_credentials_def call_agent_round_inner_def call_agent_round_gemini_def
          call_agent_round_openai_compat_def call_agent_round_anthropic_def gemini_url_and_auth_def
          openai_compat_url_and_key_def anthropic_key_def ok_or_def round_contexts_def post)
qed

text \<open>
  A failure to send the request of a round is never retried, for any of the seven providers: the
  context that wraps it hides the texts that the retry loop looks for. The round fails with the context
  after the first attempt, whatever the further attempts would give.
\<close>

theorem transport_error_not_retried:
  assumes "lowers_ascii env" and "has_credentials cfg" and "\<forall>req. \<exists>e. pe_send env 0 req = Inl e"
  shows "\<exists>ctx\<in>set round_contexts. call_agent_round env cfg conv schemas prompt = Inl ctx"
proof -
  obtain ctx where ctx: "ctx \<in> set round_contexts"
    "call_agent_round_inner env 0 cfg conv schemas prompt no_hints = Inl ctx"
    using round_send_failed [OF assms(2,3)] by blast
  moreover have "\<not> is_retryable_error env ctx" by (rule round_context_final [OF assms(1) ctx(1)])
  ultimately show ?thesis
    by (auto simp: call_agent_round_def call_agent_round_with_hints_def with_retry_def
        MAX_LLM_RETRIES_def numeral_3_eq_3)
qed

definition demo_response :: "json \<Rightarrow> http_response" where
  "demo_response v = \<lparr> hp_success = True, hp_status = ''200 OK'', hp_text = Some [], hp_json = Inr v,
     hp_chunks = [] \<rparr>"

text \<open>A connection that is refused once and would then answer.\<close>

definition demo_provider_env :: provider_env where
  "demo_provider_env = \<lparr> pe_send = (\<lambda>n _. if n = 0 then Inl ''connection refused''
       else Inr (demo_response (JObj [(''content'', JArr [])]))),
     pe_to_string = (\<lambda>_. Some ''{}''), pe_from_str = (\<lambda>_. Some empty_obj), pe_lower = map ascii_lower,
     pe_config_loads = True, pe_gcloud = None, pe_nanos = (\<lambda>k. k) \<rparr>"

lemma with_retry_result_witness:
  "\<exists>k \<le> 3. with_retry demo_provider_env 3 (\<lambda>n. if n = 0 then Inl ''dns error'' else Inr n)
     = (if k = 0 then Inl ''dns error'' else Inr k)"
  using with_retry_result [of 3 demo_provider_env "\<lambda>n. if n = 0 then Inl ''dns error'' else Inr n"] by auto

definition demo_llm_config :: llm_config where
  "demo_llm_config = \<lparr> lc_provider = Anthropic, lc_model = ''m'', lc_vertex_project_id = None,
     lc_api_key = Some ''key'' \<rparr>"

lemma transport_error_not_retried_witness:
  "\<exists>ctx\<in>set round_contexts. call_agent_round demo_provider_env demo_llm_config [] [] [] = Inl ctx"
  by (rule transport_error_not_retried)
     (simp_all add: lowers_ascii_def has_credentials_def demo_provider_env_def demo_llm_config_def)

section \<open>Calls survive the way to the model and back\<close>

lemma anthropic_call_roundtrip: "anthropic_call (anthropic_call_json tc) = tc"
  by (simp add: anthropic_call_def anthropic_call_json_def jget_str_def)

lemma openai_call_roundtrip:
  "pe_to_string env (tcl_args tc) = Some t \<Longrightarrow> pe_from_str env t = Some (tcl_args tc)
     \<Longrightarrow> openai_call env (openai_call_json env tc) = tc"
  by (simp add: openai_call_def openai_call_json_def jget_str_def to_text_def)

text \<open>
  The tool calls of an assistant turn are read back by the reply parsers as they were sent: from
  the message for Anthropic, and from a choice that holds the message for the APIs compatible with
  OpenAI, provided that the JSON codec reads back the arguments it wrote.
\<close>

theorem tool_calls_roundtrip:
  assumes "\<forall>tc\<in>set calls. \<exists>t. pe_to_string env (tcl_args tc) = Some t
      \<and> pe_from_str env t = Some (tcl_args tc)"
  shows "anthropic_tool_calls (anthropic_message env (MAssistantToolCalls calls)) = calls
    \<and> openai_tool_calls env (JObj [(''choices'', JArr [JObj
       [(''message'', hd (openai_messages env (MAssistantToolCalls calls)))]])]) = calls"
proof
  have "filter (has_type ''tool_use'') (map anthropic_call_json calls) = map anthropic_call_json calls"
    by (simp add: has_type_def anthropic_call_json_def jget_str_def)
  then show "anthropic_tool_calls (anthropic_message env (MAssistantToolCalls calls)) = calls"
    by (simp add: anthropic_tool_calls_def anthropic_content_def jmsg_def comp_def
        anthropic_call_roundtrip)
  have "map (openai_call env) (map (openai_call_json env) calls) = calls"
    using assms by (induction calls) (auto simp: openai_call_roundtrip)
  then show "openai_tool_calls env (JObj [(''choices'', JArr [JObj
       [(''message'', hd (openai_messages env (MAssistantToolCalls calls)))]])]) = calls"
    by (simp add: openai_tool_calls_def openai_message_def first_of_def jnth_def)
qed

lemma tool_calls_roundtrip_witness:
  "anthropic_tool_calls (anthropic_message demo_provider_env
     (MAssistantToolCalls [\<lparr> tcl_id = ''1'', tcl_name = ''git_diff'', tcl_args = empty_obj \<rparr>]))
   = [\<lparr> tcl_id = ''1'', tcl_name = ''git_diff'', tcl_args = empty_obj \<rparr>]"
  by (rule tool_calls_roundtrip [THEN conjunct1]) (simp add: demo_provider_env_def)

end
