(* ===== verification/Crew_Loop.thy ===== *)
theory Crew_Loop
  imports Events Summaries Providers
begin

text \<open>
  The crew of \<open>mowis-orchestration/src/crew.rs\<close>: an agent that calls a language model round after round
  and runs the tools it asks for through the gateway. The answers of the model, the hash of the
  arguments and the text of the prompt are parameters; the gateway and its transport are those of
  \<open>Gateway\<close>, over a world \<open>'w\<close>. A run that needs more rounds than the fuel is \<open>None\<close>; a panic (in a
  summary) is a run without outcome.
\<close>

section \<open>Data\<close>

definition MAX_ROUNDS :: u32 where "MAX_ROUNDS = 8"
definition MAX_TOOL_CALLS :: u32 where "MAX_TOOL_CALLS = 12"
definition MAX_INPUT_TOKENS :: u64 where "MAX_INPUT_TOKENS = 100000"

record crew_task =
  ct_task_id :: task_id
  ct_title :: string
  ct_description :: string
  ct_files_hint :: "string list"
  ct_tool_budget :: u32

record 'w crew =
  cr_plan_id :: plan_id
  cr_sandbox_id :: string
  cr_agent_id :: string
  cr_task :: crew_task
  cr_llm_config :: llm_config
  cr_gateway :: "'w gateway"

datatype crew_outcome =
    OutDone string string u32
  | OutFailed string string u32

text \<open>\<open>cv_round n\<close> is the \<open>n\<close>-th call of the model: conversation, tools, system prompt.\<close>

record crew_env =
  cv_round :: "nat \<Rightarrow> conversation \<Rightarrow> json list \<Rightarrow> string \<Rightarrow> string + agent_round"
  cv_hash :: "json \<Rightarrow> u64"
  cv_template :: string

text \<open>
  The local variables of the run, with the number of calls of the model, the world, what was emitted,
  and the calls that went to the gateway.
\<close>

record 'w crew_state =
  cw_conv :: conversation
  cw_tool_calls :: u32
  cw_tokens :: u64
  cw_recent :: "string \<times> u64 \<rightharpoonup> u32"
  cw_written :: "string \<rightharpoonup> u32"
  cw_has_written :: bool
  cw_events :: "event list"
  cw_asked :: nat
  cw_world :: 'w
  cw_invoked :: "tool_call list"

definition emit :: "event \<Rightarrow> 'w crew_state \<Rightarrow> 'w crew_state" where
  "emit e s = s\<lparr> cw_events := cw_events s @ [e] \<rparr>"

definition crew_prompt :: "crew_env \<Rightarrow> crew_task \<Rightarrow> string" where
  "crew_prompt env task =
     replace_str ''{{files_hint}}'' (join_str '', '' (ct_files_hint task))
       (replace_str ''{{task_description}}'' (ct_description task)
         (replace_str ''{{task_title}}'' (ct_title task) (cv_template env)))"

definition error_result :: "string \<Rightarrow> json" where
  "error_result msg = JObj [(''error'', JStr msg)]"

section \<open>The tools offered to the model\<close>

text \<open>A parameter is its name, its type and its description.\<close>

definition tool_schema :: "string \<Rightarrow> string \<Rightarrow> (string \<times> string \<times> string) list \<Rightarrow> string list \<Rightarrow> json" where
  "tool_schema name description params needed =
     JObj [(''name'', JStr name), (''description'', JStr description),
       (''parameters'', JObj [(''type'', JStr ''object''),
          (''properties'', JObj (map (\<lambda>(p, ty, d).
             (p, JObj [(''type'', JStr ty), (''description'', JStr d)])) params)),
          (''required'', JArr (map JStr needed))])]"

definition crew_tool_schemas :: "json list" where
  "crew_tool_schemas =
    [tool_schema ''read_file'' ''Read a file from the sandbox.''
       [(''path'', ''string'', ''File path to read'')] [''path''],
     tool_schema ''write_file'' ''Write content to a file.''
       [(''path'', ''string'', ''File path to write''), (''contents'', ''string'', ''Content to write'')]
       [''path'', ''contents''],
     tool_schema ''list_files'' ''List files in a directory.''
       [(''path'', ''string'', ''Directory path'')] [''path''],
     tool_schema ''run_command'' ''Run a shell command.''
       [(''cmd'', ''string'', ''Command to run''), (''cwd'', ''string'', ''Working directory'')] [''cmd''],
     tool_schema ''grep'' ''Search files for a pattern.''
       [(''pattern'', ''string'', ''Regex pattern''), (''path'', ''string'', ''Directory to search''),
        (''include'', ''string'', ''File glob filter'')] [''pattern'', ''path''],
     tool_schema ''find_files'' ''Find files by name pattern.''
       [(''pattern'', ''string'', ''Glob pattern''), (''path'', ''string'', ''Directory to search'')]
       [''pattern'', ''path''],
     tool_schema ''git_status'' ''Get git status.''
       [(''path'', ''string'', ''Repository path'')] [''path''],
     tool_schema ''git_add'' ''Stage files.''
       [(''path'', ''string'', ''Repository path''), (''files'', ''array'', ''Files to stage'')]
       [''path'', ''files''],
     tool_schema ''git_commit'' ''Create a commit.''
       [(''path'', ''string'', ''Repository path''), (''message'', ''string'', ''Commit message'')]
       [''path'', ''message''],
     tool_schema ''git_diff'' ''Get git diff.''
       [(''path'', ''string'', ''Repository path'')] [''path''],
     tool_schema ''http_get'' ''HTTP GET request.'' [(''url'', ''string'', ''URL to fetch'')] [''url''],
     tool_schema ''http_post'' ''HTTP POST request.''
       [(''url'', ''string'', ''URL''), (''body'', ''string'', ''Request body'')] [''url'', ''body''],
     tool_schema ''append_file'' ''Append to a file.''
       [(''path'', ''string'', ''File path''), (''contents'', ''string'', ''Content to append'')]
       [''path'', ''contents''],
     tool_schema ''delete_file'' ''Delete a file.'' [(''path'', ''string'', ''File path'')] [''path''],
     tool_schema ''create_directory'' ''Create a directory.''
       [(''path'', ''string'', ''Directory path'')] [''path'']]"

section \<open>One tool call\<close>

definition call_path :: "string \<Rightarrow> tool_call \<Rightarrow> string option" where
  "call_path tool tc = (if tcl_name tc = tool then jget_str (tcl_args tc) ''path'' else None)"

definition call_key :: "crew_env \<Rightarrow> tool_call \<Rightarrow> string \<times> u64" where
  "call_key env tc = (tcl_name tc, cv_hash env (tcl_args tc))"

definition tool_summary :: "'w crew \<Rightarrow> tool_call \<Rightarrow> string \<Rightarrow> bool \<Rightarrow> event" where
  "tool_summary c tc text success = CrewToolSummary (cr_agent_id c) text (tcl_name tc) success"

text \<open>A call that is refused: the refusal is its result and its summary.\<close>

definition refuse :: "'w crew \<Rightarrow> tool_call \<Rightarrow> string \<Rightarrow> 'w crew_state \<Rightarrow> json \<times> 'w crew_state" where
  "refuse c tc msg s = (error_result msg, emit (tool_summary c tc msg False) s)"

definition rewrite_msg :: "string \<Rightarrow> u32 \<Rightarrow> string" where
  "rewrite_msg path prev = ''BLOCKED: You already wrote to '' @ path @ '' (call #'' @ show_nat (unat prev)
     @ ''). A crew agent must write each file EXACTLY ONCE. You are wasting tokens. ''
     @ ''Move on to the next file or emit your summary.''"

definition reread_msg :: "string \<Rightarrow> string" where
  "reread_msg path = ''BLOCKED: You already wrote '' @ path @ ''. You HAVE its content in context. ''
     @ ''Reading it back is a waste of tokens. STOP verifying your own work.''"

definition again_msg :: "string \<Rightarrow> u32 \<Rightarrow> string" where
  "again_msg name prev = ''BLOCKED: You already called '' @ name @ '' with the same arguments (call #''
     @ show_nat (unat prev) @ ''). Nothing changed. STOP and move on.''"

definition input_schema :: json where
  "input_schema = JObj [(''name'', JStr ''send_input''),
     (''description'', JStr ''Send input to interactive command''),
     (''parameters'', JObj [(''type'', JStr ''object''),
        (''properties'', JObj [(''input'', JObj [(''type'', JStr ''string'')])]),
        (''required'', JArr [JStr ''input''])])]"

text \<open>A command waits for input: the model is asked for it and it is sent.\<close>

definition answer_prompt ::
  "crew_env \<Rightarrow> 'w crew \<Rightarrow> tool_call \<Rightarrow> json \<Rightarrow> string \<Rightarrow> 'w crew_state \<Rightarrow> 'w crew_state" where
  "answer_prompt env c tc result prompt_text s =
     (let conv = push_user (''The command is waiting for input. The prompt is:'' @ [newline] @ prompt_text
            @ [newline] @ ''What should I type? Respond with ONLY the input text, nothing else.'')
          (push_tool_results [(tc, result)] (cw_conv s));
          s1 = s\<lparr> cw_conv := conv, cw_asked := Suc (cw_asked s) \<rparr>
      in case cv_round env (cw_asked s) conv [input_schema]
               ''You are helping an interactive command. Respond with the exact input to send.'' of
           Inl e \<Rightarrow> s1
         | Inr answer \<Rightarrow>
             (let input = trim (unwrap_or ''y'' (ar_text answer)) in
              case invoke (cr_gateway c) \<lparr> tcl_id = tcl_id tc @ ''-input'', tcl_name = ''send_input'',
                     tcl_args = JObj [(''input'', JStr input)] \<rparr> (cw_world s1) of
                (sent, w) \<Rightarrow>
                  emit (CrewToolSummary (cr_agent_id c) (''Sent input to interactive command: '' @ input)
                     ''send_input'' (case sent of Inl _ \<Rightarrow> False | Inr _ \<Rightarrow> True)) (s1\<lparr> cw_world := w \<rparr>)))"

text \<open>The call goes to the gateway.\<close>

definition run_call ::
  "crew_env \<Rightarrow> 'w crew \<Rightarrow> tool_call \<Rightarrow> 'w crew_state \<Rightarrow> (json \<times> 'w crew_state) option" where
  "run_call env c tc s =
     (let s1 = s\<lparr> cw_recent := (cw_recent s)(call_key env tc \<mapsto> cw_tool_calls s),
            cw_tool_calls := cw_tool_calls s + 1, cw_invoked := cw_invoked s @ [tc] \<rparr>
      in case invoke (cr_gateway c) tc (cw_world s1) of
        (r, w) \<Rightarrow>
          (let result = (case r of Inl e \<Rightarrow> error_result e | Inr v \<Rightarrow> v);
               s2 = s1\<lparr> cw_world := w \<rparr>;
               prompt_text = unwrap_or [] (jget_str result ''interactive_prompt'')
           in if prompt_text \<noteq> [] then Some (result, answer_prompt env c tc result prompt_text s2)
              else map_option (\<lambda>text. (result,
                     emit (tool_summary c tc text (outcome_is_ok (outcome_of result))) s2))
                   (summarize tc (outcome_of result))))"

text \<open>The checks before it, in the order of the code.\<close>

definition note_write :: "tool_call \<Rightarrow> 'w crew_state \<Rightarrow> 'w crew_state" where
  "note_write tc s =
     (case call_path ''write_file'' tc of
        None \<Rightarrow> s
      | Some path \<Rightarrow> s\<lparr> cw_written := (cw_written s)(path \<mapsto> cw_tool_calls s), cw_has_written := True \<rparr>)"

definition refusal :: "crew_env \<Rightarrow> tool_call \<Rightarrow> 'w crew_state \<Rightarrow> string option" where
  "refusal env tc s =
     (case Option.bind (call_path ''read_file'' tc) (\<lambda>p. map_option (\<lambda>_. p) (cw_written s p)) of
        Some path \<Rightarrow> Some (reread_msg path)
      | None \<Rightarrow> map_option (again_msg (tcl_name tc)) (cw_recent s (call_key env tc)))"

definition crew_tool ::
  "crew_env \<Rightarrow> 'w crew \<Rightarrow> tool_call \<Rightarrow> 'w crew_state \<Rightarrow> (json \<times> 'w crew_state) option" where
  "crew_tool env c tc s =
     (if \<not> gate_allows (gw_allowlist (cr_gateway c)) (tcl_name tc) then
        map_option (\<lambda>text. (error_result ''tool forbidden'', emit (tool_summary c tc text False) s))
          (summarize tc OutcomeDenied)
      else case Option.bind (call_path ''write_file'' tc) (\<lambda>p. map_option (rewrite_msg p) (cw_written s p)) of
        Some msg \<Rightarrow> Some (refuse c tc msg s)
      | None \<Rightarrow>
          (let s1 = note_write tc s in
           case refusal env tc s1 of
             Some msg \<Rightarrow> Some (refuse c tc msg s1)
           | None \<Rightarrow> run_call env c tc s1))"

text \<open>The calls of a round, with their results.\<close>

fun crew_tools ::
  "crew_env \<Rightarrow> 'w crew \<Rightarrow> tool_call list \<Rightarrow> 'w crew_state \<Rightarrow> ((tool_call \<times> json) list \<times> 'w crew_state) option" where
  "crew_tools env c [] s = Some ([], s)"
| "crew_tools env c (tc # tcs) s =
     (case crew_tool env c tc s of
        None \<Rightarrow> None
      | Some (r, s1) \<Rightarrow> map_option (\<lambda>(rs, s2). ((tc, r) # rs, s2)) (crew_tools env c tcs s1))"

section \<open>The loop\<close>

definition end_done :: "'w crew \<Rightarrow> string \<Rightarrow> 'w crew_state \<Rightarrow> crew_outcome option \<times> 'w crew_state" where
  "end_done c summary s =
     (Some (OutDone (cr_agent_id c) summary (cw_tool_calls s)),
      emit (CrewDone (cr_plan_id c) (cr_agent_id c) summary) s)"

definition end_failed :: "'w crew \<Rightarrow> string \<Rightarrow> 'w crew_state \<Rightarrow> crew_outcome option \<times> 'w crew_state" where
  "end_failed c reason s = (Some (OutFailed (cr_agent_id c) reason (cw_tool_calls s)), s)"

text \<open>The round that is forced when the budget of rounds is used up.\<close>

definition final_round ::
  "crew_env \<Rightarrow> 'w crew \<Rightarrow> string \<Rightarrow> 'w crew_state \<Rightarrow> crew_outcome option \<times> 'w crew_state" where
  "final_round env c prompt s =
     (let conv = push_user (''[SYSTEM] You have used your iteration budget. Emit your final answer now. ''
            @ ''Do not call any more tools. Summarize what you accomplished.'') (cw_conv s);
          s1 = s\<lparr> cw_conv := conv, cw_asked := Suc (cw_asked s) \<rparr>
      in case cv_round env (cw_asked s) conv [] prompt of
           Inl e \<Rightarrow> end_done c ''Task completed (budget exhaustion)'' s1
         | Inr r \<Rightarrow> end_done c (unwrap_or ''Task completed (budget)'' (ar_text r)) s1)"

fun crew_loop ::
  "nat \<Rightarrow> crew_env \<Rightarrow> 'w crew \<Rightarrow> string \<Rightarrow> 'w crew_state \<Rightarrow> (crew_outcome option \<times> 'w crew_state) option" where
  "crew_loop 0 env c prompt s = None"
| "crew_loop (Suc n) env c prompt s =
     (if MAX_ROUNDS \<le> of_nat (round_count (cw_conv s)) then Some (final_round env c prompt s)
      else if MAX_TOOL_CALLS \<le> cw_tool_calls s then Some (end_failed c ''tool call budget exceeded'' s)
      else if MAX_INPUT_TOKENS \<le> cw_tokens s then Some (end_failed c ''input token budget exceeded'' s)
      else let s1 = s\<lparr> cw_asked := Suc (cw_asked s) \<rparr> in
        case cv_round env (cw_asked s) (cw_conv s) crew_tool_schemas prompt of
          Inl e \<Rightarrow> Some (end_failed c (''LLM error: '' @ e) s1)
        | Inr r \<Rightarrow>
            (let s2 = emit (TokensUsed (cr_agent_id c) ''crew'' (tu_input (ar_usage r)) (tu_output (ar_usage r))
                   (lc_model (cr_llm_config c))) (s1\<lparr> cw_tokens := cw_tokens s + ucast (tu_input (ar_usage r)) \<rparr>)
             in if is_final r then Some (end_done c (unwrap_or ''Task completed'' (ar_text r)) s2)
                else case crew_tools env c (ar_tool_calls r) s2 of
                  None \<Rightarrow> Some (None, s2)
                | Some (results, s3) \<Rightarrow>
                    crew_loop n env c prompt (s3\<lparr> cw_conv := push_tool_results results (cw_conv s3) \<rparr>)))"

definition crew_start :: "'w crew \<Rightarrow> 'w \<Rightarrow> 'w crew_state" where
  "crew_start c w = emit (CrewStarted (cr_plan_id c) (ct_task_id (cr_task c)) (cr_agent_id c))
     \<lparr> cw_conv = push_user (''Complete this task: '' @ ct_title (cr_task c) @ [newline, newline]
          @ ''Description: '' @ ct_description (cr_task c)) [],
       cw_tool_calls = 0, cw_tokens = 0, cw_recent = Map.empty, cw_written = Map.empty,
       cw_has_written = False, cw_events = [], cw_asked = 0, cw_world = w, cw_invoked = [] \<rparr>"

definition crew_run ::
  "nat \<Rightarrow> crew_env \<Rightarrow> 'w crew \<Rightarrow> 'w \<Rightarrow> (crew_outcome option \<times> 'w crew_state) option" where
  "crew_run n env c w = crew_loop n env c (crew_prompt env (cr_task c)) (crew_start c w)"

section \<open>What reaches the gateway\<close>

definition written_paths :: "tool_call list \<Rightarrow> string list" where
  "written_paths tcs = List.map_filter (call_path ''write_file'') tcs"

lemma written_paths_simps [simp]:
  "written_paths [] = []"
  "written_paths (xs @ [tc]) = written_paths xs @ (case call_path ''write_file'' tc of None \<Rightarrow> [] | Some p \<Rightarrow> [p])"
  by (auto simp: written_paths_def List.map_filter_def split: option.split)

text \<open>No call of the list reads a file that an earlier one has written.\<close>

definition no_reread :: "tool_call list \<Rightarrow> bool" where
  "no_reread tcs \<longleftrightarrow>
     (\<forall>i < length tcs. \<forall>p. call_path ''read_file'' (tcs ! i) = Some p
        \<longrightarrow> p \<notin> set (written_paths (take i tcs)))"

lemma no_reread_snoc:
  "no_reread (xs @ [tc]) \<longleftrightarrow> no_reread xs
     \<and> (\<forall>p. call_path ''read_file'' tc = Some p \<longrightarrow> p \<notin> set (written_paths xs))"
  by (auto simp: no_reread_def nth_append less_Suc_eq)

text \<open>The invariant of the run.\<close>

definition crew_inv :: "crew_env \<Rightarrow> 'w crew_state \<Rightarrow> bool" where
  "crew_inv env s \<longleftrightarrow>
     distinct (map (call_key env) (cw_invoked s))
     \<and> dom (cw_recent s) = set (map (call_key env) (cw_invoked s))
     \<and> distinct (written_paths (cw_invoked s))
     \<and> set (written_paths (cw_invoked s)) \<subseteq> dom (cw_written s)
     \<and> no_reread (cw_invoked s)
     \<and> cw_tool_calls s = of_nat (length (cw_invoked s))
     \<and> round_count (cw_conv s) = 0"

lemma call_paths_exclusive: "call_path ''write_file'' tc = Some p \<Longrightarrow> call_path ''read_file'' tc = None"
  by (auto simp: call_path_def split: if_splits)

lemma round_count_pushes [simp]:
  "round_count (push_user t conv) = round_count conv"
  "round_count (push_tool_results rs conv) = round_count conv"
  by (simp_all add: round_count_def push_user_def push_tool_results_def)

lemma crew_inv_emit [simp]: "crew_inv env (emit e s) = crew_inv env s"
  by (simp add: crew_inv_def emit_def)

lemma crew_inv_world [simp]: "crew_inv env (s\<lparr> cw_world := w \<rparr>) = crew_inv env s"
  by (simp add: crew_inv_def)

lemma crew_inv_answer [simp]: "crew_inv env (answer_prompt env c tc r t s) = crew_inv env s"
proof -
  have "crew_inv env (s\<lparr> cw_conv := push_user x (push_tool_results rs (cw_conv s)), cw_asked := n \<rparr>)
      = crew_inv env s" for x rs n
    by (simp add: crew_inv_def)
  then show ?thesis by (simp add: answer_prompt_def Let_def split: sum.split prod.split)
qed

text \<open>A call is recorded that no check refuses.\<close>

lemma crew_inv_record:
  assumes "crew_inv env s" and "cw_recent s (call_key env tc) = None"
    and "\<And>p. call_path ''write_file'' tc = Some p \<Longrightarrow> p \<notin> set (written_paths (cw_invoked s)) \<and> p \<in> dom (cw_written s)"
    and "\<And>p. call_path ''read_file'' tc = Some p \<Longrightarrow> cw_written s p = None"
  shows "crew_inv env (s\<lparr> cw_recent := (cw_recent s)(call_key env tc \<mapsto> k),
     cw_tool_calls := cw_tool_calls s + 1, cw_invoked := cw_invoked s @ [tc] \<rparr>)"
proof -
  from assms(1) have inv: "distinct (map (call_key env) (cw_invoked s))"
    "dom (cw_recent s) = set (map (call_key env) (cw_invoked s))"
    "distinct (written_paths (cw_invoked s))"
    "set (written_paths (cw_invoked s)) \<subseteq> dom (cw_written s)" "no_reread (cw_invoked s)"
    "cw_tool_calls s = of_nat (length (cw_invoked s))" "round_count (cw_conv s) = 0"
    by (simp_all add: crew_inv_def)
  have key: "call_key env tc \<notin> set (map (call_key env) (cw_invoked s))"
    using assms(2) inv(2) by (metis domIff)
  have read: "p \<notin> set (written_paths (cw_invoked s))" if "call_path ''read_file'' tc = Some p" for p
    using assms(4) [OF that] inv(4) by (auto simp: domIff)
  show ?thesis
    using inv key read assms(3)
    by (auto simp: crew_inv_def no_reread_snoc split: option.split)
qed

lemma crew_inv_note_write: "crew_inv env s \<Longrightarrow> crew_inv env (note_write tc s)"
  by (auto simp: note_write_def crew_inv_def split: option.split)

lemma note_write_other [simp]:
  "cw_invoked (note_write tc s) = cw_invoked s"
  "cw_tokens (note_write tc s) = cw_tokens s"
  by (simp_all add: note_write_def split: option.split)

lemma run_call_inv:
  assumes "crew_inv env s" and "cw_recent s (call_key env tc) = None"
    and "\<And>p. call_path ''write_file'' tc = Some p \<Longrightarrow> p \<notin> set (written_paths (cw_invoked s)) \<and> p \<in> dom (cw_written s)"
    and "\<And>p. call_path ''read_file'' tc = Some p \<Longrightarrow> cw_written s p = None"
    and "run_call env c tc s = Some (r, s')"
  shows "crew_inv env s'"
  using crew_inv_record [OF assms(1-4)] assms(5)
  by (auto simp: run_call_def Let_def split: prod.splits if_splits)

lemma refusal_None:
  "refusal env tc s = None \<longleftrightarrow> cw_recent s (call_key env tc) = None
     \<and> (\<forall>p. call_path ''read_file'' tc = Some p \<longrightarrow> cw_written s p = None)"
  by (cases "call_path ''read_file'' tc") (auto simp: refusal_def split: option.splits)

lemma crew_tool_inv:
  assumes "crew_inv env s" and "crew_tool env c tc s = Some (r, s')"
  shows "crew_inv env s'"
proof (cases "gate_allows (gw_allowlist (cr_gateway c)) (tcl_name tc)")
  case False
  with assms show ?thesis by (auto simp: crew_tool_def)
next
  case allowed: True
  show ?thesis
  proof (cases "Option.bind (call_path ''write_file'' tc) (\<lambda>p. map_option (rewrite_msg p) (cw_written s p))")
    case (Some msg)
    with allowed assms show ?thesis by (auto simp: crew_tool_def refuse_def)
  next
    case None
    let ?s = "note_write tc s"
    have inv: "crew_inv env ?s" by (rule crew_inv_note_write [OF assms(1)])
    have fresh: "p \<notin> set (written_paths (cw_invoked ?s)) \<and> p \<in> dom (cw_written ?s)"
      if "call_path ''write_file'' tc = Some p" for p
    proof -
      from None that have "cw_written s p = None" by simp
      moreover have "set (written_paths (cw_invoked s)) \<subseteq> dom (cw_written s)"
        using assms(1) by (simp add: crew_inv_def)
      ultimately show ?thesis using that by (auto simp: note_write_def)
    qed
    show ?thesis
    proof (cases "refusal env tc ?s")
      case (Some msg)
      with None allowed assms inv show ?thesis by (auto simp: crew_tool_def Let_def refuse_def)
    next
      case free: None
      with None allowed assms have "run_call env c tc ?s = Some (r, s')"
        by (simp add: crew_tool_def Let_def)
      moreover from free have "cw_recent ?s (call_key env tc) = None"
        "\<And>p. call_path ''read_file'' tc = Some p \<Longrightarrow> cw_written ?s p = None"
        by (simp_all add: refusal_None)
      ultimately show ?thesis using run_call_inv [OF inv _ fresh] by blast
    qed
  qed
qed

lemma crew_tools_inv:
  "crew_inv env s \<Longrightarrow> crew_tools env c tcs s = Some (rs, s') \<Longrightarrow> crew_inv env s'"
proof (induction tcs arbitrary: s rs)
  case (Cons tc tcs)
  then obtain r s1 rs' where "crew_tool env c tc s = Some (r, s1)" "crew_tools env c tcs s1 = Some (rs', s')"
    by (auto split: option.splits)
  with Cons show ?case by (blast intro: crew_tool_inv)
qed simp

text \<open>The tokens change only between the calls of a round.\<close>

lemma answer_prompt_tokens [simp]: "cw_tokens (answer_prompt env c tc r t s) = cw_tokens s"
  by (simp add: answer_prompt_def emit_def Let_def split: sum.split prod.split)

lemma crew_tool_tokens: "crew_tool env c tc s = Some (r, s') \<Longrightarrow> cw_tokens s' = cw_tokens s"
  by (auto simp: crew_tool_def run_call_def refuse_def emit_def Let_def
      split: if_splits option.splits prod.splits)

lemma crew_tools_tokens: "crew_tools env c tcs s = Some (rs, s') \<Longrightarrow> cw_tokens s' = cw_tokens s"
  by (induction tcs arbitrary: s rs) (auto split: option.splits dest: crew_tool_tokens)

lemma crew_inv_tokens [simp]:
  "crew_inv env (s\<lparr> cw_asked := n, cw_tokens := k \<rparr>) = crew_inv env s"
  "crew_inv env (s\<lparr> cw_conv := push_tool_results rs (cw_conv s) \<rparr>) = crew_inv env s"
  by (simp_all add: crew_inv_def)

lemma crew_start_inv: "crew_inv env (crew_start c w)"
  by (simp add: crew_start_def) (simp add: crew_inv_def no_reread_def round_count_def push_user_def)

fun reported_calls :: "crew_outcome \<Rightarrow> u32" where
  "reported_calls (OutDone _ _ k) = k"
| "reported_calls (OutFailed _ _ k) = k"

definition end_inv :: "crew_env \<Rightarrow> crew_outcome option \<times> 'w crew_state \<Rightarrow> bool" where
  "end_inv env rs \<longleftrightarrow> crew_inv env (snd rs)
     \<and> (\<forall>out. fst rs = Some out \<longrightarrow> reported_calls out = of_nat (length (cw_invoked (snd rs))))"

lemma end_inv_ends:
  "crew_inv env s \<Longrightarrow> end_inv env (end_done c t s)"
  "crew_inv env s \<Longrightarrow> end_inv env (end_failed c t s)"
  by (simp_all add: end_inv_def end_done_def end_failed_def) (simp_all add: crew_inv_def emit_def)

text \<open>The budget of rounds is never used up: no message of the conversation counts as a round.\<close>

lemma no_rounds: "crew_inv env s \<Longrightarrow> \<not> MAX_ROUNDS \<le> of_nat (round_count (cw_conv s))"
  by (simp add: crew_inv_def MAX_ROUNDS_def)

lemma crew_loop_inv:
  "crew_inv env s \<Longrightarrow> crew_loop n env c prompt s = Some rs \<Longrightarrow> end_inv env rs"
proof (induction n arbitrary: s)
  case 0
  then show ?case by simp
next
  case (Suc n)
  let ?s1 = "s\<lparr> cw_asked := Suc (cw_asked s) \<rparr>"
  have asked: "crew_inv env ?s1" using Suc.prems(1) by (simp add: crew_inv_def)
  consider "MAX_TOOL_CALLS \<le> cw_tool_calls s" | "\<not> MAX_TOOL_CALLS \<le> cw_tool_calls s" "MAX_INPUT_TOKENS \<le> cw_tokens s"
    | e where "\<not> MAX_TOOL_CALLS \<le> cw_tool_calls s" "\<not> MAX_INPUT_TOKENS \<le> cw_tokens s"
      "cv_round env (cw_asked s) (cw_conv s) crew_tool_schemas prompt = Inl e"
    | r where "\<not> MAX_TOOL_CALLS \<le> cw_tool_calls s" "\<not> MAX_INPUT_TOKENS \<le> cw_tokens s"
      "cv_round env (cw_asked s) (cw_conv s) crew_tool_schemas prompt = Inr r"
    by (cases "cv_round env (cw_asked s) (cw_conv s) crew_tool_schemas prompt") blast+
  then show ?case
  proof cases
    case 4
    define s2 where "s2 = emit (TokensUsed (cr_agent_id c) ''crew'' (tu_input (ar_usage r)) (tu_output (ar_usage r))
       (lc_model (cr_llm_config c))) (?s1\<lparr> cw_tokens := cw_tokens s + ucast (tu_input (ar_usage r)) \<rparr>)"
    have s2: "crew_inv env s2" using Suc.prems(1) by (simp add: s2_def)
    show ?thesis
    proof (cases "is_final r")
      case True
      with 4 Suc.prems no_rounds [OF Suc.prems(1)] s2 show ?thesis
        by (auto simp: Let_def simp flip: s2_def intro: end_inv_ends)
    next
      case False
      show ?thesis
      proof (cases "crew_tools env c (ar_tool_calls r) s2")
        case None
        with False 4 Suc.prems no_rounds [OF Suc.prems(1)] s2 show ?thesis
          by (auto simp: Let_def end_inv_def simp flip: s2_def)
      next
        case (Some rs3)
        obtain res s3 where rs3: "rs3 = (res, s3)" by (cases rs3)
        with Some have "crew_inv env s3" using s2 by (blast intro: crew_tools_inv)
        then have "crew_inv env (s3\<lparr> cw_conv := push_tool_results res (cw_conv s3) \<rparr>)" by simp
        moreover have "crew_loop n env c prompt (s3\<lparr> cw_conv := push_tool_results res (cw_conv s3) \<rparr>) = Some rs"
          using Some rs3 False 4 Suc.prems no_rounds [OF Suc.prems(1)]
          by (simp add: Let_def flip: s2_def)
        ultimately show ?thesis by (rule Suc.IH)
      qed
    qed
  qed (use Suc.prems no_rounds [OF Suc.prems(1)] asked in \<open>auto simp: Let_def intro: end_inv_ends\<close>)
qed


section \<open>When the run ends\<close>

definition token_fuel :: nat where
  "token_fuel = 100001"

lemma tokens_grow:
  assumes "\<not> MAX_INPUT_TOKENS \<le> k" and "u \<noteq> (0 :: u32)"
  shows "unat k < unat (k + ucast u :: u64)"
proof -
  have k: "unat k < 100000" using assms(1) by (simp add: MAX_INPUT_TOKENS_def word_le_nat_alt)
  have u32: "unat u < 2 ^ 32" using unsigned_less [of u, where ?'a = nat] by simp
  then have u64: "unat (ucast u :: u64) = unat u"
    by (simp add: unsigned_ucast_eq take_bit_nat_eq_self)
  have pos: "0 < unat u" using assms(2) by (simp add: unat_gt_0)
  have "unat (k + ucast u :: u64) = unat k + unat u"
    using k u32 by (subst unat_add_lem [THEN iffD1]) (simp_all add: u64)
  with pos show ?thesis by simp
qed

lemma crew_loop_ends:
  assumes "\<And>k conv tools prompt r. cv_round env k conv tools prompt = Inr r \<Longrightarrow> tu_input (ar_usage r) \<noteq> 0"
    and "100000 < unat (cw_tokens s) + n" and "0 < n"
  shows "crew_loop n env c prompt s \<noteq> None"
  using assms(2,3)
proof (induction n arbitrary: s)
  case 0
  then show ?case by simp
next
  case (Suc n)
  show ?case
  proof (cases "MAX_INPUT_TOKENS \<le> cw_tokens s")
    case True
    then show ?thesis by simp
  next
    case False
    have next_round: "crew_loop n env c prompt s' \<noteq> None"
      if "cv_round env k conv tools p = Inr r" "cw_tokens s' = cw_tokens s + ucast (tu_input (ar_usage r))"
      for s' k conv tools p r
    proof -
      have g: "unat (cw_tokens s) < unat (cw_tokens s')"
        using tokens_grow [OF False assms(1) [OF that(1)]] that(2) by simp
      have "unat (cw_tokens s) < 100000" using False by (simp add: MAX_INPUT_TOKENS_def word_le_nat_alt)
      with g Suc.prems(1) have "0 < n" "100000 < unat (cw_tokens s') + n" by linarith+
      then show ?thesis using Suc.IH by blast
    qed
    show ?thesis
    proof (cases "cv_round env (cw_asked s) (cw_conv s) crew_tool_schemas prompt")
      case (Inl e)
      then show ?thesis by (simp add: Let_def)
    next
      case (Inr r)
      note next_round = next_round [OF Inr]
      show ?thesis
        using Inr
        by (auto simp: Let_def emit_def split: option.split dest!: crew_tools_tokens
            intro!: next_round simp del: not_None_eq)
    qed
  qed
qed


lemma budgets_left [simp]:
  "\<not> MAX_TOOL_CALLS \<le> 0" "\<not> MAX_TOOL_CALLS \<le> 1" "\<not> MAX_INPUT_TOKENS \<le> 0"
  "\<not> MAX_INPUT_TOKENS \<le> 5" "\<not> MAX_ROUNDS \<le> 0"
  "MAX_TOOL_CALLS \<noteq> 0" "MAX_INPUT_TOKENS \<noteq> 0" "MAX_ROUNDS \<noteq> 0"
  by (simp_all add: MAX_TOOL_CALLS_def MAX_INPUT_TOKENS_def MAX_ROUNDS_def word_le_nat_alt)

definition demo_crew :: "unit crew" where
  "demo_crew = \<lparr> cr_plan_id = ''p'', cr_sandbox_id = ''s'', cr_agent_id = ''a'',
     cr_task = \<lparr> ct_task_id = ''t'', ct_title = ''t'', ct_description = [], ct_files_hint = [], ct_tool_budget = 5 \<rparr>,
     cr_llm_config = demo_llm_config, cr_gateway = new_gateway Crew crew_allowlist ''s'' ''a'' \<rparr>"

definition demo_write_call :: tool_call where
  "demo_write_call = \<lparr> tcl_id = ''1'', tcl_name = ''write_file'',
     tcl_args = JObj [(''path'', JStr ''f''), (''contents'', JStr ''x'')] \<rparr>"

text \<open>A model that writes a file twice in its first answer and is then done.\<close>

definition demo_crew_env :: crew_env where
  "demo_crew_env = \<lparr> cv_round = (\<lambda>n _ _ _.
       if n = 0 then Inr \<lparr> ar_text = None, ar_tool_calls = [demo_write_call, demo_write_call],
                          ar_usage = \<lparr> tu_input = 5, tu_output = 1 \<rparr> \<rparr>
       else Inr \<lparr> ar_text = Some ''ok'', ar_tool_calls = [], ar_usage = \<lparr> tu_input = 5, tu_output = 1 \<rparr> \<rparr>),
     cv_hash = (\<lambda>_. 7), cv_template = [] \<rparr>"

lemma demo_write_steps:
  "call_path ''write_file'' demo_write_call = Some ''f''" "call_path ''read_file'' demo_write_call = None"
  "summarize demo_write_call (outcome_of (error_result ''ToolGateway: no transport configured'')) \<noteq> None"
  by (simp_all add: demo_write_call_def call_path_def jget_str_def summarize_None outcome_of_def
      error_result_def cuttable_def cut_texts_def http_names_def)

lemma demo_crew_runs:
  "\<exists>s. crew_run 2 demo_crew_env demo_crew () = Some (Some (OutDone ''a'' ''ok'' 1), s)
     \<and> cw_invoked s = [demo_write_call]"
proof -
  obtain t where t: "summarize demo_write_call
      (outcome_of (error_result ''ToolGateway: no transport configured'')) = Some t"
    using demo_write_steps(3) by blast
  have inv: "invoke (cr_gateway demo_crew) demo_write_call () = (Inl ''ToolGateway: no transport configured'', ())"
    by (simp add: invoke_def demo_crew_def new_gateway_def crew_allows_all)
  have gate: "gate_allows (gw_allowlist (cr_gateway demo_crew)) t" for t
    by (simp add: demo_crew_def new_gateway_def crew_allows_all)
  have noprompt: "jget_str (error_result e) ''interactive_prompt'' = None" for e
    by (simp add: error_result_def jget_str_def)
  show ?thesis
    unfolding crew_run_def numeral_2_eq_2
    using t
    by (simp add: crew_start_def emit_def round_count_def push_user_def demo_crew_env_def is_final_def crew_tool_def gate demo_write_steps
        note_write_def refusal_def run_call_def inv noprompt refuse_def push_tool_results_def end_done_def
        Let_def)
       (simp add: demo_crew_def)
qed



section \<open>A run that does not end\<close>

text \<open>A model that asks for the same call again and again, and whose usage is not known.\<close>

definition stubborn :: "crew_env \<Rightarrow> tool_call \<Rightarrow> bool" where
  "stubborn env tc \<longleftrightarrow> (\<forall>n conv tools prompt. \<exists>t.
     cv_round env n conv tools prompt = Inr \<lparr> ar_text = t, ar_tool_calls = [tc], ar_usage = \<lparr> tu_input = 0, tu_output = 0 \<rparr> \<rparr>)"

definition call_result :: "'w crew \<Rightarrow> tool_call \<Rightarrow> 'w \<Rightarrow> json" where
  "call_result c tc w = (case fst (invoke (cr_gateway c) tc w) of Inl e \<Rightarrow> error_result e | Inr v \<Rightarrow> v)"

text \<open>The states in which the call was not made yet, or was made once.\<close>

definition stuck_state :: "crew_env \<Rightarrow> tool_call \<Rightarrow> 'w crew_state \<Rightarrow> bool" where
  "stuck_state env tc s \<longleftrightarrow> cw_tokens s = 0 \<and> round_count (cw_conv s) = 0
     \<and> (cw_tool_calls s = 0 \<and> cw_recent s = Map.empty \<and> cw_written s = Map.empty
        \<or> cw_tool_calls s = 1 \<and> cw_recent s (call_key env tc) \<noteq> None)"

lemma stuck_state_simps [simp]:
  "stuck_state env tc (emit e s) = stuck_state env tc s"
  "stuck_state env tc (s\<lparr> cw_asked := n \<rparr>) = stuck_state env tc s"
  "stuck_state env tc (s\<lparr> cw_world := w \<rparr>) = stuck_state env tc s"
  "stuck_state env tc (s\<lparr> cw_conv := push_tool_results rs (cw_conv s) \<rparr>) = stuck_state env tc s"
  "stuck_state env tc (s\<lparr> cw_conv := push_user t (push_tool_results rs (cw_conv s)) \<rparr>)
     = stuck_state env tc s"
  by (simp_all add: stuck_state_def emit_def)

lemma stuck_answer [simp]: "stuck_state env tc (answer_prompt env c tc' r t s) = stuck_state env tc s"
  by (simp add: answer_prompt_def Let_def split: sum.split prod.split)

lemma stuck_call:
  assumes "gate_allows (gw_allowlist (cr_gateway c)) (tcl_name tc)"
    and "\<And>w. summarize tc (outcome_of (call_result c tc w)) \<noteq> None" and "stuck_state env tc s"
  shows "\<exists>r s'. crew_tool env c tc s = Some (r, s') \<and> stuck_state env tc s'"
proof (cases "cw_tool_calls s = 1 \<and> cw_recent s (call_key env tc) \<noteq> None")
  case True
  then have n: "stuck_state env tc (note_write tc s)" "refusal env tc (note_write tc s) \<noteq> None"
    using assms(3) by (auto simp: note_write_def stuck_state_def refusal_None split: option.splits)
  then show ?thesis
    using assms(1,3) by (auto simp: crew_tool_def refuse_def Let_def split: option.split)
next
  case False
  with assms(3) have s: "cw_tokens s = 0" "round_count (cw_conv s) = 0" "cw_tool_calls s = 0"
    "cw_recent s = Map.empty" "cw_written s = Map.empty" by (auto simp: stuck_state_def)
  let ?s = "note_write tc s"
  have n: "cw_tokens ?s = 0" "round_count (cw_conv ?s) = 0" "cw_tool_calls ?s = 0" "cw_recent ?s = Map.empty"
    using s by (simp_all add: note_write_def split: option.split)
  have free: "refusal env tc ?s = None"
    using s n by (auto simp: refusal_None note_write_def dest: call_paths_exclusive split: option.split)
  have w: "Option.bind (call_path ''write_file'' tc) (\<lambda>p. map_option (rewrite_msg p) (cw_written s p)) = None"
    using s(5) by (cases "call_path ''write_file'' tc") simp_all
  let ?s1 = "?s\<lparr> cw_recent := (cw_recent ?s)(call_key env tc \<mapsto> cw_tool_calls ?s),
     cw_tool_calls := cw_tool_calls ?s + 1, cw_invoked := cw_invoked ?s @ [tc] \<rparr>"
  have "stuck_state env tc ?s1" using n by (simp add: stuck_state_def)
  moreover obtain r w where r: "invoke (cr_gateway c) tc (cw_world ?s) = (r, w)" by fastforce
  moreover obtain t where "summarize tc (outcome_of (case r of Inl e \<Rightarrow> error_result e | Inr v \<Rightarrow> v)) = Some t"
    using assms(2) [of "cw_world ?s"] r by (auto simp: call_result_def)
  ultimately have "\<exists>v s'. run_call env c tc ?s = Some (v, s') \<and> stuck_state env tc s'"
    by (simp add: run_call_def Let_def)
  with assms(1) w free show ?thesis by (simp add: crew_tool_def Let_def)
qed

text \<open>
  Nothing bounds the rounds of a crew if the model does not report its usage: when it asks for one
  and the same call in every round, the call goes to the gateway once and is refused from then on, no
  budget grows, and the run never returns.
\<close>

theorem crew_may_run_forever:
  assumes "stubborn env tc" and "gate_allows (gw_allowlist (cr_gateway c)) (tcl_name tc)"
    and "\<And>w. summarize tc (outcome_of (call_result c tc w)) \<noteq> None"
  shows "crew_run n env c w = None"
proof -
  have "crew_loop n env c prompt s = None" if "stuck_state env tc s" for s prompt
    using that
  proof (induction n arbitrary: s)
    case 0
    then show ?case by simp
  next
    case (Suc n)
    obtain t where r: "cv_round env (cw_asked s) (cw_conv s) crew_tool_schemas prompt
        = Inr \<lparr> ar_text = t, ar_tool_calls = [tc], ar_usage = \<lparr> tu_input = 0, tu_output = 0 \<rparr> \<rparr>"
      using assms(1) unfolding stubborn_def by blast
    define s2 where "s2 = emit (TokensUsed (cr_agent_id c) ''crew'' 0 0 (lc_model (cr_llm_config c)))
        (s\<lparr> cw_asked := Suc (cw_asked s), cw_tokens := cw_tokens s \<rparr>)"
    have "stuck_state env tc s2" using Suc.prems by (simp add: s2_def stuck_state_def emit_def)
    then obtain v s3 where s3: "crew_tool env c tc s2 = Some (v, s3)" "stuck_state env tc s3"
      using stuck_call [OF assms(2,3)] by blast
    have budgets: "\<not> MAX_ROUNDS \<le> of_nat (round_count (cw_conv s))" "\<not> MAX_TOOL_CALLS \<le> cw_tool_calls s"
      "\<not> MAX_INPUT_TOKENS \<le> cw_tokens s"
      using Suc.prems by (auto simp: stuck_state_def)
    show ?case
      using r s3 [unfolded s2_def] budgets
        Suc.IH [of "s3\<lparr> cw_conv := push_tool_results [(tc, v)] (cw_conv s3) \<rparr>"]
      by (simp add: Let_def is_final_def)
  qed
  moreover have "stuck_state env tc (crew_start c w)"
    by (simp add: crew_start_def) (simp add: stuck_state_def round_count_def push_user_def)
  ultimately show ?thesis by (simp add: crew_run_def)
qed

definition demo_list_call :: tool_call where
  "demo_list_call = \<lparr> tcl_id = ''1'', tcl_name = ''list_dir'', tcl_args = empty_obj \<rparr>"

lemma crew_may_run_forever_witness:
  "crew_run 1000 (demo_crew_env\<lparr> cv_round := (\<lambda>_ _ _ _. Inr \<lparr> ar_text = None, ar_tool_calls = [demo_list_call],
       ar_usage = \<lparr> tu_input = 0, tu_output = 0 \<rparr> \<rparr>) \<rparr>) demo_crew () = None"
proof (rule crew_may_run_forever [where tc = demo_list_call])
  fix w
  have "call_result demo_crew demo_list_call w = error_result ''ToolGateway: no transport configured''"
    by (simp add: call_result_def invoke_def demo_crew_def new_gateway_def crew_allows_all)
  then show "summarize demo_list_call (outcome_of (call_result demo_crew demo_list_call w)) \<noteq> None"
    by (simp add: summarize_None outcome_of_def error_result_def cuttable_def cut_texts_def
        demo_list_call_def http_names_def)
qed (auto simp: stubborn_def demo_crew_def new_gateway_def crew_allows_all)

end
