(* ===== verification/Task_Machine.thy ===== *)
theory Task_Machine
  imports Graphs
begin

text \<open>
  What every scheduler of the system promises, as an abstract machine: tasks are pending, running,
  done or failed; a pending task may start once all its dependencies are done, and a running task
  reports success or failure. The schedulers of \<open>captain.rs\<close> and of \<open>agentd\<close> are shown to be
  executions of this machine, so its properties are theirs.
\<close>

section \<open>The machine\<close>

datatype 'a act = Spawn 'a | Recv 'a bool

record 'a dag_state =
  ds_pending :: "'a set"
  ds_running :: "'a set"
  ds_done :: "'a set"
  ds_failed :: "'a set"

definition all_pending :: "'a set \<Rightarrow> 'a dag_state" where
  "all_pending ids = \<lparr> ds_pending = ids, ds_running = {}, ds_done = {}, ds_failed = {} \<rparr>"

inductive dag_step :: "('a \<Rightarrow> 'a list) \<Rightarrow> 'a dag_state \<Rightarrow> 'a act \<Rightarrow> 'a dag_state \<Rightarrow> bool"
  for deps :: "'a \<Rightarrow> 'a list"
where
  start: "t \<in> ds_pending s \<Longrightarrow> set (deps t) \<subseteq> ds_done s \<Longrightarrow>
    dag_step deps s (Spawn t)
      (s\<lparr> ds_pending := ds_pending s - {t}, ds_running := insert t (ds_running s) \<rparr>)"
| succeed: "t \<in> ds_running s \<Longrightarrow>
    dag_step deps s (Recv t True)
      (s\<lparr> ds_running := ds_running s - {t}, ds_done := insert t (ds_done s) \<rparr>)"
| failure: "t \<in> ds_running s \<Longrightarrow>
    dag_step deps s (Recv t False)
      (s\<lparr> ds_running := ds_running s - {t}, ds_failed := insert t (ds_failed s) \<rparr>)"

inductive_cases dag_step_Spawn: "dag_step deps s (Spawn t) s'"
inductive_cases dag_step_Recv: "dag_step deps s (Recv t ok) s'"

inductive dag_run :: "('a \<Rightarrow> 'a list) \<Rightarrow> 'a dag_state \<Rightarrow> 'a act list \<Rightarrow> 'a dag_state \<Rightarrow> bool"
  for deps :: "'a \<Rightarrow> 'a list" and s :: "'a dag_state"
where
  run_refl: "dag_run deps s [] s"
| run_step: "dag_run deps s tr s1 \<Longrightarrow> dag_step deps s1 a s2 \<Longrightarrow> dag_run deps s (tr @ [a]) s2"

inductive_simps dag_run_Nil: "dag_run deps s [] s'"

lemma dag_run_snoc:
  "dag_run deps s (tr @ [a]) s2 \<longleftrightarrow> (\<exists>s1. dag_run deps s tr s1 \<and> dag_step deps s1 a s2)"
  by (auto elim: dag_run.cases intro: dag_run.intros)

section \<open>Invariants\<close>

text \<open>
  \<open>dag_inv\<close>: the four sets partition the tasks, and the dependencies of every task that has left
  \<open>pending\<close> are done.
\<close>

definition dag_inv :: "('a \<Rightarrow> 'a list) \<Rightarrow> 'a set \<Rightarrow> 'a dag_state \<Rightarrow> bool" where
  "dag_inv deps ids s \<longleftrightarrow>
     ds_pending s \<union> ds_running s \<union> ds_done s \<union> ds_failed s = ids
     \<and> ds_pending s \<inter> (ds_running s \<union> ds_done s \<union> ds_failed s) = {}
     \<and> ds_running s \<inter> (ds_done s \<union> ds_failed s) = {} \<and> ds_done s \<inter> ds_failed s = {}
     \<and> (\<forall>t\<in>ds_running s \<union> ds_done s \<union> ds_failed s. set (deps t) \<subseteq> ds_done s)"

lemma dag_inv_step: "dag_inv deps ids s \<Longrightarrow> dag_step deps s a s' \<Longrightarrow> dag_inv deps ids s'"
  by (erule dag_step.cases) (auto simp: dag_inv_def)

lemma dag_inv_run:
  assumes "dag_run deps (all_pending ids) tr s"
  shows "dag_inv deps ids s"
  using assms
proof (induction rule: dag_run.induct)
  case run_refl
  then show ?case by (simp add: dag_inv_def all_pending_def)
next
  case (run_step tr s1 a s2)
  then show ?case by (blast intro: dag_inv_step)
qed

text \<open>Every task starts at most once, after the success of all its dependencies.\<close>

lemma dag_run_trace:
  assumes "dag_run deps (all_pending ids) tr s"
  shows "{t. Spawn t \<in> set tr} = ids - ds_pending s \<and> {t. Recv t True \<in> set tr} = ds_done s
    \<and> {t. Recv t False \<in> set tr} = ds_failed s"
  using assms
proof (induction rule: dag_run.induct)
  case run_refl
  then show ?case by (simp add: all_pending_def)
next
  case (run_step tr s1 a s2)
  from run_step.hyps(2) run_step.IH dag_inv_run [OF run_step.hyps(1)] show ?case
    by (cases rule: dag_step.cases) (auto simp: dag_inv_def)
qed

lemma dag_run_starts_once:
  assumes "dag_run deps (all_pending ids) (us @ Spawn t # vs) s"
  shows "Spawn t \<notin> set us \<and> (\<forall>d\<in>set (deps t). Recv d True \<in> set us)"
  using assms
proof (induction vs arbitrary: s rule: rev_induct)
  case Nil
  then obtain s1 where r: "dag_run deps (all_pending ids) us s1" and st: "dag_step deps s1 (Spawn t) s"
    by (auto simp: dag_run_snoc)
  from st have "t \<in> ds_pending s1" "set (deps t) \<subseteq> ds_done s1" by (auto elim: dag_step_Spawn)
  with dag_run_trace [OF r] show ?case by blast
next
  case (snoc v vs)
  then obtain s1 where "dag_run deps (all_pending ids) (us @ Spawn t # vs) s1"
    by (metis append_Cons append_assoc dag_run_snoc)
  then show ?case by (rule snoc.IH)
qed

section \<open>When nothing can happen any more\<close>

definition quiescent :: "('a \<Rightarrow> 'a list) \<Rightarrow> 'a dag_state \<Rightarrow> bool" where
  "quiescent deps s \<longleftrightarrow> ds_running s = {} \<and> (\<forall>t\<in>ds_pending s. \<not> set (deps t) \<subseteq> ds_done s)"

lemma quiescent_iff: "quiescent deps s \<longleftrightarrow> (\<nexists>a s'. dag_step deps s a s')"
proof
  assume "quiescent deps s"
  then show "\<nexists>a s'. dag_step deps s a s'" by (auto simp: quiescent_def elim: dag_step.cases)
next
  assume stuck: "\<nexists>a s'. dag_step deps s a s'"
  then have "ds_running s = {}" by (meson dag_step.succeed equals0I)
  moreover have "\<not> set (deps t) \<subseteq> ds_done s" if "t \<in> ds_pending s" for t
    using stuck that by (meson dag_step.start)
  ultimately show "quiescent deps s" by (simp add: quiescent_def)
qed

text \<open>
  On a finite graph with known dependencies and without cycles, a run that has stopped without a
  failure has done every task; in general a task that was never started depends, through others that
  were never started, on one that failed.
\<close>

lemma quiescent_blocked:
  assumes "dag_inv deps ids s" and "quiescent deps s" and "finite ids"
    and known: "\<forall>t\<in>ids. set (deps t) \<subseteq> ids"
    and acyc: "acyclic {(t, d). t \<in> ids \<and> d \<in> set (deps t)}"
    and t: "t \<in> ds_pending s"
  shows "\<exists>f\<in>ds_failed s. (t, f) \<in> {(t, d). t \<in> ids \<and> d \<in> set (deps t)}\<^sup>+"
proof -
  define E where "E = {(t, d). t \<in> ids \<and> d \<in> set (deps t)}"
  define S where "S = {x \<in> ds_pending s. \<not> (\<exists>f\<in>ds_failed s. (x, f) \<in> E\<^sup>+)}"
  have sub: "ds_pending s \<subseteq> ids" using assms(1) by (auto simp: dag_inv_def)
  have next_in: "\<exists>y\<in>S. (x, y) \<in> E" if x: "x \<in> S" for x
  proof -
    from x have p: "x \<in> ds_pending s" and nf: "\<And>f. f \<in> ds_failed s \<Longrightarrow> (x, f) \<notin> E\<^sup>+"
      by (auto simp: S_def)
    from p assms(2) have "\<not> set (deps x) \<subseteq> ds_done s" by (simp add: quiescent_def)
    then obtain d where d: "d \<in> set (deps x)" "d \<notin> ds_done s" by blast
    from p sub d(1) have e: "(x, d) \<in> E" by (auto simp: E_def)
    from p sub known d(1) have "d \<in> ids" by blast
    with d(2) assms(1,2) have "d \<in> ds_pending s \<or> d \<in> ds_failed s"
      by (auto simp: dag_inv_def quiescent_def)
    moreover have "d \<notin> ds_failed s" using nf e by blast
    moreover have "(d, f) \<notin> E\<^sup>+" if "f \<in> ds_failed s" for f
      using nf [OF that] e by (meson trancl_into_trancl2)
    ultimately show ?thesis using e by (auto simp: S_def)
  qed
  have "finite S" using assms(3) sub by (simp add: S_def finite_subset)
  moreover have "acyclic E" using acyc by (simp add: E_def)
  ultimately have "S = {}" using stuck_set_cyclic [of S E] next_in by blast
  with t show ?thesis unfolding S_def E_def by blast
qed

lemma quiescent_complete:
  assumes "dag_inv deps ids s" and "quiescent deps s" and "finite ids"
    and "\<forall>t\<in>ids. set (deps t) \<subseteq> ids" and "acyclic {(t, d). t \<in> ids \<and> d \<in> set (deps t)}"
    and "ds_failed s = {}"
  shows "ds_done s = ids"
proof -
  have "ds_pending s = {}" using quiescent_blocked [OF assms(1-5)] assms(6) by blast
  with assms(1,2,6) show ?thesis by (auto simp: dag_inv_def quiescent_def)
qed

end
