(* ===== verification/Captain_Loop.thy ===== *)
theory Captain_Loop
  imports Crew_Loop Task_Machine "HOL-Library.AList"
begin

text \<open>
  The captain of \<open>mowis-orchestration/src/captain.rs\<close>: the scheduling loop of \<open>start_plan\<close>, which
  starts a crew for every task whose dependencies have completed and waits for one crew at a time, the
  injected tasks, and the command loop. The hash tables \<open>remaining\<close>, \<open>completed\<close> and \<open>failed\<close> are
  association lists; the order in which they are iterated, which running crew reports next and what it
  reports are fields of the environment, so every theorem holds for each of them.
\<close>

section \<open>Data\<close>

datatype captain_outcome =
    CaptainCompleted string
  | CaptainFailed string string
  | CaptainAborted

record injected_task =
  it_id :: string
  it_title :: string
  it_description :: string
  it_deps :: "task_id list"
  it_model_tier :: string
  it_tool_budget :: u32
  it_injected_at :: string
  it_reason :: string

record captain =
  cap_plan :: "plan option"
  cap_sandbox_id :: "string option"
  cap_completed :: "(task_id \<times> crew_outcome) list"
  cap_failed :: "(task_id \<times> crew_outcome) list"
  cap_injected :: "injected_task list"

text \<open>
  \<open>ce_load\<close> is the result of \<open>Plan::load\<close>, \<open>ce_llm\<close> that of \<open>llm_for_task\<close>, \<open>ce_crew\<close> that of the
  crew's run, \<open>ce_pick\<close> the position of the crew that reports next among those that run, \<open>ce_order\<close>
  the iteration order of a hash table, \<open>ce_show\<close> the text of an error.
\<close>

record captain_env =
  ce_load :: "plan_id \<Rightarrow> orch_error + plan"
  ce_llm :: "plan \<Rightarrow> task_node \<Rightarrow> orch_error + llm_config"
  ce_crew :: "task_node \<Rightarrow> orch_error + crew_outcome"
  ce_pick :: "nat \<Rightarrow> nat"
  ce_order :: "task_id list \<Rightarrow> task_id list"
  ce_show :: "orch_error \<Rightarrow> string"
  ce_now :: string

definition any_order :: "('a list \<Rightarrow> 'a list) \<Rightarrow> bool" where
  "any_order f \<longleftrightarrow> (\<forall>xs. distinct xs \<longrightarrow> set (f xs) = set xs \<and> distinct (f xs))"

lemma any_order_Nil: "any_order f \<Longrightarrow> f [] = []"
  by (drule any_order_def [THEN iffD1], drule spec [of _ "[]"]) simp

definition new_captain :: captain where
  "new_captain = \<lparr> cap_plan = None, cap_sandbox_id = None, cap_completed = [], cap_failed = [],
     cap_injected = [] \<rparr>"

section \<open>The scheduling loop\<close>

text \<open>The local variables of the loop, with the trace of starts and reports.\<close>

record sched =
  sd_remaining :: "(task_id \<times> task_id list) list"
  sd_completed :: "task_id set"
  sd_running :: "task_id list"
  sd_captain :: captain
  sd_events :: "event list"
  sd_trace :: "task_id act list"

definition initial_remaining :: "task_node list \<Rightarrow> (task_id \<times> task_id list) list" where
  "initial_remaining ts = fold (\<lambda>t. AList.update (tn_id t) (tn_deps t)) ts []"

definition ready :: "captain_env \<Rightarrow> sched \<Rightarrow> task_id list" where
  "ready env s = ce_order env
     (map fst (filter (\<lambda>(_, deps). list_all (\<lambda>d. d \<in> sd_completed s) deps) (sd_remaining s)))"

fun spawn_all ::
  "captain_env \<Rightarrow> plan \<Rightarrow> task_id list \<Rightarrow> sched \<Rightarrow> orch_error option \<times> sched" where
  "spawn_all env p [] s = (None, s)"
| "spawn_all env p (t # ts) s =
     (let s1 = s\<lparr> sd_remaining := AList.delete t (sd_remaining s) \<rparr> in
      case find_task (pl_task_graph p) t of
        None \<Rightarrow> (Some (Bail (''task '' @ t @ '' not found'')), s1)
      | Some node \<Rightarrow>
          (case ce_llm env p node of
             Inl e \<Rightarrow> (Some e, s1)
           | Inr _ \<Rightarrow>
               spawn_all env p ts
                 (s1\<lparr> sd_running := sd_running s @ [t], sd_trace := sd_trace s @ [Spawn t] \<rparr>)))"

text \<open>\<open>done_rx.recv()\<close>: the report of one running crew.\<close>

definition next_report :: "captain_env \<Rightarrow> sched \<Rightarrow> task_id" where
  "next_report env s =
     sd_running s ! (ce_pick env (length (sd_trace s)) mod length (sd_running s))"

definition receive :: "captain_env \<Rightarrow> plan_id \<Rightarrow> plan \<Rightarrow> task_id \<Rightarrow> sched \<Rightarrow> sched" where
  "receive env pid p t s =
     (let s1 = s\<lparr> sd_running := remove1 t (sd_running s) \<rparr>;
          c = sd_captain s;
          r = (case find_task (pl_task_graph p) t of
                 None \<Rightarrow> Inl (Bail (''task '' @ t @ '' not found'')) | Some node \<Rightarrow> ce_crew env node)
      in case r of
        Inr (OutDone agent summary n) \<Rightarrow>
          s1\<lparr> sd_completed := insert t (sd_completed s),
              sd_events := sd_events s @ [MergeCompleted pid agent],
              sd_captain := c\<lparr> cap_completed :=
                AList.update t (OutDone agent summary n) (cap_completed c) \<rparr>,
              sd_trace := sd_trace s @ [Recv t True] \<rparr>
      | Inr (OutFailed agent reason n) \<Rightarrow>
          s1\<lparr> sd_events := sd_events s @ [CrewFailed pid agent reason],
              sd_captain := c\<lparr> cap_failed :=
                AList.update t (OutFailed agent reason n) (cap_failed c) \<rparr>,
              sd_trace := sd_trace s @ [Recv t False] \<rparr>
      | Inl e \<Rightarrow>
          s1\<lparr> sd_captain := c\<lparr> cap_failed :=
                AList.update t (OutFailed [] (ce_show env e) 0) (cap_failed c) \<rparr>,
              sd_trace := sd_trace s @ [Recv t False] \<rparr>)"


text \<open>
  The loop ends when nothing is ready and nothing runs. The first argument bounds its iterations;
  each of them but the last receives one report.
\<close>

fun sched_loop ::
  "nat \<Rightarrow> captain_env \<Rightarrow> plan_id \<Rightarrow> plan \<Rightarrow> sched \<Rightarrow> (orch_error option \<times> sched) option" where
  "sched_loop 0 env pid p s = None"
| "sched_loop (Suc n) env pid p s =
     (if ready env s = [] \<and> sd_running s = [] then Some (None, s)
      else case spawn_all env p (ready env s) s of
             (Some e, s1) \<Rightarrow> Some (Some e, s1)
           | (None, s1) \<Rightarrow>
               if sd_running s1 = [] then Some (None, s1)
               else sched_loop n env pid p (receive env pid p (next_report env s1) s1))"

definition initial_sched :: "captain \<Rightarrow> event list \<Rightarrow> plan \<Rightarrow> sched" where
  "initial_sched c es p = \<lparr> sd_remaining = initial_remaining (tg_tasks (pl_task_graph p)),
     sd_completed = {}, sd_running = [], sd_captain = c, sd_events = es, sd_trace = [] \<rparr>"

section \<open>Injected tasks\<close>

definition injected_node :: "injected_task \<Rightarrow> task_node" where
  "injected_node it = \<lparr> tn_id = it_id it, tn_title = it_title it,
     tn_description = it_description it, tn_deps = it_deps it, tn_model_tier = Fast,
     tn_tool_budget = it_tool_budget it, tn_files_hint = [] \<rparr>"

definition run_injected ::
  "captain_env \<Rightarrow> plan_id \<Rightarrow> plan \<Rightarrow> injected_task \<Rightarrow> captain \<times> event list \<Rightarrow> captain \<times> event list" where
  "run_injected env pid p it ce =
     (case ce_llm env p (injected_node it) of
        Inl e \<Rightarrow> ce
      | Inr _ \<Rightarrow>
          (case ce_crew env (injected_node it) of
             Inl e \<Rightarrow> ce
           | Inr outcome \<Rightarrow>
               ((fst ce)\<lparr> cap_completed := AList.update (it_id it) outcome (cap_completed (fst ce)) \<rparr>,
                snd ce @ [MergeCompleted pid (pid @ ''-'' @ it_id it)])))"

definition run_injected_tasks ::
  "captain_env \<Rightarrow> plan_id \<Rightarrow> plan \<Rightarrow> captain \<times> event list \<Rightarrow> captain \<times> event list" where
  "run_injected_tasks env pid p ce =
     fold (run_injected env pid p) (cap_injected (fst ce)) ((fst ce)\<lparr> cap_injected := [] \<rparr>, snd ce)"

section \<open>\<open>start_plan\<close>\<close>

definition outcome_reason :: "crew_outcome \<Rightarrow> string" where
  "outcome_reason r = (case r of OutFailed _ reason _ \<Rightarrow> reason | _ \<Rightarrow> [])"

definition failed_reason :: "captain_env \<Rightarrow> (task_id \<times> crew_outcome) list \<Rightarrow> string" where
  "failed_reason env failed =
     join_str ''; '' (map (\<lambda>t. outcome_reason (the (map_of failed t))) (ce_order env (map fst failed)))"

definition finish_plan ::
  "captain_env \<Rightarrow> plan_id \<Rightarrow> string \<Rightarrow> captain \<times> event list \<Rightarrow> captain_outcome \<times> captain \<times> event list" where
  "finish_plan env pid sandbox_id ce =
     (if cap_failed (fst ce) = []
      then (CaptainCompleted sandbox_id, fst ce, snd ce @ [PlanCompleted pid])
      else let reason = failed_reason env (cap_failed (fst ce)) in
        (CaptainFailed reason sandbox_id, fst ce, snd ce @ [PlanFailed pid reason]))"

definition sandbox_of :: "captain \<Rightarrow> plan_id \<Rightarrow> string" where
  "sandbox_of c pid = unwrap_or (''conv-'' @ pid) (cap_sandbox_id c)"

definition start_plan ::
  "captain_env \<Rightarrow> plan_id \<Rightarrow> captain
     \<Rightarrow> ((orch_error + captain_outcome) \<times> captain \<times> event list) option" where
  "start_plan env pid c =
     (case ce_load env pid of
        Inl e \<Rightarrow> Some (Inl e, c, [])
      | Inr p \<Rightarrow>
          (let sid = sandbox_of c pid;
               c1 = c\<lparr> cap_sandbox_id := Some sid, cap_plan := Some p \<rparr>
           in case sched_loop (Suc (length (tg_tasks (pl_task_graph p)))) env pid p
                     (initial_sched c1 [CaptainStarted pid sid] p) of
                None \<Rightarrow> None
              | Some (Some e, s) \<Rightarrow> Some (Inl e, sd_captain s, sd_events s)
              | Some (None, s) \<Rightarrow>
                  (case finish_plan env pid sid
                          (run_injected_tasks env pid p (sd_captain s, sd_events s)) of
                     (out, c2, es) \<Rightarrow> Some (Inr out, c2, es))))"

section \<open>The other commands\<close>

fun show_model_tier :: "model_tier \<Rightarrow> string" where
  "show_model_tier Fast = ''fast''"
| "show_model_tier Mid = ''mid''"
| "show_model_tier Flagship = ''flagship''"

definition inject_task :: "captain_env \<Rightarrow> task_node \<Rightarrow> captain \<Rightarrow> captain \<times> event list" where
  "inject_task env t c =
     (c\<lparr> cap_injected := cap_injected c @
           [\<lparr> it_id = tn_id t, it_title = tn_title t, it_description = tn_description t,
              it_deps = tn_deps t, it_model_tier = show_model_tier (tn_model_tier t),
              it_tool_budget = tn_tool_budget t, it_injected_at = ce_now env,
              it_reason = ''user mid-run inject'' \<rparr>] \<rparr>,
      [TaskInjected (case cap_plan c of None \<Rightarrow> ''unknown'' | Some p \<Rightarrow> pl_plan_id p) (tn_id t)
         ''user mid-run inject''])"

definition cancel_plan :: "string \<Rightarrow> captain \<Rightarrow> event list" where
  "cancel_plan reason c =
     (case cap_plan c of None \<Rightarrow> [] | Some p \<Rightarrow> [PlanFailed (pl_plan_id p) reason])"

definition query_status :: "captain_env \<Rightarrow> captain \<Rightarrow> captain_status" where
  "query_status env c =
     \<lparr> cs_plan_id = map_option pl_plan_id (cap_plan c), cs_sandbox_id = cap_sandbox_id c,
       cs_in_flight = [], cs_completed = ce_order env (map fst (cap_completed c)),
       cs_failed = map (\<lambda>t. (t, outcome_reason (the (map_of (cap_failed c) t))))
         (ce_order env (map fst (cap_failed c))) \<rparr>"

definition shutdown :: "captain \<Rightarrow> event list" where
  "shutdown c =
     (case cap_sandbox_id c of
        None \<Rightarrow> []
      | Some sid \<Rightarrow> [CaptainShutdown sid (if cap_failed c = [] then Done else Aborted)])"

text \<open>
  \<open>Captain::run\<close>: the commands are handled one after the other, a \<open>StartPlan\<close> to its end before the
  next; the result is what was replied and what was emitted.
\<close>

datatype captain_command =
    StartPlan plan_id
  | InjectTask task_node
  | PauseAll
  | ResumeAll
  | CancelPlan string
  | QueryStatus
  | ShutdownCaptain

datatype captain_reply =
    RepOutcome "orch_error + captain_outcome"
  | RepTask task_id
  | RepUnit
  | RepStatus captain_status

fun captain_run ::
  "captain_env \<Rightarrow> captain_command list \<Rightarrow> captain
     \<Rightarrow> (captain_reply list \<times> event list \<times> captain) option" where
  "captain_run env [] c = Some ([], [], c)"
| "captain_run env (StartPlan pid # cmds) c =
     (case start_plan env pid c of
        None \<Rightarrow> None
      | Some (r, c', es) \<Rightarrow>
          map_option (\<lambda>(rs, es', c''). (RepOutcome r # rs, es @ es', c'')) (captain_run env cmds c'))"
| "captain_run env (InjectTask t # cmds) c =
     (case inject_task env t c of
        (c', es) \<Rightarrow>
          map_option (\<lambda>(rs, es', c''). (RepTask (tn_id t) # rs, es @ es', c'')) (captain_run env cmds c'))"
| "captain_run env (PauseAll # cmds) c =
     map_option (\<lambda>(rs, es', c''). (RepUnit # rs, es', c'')) (captain_run env cmds c)"
| "captain_run env (ResumeAll # cmds) c =
     map_option (\<lambda>(rs, es', c''). (RepUnit # rs, es', c'')) (captain_run env cmds c)"
| "captain_run env (CancelPlan reason # cmds) c =
     map_option (\<lambda>(rs, es', c''). (RepUnit # rs, cancel_plan reason c @ es', c''))
       (captain_run env cmds c)"
| "captain_run env (QueryStatus # cmds) c =
     map_option (\<lambda>(rs, es', c''). (RepStatus (query_status env c) # rs, es', c''))
       (captain_run env cmds c)"
| "captain_run env (ShutdownCaptain # cmds) c = Some ([], shutdown c, c)"

section \<open>The loop is an execution of the task machine\<close>

text \<open>The dependencies that the table \<open>remaining\<close> holds for a task at the start.\<close>

definition rdeps :: "plan \<Rightarrow> task_id \<Rightarrow> task_id list" where
  "rdeps p t = the (map_of (initial_remaining (tg_tasks (pl_task_graph p))) t)"

definition plan_ids :: "plan \<Rightarrow> task_id set" where
  "plan_ids p = set (task_ids (pl_task_graph p))"

definition abs_sched :: "sched \<Rightarrow> task_id dag_state" where
  "abs_sched s = \<lparr> ds_pending = set (map fst (sd_remaining s)), ds_running = set (sd_running s),
     ds_done = sd_completed s, ds_failed = {t. Recv t False \<in> set (sd_trace s)} \<rparr>"

definition crew_succeeds :: "captain_env \<Rightarrow> plan \<Rightarrow> task_id \<Rightarrow> bool" where
  "crew_succeeds env p t =
     (case find_task (pl_task_graph p) t of
        None \<Rightarrow> False
      | Some node \<Rightarrow> (case ce_crew env node of Inr (OutDone _ _ _) \<Rightarrow> True | _ \<Rightarrow> False))"

text \<open>
  The invariant of the loop: the state is reached by the trace in the machine, the tables have distinct
  keys, and the captain's tables have grown by the tasks done and failed.
\<close>

definition sched_ok :: "captain_env \<Rightarrow> plan \<Rightarrow> captain \<Rightarrow> sched \<Rightarrow> bool" where
  "sched_ok env p c0 s \<longleftrightarrow>
     dag_run (rdeps p) (all_pending (plan_ids p)) (sd_trace s) (abs_sched s)
     \<and> distinct (map fst (sd_remaining s)) \<and> distinct (sd_running s)
     \<and> (\<forall>(t, ds)\<in>set (sd_remaining s). ds = rdeps p t)
     \<and> (\<forall>t\<in>sd_completed s. crew_succeeds env p t)
     \<and> (\<forall>t. Recv t False \<in> set (sd_trace s) \<longrightarrow> \<not> crew_succeeds env p t)
     \<and> fst ` set (cap_completed (sd_captain s)) = fst ` set (cap_completed c0) \<union> sd_completed s
     \<and> fst ` set (cap_failed (sd_captain s))
         = fst ` set (cap_failed c0) \<union> {t. Recv t False \<in> set (sd_trace s)}
     \<and> cap_injected (sd_captain s) = cap_injected c0"

lemma keys_update [simp]: "fst ` set (AList.update k v al) = insert k (fst ` set al)"
  by (simp add: AList.dom_update)

lemma initial_remaining_keys:
  "fst ` set (fold (\<lambda>t. AList.update (tn_id t) (tn_deps t)) ts al) = tn_id ` set ts \<union> fst ` set al"
  by (induction ts arbitrary: al) auto

lemma initial_remaining_distinct:
  "distinct (map fst al) \<Longrightarrow>
   distinct (map fst (fold (\<lambda>t. AList.update (tn_id t) (tn_deps t)) ts al))"
  by (induction ts arbitrary: al) (auto simp: AList.distinct_update)

lemma initial_sched_ok: "sched_ok env p c (initial_sched c es p)"
proof -
  let ?r = "initial_remaining (tg_tasks (pl_task_graph p))"
  have d: "distinct (map fst ?r)" by (simp add: initial_remaining_def initial_remaining_distinct)
  have k: "fst ` set ?r = plan_ids p"
    by (simp add: initial_remaining_def initial_remaining_keys plan_ids_def task_ids_def)
  have "ds = rdeps p t" if "(t, ds) \<in> set ?r" for t ds
    using d that by (simp add: rdeps_def)
  then show ?thesis
    using d k by (auto simp: sched_ok_def initial_sched_def abs_sched_def all_pending_def dag_run_Nil)
qed

lemma dag_run_extend:
  "dag_run deps s0 tr s1 \<Longrightarrow> dag_step deps s1 a s2 \<Longrightarrow> s2 = s3 \<Longrightarrow> dag_run deps s0 (tr @ [a]) s3"
  by (auto intro: run_step)

lemma set_delete_subset: "set (AList.delete k al) \<subseteq> set al"
  by (auto simp: AList.delete_eq)

lemma spawn_ok:
  assumes ok: "sched_ok env p c0 s" and t: "t \<in> fst ` set (sd_remaining s)"
    and deps: "set (rdeps p t) \<subseteq> sd_completed s"
  shows "sched_ok env p c0 (s\<lparr> sd_remaining := AList.delete t (sd_remaining s),
     sd_running := sd_running s @ [t], sd_trace := sd_trace s @ [Spawn t] \<rparr>)"
    (is "sched_ok env p c0 ?s")
proof -
  have run: "dag_run (rdeps p) (all_pending (plan_ids p)) (sd_trace s) (abs_sched s)"
    using ok by (simp add: sched_ok_def)
  have "dag_step (rdeps p) (abs_sched s) (Spawn t)
      ((abs_sched s)\<lparr> ds_pending := ds_pending (abs_sched s) - {t},
        ds_running := insert t (ds_running (abs_sched s)) \<rparr>)"
    using t deps by (intro dag_step.start) (simp_all add: abs_sched_def)
  moreover have "(abs_sched s)\<lparr> ds_pending := ds_pending (abs_sched s) - {t},
        ds_running := insert t (ds_running (abs_sched s)) \<rparr> = abs_sched ?s"
    by (simp add: abs_sched_def AList.delete_keys)
  ultimately have "dag_run (rdeps p) (all_pending (plan_ids p)) (sd_trace ?s) (abs_sched ?s)"
    using dag_run_extend [OF run] by simp
  moreover have "t \<notin> set (sd_running s)"
    using dag_inv_run [OF run] t by (auto simp: dag_inv_def abs_sched_def)
  ultimately show ?thesis
    using ok set_delete_subset [of t "sd_remaining s"]
    by (auto simp: sched_ok_def AList.delete_keys distinct_removeAll)
qed

lemma receive_fields:
  "sd_remaining (receive env pid p t s) = sd_remaining s"
  "sd_running (receive env pid p t s) = remove1 t (sd_running s)"
  "sd_trace (receive env pid p t s) = sd_trace s @ [Recv t (crew_succeeds env p t)]"
  "sd_completed (receive env pid p t s)
     = (if crew_succeeds env p t then insert t (sd_completed s) else sd_completed s)"
  "fst ` set (cap_completed (sd_captain (receive env pid p t s)))
     = (if crew_succeeds env p t then insert t (fst ` set (cap_completed (sd_captain s)))
        else fst ` set (cap_completed (sd_captain s)))"
  "fst ` set (cap_failed (sd_captain (receive env pid p t s)))
     = (if crew_succeeds env p t then fst ` set (cap_failed (sd_captain s))
        else insert t (fst ` set (cap_failed (sd_captain s))))"
  "cap_injected (sd_captain (receive env pid p t s)) = cap_injected (sd_captain s)"
  by (auto simp: receive_def crew_succeeds_def Let_def
      split: option.splits sum.splits crew_outcome.splits)

lemma receive_ok:
  assumes ok: "sched_ok env p c0 s" and t: "t \<in> set (sd_running s)"
  shows "sched_ok env p c0 (receive env pid p t s)" (is "sched_ok env p c0 ?s")
proof -
  have run: "dag_run (rdeps p) (all_pending (plan_ids p)) (sd_trace s) (abs_sched s)"
    and dist: "distinct (sd_running s)"
    using ok by (simp_all add: sched_ok_def)
  have "dag_step (rdeps p) (abs_sched s) (Recv t (crew_succeeds env p t)) (abs_sched ?s)"
  proof (cases "crew_succeeds env p t")
    case True
    have "dag_step (rdeps p) (abs_sched s) (Recv t True)
        ((abs_sched s)\<lparr> ds_running := ds_running (abs_sched s) - {t},
          ds_done := insert t (ds_done (abs_sched s)) \<rparr>)"
      using t by (intro dag_step.succeed) (simp add: abs_sched_def)
    with True dist show ?thesis by (simp add: abs_sched_def receive_fields set_remove1_eq)
  next
    case False
    have "dag_step (rdeps p) (abs_sched s) (Recv t False)
        ((abs_sched s)\<lparr> ds_running := ds_running (abs_sched s) - {t},
          ds_failed := insert t (ds_failed (abs_sched s)) \<rparr>)"
      using t by (intro dag_step.failure) (simp add: abs_sched_def)
    moreover have "{x. Recv x False \<in> set (sd_trace ?s)} = insert t {x. Recv x False \<in> set (sd_trace s)}"
      using False by (auto simp: receive_fields)
    ultimately show ?thesis using False dist
      by (simp add: abs_sched_def receive_fields set_remove1_eq)
  qed
  with run have "dag_run (rdeps p) (all_pending (plan_ids p)) (sd_trace ?s) (abs_sched ?s)"
    by (auto simp: receive_fields intro: run_step)
  then show ?thesis
    using ok by (auto simp: sched_ok_def receive_fields)
qed

lemma spawn_all_ok:
  assumes "spawn_all env p ts s = (None, s')" and "sched_ok env p c0 s" and "distinct ts"
    and "set ts \<subseteq> fst ` set (sd_remaining s)"
    and "\<forall>t\<in>set ts. set (rdeps p t) \<subseteq> sd_completed s"
  shows "sched_ok env p c0 s' \<and> sd_completed s' = sd_completed s \<and> sd_running s' = sd_running s @ ts
    \<and> length (sd_remaining s') + length ts = length (sd_remaining s)"
  using assms
proof (induction ts arbitrary: s)
  case Nil
  then show ?case by simp
next
  case (Cons t ts)
  let ?s = "s\<lparr> sd_remaining := AList.delete t (sd_remaining s), sd_running := sd_running s @ [t],
     sd_trace := sd_trace s @ [Spawn t] \<rparr>"
  from Cons.prems(1) have next_: "spawn_all env p ts ?s = (None, s')"
    by (auto simp: Let_def split: option.splits sum.splits)
  have ok: "sched_ok env p c0 ?s"
    using Cons.prems by (intro spawn_ok) auto
  have d: "distinct (map fst (sd_remaining s))" using Cons.prems(2) by (simp add: sched_ok_def)
  have keys: "map fst (sd_remaining ?s) = remove1 t (map fst (sd_remaining s))"
    using d by (simp add: AList.delete_keys distinct_remove1_removeAll)
  have len: "Suc (length (sd_remaining ?s)) = length (sd_remaining s)"
  proof -
    have "t \<in> set (map fst (sd_remaining s))" using Cons.prems(4) by simp
    then have "length (map fst (sd_remaining ?s)) = length (map fst (sd_remaining s)) - 1"
      unfolding keys by (simp add: length_remove1)
    moreover have "sd_remaining s \<noteq> []" using Cons.prems(4) by auto
    ultimately show ?thesis by simp
  qed
  have "set ts \<subseteq> fst ` set (sd_remaining ?s)"
    using arg_cong [OF keys, of set] Cons.prems(3,4) d by auto
  from Cons.IH [OF next_ ok _ this] Cons.prems(3,5) len show ?case by simp
qed

lemma spawn_all_captain:
  "spawn_all env p ts s = (r, s') \<Longrightarrow> sd_captain s' = sd_captain s \<and> sd_events s' = sd_events s"
proof (induction ts arbitrary: s)
  case Nil
  then show ?case by simp
next
  case (Cons t ts)
  show ?case
  proof (cases "find_task (pl_task_graph p) t")
    case None
    with Cons.prems show ?thesis by (simp add: Let_def) auto
  next
    case (Some node)
    show ?thesis
    proof (cases "ce_llm env p node")
      case (Inl e)
      with Some Cons.prems show ?thesis by (simp add: Let_def) auto
    next
      case (Inr m)
      with Some Cons.prems have "spawn_all env p ts (s\<lparr> sd_remaining := AList.delete t (sd_remaining s),
          sd_running := sd_running s @ [t], sd_trace := sd_trace s @ [Spawn t] \<rparr>) = (r, s')"
        by (simp add: Let_def)
      from Cons.IH [OF this] show ?thesis by simp
    qed
  qed
qed

text \<open>With a plan whose tasks are known and models for all of them, no start fails.\<close>

lemma spawn_all_succeeds:
  assumes "\<forall>t\<in>set ts. find_task (pl_task_graph p) t \<noteq> None"
    and "\<forall>node\<in>set (tg_tasks (pl_task_graph p)). \<exists>m. ce_llm env p node = Inr m"
  shows "\<exists>s'. spawn_all env p ts s = (None, s')"
  using assms
proof (induction ts arbitrary: s)
  case Nil
  then show ?case by simp
next
  case (Cons t ts)
  then obtain node where n: "find_task (pl_task_graph p) t = Some node" by auto
  then have "node \<in> set (tg_tasks (pl_task_graph p))"
    by (auto simp: find_task_def dest: find_SomeD)
  with Cons.prems(2) obtain m where "ce_llm env p node = Inr m" by blast
  with n Cons.IH [OF _ Cons.prems(2)] Cons.prems(1) show ?case by (simp add: Let_def)
qed

lemma ready_ok:
  assumes "any_order (ce_order env)" and "sched_ok env p c0 s"
  shows "set (ready env s) = {t \<in> fst ` set (sd_remaining s). set (rdeps p t) \<subseteq> sd_completed s}"
    and "distinct (ready env s)"
proof -
  let ?f = "filter (\<lambda>(_, deps). list_all (\<lambda>d. d \<in> sd_completed s) deps) (sd_remaining s)"
  have "distinct (map fst ?f)" using assms(2) by (simp add: sched_ok_def distinct_map_filter)
  with assms(1) have r: "set (ready env s) = set (map fst ?f)" "distinct (ready env s)"
    by (simp_all add: any_order_def ready_def)
  have rd: "ds = rdeps p t" if "(t, ds) \<in> set (sd_remaining s)" for t ds
    using assms(2) that by (auto simp: sched_ok_def)
  have "set (map fst ?f) = {t \<in> fst ` set (sd_remaining s). set (rdeps p t) \<subseteq> sd_completed s}"
    using rd by (force simp: list_all_iff)
  with r show "set (ready env s) = {t \<in> fst ` set (sd_remaining s). set (rdeps p t) \<subseteq> sd_completed s}"
    and "distinct (ready env s)" by simp_all
qed

lemma sched_loop_ok:
  assumes "any_order (ce_order env)" and "sched_ok env p c0 s"
    and "length (sd_remaining s) + length (sd_running s) < n"
  shows "\<exists>r s'. sched_loop n env pid p s = Some (r, s')
    \<and> (r = None \<longrightarrow> sched_ok env p c0 s' \<and> quiescent (rdeps p) (abs_sched s'))"
  using assms(2,3)
proof (induction n arbitrary: s)
  case 0
  then show ?case by simp
next
  case (Suc n)
  note rd = ready_ok [OF assms(1) Suc.prems(1)]
  show ?case
  proof (cases "ready env s = [] \<and> sd_running s = []")
    case True
    then have "quiescent (rdeps p) (abs_sched s)"
      using rd(1) by (auto simp: quiescent_def abs_sched_def)
    with True Suc.prems(1) show ?thesis by simp
  next
    case False
    obtain r s1 where sp: "spawn_all env p (ready env s) s = (r, s1)"
      by (cases "spawn_all env p (ready env s) s")
    show ?thesis
    proof (cases r)
      case (Some e)
      with sp False have "sched_loop (Suc n) env pid p s = Some (Some e, s1)" by simp
      then show ?thesis by blast
    next
      case None
      have sub: "set (ready env s) \<subseteq> fst ` set (sd_remaining s)"
        "\<forall>t\<in>set (ready env s). set (rdeps p t) \<subseteq> sd_completed s" unfolding rd(1) by blast+
      have s1: "sched_ok env p c0 s1" "sd_running s1 = sd_running s @ ready env s"
        "length (sd_remaining s1) + length (ready env s) = length (sd_remaining s)"
        using spawn_all_ok [OF sp [unfolded None] Suc.prems(1) rd(2) sub] by simp_all
      with False have ne: "sd_running s1 \<noteq> []" by auto
      let ?t = "next_report env s1"
      have t: "?t \<in> set (sd_running s1)"
        unfolding next_report_def using ne by (intro nth_mem) simp
      have "length (sd_remaining (receive env pid p ?t s1)) + length (sd_running (receive env pid p ?t s1)) < n"
      proof -
        have "length (sd_running (receive env pid p ?t s1)) < length (sd_running s1)"
          using t ne by (simp add: receive_fields length_remove1)
        moreover have "length (sd_running s1) = length (sd_running s) + length (ready env s)"
          using s1(2) by simp
        moreover have "length (sd_remaining (receive env pid p ?t s1)) = length (sd_remaining s1)"
          by (simp only: receive_fields)
        ultimately show ?thesis using Suc.prems(2) s1(3) by linarith
      qed
      moreover have "sched_loop (Suc n) env pid p s = sched_loop n env pid p (receive env pid p ?t s1)"
        by (subst sched_loop.simps, subst if_not_P [OF False]) (simp add: sp None ne)
      ultimately show ?thesis using Suc.IH [OF receive_ok [OF s1(1) t]] by (simp only: simp_thms)
    qed
  qed
qed

section \<open>What \<open>start_plan\<close> promises\<close>

lemma initial_remaining_length:
  "length (fold (\<lambda>t. AList.update (tn_id t) (tn_deps t)) ts al) \<le> length al + length ts"
proof (induction ts arbitrary: al)
  case Nil
  then show ?case by simp
next
  case (Cons t ts)
  have one: "length (AList.update k v al) \<le> Suc (length al)" for k :: task_id and v
    by (induction al) auto
  have "length (AList.update (tn_id t) (tn_deps t) al) + length ts \<le> length al + length (t # ts)"
    using one [of "tn_id t" "tn_deps t"] by simp
  with Cons [of "AList.update (tn_id t) (tn_deps t) al"] show ?case
    unfolding fold_Cons comp_apply by (rule order_trans)
qed

text \<open>The loop of \<open>start_plan\<close> always ends: its bound is never met.\<close>

lemma start_loop:
  assumes "any_order (ce_order env)"
  shows "\<exists>r s. sched_loop (Suc (length (tg_tasks (pl_task_graph p)))) env pid p (initial_sched c es p)
      = Some (r, s) \<and> (r = None \<longrightarrow> sched_ok env p c s \<and> quiescent (rdeps p) (abs_sched s))"
proof (rule sched_loop_ok [OF assms initial_sched_ok])
  show "length (sd_remaining (initial_sched c es p)) + length (sd_running (initial_sched c es p))
      < Suc (length (tg_tasks (pl_task_graph p)))"
    using initial_remaining_length [of "tg_tasks (pl_task_graph p)" "[]"]
    by (simp add: initial_sched_def initial_remaining_def)
qed

lemma start_plan_total:
  assumes "any_order (ce_order env)"
  shows "start_plan env pid c \<noteq> None"
proof (cases "ce_load env pid")
  case (Inl e)
  then show ?thesis by (simp add: start_plan_def)
next
  case (Inr p)
  let ?c = "c\<lparr> cap_sandbox_id := Some (sandbox_of c pid), cap_plan := Some p \<rparr>"
  obtain r s where "sched_loop (Suc (length (tg_tasks (pl_task_graph p)))) env pid p
      (initial_sched ?c [CaptainStarted pid (sandbox_of c pid)] p) = Some (r, s)"
    using start_loop [OF assms] by blast
  with Inr show ?thesis
    by (cases r; cases "finish_plan env pid (sandbox_of c pid)
        (run_injected_tasks env pid p (sd_captain s, sd_events s))")
       (simp_all add: start_plan_def Let_def)
qed

text \<open>Injected tasks add to \<open>completed\<close> only.\<close>

definition only_completes :: "captain \<Rightarrow> captain \<Rightarrow> bool" where
  "only_completes c c' \<longleftrightarrow> cap_failed c' = cap_failed c \<and> cap_injected c' = cap_injected c
     \<and> fst ` set (cap_completed c) \<subseteq> fst ` set (cap_completed c')"

lemma only_completes_trans: "only_completes a b \<Longrightarrow> only_completes b c \<Longrightarrow> only_completes a c"
  by (simp add: only_completes_def) (blast intro: subset_trans)

lemma run_injected_completes: "only_completes (fst ce) (fst (run_injected env pid p it ce))"
  by (auto simp: only_completes_def run_injected_def split: sum.splits)

lemma run_injected_fold: "only_completes (fst ce) (fst (fold (run_injected env pid p) its ce))"
proof (induction its arbitrary: ce)
  case Nil
  then show ?case by (simp add: only_completes_def)
next
  case (Cons it its)
  from only_completes_trans [OF run_injected_completes Cons] show ?case by simp
qed

lemma run_injected_tasks_keeps:
  "cap_failed (fst (run_injected_tasks env pid p ce)) = cap_failed (fst ce)
   \<and> fst ` set (cap_completed (fst ce)) \<subseteq> fst ` set (cap_completed (fst (run_injected_tasks env pid p ce)))
   \<and> cap_injected (fst (run_injected_tasks env pid p ce)) = []"
  using run_injected_fold [of "((fst ce)\<lparr> cap_injected := [] \<rparr>, snd ce)" env pid p "cap_injected (fst ce)"]
  by (simp add: run_injected_tasks_def only_completes_def)

text \<open>On a well-formed graph the table holds the dependencies of the graph.\<close>

lemma initial_remaining_map:
  "distinct (map tn_id ts) \<Longrightarrow> t \<in> set ts \<Longrightarrow>
   map_of (fold (\<lambda>t. AList.update (tn_id t) (tn_deps t)) ts al) (tn_id t) = Some (tn_deps t)"
proof (induction ts arbitrary: al)
  case Nil
  then show ?case by simp
next
  case (Cons x ts)
  have other: "map_of (fold (\<lambda>t. AList.update (tn_id t) (tn_deps t)) ts al) k = map_of al k"
    if "k \<notin> tn_id ` set ts" for k al
    using that by (induction ts arbitrary: al) (auto simp: AList.update_conv')
  show ?case
  proof (cases "t \<in> set ts")
    case True
    with Cons show ?thesis by simp
  next
    case False
    with Cons.prems have "t = x" "tn_id x \<notin> tn_id ` set ts" by auto
    then show ?thesis by (simp add: other AList.update_conv')
  qed
qed

lemma rdeps_wf:
  assumes "wf_graph (pl_task_graph p)" and "t \<in> plan_ids p"
  shows "rdeps p t = deps_of (pl_task_graph p) t"
proof -
  from assms(2) obtain node where n: "node \<in> set (tg_tasks (pl_task_graph p))" "tn_id node = t"
    by (auto simp: plan_ids_def task_ids_def)
  from assms(1) have d: "distinct (task_ids (pl_task_graph p))" by (simp add: wf_graph_def)
  with n show ?thesis
    using initial_remaining_map [of "tg_tasks (pl_task_graph p)" node "[]"]
      find_task_distinct [OF d n(1)]
    by (simp add: rdeps_def initial_remaining_def task_ids_def deps_of_def)
qed

lemma rdeps_rel:
  assumes "wf_graph (pl_task_graph p)"
  shows "{(t, d). t \<in> plan_ids p \<and> d \<in> set (rdeps p t)} = dep_rel (pl_task_graph p)"
  using rdeps_wf [OF assms] Domain_dep_rel [of "pl_task_graph p"]
  by (auto simp: plan_ids_def)

lemma wf_graph_facts:
  assumes "wf_graph (pl_task_graph p)"
  shows "finite (plan_ids p)" and "\<forall>t\<in>plan_ids p. set (rdeps p t) \<subseteq> plan_ids p"
    and "acyclic {(t, d). t \<in> plan_ids p \<and> d \<in> set (rdeps p t)}"
proof -
  from assms have d: "distinct (task_ids (pl_task_graph p))" by (simp add: wf_graph_def)
  show "finite (plan_ids p)" by (simp add: plan_ids_def)
  have "set (deps_of (pl_task_graph p) (tn_id node)) \<subseteq> plan_ids p"
    if "node \<in> set (tg_tasks (pl_task_graph p))" for node
    using assms that find_task_distinct [OF d that] by (simp add: wf_graph_def deps_of_def plan_ids_def)
  then show "\<forall>t\<in>plan_ids p. set (rdeps p t) \<subseteq> plan_ids p"
    using rdeps_wf [OF assms] by (auto simp: plan_ids_def task_ids_def)
  show "acyclic {(t, d). t \<in> plan_ids p \<and> d \<in> set (rdeps p t)}"
    using assms unfolding rdeps_rel [OF assms] by (simp add: wf_graph_def dep_rel_distinct [OF d])
qed

text \<open>
  The tasks that are done when the loop ends: those that succeed together with all the tasks they
  depend on, directly or not. The failed ones are those that fail although all of these succeed.
\<close>

definition all_succeed :: "captain_env \<Rightarrow> plan \<Rightarrow> task_id \<Rightarrow> bool" where
  "all_succeed env p t \<longleftrightarrow>
     (\<forall>d. (t, d) \<in> (dep_rel (pl_task_graph p))\<^sup>+ \<longrightarrow> crew_succeeds env p d)"

lemma quiescent_done:
  assumes ok: "sched_ok env p c s" and q: "quiescent (rdeps p) (abs_sched s)"
    and wf: "wf_graph (pl_task_graph p)"
  shows "sd_completed s = {t \<in> plan_ids p. crew_succeeds env p t \<and> all_succeed env p t}"
    and "{t. Recv t False \<in> set (sd_trace s)}
      = {t \<in> plan_ids p. \<not> crew_succeeds env p t \<and> all_succeed env p t}"
proof -
  let ?E = "dep_rel (pl_task_graph p)"
  let ?F = "{t. Recv t False \<in> set (sd_trace s)}"
  note rel = rdeps_rel [OF wf]
  from ok have inv: "dag_inv (rdeps p) (plan_ids p) (abs_sched s)"
    by (auto simp: sched_ok_def intro: dag_inv_run)
  have succ: "crew_succeeds env p t" if "t \<in> sd_completed s" for t
    using ok that by (simp add: sched_ok_def)
  have fail: "\<not> crew_succeeds env p t" if "t \<in> ?F" for t
    using ok that by (simp add: sched_ok_def)
  have down: "d \<in> sd_completed s" if "t \<in> sd_completed s \<union> ?F" "(t, d) \<in> ?E\<^sup>+" for t d
    using that(2,1)
  proof (induction rule: trancl_induct)
    case (base d)
    then have "t \<in> plan_ids p" using inv by (auto simp: dag_inv_def abs_sched_def)
    with base rdeps_wf [OF wf] have "d \<in> set (rdeps p t)" by simp
    with base inv show ?case by (auto simp: dag_inv_def abs_sched_def)
  next
    case (step d e)
    then have d: "d \<in> sd_completed s" by simp
    then have "d \<in> plan_ids p" using inv by (auto simp: dag_inv_def abs_sched_def)
    with step(2) rdeps_wf [OF wf] have "e \<in> set (rdeps p d)" by simp
    with d inv show ?case by (auto simp: dag_inv_def abs_sched_def)
  qed
  have sub: "sd_completed s \<union> ?F \<subseteq> {t \<in> plan_ids p. all_succeed env p t}"
    using inv down succ by (auto simp: dag_inv_def abs_sched_def all_succeed_def)
  have not_pending: "t \<in> sd_completed s \<union> ?F" if t: "t \<in> plan_ids p" "all_succeed env p t" for t
  proof (rule ccontr)
    assume "t \<notin> sd_completed s \<union> ?F"
    with t(1) inv q have "t \<in> ds_pending (abs_sched s)"
      by (auto simp: dag_inv_def quiescent_def abs_sched_def)
    from quiescent_blocked [OF inv q wf_graph_facts [OF wf] this] obtain f
      where "f \<in> ?F" "(t, f) \<in> ?E\<^sup>+" unfolding rel by (auto simp: abs_sched_def)
    with t(2) fail show False by (auto simp: all_succeed_def)
  qed
  show "sd_completed s = {t \<in> plan_ids p. crew_succeeds env p t \<and> all_succeed env p t}"
    using sub not_pending succ fail by blast
  show "?F = {t \<in> plan_ids p. \<not> crew_succeeds env p t \<and> all_succeed env p t}"
    using sub not_pending succ fail by blast
qed

text \<open>Some task fails with everything it depends on succeeding, if any task fails.\<close>

lemma all_succeed_empty:
  assumes "wf_graph (pl_task_graph p)"
  shows "{t \<in> plan_ids p. \<not> crew_succeeds env p t \<and> all_succeed env p t} = {}
    \<longleftrightarrow> (\<forall>t\<in>plan_ids p. crew_succeeds env p t)"
proof
  let ?E = "dep_rel (pl_task_graph p)"
  let ?S = "{t \<in> plan_ids p. \<not> crew_succeeds env p t}"
  assume none: "{t \<in> plan_ids p. \<not> crew_succeeds env p t \<and> all_succeed env p t} = {}"
  have ids: "d \<in> plan_ids p" if "(t, d) \<in> ?E\<^sup>+" for t d
    using that(1)
  proof (induction rule: trancl_induct)
    case (base d)
    with wf_graph_facts(2) [OF assms] show ?case unfolding rdeps_rel [OF assms, symmetric] by blast
  next
    case (step d e)
    from step(2) wf_graph_facts(2) [OF assms] show ?case unfolding rdeps_rel [OF assms, symmetric] by blast
  qed
  have "\<exists>y\<in>?S. (x, y) \<in> ?E\<^sup>+" if "x \<in> ?S" for x
  proof -
    from that none have "\<not> all_succeed env p x" by blast
    then obtain d where "(x, d) \<in> ?E\<^sup>+" "\<not> crew_succeeds env p d" by (auto simp: all_succeed_def)
    with ids show ?thesis by blast
  qed
  moreover have "acyclic (?E\<^sup>+)"
    using wf_graph_facts(3) [OF assms] unfolding rdeps_rel [OF assms] by (simp add: acyclic_def)
  moreover have "finite ?S" using wf_graph_facts(1) [OF assms] by simp
  ultimately have "?S = {}" using stuck_set_cyclic [of ?S "?E\<^sup>+"] by blast
  then show "\<forall>t\<in>plan_ids p. crew_succeeds env p t" by blast
qed auto

text \<open>Without failing models the loop ends without an error.\<close>

lemma sched_loop_no_error:
  assumes "any_order (ce_order env)" and "sched_ok env p c0 s"
    and "\<forall>node\<in>set (tg_tasks (pl_task_graph p)). \<exists>m. ce_llm env p node = Inr m"
    and "sched_loop n env pid p s = Some (r, s')"
  shows "r = None"
  using assms(2,4)
proof (induction n arbitrary: s)
  case 0
  then show ?case by simp
next
  case (Suc n)
  note rd = ready_ok [OF assms(1) Suc.prems(1)]
  show ?case
  proof (cases "ready env s = [] \<and> sd_running s = []")
    case True
    with Suc.prems(2) show ?thesis by simp
  next
    case False
    have run: "dag_run (rdeps p) (all_pending (plan_ids p)) (sd_trace s) (abs_sched s)"
      using Suc.prems(1) by (simp add: sched_ok_def)
    have "set (ready env s) \<subseteq> plan_ids p"
      using rd(1) dag_inv_run [OF run] by (auto simp: dag_inv_def abs_sched_def)
    then have "\<forall>t\<in>set (ready env s). find_task (pl_task_graph p) t \<noteq> None"
      unfolding find_task_None plan_ids_def by blast
    from spawn_all_succeeds [OF this assms(3)] obtain s1
      where sp: "spawn_all env p (ready env s) s = (None, s1)" by blast
    have sub: "set (ready env s) \<subseteq> fst ` set (sd_remaining s)"
      "\<forall>t\<in>set (ready env s). set (rdeps p t) \<subseteq> sd_completed s" unfolding rd(1) by blast+
    have s1: "sched_ok env p c0 s1" "sd_running s1 = sd_running s @ ready env s"
      using spawn_all_ok [OF sp Suc.prems(1) rd(2) sub] by simp_all
    with False have ne: "sd_running s1 \<noteq> []" by auto
    then have t: "next_report env s1 \<in> set (sd_running s1)"
      unfolding next_report_def by (intro nth_mem) simp
    have "sched_loop n env pid p (receive env pid p (next_report env s1) s1) = Some (r, s')"
      using Suc.prems(2)
      by (subst (asm) sched_loop.simps, subst (asm) if_not_P [OF False]) (simp add: sp ne)
    from Suc.IH [OF receive_ok [OF s1(1) t] this] show ?thesis .
  qed
qed


definition demo_node :: "task_id \<Rightarrow> task_id list \<Rightarrow> task_node" where
  "demo_node i ds = \<lparr> tn_id = i, tn_title = i, tn_description = [], tn_deps = ds,
     tn_model_tier = Fast, tn_tool_budget = 5, tn_files_hint = [] \<rparr>"

definition demo_graph :: "task_node list \<Rightarrow> plan" where
  "demo_graph ts = demo_plan\<lparr> pl_task_graph := \<lparr> tg_tasks = ts \<rparr> \<rparr>"

definition demo_captain_env :: "plan \<Rightarrow> captain_env" where
  "demo_captain_env p = \<lparr> ce_load = (\<lambda>_. Inr p),
     ce_llm = (\<lambda>_ _. Inr \<lparr> lc_provider = Anthropic, lc_model = ''m'', lc_vertex_project_id = None,
        lc_api_key = None \<rparr>),
     ce_crew = (\<lambda>t. if tn_id t = ''b'' then Inr (OutFailed ''x'' ''broken'' 1) else Inr (OutDone ''x'' ''ok'' 1)),
     ce_pick = (\<lambda>n. n), ce_order = rev, ce_show = (\<lambda>_. ''error''), ce_now = ''now'' \<rparr>"

lemma demo_order: "any_order (ce_order (demo_captain_env p))"
  by (simp add: any_order_def demo_captain_env_def)

lemma demo_wf: "wf_graph (pl_task_graph (demo_graph [demo_node ''a'' [], demo_node ''b'' [''a'']]))"
proof -
  have "{(tn_id t, d) | t d. t \<in> set [demo_node ''a'' [], demo_node ''b'' [''a'']] \<and> d \<in> set (tn_deps t)}
      \<subseteq> {(''b'', ''a'')}"
    by (auto simp: demo_node_def)
  moreover have "acyclic {(''b'', ''a'')}" by (simp add: acyclic_def trancl_insert) 
  ultimately have "acyclic {(tn_id t, d) | t d. t \<in> set [demo_node ''a'' [], demo_node ''b'' [''a'']]
      \<and> d \<in> set (tn_deps t)}" by (rule acyclic_subset [rotated])
  then show ?thesis
    by (simp add: wf_graph_def demo_graph_def task_ids_def) (simp add: demo_node_def)
qed


text \<open>
  C12. In the loop of \<open>start_plan\<close>, on any plan, a crew is started for a task at most once, and only
  after a crew of each of its dependencies has reported success.
\<close>

theorem starts_once_after_deps:
  assumes "any_order (ce_order env)"
    and "sched_loop (Suc (length (tg_tasks (pl_task_graph p)))) env pid p (initial_sched c es p)
       = Some (None, s)"
    and "sd_trace s = us @ Spawn t # vs"
  shows "Spawn t \<notin> set us \<and> Spawn t \<notin> set vs \<and> (\<forall>d\<in>set (rdeps p t). Recv d True \<in> set us)"
proof -
  obtain r s2 where "sched_loop (Suc (length (tg_tasks (pl_task_graph p)))) env pid p
      (initial_sched c es p) = Some (r, s2)" "r = None \<longrightarrow> sched_ok env p c s2"
    using start_loop [OF assms(1)] by blast
  with assms(2) have "sched_ok env p c s" by simp
  then have run: "dag_run (rdeps p) (all_pending (plan_ids p)) (us @ Spawn t # vs) (abs_sched s)"
    using assms(3) by (simp add: sched_ok_def)
  have "Spawn t \<notin> set vs"
  proof
    assume "Spawn t \<in> set vs"
    then obtain ws xs where "vs = ws @ Spawn t # xs" by (meson split_list)
    with run have "dag_run (rdeps p) (all_pending (plan_ids p)) ((us @ Spawn t # ws) @ Spawn t # xs)
        (abs_sched s)" by simp
    from dag_run_starts_once [OF this] show False by simp
  qed
  with dag_run_starts_once [OF run] show ?thesis by blast
qed

lemmas loop_eval = initial_sched_def initial_remaining_def ready_def spawn_all.simps next_report_def
  receive_def find_task_def demo_graph_def demo_node_def demo_captain_env_def new_captain_def Let_def

lemma demo_loop:
  "\<exists>s. sched_loop (Suc (length (tg_tasks (pl_task_graph (demo_graph [demo_node ''a'' [], demo_node ''b'' [''a'']])))))
      (demo_captain_env (demo_graph [demo_node ''a'' [], demo_node ''b'' [''a'']])) ''p''
      (demo_graph [demo_node ''a'' [], demo_node ''b'' [''a'']])
      (initial_sched new_captain [] (demo_graph [demo_node ''a'' [], demo_node ''b'' [''a'']])) = Some (None, s)
    \<and> sd_trace s = [Spawn ''a'', Recv ''a'' True] @ Spawn ''b'' # [Recv ''b'' False]"
  by (simp add: loop_eval)

lemma starts_once_after_deps_witness:
  "Spawn ''b'' \<notin> set [Recv ''b'' False] \<and> Recv ''a'' True \<in> set [Spawn ''a'', Recv ''a'' True]"
proof -
  let ?p = "demo_graph [demo_node ''a'' [], demo_node ''b'' [''a'']]"
  obtain s where s: "sched_loop (Suc (length (tg_tasks (pl_task_graph ?p)))) (demo_captain_env ?p) ''p'' ?p
      (initial_sched new_captain [] ?p) = Some (None, s)"
    "sd_trace s = [Spawn ''a'', Recv ''a'' True] @ Spawn ''b'' # [Recv ''b'' False]"
    using demo_loop by blast
  have "rdeps ?p ''b'' = [''a'']"
    by (simp add: rdeps_def initial_remaining_def demo_graph_def demo_node_def)
  with starts_once_after_deps [OF demo_order s] show ?thesis by simp
qed

section \<open>What \<open>start_plan\<close> hides\<close>

text \<open>
  A plan in which every task waits for another (a cycle, or unknown dependencies) is reported as
  completed although nothing runs: no crew starts and the events are the start and the completion of
  the plan.
\<close>

theorem stuck_plan_reported_complete:
  assumes "any_order (ce_order env)" and "ce_load env pid = Inr p"
    and "\<forall>node\<in>set (tg_tasks (pl_task_graph p)). tn_deps node \<noteq> []"
    and "cap_failed c = []" and "cap_injected c = []"
  shows "\<exists>c'. start_plan env pid c = Some (Inr (CaptainCompleted (sandbox_of c pid)), c',
      [CaptainStarted pid (sandbox_of c pid), PlanCompleted pid])
    \<and> cap_completed c' = cap_completed c"
proof -
  let ?c = "c\<lparr> cap_sandbox_id := Some (sandbox_of c pid), cap_plan := Some p \<rparr>"
  let ?s = "initial_sched ?c [CaptainStarted pid (sandbox_of c pid)] p"
  have "ds \<noteq> []" if "(t, ds) \<in> set (fold (\<lambda>t. AList.update (tn_id t) (tn_deps t)) ts al)"
    and "\<forall>node\<in>set ts. tn_deps node \<noteq> []" and "\<forall>(t, ds)\<in>set al. ds \<noteq> []" for t ds ts al
    using that
  proof (induction ts arbitrary: al)
    case Nil
    then show ?case by auto
  next
    case (Cons x ts)
    have "set (AList.update k v al) \<subseteq> insert (k, v) (set al)" for k :: task_id and v
      by (induction al) auto
    with Cons.prems(2,3) have "\<forall>(t, ds)\<in>set (AList.update (tn_id x) (tn_deps x) al). ds \<noteq> []"
      by fastforce
    with Cons show ?case by simp
  qed
  from this [of _ _ "tg_tasks (pl_task_graph p)" "[]"] assms(3)
  have "filter (\<lambda>(_, deps). list_all (\<lambda>d. d \<in> {}) deps) (initial_remaining (tg_tasks (pl_task_graph p))) = []"
    by (auto simp: initial_remaining_def filter_empty_conv list_all_iff neq_Nil_conv)
  moreover have "ce_order env [] = []" using assms(1) by (rule any_order_Nil)
  ultimately have "ready env ?s = []" by (simp add: ready_def initial_sched_def)
  then show ?thesis
    using assms by (simp add: start_plan_def Let_def initial_sched_def run_injected_tasks_def finish_plan_def)
qed

lemma stuck_plan_reported_complete_witness:
  "\<exists>c'. start_plan (demo_captain_env (demo_graph [demo_node ''a'' [''b''], demo_node ''b'' [''a'']])) ''p''
       new_captain
     = Some (Inr (CaptainCompleted ''conv-p''), c', [CaptainStarted ''p'' ''conv-p'', PlanCompleted ''p''])
     \<and> cap_completed c' = []"
proof -
  have "sandbox_of new_captain ''p'' = ''conv-p''" by (simp add: sandbox_of_def new_captain_def)
  moreover have "\<exists>c'. start_plan (demo_captain_env (demo_graph [demo_node ''a'' [''b''], demo_node ''b'' [''a'']]))
      ''p'' new_captain = Some (Inr (CaptainCompleted (sandbox_of new_captain ''p'')), c',
      [CaptainStarted ''p'' (sandbox_of new_captain ''p''), PlanCompleted ''p''])
    \<and> cap_completed c' = cap_completed new_captain"
    by (rule stuck_plan_reported_complete [OF demo_order,
          where p = "demo_graph [demo_node ''a'' [''b''], demo_node ''b'' [''a'']]"])
       (simp_all add: demo_captain_env_def demo_graph_def demo_node_def new_captain_def)
  ultimately show ?thesis by (simp add: new_captain_def)
qed

text \<open>
  Whatever becomes of an injected task, it never makes a plan fail: the table of failures is
  unchanged, an injected task whose crew reports a failure is entered under \<open>completed\<close> and announced
  as merged, and one whose crew ends in an error leaves no trace.
\<close>

theorem injected_failures_hidden:
  "cap_failed (fst (run_injected_tasks env pid p (c, es))) = cap_failed c
   \<and> (ce_llm env p (injected_node it) = Inr m \<and> ce_crew env (injected_node it) = Inr (OutFailed a r n)
       \<and> cap_injected c = [it]
       \<longrightarrow> run_injected_tasks env pid p (c, es)
           = (c\<lparr> cap_completed := AList.update (it_id it) (OutFailed a r n) (cap_completed c),
                 cap_injected := [] \<rparr>, es @ [MergeCompleted pid (pid @ ''-'' @ it_id it)]))
   \<and> (ce_crew env (injected_node it) = Inl e \<and> cap_injected c = [it]
       \<longrightarrow> run_injected_tasks env pid p (c, es) = (c\<lparr> cap_injected := [] \<rparr>, es))"
proof -
  have "cap_failed (fst (run_injected_tasks env pid p (c, es))) = cap_failed c"
    using run_injected_tasks_keeps [of env pid p "(c, es)"] by simp
  then show ?thesis
    by (auto simp: run_injected_tasks_def run_injected_def split: sum.splits)
qed

lemma injected_failures_hidden_witness:
  "snd (run_injected_tasks (demo_captain_env (demo_graph [])) ''p'' (demo_graph [])
     (fst (inject_task (demo_captain_env (demo_graph [])) (demo_node ''b'' []) new_captain), []))
   = [MergeCompleted ''p'' ''p-b'']"
  using injected_failures_hidden
    [of "demo_captain_env (demo_graph [])" "''p''" "demo_graph []"
      "fst (inject_task (demo_captain_env (demo_graph [])) (demo_node ''b'' []) new_captain)" "[]"
      "hd (cap_injected (fst (inject_task (demo_captain_env (demo_graph [])) (demo_node ''b'' []) new_captain)))"
      _ "''x''" "''broken''" 1]
  by (simp add: inject_task_def demo_captain_env_def injected_node_def demo_node_def new_captain_def)

end
