(* ===== verification/Wave_Captain.thy ===== *)
theory Wave_Captain
  imports Captain_Loop "HOL-Library.List_Lexorder" "HOL-Library.Char_ord"
begin

text \<open>
  The captain that the conductor starts (\<open>SimpleCaptain\<close> and \<open>topological_sort\<close> of
  \<open>mowis-orchestration/src/captain.rs\<close>): it sorts the tasks into waves and runs one wave after the
  other. The order of the hash set \<open>remaining\<close> is a parameter, as is whether a crew panics.
\<close>

section \<open>\<open>topological_sort\<close>\<close>

definition in_degree :: "task_node list \<Rightarrow> task_id \<Rightarrow> nat" where
  "in_degree ts t = length (concat (map tn_deps (filter (\<lambda>x. tn_id x = t) ts)))"

text \<open>A task is listed once for each time it names the dependency.\<close>

definition dependents :: "task_node list \<Rightarrow> task_id \<Rightarrow> task_id list" where
  "dependents ts d = concat (map (\<lambda>t. map (\<lambda>_. tn_id t) (filter (\<lambda>x. x = d) (tn_deps t))) ts)"

definition lower_degree :: "task_id \<Rightarrow> (task_id \<Rightarrow> nat) \<Rightarrow> task_id \<Rightarrow> nat" where
  "lower_degree t deg = deg(t := deg t - 1)"

definition finish_task :: "task_node list \<Rightarrow> task_id \<Rightarrow> (task_id \<Rightarrow> nat) \<Rightarrow> task_id \<Rightarrow> nat" where
  "finish_task ts t deg = fold lower_degree (dependents ts t) deg"

fun topo_loop ::
  "nat \<Rightarrow> (task_id set \<Rightarrow> task_id list) \<Rightarrow> task_node list \<Rightarrow> task_id set \<Rightarrow> (task_id \<Rightarrow> nat)
     \<Rightarrow> (orch_error + task_id list list) option" where
  "topo_loop 0 enum ts remaining deg = None"
| "topo_loop (Suc n) enum ts remaining deg =
     (if remaining = {} then Some (Inr [])
      else let wave = filter (\<lambda>t. deg t = 0) (enum remaining) in
        if wave = [] then Some (Inl (Bail ''cycle detected in task graph''))
        else case topo_loop n enum ts (remaining - set wave) (fold (finish_task ts) wave deg) of
               None \<Rightarrow> None
             | Some (Inl e) \<Rightarrow> Some (Inl e)
             | Some (Inr waves) \<Rightarrow> Some (Inr (wave # waves)))"

definition topological_sort ::
  "(task_id set \<Rightarrow> task_id list) \<Rightarrow> task_node list \<Rightarrow> (orch_error + task_id list list) option" where
  "topological_sort enum ts =
     topo_loop (Suc (length ts)) enum ts (tn_id ` set ts) (in_degree ts)"

section \<open>Its correctness\<close>

definition deps_rel :: "task_node list \<Rightarrow> (task_id \<times> task_id) set" where
  "deps_rel ts = {(tn_id t, d) | t d. t \<in> set ts \<and> d \<in> set (tn_deps t)}"

text \<open>All dependencies that any task of the list with this identifier names.\<close>

definition all_deps :: "task_node list \<Rightarrow> task_id \<Rightarrow> task_id list" where
  "all_deps ts t = concat (map tn_deps (filter (\<lambda>x. tn_id x = t) ts))"

lemma all_deps_rel: "d \<in> set (all_deps ts t) \<longleftrightarrow> (t, d) \<in> deps_rel ts"
  by (auto simp: all_deps_def deps_rel_def)

lemma count_dependents: "count_list (dependents ts d) t = count_list (all_deps ts t) d"
proof (induction ts)
  case Nil
  then show ?case by (simp add: dependents_def all_deps_def)
next
  case (Cons x ts)
  have "count_list (map (\<lambda>_. tn_id x) (filter (\<lambda>y. y = d) ds)) t
      = (if tn_id x = t then count_list ds d else 0)" for ds
    by (induction ds) auto
  with Cons show ?case by (simp add: dependents_def all_deps_def)
qed

lemma fold_lower_degree: "fold lower_degree xs deg t = deg t - count_list xs t"
  by (induction xs arbitrary: deg) (auto simp: lower_degree_def)

lemma length_filter_insert:
  "x \<notin> D \<Longrightarrow> length (filter (\<lambda>d. d \<notin> insert x D) ds) = length (filter (\<lambda>d. d \<notin> D) ds) - count_list ds x"
proof (induction ds)
  case Nil
  then show ?case by simp
next
  case (Cons y ds)
  have "count_list ds x \<le> length (filter (\<lambda>d. d \<notin> D) ds)"
    using Cons.prems by (induction ds) auto
  with Cons show ?case by (auto simp: Suc_diff_le)
qed

text \<open>The degrees of the loop: the dependencies that are not done.\<close>

definition degrees :: "task_node list \<Rightarrow> task_id set \<Rightarrow> (task_id \<Rightarrow> nat) \<Rightarrow> bool" where
  "degrees ts D deg \<longleftrightarrow> (\<forall>t. deg t = length (filter (\<lambda>d. d \<notin> D) (all_deps ts t)))"

lemma degrees_finish:
  "degrees ts D deg \<Longrightarrow> x \<notin> D \<Longrightarrow> degrees ts (insert x D) (finish_task ts x deg)"
  unfolding degrees_def finish_task_def fold_lower_degree count_dependents
  by (intro allI) (erule allE, erule ssubst, erule length_filter_insert [symmetric])

lemma degrees_wave:
  "degrees ts D deg \<Longrightarrow> distinct w \<Longrightarrow> set w \<inter> D = {}
     \<Longrightarrow> degrees ts (D \<union> set w) (fold (finish_task ts) w deg)"
proof (induction w arbitrary: D deg)
  case Nil
  then show ?case by simp
next
  case (Cons x w)
  then have "degrees ts (insert x D) (finish_task ts x deg)" by (intro degrees_finish) auto
  from Cons.IH [OF this] Cons.prems show ?case by simp
qed

lemma degrees_zero:
  assumes "degrees ts D deg"
  shows "deg t = 0 \<longleftrightarrow> (\<forall>d. (t, d) \<in> deps_rel ts \<longrightarrow> d \<in> D)"
proof -
  have "deg t = 0 \<longleftrightarrow> (\<forall>d\<in>set (all_deps ts t). d \<in> D)"
    using assms by (simp add: degrees_def filter_empty_conv)
  then show ?thesis by (auto simp: all_deps_rel)
qed

text \<open>
  What the loop returns from a state in which \<open>D\<close> is done: waves that hold the remaining tasks, with
  the dependencies of a wave done or in earlier waves; or an error, and then some remaining tasks all
  have a dependency that is not done and not before them.
\<close>

definition waves_from :: "(task_id \<times> task_id) set \<Rightarrow> task_id set \<Rightarrow> task_id set \<Rightarrow> task_id list list \<Rightarrow> bool" where
  "waves_from E D rem ws \<longleftrightarrow> set (concat ws) = rem \<and> distinct (concat ws)
     \<and> (\<forall>i x d. i < length ws \<longrightarrow> x \<in> set (ws ! i) \<longrightarrow> (x, d) \<in> E
          \<longrightarrow> d \<in> D \<or> (\<exists>j<i. d \<in> set (ws ! j)))"

lemma waves_from_Cons:
  assumes "set w \<subseteq> rem" and "distinct w" and "\<forall>x\<in>set w. \<forall>d. (x, d) \<in> E \<longrightarrow> d \<in> D"
    and "waves_from E (D \<union> set w) (rem - set w) ws"
  shows "waves_from E D rem (w # ws)"
proof -
  from assms(4) have ws: "set (concat ws) = rem - set w" "distinct (concat ws)"
    "\<And>i x d. i < length ws \<Longrightarrow> x \<in> set (ws ! i) \<Longrightarrow> (x, d) \<in> E
      \<Longrightarrow> d \<in> D \<union> set w \<or> (\<exists>j<i. d \<in> set (ws ! j))" by (auto simp: waves_from_def)
  have "d \<in> D \<or> (\<exists>j<i. d \<in> set ((w # ws) ! j))"
    if "i < length (w # ws)" "x \<in> set ((w # ws) ! i)" "(x, d) \<in> E" for i x d
  proof (cases i)
    case 0
    with that assms(3) show ?thesis by simp
  next
    case (Suc k)
    with that ws(3) [of k x d] have "d \<in> D \<union> set w \<or> (\<exists>j<k. d \<in> set (ws ! j))" by simp
    then show ?thesis
    proof (elim disjE exE conjE)
      assume "d \<in> D \<union> set w"
      with Suc show ?thesis by (auto intro: exI [of _ 0])
    next
      fix j assume "j < k" "d \<in> set (ws ! j)"
      with Suc show ?thesis by (auto intro: exI [of _ "Suc j"])
    qed
  qed
  with ws(1,2) assms(1,2) show ?thesis by (auto simp: waves_from_def)
qed

lemma topo_loop_result:
  assumes "hash_order enum" and "finite rem" and "card rem < n" and "degrees ts D deg"
    and "rem \<inter> D = {}"
  shows "(\<exists>ws. topo_loop n enum ts rem deg = Some (Inr ws) \<and> waves_from (deps_rel ts) D rem ws)
    \<or> (\<exists>e S. topo_loop n enum ts rem deg = Some (Inl e) \<and> S \<noteq> {} \<and> S \<subseteq> rem
         \<and> (\<forall>x\<in>S. \<exists>d. (x, d) \<in> deps_rel ts \<and> d \<notin> D \<union> (rem - S)))"
  using assms(2-5)
proof (induction n arbitrary: rem D deg)
  case 0
  then show ?case by simp
next
  case (Suc n)
  show ?case
  proof (cases "rem = {}")
    case True
    then show ?thesis by (simp add: waves_from_def)
  next
    case False
    define w where "w = filter (\<lambda>t. deg t = 0) (enum rem)"
    have w: "set w = {t \<in> rem. \<forall>d. (t, d) \<in> deps_rel ts \<longrightarrow> d \<in> D}" "distinct w"
      using assms(1) Suc.prems(1) degrees_zero [OF Suc.prems(3)] by (auto simp: w_def)
    show ?thesis
    proof (cases "w = []")
      case True
      then have "topo_loop (Suc n) enum ts rem deg = Some (Inl (Bail ''cycle detected in task graph''))"
        using False by (simp add: w_def Let_def)
      moreover have "\<forall>x\<in>rem. \<exists>d. (x, d) \<in> deps_rel ts \<and> d \<notin> D \<union> (rem - rem)"
        using True w(1) by auto
      ultimately show ?thesis using False by blast
    next
      case ne: False
      let ?rem = "rem - set w" and ?deg = "fold (finish_task ts) w deg"
      have eq: "topo_loop (Suc n) enum ts rem deg
          = (case topo_loop n enum ts ?rem ?deg of None \<Rightarrow> None | Some (Inl e) \<Rightarrow> Some (Inl e)
             | Some (Inr waves) \<Rightarrow> Some (Inr (w # waves)))"
        using False ne by (simp only: topo_loop.simps w_def [symmetric] Let_def if_False)
      have sub: "set w \<subseteq> rem" and dd: "\<forall>x\<in>set w. \<forall>d. (x, d) \<in> deps_rel ts \<longrightarrow> d \<in> D"
        unfolding w(1) by blast+
      have "card ?rem < card rem"
        using sub ne Suc.prems(1) by (intro psubset_card_mono) (cases w; auto)+
      then have c: "card ?rem < n" using Suc.prems(2) by simp
      have f: "finite ?rem" and dj: "?rem \<inter> (D \<union> set w) = {}"
        using Suc.prems(1,4) by auto
      have "degrees ts (D \<union> set w) ?deg"
        using Suc.prems(3,4) sub w(2) by (intro degrees_wave) auto
      from Suc.IH [OF f c this dj] show ?thesis
      proof (elim disjE exE conjE)
        fix ws assume "topo_loop n enum ts ?rem ?deg = Some (Inr ws)"
          "waves_from (deps_rel ts) (D \<union> set w) ?rem ws"
        with eq waves_from_Cons [OF sub w(2) dd] show ?thesis by auto
      next
        fix e S assume r: "topo_loop n enum ts ?rem ?deg = Some (Inl e)" and S: "S \<noteq> {}" "S \<subseteq> ?rem"
          and stuck: "\<forall>x\<in>S. \<exists>d. (x, d) \<in> deps_rel ts \<and> d \<notin> D \<union> set w \<union> (?rem - S)"
        have "D \<union> (rem - S) \<subseteq> D \<union> set w \<union> (?rem - S)" using S(2) by blast
        with stuck have "\<forall>x\<in>S. \<exists>d. (x, d) \<in> deps_rel ts \<and> d \<notin> D \<union> (rem - S)" by blast
        with r eq S sub show ?thesis by auto
      qed
    qed
  qed
qed

lemma topo_loop_error:
  "topo_loop n enum ts rem deg = Some (Inl e) \<Longrightarrow> e = Bail ''cycle detected in task graph''"
  by (induction n enum ts rem deg rule: topo_loop.induct)
     (auto simp: Let_def split: if_splits option.splits sum.splits)

lemma degrees_initial: "degrees ts {} (in_degree ts)"
  by (simp add: degrees_def in_degree_def all_deps_def)

lemma topological_sort_result:
  assumes "hash_order enum"
  shows "(\<exists>ws. topological_sort enum ts = Some (Inr ws) \<and> waves_from (deps_rel ts) {} (tn_id ` set ts) ws)
    \<or> (\<exists>e S. topological_sort enum ts = Some (Inl e) \<and> S \<noteq> {} \<and> S \<subseteq> tn_id ` set ts
         \<and> (\<forall>x\<in>S. \<exists>d. (x, d) \<in> deps_rel ts \<and> d \<notin> tn_id ` set ts - S))"
proof -
  have "card (tn_id ` set ts) < Suc (length ts)"
    by (meson card_image_le card_length le_imp_less_Suc le_trans List.finite_set)
  from topo_loop_result [OF assms _ this degrees_initial] show ?thesis
    by (simp add: topological_sort_def)
qed

text \<open>The sort as a partial function of the iteration order and the tasks.\<close>

definition sorted_waves :: "(task_id set \<Rightarrow> task_id list) \<times> task_node list \<Rightarrow> task_id list list option" where
  "sorted_waves g =
     (case topological_sort (fst g) (snd g) of Some (Inr ws) \<Rightarrow> Some ws | _ \<Rightarrow> None)"

lemma sorted_waves_some:
  "sorted_waves g = Some ws \<longleftrightarrow> topological_sort (fst g) (snd g) = Some (Inr ws)"
  by (auto simp: sorted_waves_def split: option.splits sum.splits)

lemma sorted_waves_from:
  assumes "hash_order (fst g)" and "sorted_waves g = Some ws"
  shows "waves_from (deps_rel (snd g)) {} (tn_id ` set (snd g)) ws"
  using topological_sort_result [OF assms(1), of "snd g"] assms(2)
  by (auto simp: sorted_waves_some)

interpretation wave_plan: wave_sort "\<lambda>g. hash_order (fst g)" "\<lambda>g. tn_id ` set (snd g)"
  "\<lambda>g. deps_rel (snd g)" sorted_waves
proof
  fix g :: "(task_id set \<Rightarrow> task_id list) \<times> task_node list"
  assume ok: "hash_order (fst g)"
  show "finite (tn_id ` set (snd g))" by simp
  show "x \<in> tn_id ` set (snd g)" if "(x, d) \<in> deps_rel (snd g)" for x d
    using that by (auto simp: deps_rel_def)
  fix ws :: "task_id list list"
  show "\<exists>S. S \<noteq> {} \<and> S \<subseteq> tn_id ` set (snd g)
      \<and> (\<forall>x\<in>S. \<exists>d. (x, d) \<in> deps_rel (snd g) \<and> d \<notin> tn_id ` set (snd g) - S)"
    if "sorted_waves g = None"
    using topological_sort_result [OF ok, of "snd g"] that by (auto simp: sorted_waves_def)
  assume "sorted_waves g = Some ws"
  then have w: "waves_from (deps_rel (snd g)) {} (tn_id ` set (snd g)) ws"
    by (rule sorted_waves_from [OF ok])
  show "set (concat ws) = tn_id ` set (snd g)" and "distinct (concat ws)"
    using w by (simp_all add: waves_from_def)
  show "\<exists>j<i. d \<in> set (ws ! j)"
    if "i < length ws" "x \<in> set (ws ! i)" "(x, d) \<in> deps_rel (snd g)" for i x d
    using w that by (auto simp: waves_from_def)
qed

section \<open>\<open>SimpleCaptain::run\<close>\<close>

text \<open>
  \<open>se_crew\<close> is what the crew's task ends with: \<open>None\<close> if it panics, else the result of the crew's run.
  \<open>se_enum\<close> is the iteration order of the set \<open>remaining\<close>, \<open>se_order\<close> that of the table \<open>failed\<close>.
\<close>

record simple_env =
  se_load :: "plan_id \<Rightarrow> orch_error + plan"
  se_llm :: "plan \<Rightarrow> task_node \<Rightarrow> orch_error + llm_config"
  se_crew :: "task_node \<Rightarrow> (orch_error + crew_outcome) option"
  se_enum :: "task_id set \<Rightarrow> task_id list"
  se_order :: "task_id list \<Rightarrow> task_id list"
  se_show :: "orch_error \<Rightarrow> string"

record wave_state =
  ws_completed :: "(task_id \<times> crew_outcome) list"
  ws_failed :: "(task_id \<times> crew_outcome) list"
  ws_events :: "event list"

text \<open>The crews of a wave, or the error that ends the run before they are all started.\<close>

fun wave_crews ::
  "simple_env \<Rightarrow> plan \<Rightarrow> task_id list
     \<Rightarrow> orch_error + (task_id \<times> (orch_error + crew_outcome) option) list" where
  "wave_crews env p [] = Inr []"
| "wave_crews env p (t # ts) =
     (case find_task (pl_task_graph p) t of
        None \<Rightarrow> Inl (Bail (''task '' @ t @ '' not found''))
      | Some node \<Rightarrow>
          (case se_llm env p node of
             Inl e \<Rightarrow> Inl e
           | Inr _ \<Rightarrow>
               (case wave_crews env p ts of
                  Inl e \<Rightarrow> Inl e
                | Inr handles \<Rightarrow> Inr ((t, se_crew env node) # handles))))"

fun await_crew ::
  "simple_env \<Rightarrow> plan_id \<Rightarrow> task_id \<times> (orch_error + crew_outcome) option \<Rightarrow> wave_state \<Rightarrow> wave_state" where
  "await_crew env pid (t, Some (Inr (OutDone agent summary n))) w =
     w\<lparr> ws_events := ws_events w @ [MergeCompleted pid agent],
        ws_completed := AList.update t (OutDone agent summary n) (ws_completed w) \<rparr>"
| "await_crew env pid (t, Some (Inr (OutFailed agent reason n))) w =
     w\<lparr> ws_failed := AList.update t (OutFailed agent reason n) (ws_failed w) \<rparr>"
| "await_crew env pid (t, Some (Inl e)) w =
     w\<lparr> ws_failed := AList.update t (OutFailed [] (se_show env e) 0) (ws_failed w) \<rparr>"
| "await_crew env pid (t, None) w = w"

fun run_waves ::
  "simple_env \<Rightarrow> plan_id \<Rightarrow> plan \<Rightarrow> task_id list list \<Rightarrow> wave_state \<Rightarrow> orch_error option \<times> wave_state" where
  "run_waves env pid p [] w = (None, w)"
| "run_waves env pid p (wave # waves) w =
     (case wave_crews env p wave of
        Inl e \<Rightarrow> (Some e, w)
      | Inr handles \<Rightarrow> run_waves env pid p waves (fold (await_crew env pid) handles w))"

definition wave_failed_reason :: "simple_env \<Rightarrow> (task_id \<times> crew_outcome) list \<Rightarrow> string" where
  "wave_failed_reason env failed =
     join_str ''; '' (map (\<lambda>t. outcome_reason (the (map_of failed t))) (se_order env (map fst failed)))"

definition no_tasks_reason :: string where
  "no_tasks_reason = ''Plan has no tasks '' @ em_dash
     @ '' the plan block was empty or could not be parsed. Please provide a valid plan.''"

definition simple_run ::
  "simple_env \<Rightarrow> plan_id \<Rightarrow> ((orch_error + captain_outcome) \<times> wave_state) option" where
  "simple_run env pid =
     (case se_load env pid of
        Inl e \<Rightarrow> Some (Inl e, \<lparr> ws_completed = [], ws_failed = [], ws_events = [] \<rparr>)
      | Inr p \<Rightarrow>
          let sid = ''conv-'' @ pid; ts = tg_tasks (pl_task_graph p) in
          if ts = [] then
            Some (Inr (CaptainFailed ''Plan has no tasks'' sid),
              \<lparr> ws_completed = [], ws_failed = [], ws_events = [PlanFailed pid no_tasks_reason] \<rparr>)
          else let w0 = \<lparr> ws_completed = [], ws_failed = [], ws_events = [CaptainStarted pid sid] \<rparr> in
            case topological_sort (se_enum env) ts of
              None \<Rightarrow> None
            | Some (Inl e) \<Rightarrow> Some (Inl e, w0)
            | Some (Inr waves) \<Rightarrow>
                (case run_waves env pid p waves w0 of
                   (Some e, w) \<Rightarrow> Some (Inl e, w)
                 | (None, w) \<Rightarrow>
                     if ws_failed w = []
                     then Some (Inr (CaptainCompleted sid), w\<lparr> ws_events := ws_events w @ [PlanCompleted pid] \<rparr>)
                     else let reason = wave_failed_reason env (ws_failed w) in
                       Some (Inr (CaptainFailed reason sid),
                         w\<lparr> ws_events := ws_events w @ [PlanFailed pid reason] \<rparr>)))"

section \<open>What a run of \<open>SimpleCaptain\<close> computes\<close>

definition crew_of :: "simple_env \<Rightarrow> plan \<Rightarrow> task_id \<Rightarrow> (orch_error + crew_outcome) option" where
  "crew_of env p t = (case find_task (pl_task_graph p) t of None \<Rightarrow> None | Some node \<Rightarrow> se_crew env node)"

definition crew_done :: "simple_env \<Rightarrow> plan \<Rightarrow> task_id \<Rightarrow> bool" where
  "crew_done env p t = (case crew_of env p t of Some (Inr (OutDone _ _ _)) \<Rightarrow> True | _ \<Rightarrow> False)"

definition crew_panicked :: "simple_env \<Rightarrow> plan \<Rightarrow> task_id \<Rightarrow> bool" where
  "crew_panicked env p t \<longleftrightarrow> crew_of env p t = None"

definition crew_failed :: "simple_env \<Rightarrow> plan \<Rightarrow> task_id \<Rightarrow> bool" where
  "crew_failed env p t \<longleftrightarrow> \<not> crew_done env p t \<and> \<not> crew_panicked env p t"

lemmas crew_verdicts = crew_done_def crew_panicked_def crew_failed_def

lemma await_crew_keys:
  "fst ` set (ws_completed (await_crew env pid (t, crew_of env p t) w))
      = fst ` set (ws_completed w) \<union> {x. x = t \<and> crew_done env p x}"
  "fst ` set (ws_failed (await_crew env pid (t, crew_of env p t) w))
      = fst ` set (ws_failed w) \<union> {x. x = t \<and> crew_failed env p x}"
  by (cases "(env, pid, (t, crew_of env p t), w)" rule: await_crew.cases;
      auto simp: crew_verdicts dom_update)+

lemma await_crews_keys:
  "fst ` set (ws_completed (fold (await_crew env pid) (map (\<lambda>t. (t, crew_of env p t)) ts) w))
      = fst ` set (ws_completed w) \<union> {x \<in> set ts. crew_done env p x}"
  "fst ` set (ws_failed (fold (await_crew env pid) (map (\<lambda>t. (t, crew_of env p t)) ts) w))
      = fst ` set (ws_failed w) \<union> {x \<in> set ts. crew_failed env p x}"
  by (induction ts arbitrary: w) (auto simp: await_crew_keys)

lemma wave_crews_ok:
  assumes "\<forall>node\<in>set (tg_tasks (pl_task_graph p)). \<exists>m. se_llm env p node = Inr m"
    and "set ts \<subseteq> set (task_ids (pl_task_graph p))"
  shows "wave_crews env p ts = Inr (map (\<lambda>t. (t, crew_of env p t)) ts)"
  using assms(2)
proof (induction ts)
  case Nil
  then show ?case by simp
next
  case (Cons t ts)
  then have "find_task (pl_task_graph p) t \<noteq> None" by (simp add: find_task_None)
  then obtain node where node: "find_task (pl_task_graph p) t = Some node" by blast
  then have "node \<in> set (tg_tasks (pl_task_graph p))"
    by (auto simp: find_task_def find_Some_iff)
  with assms(1) obtain m where "se_llm env p node = Inr m" by blast
  with node Cons show ?case by (simp add: crew_of_def)
qed

lemma run_waves_ok:
  assumes "\<forall>node\<in>set (tg_tasks (pl_task_graph p)). \<exists>m. se_llm env p node = Inr m"
    and "set (concat waves) \<subseteq> set (task_ids (pl_task_graph p))"
  shows "\<exists>w'. run_waves env pid p waves w = (None, w')
    \<and> fst ` set (ws_completed w') = fst ` set (ws_completed w) \<union> {x \<in> set (concat waves). crew_done env p x}
    \<and> fst ` set (ws_failed w') = fst ` set (ws_failed w) \<union> {x \<in> set (concat waves). crew_failed env p x}"
  using assms(2)
proof (induction waves arbitrary: w)
  case Nil
  then show ?case by simp
next
  case (Cons wave waves)
  let ?w = "fold (await_crew env pid) (map (\<lambda>t. (t, crew_of env p t)) wave) w"
  have "wave_crews env p wave = Inr (map (\<lambda>t. (t, crew_of env p t)) wave)"
    using Cons.prems by (intro wave_crews_ok [OF assms(1)]) simp
  then have "run_waves env pid p (wave # waves) w = run_waves env pid p waves ?w" by simp
  moreover obtain w' where "run_waves env pid p waves ?w = (None, w')"
    "fst ` set (ws_completed w') = fst ` set (ws_completed ?w) \<union> {x \<in> set (concat waves). crew_done env p x}"
    "fst ` set (ws_failed w') = fst ` set (ws_failed ?w) \<union> {x \<in> set (concat waves). crew_failed env p x}"
    using Cons.IH [of ?w] Cons.prems by auto
  ultimately show ?case by (auto simp: await_crews_keys)
qed

text \<open>The dependency relation of the sort and the one of the plan's validation.\<close>

lemma wf_graph_sorts:
  assumes "hash_order enum" and "wf_graph g"
  obtains ws where "topological_sort enum (tg_tasks g) = Some (Inr ws)"
    and "set (concat ws) = set (task_ids g)"
proof -
  have "Range (deps_rel (tg_tasks g)) \<subseteq> tn_id ` set (tg_tasks g) \<and> acyclic (deps_rel (tg_tasks g))"
    using assms(2) by (auto simp: wf_graph_def deps_rel_def task_ids_def)
  then obtain ws where ws: "sorted_waves (enum, tg_tasks g) = Some ws"
    using wave_plan.sort_iff [of "(enum, tg_tasks g)"] assms(1) by auto
  then have "set (concat ws) = set (task_ids g)"
    using wave_plan.sort_nodes [of "(enum, tg_tasks g)" ws] assms(1) by (simp add: task_ids_def)
  with ws that show ?thesis by (simp add: sorted_waves_some)
qed

text \<open>
  C13. The topological sort of the captain returns for every task list and every iteration order of the
  set of remaining tasks. It succeeds exactly when every dependency is a task of the list and the
  dependencies are acyclic, and then every task is in exactly one wave, after the waves of all its
  dependencies; otherwise it returns the cycle error.
\<close>

theorem topological_sort_correct:
  assumes "hash_order enum"
  shows "(if (\<forall>t\<in>set ts. \<forall>d\<in>set (tn_deps t). d \<in> tn_id ` set ts) \<and> acyclic (deps_rel ts)
    then \<exists>ws. topological_sort enum ts = Some (Inr ws) \<and> distinct (concat ws)
      \<and> set (concat ws) = tn_id ` set ts
      \<and> (\<forall>t\<in>set ts. \<forall>d\<in>set (tn_deps t). wave_of ws d < wave_of ws (tn_id t))
    else topological_sort enum ts = Some (Inl (Bail ''cycle detected in task graph'')))"
proof -
  have range: "(\<forall>t\<in>set ts. \<forall>d\<in>set (tn_deps t). d \<in> tn_id ` set ts)
      \<longleftrightarrow> Range (deps_rel ts) \<subseteq> tn_id ` set ts"
    unfolding deps_rel_def by blast
  have ok: "hash_order (fst (enum, ts))" using assms by simp
  show ?thesis
  proof (cases "sorted_waves (enum, ts)")
    case None
    then have "\<not> (Range (deps_rel ts) \<subseteq> tn_id ` set ts \<and> acyclic (deps_rel ts))"
      using wave_plan.sort_iff [OF ok] by simp
    moreover obtain e where e: "topological_sort enum ts = Some (Inl e)"
      using topological_sort_result [OF assms, of ts] None by (auto simp: sorted_waves_def)
    moreover have "e = Bail ''cycle detected in task graph''"
      using e unfolding topological_sort_def by (rule topo_loop_error)
    ultimately show ?thesis unfolding range by simp
  next
    case (Some ws)
    have "Range (deps_rel ts) \<subseteq> tn_id ` set ts \<and> acyclic (deps_rel ts)"
      using wave_plan.sort_iff [OF ok] Some by auto
    moreover have "wave_of ws d < wave_of ws (tn_id t)"
      if "t \<in> set ts" "d \<in> set (tn_deps t)" for t d
      using wave_plan.wave_of_dep(1) [OF ok Some] that by (auto simp: deps_rel_def)
    ultimately show ?thesis
      using wave_plan.sort_nodes [OF ok Some] wave_plan.sort_distinct [OF ok Some] Some
      unfolding range by (simp add: sorted_waves_some)
  qed
qed

lemma demo_acyclic: "acyclic (deps_rel [demo_node ''a'' [], demo_node ''b'' [''a'']])"
  using demo_wf
  by (simp add: wf_graph_def demo_graph_def deps_rel_def cong: conj_cong)

lemma topological_sort_correct_witness:
  "\<exists>ws. topological_sort sorted_list_of_set [demo_node ''a'' [], demo_node ''b'' [''a'']] = Some (Inr ws)
     \<and> wave_of ws ''a'' < wave_of ws ''b''"
proof -
  let ?ts = "[demo_node ''a'' [], demo_node ''b'' [''a'']]"
  have "\<forall>t\<in>set ?ts. \<forall>d\<in>set (tn_deps t). d \<in> tn_id ` set ?ts" by (simp add: demo_node_def)
  with demo_acyclic topological_sort_correct [OF hash_order_sorted, of ?ts]
  obtain ws where "topological_sort sorted_list_of_set ?ts = Some (Inr ws)"
    and w: "\<forall>t\<in>set ?ts. \<forall>d\<in>set (tn_deps t). wave_of ws d < wave_of ws (tn_id t)"
    by auto
  moreover from w have "wave_of ws ''a'' < wave_of ws ''b''" by (simp add: demo_node_def)
  ultimately show ?thesis by blast
qed

text \<open>
  On a validated plan whose model lookups succeed, \<open>SimpleCaptain\<close> runs the crew of every task,
  whether or not the crews of its dependencies succeeded: the tasks completed are those whose crew is
  done and the tasks failed those whose crew failed. A crew that panics is in neither table, and the
  plan is reported as completed when no crew failed, also if crews panicked.
\<close>

theorem simple_run_outcome:
  assumes "hash_order (se_enum env)" and "se_load env pid = Inr p" and "wf_graph (pl_task_graph p)"
    and "tg_tasks (pl_task_graph p) \<noteq> []"
    and "\<forall>node\<in>set (tg_tasks (pl_task_graph p)). \<exists>m. se_llm env p node = Inr m"
  shows "\<exists>out w. simple_run env pid = Some (Inr out, w)
    \<and> fst ` set (ws_completed w) = {t \<in> set (task_ids (pl_task_graph p)). crew_done env p t}
    \<and> fst ` set (ws_failed w) = {t \<in> set (task_ids (pl_task_graph p)). crew_failed env p t}
    \<and> (out = CaptainCompleted (''conv-'' @ pid)
        \<longleftrightarrow> (\<forall>t\<in>set (task_ids (pl_task_graph p)). crew_done env p t \<or> crew_panicked env p t))"
proof -
  let ?w = "\<lparr> ws_completed = [], ws_failed = [], ws_events = [CaptainStarted pid (''conv-'' @ pid)] \<rparr>"
  obtain waves where sort: "topological_sort (se_enum env) (tg_tasks (pl_task_graph p)) = Some (Inr waves)"
    and all: "set (concat waves) = set (task_ids (pl_task_graph p))"
    using wf_graph_sorts [OF assms(1,3)] by blast
  obtain w where run: "run_waves env pid p waves ?w = (None, w)"
    and keys: "fst ` set (ws_completed w) = {t \<in> set (task_ids (pl_task_graph p)). crew_done env p t}"
      "fst ` set (ws_failed w) = {t \<in> set (task_ids (pl_task_graph p)). crew_failed env p t}"
    using run_waves_ok [OF assms(5) eq_refl [OF all], of pid ?w] unfolding all by auto
  have none: "ws_failed w = []
      \<longleftrightarrow> (\<forall>t\<in>set (task_ids (pl_task_graph p)). crew_done env p t \<or> crew_panicked env p t)"
  proof -
    have "ws_failed w = [] \<longleftrightarrow> fst ` set (ws_failed w) = {}" by simp
    then show ?thesis unfolding keys(2) crew_failed_def by blast
  qed
  show ?thesis
  proof (cases "ws_failed w = []")
    case True
    with assms(2,4) sort run keys none show ?thesis by (simp add: simple_run_def Let_def)
  next
    case False
    with assms(2,4) sort run keys none show ?thesis by (auto simp: simple_run_def Let_def)
  qed
qed

definition demo_simple_env :: "plan \<Rightarrow> simple_env" where
  "demo_simple_env p = \<lparr> se_load = (\<lambda>_. Inr p), se_llm = ce_llm (demo_captain_env p),
     se_crew = (\<lambda>t. if tn_id t = ''a'' then None else Some (Inr (OutDone ''x'' ''ok'' 1))),
     se_enum = sorted_list_of_set, se_order = rev, se_show = (\<lambda>_. ''error'') \<rparr>"

lemma simple_run_outcome_witness:
  "\<exists>w. simple_run (demo_simple_env (demo_graph [demo_node ''a'' [], demo_node ''b'' [''a'']])) ''p''
      = Some (Inr (CaptainCompleted ''conv-p''), w)
    \<and> ''a'' \<notin> fst ` set (ws_completed w) \<and> ''b'' \<in> fst ` set (ws_completed w)"
proof -
  let ?p = "demo_graph [demo_node ''a'' [], demo_node ''b'' [''a'']]"
  let ?env = "demo_simple_env ?p"
  have crews: "crew_of ?env ?p ''a'' = None" "crew_of ?env ?p ''b'' = Some (Inr (OutDone ''x'' ''ok'' 1))"
    and ids: "task_ids (pl_task_graph ?p) = [''a'', ''b'']"
    by (simp_all add: crew_of_def find_task_def demo_simple_env_def demo_graph_def demo_node_def
        task_ids_def)
  have "\<exists>out w. simple_run ?env ''p'' = Some (Inr out, w)
    \<and> fst ` set (ws_completed w) = {t \<in> set (task_ids (pl_task_graph ?p)). crew_done ?env ?p t}
    \<and> fst ` set (ws_failed w) = {t \<in> set (task_ids (pl_task_graph ?p)). crew_failed ?env ?p t}
    \<and> (out = CaptainCompleted (''conv-'' @ ''p'')
        \<longleftrightarrow> (\<forall>t\<in>set (task_ids (pl_task_graph ?p)). crew_done ?env ?p t \<or> crew_panicked ?env ?p t))"
    by (rule simple_run_outcome [OF _ _ demo_wf])
       (simp_all add: demo_simple_env_def hash_order_sorted demo_captain_env_def demo_graph_def)
  then obtain out w where run: "simple_run ?env ''p'' = Some (Inr out, w)"
    and keys: "fst ` set (ws_completed w) = {t \<in> set [''a'', ''b'']. crew_done ?env ?p t}"
    and out: "out = CaptainCompleted (''conv-'' @ ''p'')
      \<longleftrightarrow> (\<forall>t\<in>set [''a'', ''b'']. crew_done ?env ?p t \<or> crew_panicked ?env ?p t)"
    unfolding ids by blast
  have verdict: "\<not> crew_done ?env ?p ''a''" "crew_panicked ?env ?p ''a''" "crew_done ?env ?p ''b''"
    using crews by (simp_all add: crew_verdicts)
  with out have "out = CaptainCompleted ''conv-p''" by simp
  with run keys verdict show ?thesis by auto
qed

end
