(* ===== verification/Conductor_Text.thy ===== *)
theory Conductor_Text
  imports Summaries Plan_Store
begin

text \<open>
  The text processing of the conductor (\<open>mowis-orchestration/src/conductor.rs\<close>): what it takes out of
  a reply before the user sees it, the plan blocks it finds in a reply, and the reader that recovers
  tasks from a block that is no TOML.
\<close>

section \<open>Plan blocks\<close>

definition plan_open :: string where "plan_open = ''<plan>''"
definition plan_close :: string where "plan_close = ''</plan>''"

lemma find_sub_drop: "find_sub p s = Some i \<Longrightarrow> p \<noteq> [] \<Longrightarrow> length (drop (i + length p) s) < length s"
  using find_sub_bound [of p s i] by (cases p) auto

text \<open>The text after the first occurrence of a tag.\<close>

definition after_tag :: "string \<Rightarrow> nat \<Rightarrow> string \<Rightarrow> string" where
  "after_tag tag i s = drop (i + length tag) s"

function plan_blocks :: "string \<Rightarrow> string list" where
  "plan_blocks s =
     (case find_sub plan_open s of
        None \<Rightarrow> []
      | Some i \<Rightarrow>
          (case find_sub plan_close (after_tag plan_open i s) of
             None \<Rightarrow> []
           | Some j \<Rightarrow> take j (after_tag plan_open i s)
               # plan_blocks (after_tag plan_close j (after_tag plan_open i s))))"
  by pat_completeness auto

lemma after_tag_less [simp]: "find_sub tag s = Some i \<Longrightarrow> tag \<noteq> [] \<Longrightarrow> length (after_tag tag i s) < length s"
  unfolding after_tag_def by (rule find_sub_drop)

lemma plan_tags [simp]: "plan_open \<noteq> []" "plan_close \<noteq> []"
  by (simp_all add: plan_open_def plan_close_def)

termination plan_blocks
  by (relation "measure length") (auto dest!: after_tag_less intro: less_trans)

declare plan_blocks.simps [simp del]

function strip_plan_from_reply :: "string \<Rightarrow> string" where
  "strip_plan_from_reply rest =
     (case find_sub plan_open rest of
        None \<Rightarrow> rest
      | Some i \<Rightarrow>
          (case find_sub plan_close (after_tag plan_open i rest) of
             None \<Rightarrow> take i rest @ after_tag plan_open i rest
           | Some j \<Rightarrow>
               take i rest @ strip_plan_from_reply (after_tag plan_close j (after_tag plan_open i rest))))"
  by pat_completeness auto

termination strip_plan_from_reply
  by (relation "measure length") (auto dest!: after_tag_less intro: less_trans)

declare strip_plan_from_reply.simps [simp del]

section \<open>Tool calls in a reply\<close>

text \<open>
  The end of the object that starts the text: the bytes up to the one at which the depth of the braces
  is zero again. The first argument is the depth, the second the position.
\<close>

fun object_end :: "int \<Rightarrow> nat \<Rightarrow> string \<Rightarrow> nat option" where
  "object_end depth i [] = None"
| "object_end depth i (c # cs) =
     (let d = depth + (if c = CHR ''{'' then 1 else 0) - (if c = CHR ''}'' then 1 else 0) in
      if d = 0 then Some (Suc i) else object_end d (Suc i) cs)"

definition name_tag :: string where
  "name_tag = [CHR ''{'', CHR 0x22, CHR ''n'', CHR ''a'', CHR ''m'', CHR ''e'', CHR 0x22, CHR '':'']"

definition json_fence :: string where "json_fence = ''```json''"

definition dquote :: "string \<Rightarrow> string" where
  "dquote s = CHR 0x22 # s @ [CHR 0x22]"

lemma trim_length: "length (trim s) \<le> length s"
proof -
  have a: "length (trim_with w x) \<le> length x" for w x
    using suffix_trim_with [of w x] by (rule suffix_length_le)
  have "length (trim_end (trim_start s)) \<le> length (trim_start s)"
    using a [of "map rev ws_seqs" "rev (trim_start s)"] by (simp add: trim_end_def)
  also have "\<dots> \<le> length s" unfolding trim_start_def by (rule a)
  finally show ?thesis by (simp add: trim_def)
qed

lemma object_end_pos: "object_end d i s = Some e \<Longrightarrow> i < e \<and> e \<le> i + length s"
  by (induction d i s rule: object_end.induct) (auto simp: Let_def split: if_splits)

text \<open>One object is cut out and the rest is trimmed, until none is left or one has no end.\<close>

function strip_objects :: "string \<Rightarrow> string" where
  "strip_objects result =
     (case find_sub name_tag result of
        None \<Rightarrow> result
      | Some start \<Rightarrow>
          (case object_end 0 0 (drop start result) of
             None \<Rightarrow> result
           | Some n \<Rightarrow> strip_objects (trim (take start result @ drop (start + n) result))))"
  by pat_completeness auto

lemma cut_less:
  assumes "start < length s" and "0 < n"
  shows "length (trim (take start s @ drop (start + n) s)) < length s"
proof -
  have "length (take start s @ drop (start + n) s) < length s" using assms by simp
  then show ?thesis using trim_length le_less_trans by blast
qed

termination strip_objects
proof (relation "measure length")
  fix result start n
  assume s: "find_sub name_tag result = Some start" and n: "object_end 0 0 (drop start result) = Some n"
  have "start < length result"
    using find_sub_bound [OF s] by (simp add: name_tag_def)
  with object_end_pos [OF n] show "(trim (take start result @ drop (start + n) result), result) \<in> measure length"
    using cut_less by simp
qed simp

declare strip_objects.simps [simp del]

text \<open>Fenced blocks that look like tool calls are cut out, up to the first that does not.\<close>

function strip_fences :: "string \<Rightarrow> string" where
  "strip_fences result =
     (case find_sub json_fence result of
        None \<Rightarrow> result
      | Some start \<Rightarrow>
          (case find_sub ''```'' (drop (start + 7) result) of
             None \<Rightarrow> result
           | Some e \<Rightarrow>
               if contains_sub (dquote ''name'') (take (7 + e + 3) (drop start result))
                  \<and> contains_sub (dquote ''arguments'') (take (7 + e + 3) (drop start result))
               then strip_fences (trim (take start result @ drop (start + (7 + e + 3)) result))
               else result))"
  by pat_completeness auto

termination strip_fences
proof (relation "measure length")
  fix result start e
  assume s: "find_sub json_fence result = Some start"
  have "start < length result"
    using find_sub_bound [OF s] by (simp add: json_fence_def)
  then show "(trim (take start result @ drop (start + (7 + e + 3)) result), result) \<in> measure length"
    using cut_less by simp
qed simp

declare strip_fences.simps [simp del]

definition strip_tool_calls :: "string \<Rightarrow> string" where
  "strip_tool_calls text = trim (strip_fences (strip_objects text))"

section \<open>Tasks of a block that is no TOML\<close>

text \<open>\<open>trim_matches\<close> with a set of characters, and \<open>str::parse\<close> to \<open>u32\<close>.\<close>

definition trim_chars :: "char set \<Rightarrow> string \<Rightarrow> string" where
  "trim_chars cs s = rev (dropWhile (\<lambda>c. c \<in> cs) (rev (dropWhile (\<lambda>c. c \<in> cs) s)))"

definition is_digit :: "char \<Rightarrow> bool" where
  "is_digit c \<longleftrightarrow> 48 \<le> (of_char c :: nat) \<and> (of_char c :: nat) \<le> 57"

definition parse_u32 :: "string \<Rightarrow> u32 option" where
  "parse_u32 s =
     (let ds = (case s of c # cs \<Rightarrow> if c = CHR ''+'' then cs else s | [] \<Rightarrow> []);
          n = fold (\<lambda>c n. 10 * n + (of_char c - 48)) ds (0 :: nat) in
      if ds \<noteq> [] \<and> list_all is_digit ds \<and> n < 2 ^ 32 then Some (of_nat n) else None)"

abbreviation quote_char :: char where
  "quote_char \<equiv> CHR 0x22"

definition unquote :: "string \<Rightarrow> string" where
  "unquote s = trim_chars {quote_char} s"

definition parse_list :: "string \<Rightarrow> string list" where
  "parse_list val =
     filter (\<lambda>s. s \<noteq> []) (map (\<lambda>s. unquote (trim s))
       (split_char (CHR '','') (trim_chars {CHR ''['', CHR '']''} val)))"

text \<open>The tasks read so far, whether a task has begun, and its fields.\<close>

record extract_state =
  ex_tasks :: "task_node list"
  ex_in_task :: bool
  ex_node :: task_node

definition blank_node :: "u32 \<Rightarrow> task_node" where
  "blank_node budget = \<lparr> tn_id = [], tn_title = [], tn_description = [], tn_deps = [],
     tn_model_tier = Fast, tn_tool_budget = budget, tn_files_hint = [] \<rparr>"

definition flush_task :: "extract_state \<Rightarrow> task_node list" where
  "flush_task s =
     (if ex_in_task s \<and> tn_id (ex_node s) \<noteq> [] then ex_tasks s @ [ex_node s] else ex_tasks s)"

definition parse_tier :: "string \<Rightarrow> model_tier" where
  "parse_tier v = (if v = ''mid'' then Mid else if v = ''flagship'' then Flagship else Fast)"

fun first_prefix :: "(string \<times> (string \<Rightarrow> 'a)) list \<Rightarrow> string \<Rightarrow> 'a option" where
  "first_prefix [] s = None"
| "first_prefix ((p, f) # rules) s =
     (case strip_prefix_str p s of Some val \<Rightarrow> Some (f val) | None \<Rightarrow> first_prefix rules s)"

definition field_rules :: "(string \<times> (string \<Rightarrow> task_node \<Rightarrow> task_node)) list" where
  "field_rules =
     [(''id = '', \<lambda>val n. n\<lparr> tn_id := unquote val \<rparr>),
      (''title = '', \<lambda>val n. n\<lparr> tn_title := unquote val \<rparr>),
      (''description = '', \<lambda>val n. n\<lparr> tn_description := unquote val \<rparr>),
      (''model_tier = '', \<lambda>val n. n\<lparr> tn_model_tier := parse_tier (unquote val) \<rparr>),
      (''tool_budget = '', \<lambda>val n. n\<lparr> tn_tool_budget := unwrap_or 20 (parse_u32 val) \<rparr>),
      (''files_hint = '', \<lambda>val n. n\<lparr> tn_files_hint := parse_list val \<rparr>),
      (''deps = '', \<lambda>val n. n\<lparr> tn_deps := parse_list val \<rparr>)]"

definition extract_line :: "string \<Rightarrow> extract_state \<Rightarrow> extract_state" where
  "extract_line line s =
     (let trimmed = trim line in
      if trimmed = ''[[task]]'' \<or> trimmed = ''[[tasks]]''
      then \<lparr> ex_tasks = flush_task s, ex_in_task = True, ex_node = blank_node 8 \<rparr>
      else if ex_in_task s
      then (case first_prefix field_rules trimmed of
              None \<Rightarrow> s | Some f \<Rightarrow> s\<lparr> ex_node := f (ex_node s) \<rparr>)
      else s)"

definition extract_tasks_from_text :: "string \<Rightarrow> task_graph" where
  "extract_tasks_from_text text =
     \<lparr> tg_tasks = flush_task (fold extract_line (str_lines text)
         \<lparr> ex_tasks = [], ex_in_task = False, ex_node = blank_node 20 \<rparr>) \<rparr>"

text \<open>
  The graph of a drafted plan: the last block that gives tasks. In \<open>draft_plan_from_response\<close> a block
  that is no TOML is read line by line; in \<open>draft_plan\<close> it is passed over.
\<close>

fun choose_graph :: "(string \<Rightarrow> task_graph option) \<Rightarrow> bool \<Rightarrow> string list \<Rightarrow> task_graph option" where
  "choose_graph dec recover [] = None"
| "choose_graph dec recover (b # bs) =
     (let g = (case dec b of
                 Some g \<Rightarrow> g
               | None \<Rightarrow> if recover then extract_tasks_from_text b else \<lparr> tg_tasks = [] \<rparr>) in
      if tg_tasks g \<noteq> [] then Some g else choose_graph dec recover bs)"

definition drafted_graph :: "(string \<Rightarrow> task_graph option) \<Rightarrow> bool \<Rightarrow> string \<Rightarrow> task_graph \<Rightarrow> task_graph" where
  "drafted_graph dec recover response old =
     unwrap_or old (choose_graph dec recover (rev (plan_blocks response)))"

section \<open>Stripping plans\<close>

text \<open>Prose without the opening tag, and blocks without the closing one.\<close>

definition tag_free :: "string \<Rightarrow> string \<Rightarrow> bool" where
  "tag_free tag s \<longleftrightarrow> find_sub tag (s @ butlast tag) = None"

lemma find_sub_tag:
  assumes "tag_free tag p" and "tag \<noteq> []"
  shows "find_sub tag (p @ tag @ x) = Some (length p)"
proof -
  have "prefix tag (drop (length p) (p @ tag @ x))" by simp
  then obtain i where i: "find_sub tag (p @ tag @ x) = Some i" "i \<le> length p"
    using find_sub_None [of tag "p @ tag @ x" "length p"] find_sub_first [of tag "p @ tag @ x" _ "length p"]
    by (cases "find_sub tag (p @ tag @ x)") (auto simp: not_less [symmetric])
  have "\<not> i < length p"
  proof
    assume less: "i < length p"
    have "prefix tag (drop i (p @ tag @ x))" using i(1) by (rule find_sub_occurs)
    moreover have "prefix (drop i (p @ butlast tag)) (drop i (p @ tag @ x))"
    proof -
      have "tag @ x = butlast tag @ last tag # x" using assms(2) by simp
      then show ?thesis using less by (metis append.assoc append_Nil2 prefix_def same_prefix_prefix drop_append)
    qed
    moreover have "length tag \<le> length (drop i (p @ butlast tag))"
      using less assms(2) by (cases tag) auto
    ultimately have "prefix tag (drop i (p @ butlast tag))" by (metis prefix_length_prefix)
    moreover have "\<not> prefix tag (drop i (p @ butlast tag))"
      using assms(1) unfolding tag_free_def by (rule find_sub_None)
    ultimately show False by blast
  qed
  with i show ?thesis by simp
qed

definition with_blocks :: "(string \<times> string) list \<Rightarrow> string \<Rightarrow> string" where
  "with_blocks chunks t = concat (map (\<lambda>(p, b). p @ plan_open @ b @ plan_close) chunks) @ t"

lemma blocks_step:
  assumes "tag_free plan_open p" and "tag_free plan_close b"
  shows "plan_blocks (p @ plan_open @ b @ plan_close @ x) = b # plan_blocks x"
    and "strip_plan_from_reply (p @ plan_open @ b @ plan_close @ x) = p @ strip_plan_from_reply x"
proof -
  have a: "find_sub plan_open (p @ plan_open @ b @ plan_close @ x) = Some (length p)"
    by (rule find_sub_tag [OF assms(1)]) simp
  have r: "after_tag plan_open (length p) (p @ plan_open @ b @ plan_close @ x) = b @ plan_close @ x"
    by (simp add: after_tag_def)
  have b: "find_sub plan_close (b @ plan_close @ x) = Some (length b)"
    by (rule find_sub_tag [OF assms(2)]) simp
  have q: "after_tag plan_close (length b) (b @ plan_close @ x) = x"
    by (simp add: after_tag_def)
  show "plan_blocks (p @ plan_open @ b @ plan_close @ x) = b # plan_blocks x"
    by (subst plan_blocks.simps) (simp add: a r b q)
  show "strip_plan_from_reply (p @ plan_open @ b @ plan_close @ x) = p @ strip_plan_from_reply x"
    by (subst strip_plan_from_reply.simps) (simp add: a r b q)
qed

text \<open>
  In a reply that mixes prose and plan blocks, the blocks the conductor reads are the bodies of the
  blocks in their order, and the reply shown to the user is the prose: nothing of a block is left and
  nothing of the prose is lost.
\<close>

theorem blocks_and_prose:
  assumes "\<forall>(p, b)\<in>set chunks. tag_free plan_open p \<and> tag_free plan_close b"
    and "find_sub plan_open t = None"
  shows "plan_blocks (with_blocks chunks t) = map snd chunks
    \<and> strip_plan_from_reply (with_blocks chunks t) = concat (map fst chunks) @ t"
  using assms(1)
proof (induction chunks)
  case Nil
  show ?case
    using assms(2) by (simp add: with_blocks_def plan_blocks.simps [of t] strip_plan_from_reply.simps [of t])
next
  case (Cons c chunks)
  obtain p b where c: "c = (p, b)" by (cases c)
  with Cons have "tag_free plan_open p" "tag_free plan_close b"
    "plan_blocks (with_blocks chunks t) = map snd chunks"
    "strip_plan_from_reply (with_blocks chunks t) = concat (map fst chunks) @ t" by auto
  moreover have "with_blocks (c # chunks) t = p @ plan_open @ b @ plan_close @ with_blocks chunks t"
    by (simp add: with_blocks_def c)
  ultimately show ?case by (simp add: blocks_step c)
qed

lemma blocks_and_prose_witness:
  "plan_blocks ''Hi <plan>x</plan> there'' = [''x'']
     \<and> strip_plan_from_reply ''Hi <plan>x</plan> there'' = ''Hi  there''"
proof -
  have "with_blocks [(''Hi '', ''x'')] '' there'' = ''Hi <plan>x</plan> there''"
    by (simp add: with_blocks_def plan_open_def plan_close_def)
  then show ?thesis
    using blocks_and_prose [of "[(''Hi '', ''x'')]" "'' there''"]
    by (simp add: tag_free_def plan_open_def plan_close_def)
qed

end
