(* ===== verification/Streams.thy ===== *)
theory Streams
  imports Providers
begin

text \<open>
  The streaming clients of \<open>mowis-orchestration/src/providers.rs\<close>: the chunks of a reply are appended
  to a buffer, complete lines are taken from it, and each line of the form \<open>data: <json>\<close> is an event.
  What is sent through \<open>token_tx\<close> is the list of tokens in the state.
\<close>

section \<open>The line buffer\<close>

text \<open>
  One chunk: its text is decoded on its own and appended, then every complete line is trimmed and
  handled; what follows the last newline stays in the buffer.
\<close>

definition feed_chunk :: "(string \<Rightarrow> 's \<Rightarrow> 's) \<Rightarrow> string \<Rightarrow> string \<times> 's \<Rightarrow> string \<times> 's" where
  "feed_chunk handle chunk bs =
     (let ls = split_char newline (fst bs @ utf8_lossy chunk) in
      (last ls, fold (\<lambda>l. handle (trim l)) (butlast ls) (snd bs)))"

text \<open>The stream: an error of a chunk ends it.\<close>

fun feed_stream ::
  "(string \<Rightarrow> 's \<Rightarrow> 's) \<Rightarrow> (string + string) list \<Rightarrow> string \<times> 's \<Rightarrow> string + (string \<times> 's)" where
  "feed_stream handle [] bs = Inr bs"
| "feed_stream handle (Inl e # chunks) bs = Inl ''reading stream chunk''"
| "feed_stream handle (Inr chunk # chunks) bs = feed_stream handle chunks (feed_chunk handle chunk bs)"

text \<open>The event of a line, if it holds one.\<close>

definition line_event :: "provider_env \<Rightarrow> string \<Rightarrow> json option" where
  "line_event env line =
     (case strip_prefix_str ''data: '' line of
        None \<Rightarrow> None
      | Some data \<Rightarrow> if data = ''[DONE]'' then None else pe_from_str env data)"

section \<open>Chat\<close>

record stream_state =
  ss_text :: string
  ss_usage :: token_usage
  ss_tokens :: "string list"

definition new_stream :: stream_state where
  "new_stream = \<lparr> ss_text = [], ss_usage = \<lparr> tu_input = 0, tu_output = 0 \<rparr>, ss_tokens = [] \<rparr>"

definition push_token :: "string option \<Rightarrow> stream_state \<Rightarrow> stream_state" where
  "push_token t s =
     (case t of
        None \<Rightarrow> s
      | Some text \<Rightarrow>
          if text = [] then s
          else s\<lparr> ss_text := ss_text s @ text, ss_tokens := ss_tokens s @ [text] \<rparr>)"

definition anthropic_event :: "json \<Rightarrow> stream_state \<Rightarrow> stream_state" where
  "anthropic_event event s =
     (let ty = unwrap_or [] (jget_str event ''type'');
          s1 = (if ty = ''message_start'' then s\<lparr> ss_usage := (ss_usage s)\<lparr> tu_input :=
                   path_u32 event [''message'', ''usage'', ''input_tokens''] \<rparr> \<rparr> else s);
          s2 = (if ty = ''message_delta'' then s1\<lparr> ss_usage := (ss_usage s1)\<lparr> tu_output :=
                   path_u32 event [''usage'', ''output_tokens''] \<rparr> \<rparr> else s1)
      in push_token (Option.bind (jget event ''delta'') (\<lambda>d. jget_str d ''text'')) s2)"

definition anthropic_line :: "provider_env \<Rightarrow> string \<Rightarrow> stream_state \<Rightarrow> stream_state" where
  "anthropic_line env line s =
     (case line_event env line of None \<Rightarrow> s | Some event \<Rightarrow> anthropic_event event s)"

definition take_usage :: "json \<Rightarrow> stream_state \<Rightarrow> stream_state" where
  "take_usage event s =
     (case jget event ''usage'' of
        None \<Rightarrow> s
      | Some u \<Rightarrow> s\<lparr> ss_usage := \<lparr> tu_input = path_u32 u [''prompt_tokens''],
            tu_output = path_u32 u [''completion_tokens''] \<rparr> \<rparr>)"

definition openai_delta :: "json \<Rightarrow> json option" where
  "openai_delta event = Option.bind (first_of event ''choices'') (\<lambda>c. jget c ''delta'')"

definition openai_event :: "json \<Rightarrow> stream_state \<Rightarrow> stream_state" where
  "openai_event event s =
     push_token (Option.bind (openai_delta event) (\<lambda>d. jget_str d ''content'')) (take_usage event s)"

definition openai_line :: "provider_env \<Rightarrow> string \<Rightarrow> stream_state \<Rightarrow> stream_state" where
  "openai_line env line s =
     (case line_event env line of None \<Rightarrow> s | Some event \<Rightarrow> openai_event event s)"

text \<open>The stream of a request, from an empty buffer; the tokens sent are in the state.\<close>

definition run_stream ::
  "(string \<Rightarrow> 's \<Rightarrow> 's) \<Rightarrow> http_response \<Rightarrow> 's \<Rightarrow> string + 's" where
  "run_stream handle resp s = and_then (feed_stream handle (hp_chunks resp) ([], s)) (\<lambda>bs. Inr (snd bs))"

definition generate_chat_anthropic_streaming ::
  "provider_env \<Rightarrow> llm_config \<Rightarrow> string \<Rightarrow> json list \<Rightarrow> string \<Rightarrow> cache_hints \<Rightarrow> string + stream_state" where
  "generate_chat_anthropic_streaming env cfg system_prompt history temperature hints =
     and_then (anthropic_key cfg) (\<lambda>key.
     and_then (http_post_json env 0 anthropic_url (anthropic_headers key)
         (JObj [(''model'', JStr (lc_model cfg)), (''system'', anthropic_system hints system_prompt),
            (''messages'', JArr history), (''max_tokens'', JInt 16384),
            (''temperature'', JFloat temperature), (''stream'', JBool True)])
         ''Anthropic streaming request failed'' ''Anthropic'') (\<lambda>resp.
     run_stream (anthropic_line env) resp new_stream))"

definition usage_option :: "string \<times> json" where
  "usage_option = (''stream_options'', JObj [(''include_usage'', JBool True)])"

definition generate_chat_openai_streaming ::
  "provider_env \<Rightarrow> llm_config \<Rightarrow> string \<Rightarrow> json list \<Rightarrow> string \<Rightarrow> string + stream_state" where
  "generate_chat_openai_streaming env cfg system_prompt history temperature =
     and_then (openai_compat_url_and_key cfg) (\<lambda>(url, key).
     and_then (http_post_json env 0 url (openai_headers key)
         (openai_body cfg (system_message system_prompt # history)
           [(''max_tokens'', JInt 16384), (''temperature'', JFloat temperature), (''stream'', JBool True),
            usage_option])
         ''OpenAI streaming request failed'' (show_provider (lc_provider cfg))) (\<lambda>resp.
     run_stream (openai_line env) resp new_stream))"

definition generate_chat_streaming_with_hints ::
  "provider_env \<Rightarrow> llm_config \<Rightarrow> string \<Rightarrow> json list \<Rightarrow> string \<Rightarrow> cache_hints \<Rightarrow> string + stream_state" where
  "generate_chat_streaming_with_hints env cfg system_prompt history temperature hints =
     (if lc_provider cfg = Anthropic then
        generate_chat_anthropic_streaming env cfg system_prompt history temperature hints
      else if lc_provider cfg \<in> {OpenAi, Grok, Groq, Mimo} then
        generate_chat_openai_streaming env cfg system_prompt history temperature
      else and_then (generate_chat env cfg system_prompt history temperature) (\<lambda>(text, usage).
        Inr \<lparr> ss_text = text, ss_usage = usage, ss_tokens = [text] \<rparr>))"

section \<open>Rounds with tools\<close>

text \<open>
  The calls of a stream arrive in fragments, accumulated in a table ordered by their index: the
  identifier, the name and the text of the arguments so far.
\<close>

type_synonym call_accum = "(int \<times> string \<times> string \<times> string) list"

fun accum_entry :: "int \<Rightarrow> call_accum \<Rightarrow> string \<times> string \<times> string" where
  "accum_entry i [] = ([], [], [])"
| "accum_entry i ((j, e) # es) = (if i = j then e else accum_entry i es)"

fun accum_put :: "int \<Rightarrow> string \<times> string \<times> string \<Rightarrow> call_accum \<Rightarrow> call_accum" where
  "accum_put i e [] = [(i, e)]"
| "accum_put i e ((j, d) # es) =
     (if i = j then (i, e) # es else if i < j then (i, e) # (j, d) # es else (j, d) # accum_put i e es)"

definition nonempty_or :: "string \<Rightarrow> string option \<Rightarrow> string" where
  "nonempty_or old new = (case new of Some s \<Rightarrow> if s = [] then old else s | None \<Rightarrow> old)"

definition accum_fragment :: "json \<Rightarrow> call_accum \<Rightarrow> call_accum" where
  "accum_fragment tc acc =
     (let i = unwrap_or 0 (Option.bind (jget tc ''index'') ji64) in
      case accum_entry i acc of
        (ident, name, args) \<Rightarrow>
          accum_put i (nonempty_or ident (jget_str tc ''id''),
             nonempty_or name (Option.bind (jpath tc [''function'', ''name'']) jstr),
             args @ unwrap_or [] (Option.bind (jpath tc [''function'', ''arguments'']) jstr)) acc)"

type_synonym round_state = "stream_state \<times> call_accum"

definition round_event :: "json \<Rightarrow> round_state \<Rightarrow> round_state" where
  "round_event event sa =
     (let s = take_usage event (fst sa) in
      case openai_delta event of
        None \<Rightarrow> (s, snd sa)
      | Some delta \<Rightarrow>
          (push_token (jget_str delta ''content'') s,
           fold accum_fragment (unwrap_or [] (Option.bind (jget delta ''tool_calls'') jarr)) (snd sa)))"

definition round_line :: "provider_env \<Rightarrow> string \<Rightarrow> round_state \<Rightarrow> round_state" where
  "round_line env line sa = (case line_event env line of None \<Rightarrow> sa | Some event \<Rightarrow> round_event event sa)"

definition accum_call :: "provider_env \<Rightarrow> int \<times> string \<times> string \<times> string \<Rightarrow> tool_call" where
  "accum_call env e =
     (case e of (_, ident, name, args) \<Rightarrow>
        \<lparr> tcl_id = ident, tcl_name = name, tcl_args = unwrap_or empty_obj (pe_from_str env args) \<rparr>)"

definition accum_calls :: "provider_env \<Rightarrow> call_accum \<Rightarrow> tool_call list" where
  "accum_calls env acc = filter (\<lambda>tc. tcl_name tc \<noteq> []) (map (accum_call env) acc)"

text \<open>The result is the round with the tokens that were sent.\<close>

definition call_agent_round_openai_compat_streaming ::
  "provider_env \<Rightarrow> llm_config \<Rightarrow> conversation \<Rightarrow> json list \<Rightarrow> string \<Rightarrow> string + (agent_round \<times> string list)" where
  "call_agent_round_openai_compat_streaming env cfg conv schemas system_prompt =
     and_then (openai_compat_url_and_key cfg) (\<lambda>(url, key).
     and_then (http_post_json env 0 url (openai_headers key)
         (openai_body cfg (system_message system_prompt # concat (map (openai_messages env) conv))
           [(''tools'', openai_tools schemas), (''temperature'', JFloat ''0.7''), (''max_tokens'', JInt 16384),
            (''stream'', JBool True), usage_option])
         ''OpenAI-compat streaming round failed'' (show_provider (lc_provider cfg))) (\<lambda>resp.
     and_then (run_stream (round_line env) resp (new_stream, [])) (\<lambda>(s, acc).
       Inr (\<lparr> ar_text = (if ss_text s = [] then None else Some (ss_text s)),
              ar_tool_calls = accum_calls env acc, ar_usage = ss_usage s \<rparr>, ss_tokens s))))"

definition call_agent_round_streaming_with_hints ::
  "provider_env \<Rightarrow> llm_config \<Rightarrow> conversation \<Rightarrow> json list \<Rightarrow> string \<Rightarrow> cache_hints
     \<Rightarrow> string + (agent_round \<times> string list)" where
  "call_agent_round_streaming_with_hints env cfg conv schemas system_prompt hints =
     (if lc_provider cfg \<in> {OpenAi, Grok, Groq, Mimo} then
        call_agent_round_openai_compat_streaming env cfg conv schemas system_prompt
      else and_then (call_agent_round_with_hints env cfg conv schemas system_prompt hints) (\<lambda>round.
        Inr (round, case ar_text round of None \<Rightarrow> [] | Some t \<Rightarrow> [t])))"

section \<open>The chunks do not matter, unless they cut a character\<close>

lemma split_char_append:
  "split_char c (x @ y) = butlast (split_char c x) @ split_char c (last (split_char c x) @ y)"
proof (induction x)
  case Nil
  then show ?case by simp
next
  case (Cons a x)
  obtain w ws where w: "split_char c x = w # ws"
    using split_char_nonempty [of c x] by (cases "split_char c x") auto
  show ?case
  proof (cases "ws = []")
    case True
    with Cons w show ?thesis by simp
  next
    case False
    with Cons w show ?thesis by (auto split: list.split)
  qed
qed

lemma last_split_char_free: "c \<notin> set (last (split_char c x))"
  using split_char_free [of "last (split_char c x)" c x] by simp

lemma feed_chunk_append:
  assumes "utf8_valid c1" and "utf8_valid c2"
  shows "feed_chunk handle (c1 @ c2) bs = feed_chunk handle c2 (feed_chunk handle c1 bs)"
  using assms
  by (simp add: feed_chunk_def Let_def utf8_lossy_valid utf8_valid_append butlast_append
      split_char_append [of newline "fst bs @ c1" c2, simplified])

lemma split_char_none: "c \<notin> set x \<Longrightarrow> split_char c x = [x]"
  by (induction x) auto

lemma feed_stream_valid:
  assumes "list_all utf8_valid cs" and "newline \<notin> set (fst bs)"
  shows "feed_stream handle (map Inr cs) bs = Inr (feed_chunk handle (concat cs) bs)"
  using assms
proof (induction cs arbitrary: bs)
  case Nil
  then show ?case by (cases bs) (simp add: feed_chunk_def Let_def split_char_none)
next
  case (Cons c cs)
  have "utf8_valid (concat cs)"
    using Cons.prems(1) by (induction cs) (auto intro: utf8_valid_append)
  moreover have "newline \<notin> set (fst (feed_chunk handle c bs))"
    by (simp add: feed_chunk_def Let_def last_split_char_free)
  ultimately show ?case using Cons by (simp add: feed_chunk_append)
qed

text \<open>
  C14. How the transport cuts a reply into chunks does not change what a streaming client makes of it,
  whatever the client does with a line: any two ways to cut the same bytes give the same result, as
  long as every chunk is UTF-8 of its own.
\<close>

theorem chunking_irrelevant:
  assumes "list_all utf8_valid cs" and "list_all utf8_valid ds" and "concat cs = concat ds"
  shows "run_stream handle (resp\<lparr> hp_chunks := map Inr cs \<rparr>) s
    = run_stream handle (resp\<lparr> hp_chunks := map Inr ds \<rparr>) s"
  using assms by (simp add: run_stream_def feed_stream_valid)

text \<open>An API whose events are the text of their line.\<close>

definition echo_env :: provider_env where
  "echo_env = demo_provider_env\<lparr> pe_from_str := (\<lambda>t. Some (JObj [(''delta'', jtext t)])) \<rparr>"

definition euro :: string where
  "euro = [CHR 0xE2, CHR 0x82, CHR 0xAC]"

lemma chunking_irrelevant_witness:
  "run_stream (anthropic_line echo_env) ((demo_response JNull)\<lparr> hp_chunks := map Inr [''data: o'', ''k'' @ [newline]] \<rparr>) new_stream
   = run_stream (anthropic_line echo_env) ((demo_response JNull)\<lparr> hp_chunks := map Inr [''data: ok'' @ [newline]] \<rparr>) new_stream"
  by (rule chunking_irrelevant) (simp_all add: utf8_valid_ascii newline_def)

lemma cut_euro:
  "utf8_lossy (''data: '' @ [CHR 0xE2]) = ''data: '' @ replacement"
  "utf8_lossy ([CHR 0x82, CHR 0xAC] @ ''!'' @ [newline]) = replacement @ replacement @ ''!'' @ [newline]"
  by (simp_all add: utf8_lossy_ascii utf8_lossy_bad utf8_step_def second_range_def newline_def)

lemma euro_valid: "utf8_valid euro"
  by (simp add: euro_def utf8_valid.simps [of "[CHR 0xE2, CHR 0x82, CHR 0xAC]"] utf8_step_def
      utf8_tail_def second_range_def char_width_def is_cont_def)

lemma echo_line:
  assumes "plain_char (last s)" and "s \<noteq> ''[DONE]''" and "s \<noteq> []"
  shows "ss_text (anthropic_line echo_env (trim (''data: '' @ s)) new_stream) = s"
proof -
  have "trim (''data: '' @ s) = ''data: '' @ s"
    using assms by (intro trim_plain) (simp_all add: plain_char_def)
  then have "line_event echo_env (trim (''data: '' @ s)) = Some (JObj [(''delta'', jtext s)])"
    using assms(2)
    by (simp add: line_event_def strip_prefix_str_def echo_env_def demo_provider_env_def)
  with assms(3) show ?thesis
    by (simp add: anthropic_line_def anthropic_event_def jget_str_def jtext_def push_token_def
        new_stream_def Let_def)
qed

lemma split_line_nl: "c \<notin> set x \<Longrightarrow> split_char c (x @ [c]) = [x, []]"
  by (induction x) auto

lemma echo_split:
  assumes "newline \<notin> set s"
  shows "split_char newline (''data: '' @ s @ [newline]) = [''data: '' @ s, []]"
  using split_line_nl [of newline "''data: '' @ s"] assms by (simp add: newline_def)

lemma echo_chunk:
  assumes "newline \<notin> set s" and "plain_char (last s)" and "s \<noteq> ''[DONE]''" and "s \<noteq> []"
    and "b @ utf8_lossy chunk = ''data: '' @ s @ [newline]"
  shows "ss_text (snd (feed_chunk (anthropic_line echo_env) chunk (b, new_stream))) = s"
  using echo_line [OF assms(2-4)]
  by (simp only: feed_chunk_def Let_def fst_conv snd_conv assms(5) echo_split [OF assms(1)] butlast.simps
      fold.simps if_True if_False simp_thms list.simps comp_def id_def)

text \<open>
  A character that is cut by the end of a chunk is lost: the pieces are decoded on their own, so the
  text of the reply has replacement characters where the same bytes in one chunk give the character.
\<close>

theorem cut_character_lost:
  "map_sum id ss_text (run_stream (anthropic_line echo_env) ((demo_response JNull)\<lparr> hp_chunks :=
       [Inr (''data: '' @ [CHR 0xE2]), Inr ([CHR 0x82, CHR 0xAC] @ ''!'' @ [newline])] \<rparr>) new_stream)
     = Inr (replacement @ replacement @ replacement @ ''!'')
   \<and> map_sum id ss_text (run_stream (anthropic_line echo_env) ((demo_response JNull)\<lparr> hp_chunks :=
       [Inr (''data: '' @ euro @ ''!'' @ [newline])] \<rparr>) new_stream) = Inr (euro @ ''!'')"
proof
  let ?r = "replacement @ replacement @ replacement @ ''!''"
  have nl: "newline \<notin> set (replacement @ replacement @ replacement @ ''!'')"
    "newline \<notin> set (''data: '' @ replacement)" "newline \<notin> set (euro @ ''!'')"
    by (simp_all add: replacement_def newline_def euro_def)
  have "feed_chunk (anthropic_line echo_env) (''data: '' @ [CHR 0xE2]) ([], new_stream)
      = (''data: '' @ replacement, new_stream)"
    unfolding feed_chunk_def Let_def cut_euro fst_conv append_Nil split_char_none [OF nl(2)] by simp
  then show "map_sum id ss_text (run_stream (anthropic_line echo_env) ((demo_response JNull)\<lparr> hp_chunks :=
       [Inr (''data: '' @ [CHR 0xE2]), Inr ([CHR 0x82, CHR 0xAC] @ ''!'' @ [newline])] \<rparr>) new_stream)
     = Inr ?r"
    using echo_chunk [OF nl(1), of "''data: '' @ replacement" "[CHR 0x82, CHR 0xAC] @ ''!'' @ [newline]"]
    by (simp add: run_stream_def plain_char_def cut_euro(2) [simplified])
  have "utf8_lossy (''data: '' @ euro @ ''!'' @ [newline]) = ''data: '' @ euro @ ''!'' @ [newline]"
    by (intro utf8_lossy_valid utf8_valid_append euro_valid utf8_valid_ascii) (simp_all add: newline_def)
  then show "map_sum id ss_text (run_stream (anthropic_line echo_env) ((demo_response JNull)\<lparr> hp_chunks :=
       [Inr (''data: '' @ euro @ ''!'' @ [newline])] \<rparr>) new_stream) = Inr (euro @ ''!'')"
    using echo_chunk [OF nl(3), of "[]" "''data: '' @ euro @ ''!'' @ [newline]"]
    by (simp add: run_stream_def plain_char_def)
qed

section \<open>The fragments of a call\<close>

definition frag_index :: "json \<Rightarrow> int" where
  "frag_index tc = unwrap_or 0 (Option.bind (jget tc ''index'') ji64)"

definition frag_args :: "json \<Rightarrow> string" where
  "frag_args tc = unwrap_or [] (Option.bind (jpath tc [''function'', ''arguments'']) jstr)"

lemma accum_put_keys: "set (map fst (accum_put i e acc)) = insert i (set (map fst acc))"
  by (induction i e acc rule: accum_put.induct) auto

lemma accum_put_sorted:
  "sorted_wrt (<) (map fst acc) \<Longrightarrow> sorted_wrt (<) (map fst (accum_put i e acc))"
proof (induction i e acc rule: accum_put.induct)
  case (2 i e j d es)
  have "set (map fst (accum_put i e es)) = insert i (set (map fst es))" by (rule accum_put_keys)
  with 2 show ?case by (auto simp: less_le_not_le)
qed simp

lemma accum_entry_put:
  "sorted_wrt (<) (map fst acc) \<Longrightarrow>
     accum_entry j (accum_put i e acc) = (if j = i then e else accum_entry j acc)"
  by (induction i e acc rule: accum_put.induct) auto

lemma accum_entry_absent: "i \<notin> set (map fst acc) \<Longrightarrow> accum_entry i acc = ([], [], [])"
  by (induction i acc rule: accum_entry.induct) auto

definition entry_args :: "string \<times> string \<times> string \<Rightarrow> string" where
  "entry_args e = snd (snd e)"

lemma accum_fragment_put:
  "\<exists>ident name. accum_fragment tc acc =
     accum_put (frag_index tc) (ident, name, entry_args (accum_entry (frag_index tc) acc) @ frag_args tc) acc"
  by (cases "accum_entry (frag_index tc) acc")
     (auto simp: accum_fragment_def frag_index_def frag_args_def entry_args_def Let_def)

lemma accum_fragments:
  assumes "sorted_wrt (<) (map fst acc)"
  shows "sorted_wrt (<) (map fst (fold accum_fragment fs acc))
    \<and> set (map fst (fold accum_fragment fs acc)) = set (map fst acc) \<union> frag_index ` set fs
    \<and> entry_args (accum_entry i (fold accum_fragment fs acc))
        = entry_args (accum_entry i acc) @ concat (map frag_args (filter (\<lambda>f. frag_index f = i) fs))"
  using assms
proof (induction fs arbitrary: acc)
  case Nil
  then show ?case by simp
next
  case (Cons f fs)
  let ?acc = "accum_fragment f acc"
  obtain ident name where f: "?acc = accum_put (frag_index f)
      (ident, name, entry_args (accum_entry (frag_index f) acc) @ frag_args f) acc"
    using accum_fragment_put by blast
  have s: "sorted_wrt (<) (map fst ?acc)" unfolding f using Cons.prems by (rule accum_put_sorted)
  have k: "set (map fst ?acc) = insert (frag_index f) (set (map fst acc))"
    unfolding f by (rule accum_put_keys)
  have e: "entry_args (accum_entry i ?acc)
      = entry_args (accum_entry i acc) @ (if frag_index f = i then frag_args f else [])"
    unfolding f by (simp add: accum_entry_put [OF Cons.prems]) (simp add: entry_args_def)
  from Cons.IH [OF s] k e show ?case by auto
qed

text \<open>
  A streamed tool call is assembled from its fragments whatever the order in which the fragments of
  different calls are mixed: after any fragments there is one entry for each index that occurs, in the
  order of the indices, and its arguments are the pieces with that index in the order of arrival.
\<close>

theorem fragments_assembled:
  "sorted_wrt (<) (map fst (fold accum_fragment fs []))
   \<and> set (map fst (fold accum_fragment fs [])) = frag_index ` set fs
   \<and> entry_args (accum_entry i (fold accum_fragment fs []))
       = concat (map frag_args (filter (\<lambda>f. frag_index f = i) fs))"
  using accum_fragments [of "[]" fs i] by (simp add: entry_args_def)

end
