(* ===== verification/Conductor_Loop.thy ===== *)
theory Conductor_Loop
  imports Conductor_Text Events Streams Copying Config
begin

text \<open>
  The conductor of \<open>mowis-orchestration/src/conductor.rs\<close>: the conversation with the user, the tools by
  which it starts a build and saves its output, the drafting of plans and the reaction to the critic.
  The answers of the models, the clock, the prompts and the contents of the workspace are fields of the
  environment; plans are stored by \<open>Plan_Store\<close>, the copy to the host is \<open>copy_tree\<close>, and a captain
  that is started is an entry of a list.
\<close>

section \<open>State and results\<close>

datatype classifier_decision = Informational | HotPatch | ScopeChange | NewPlan

record classifier_task =
  ck_title :: string
  ck_description :: string
  ck_deps :: "string list"

record classifier_output =
  co_decision :: classifier_decision
  co_reason :: string
  co_task :: "classifier_task option"

datatype conductor_answer =
    AnsChat string
  | AnsBuildDispatched plan_id string
  | AnsPlanDrafted plan_id u32
  | AnsPlanRevised plan_id u32
  | AnsHotPatched task_node plan_id
  | AnsScopeChanged plan_id
  | AnsAwaiting plan_id
  | AnsError string

record conductor =
  cd_conversation :: "string list"
  cd_current :: "plan_id option"
  cd_digest :: digest
  cd_workspace :: "hpath option"
  cd_save_dest :: hpath
  cd_events :: "event list"
  cd_ops :: nat
  cd_fs :: fs
  cd_tree :: tree
  cd_asked :: nat
  cd_clock :: nat
  cd_started :: "(plan_id \<times> hpath) list"

text \<open>
  \<open>ne_text\<close>, \<open>ne_chat\<close> and \<open>ne_round\<close> are the answers to the \<open>n\<close>-th call of a model, the last two with
  the tokens that were streamed.
\<close>

record conductor_env =
  ne_io :: io
  ne_crypto :: crypto_env
  ne_random :: string
  ne_cfg :: orch_config
  ne_codec :: codec
  ne_parse :: "string \<Rightarrow> json option"
  ne_host :: host_env
  ne_cwd :: hpath
  ne_entries :: "hpath \<Rightarrow> tree \<Rightarrow> entries option"
  ne_prompt :: string
  ne_classifier_prompt :: string
  ne_stamp :: "nat \<Rightarrow> string"
  ne_now :: "nat \<Rightarrow> string"
  ne_nanos :: "nat \<Rightarrow> nat"
  ne_show :: "orch_error \<Rightarrow> string"
  ne_text :: "nat \<Rightarrow> llm_config \<Rightarrow> string \<Rightarrow> string \<Rightarrow> string + string"
  ne_chat :: "nat \<Rightarrow> llm_config \<Rightarrow> string \<Rightarrow> json list \<Rightarrow> string + (string \<times> token_usage \<times> string list)"
  ne_round :: "nat \<Rightarrow> llm_config \<Rightarrow> conversation \<Rightarrow> json list \<Rightarrow> string \<Rightarrow> string + (agent_round \<times> string list)"

datatype 'a cond_result = COk 'a | CErr orch_error | CPanic

type_synonym 'a cond = "conductor \<Rightarrow> 'a cond_result \<times> conductor"

definition c_return :: "'a \<Rightarrow> 'a cond" where
  "c_return x s = (COk x, s)"

definition c_bind :: "'a cond \<Rightarrow> ('a \<Rightarrow> 'b cond) \<Rightarrow> 'b cond" where
  "c_bind m k s =
     (case m s of (COk x, s') \<Rightarrow> k x s' | (CErr e, s') \<Rightarrow> (CErr e, s') | (CPanic, s') \<Rightarrow> (CPanic, s'))"

definition c_modify :: "(conductor \<Rightarrow> conductor) \<Rightarrow> unit cond" where
  "c_modify f s = (COk (), f s)"

definition c_lift :: "orch_error + 'a \<Rightarrow> 'a cond" where
  "c_lift r s = (case r of Inl e \<Rightarrow> (CErr e, s) | Inr x \<Rightarrow> (COk x, s))"

definition c_fs :: "conductor_env \<Rightarrow> 'a fs_action \<Rightarrow> 'a cond" where
  "c_fs env act s =
     (case act (ne_io env) (cd_ops s) (cd_fs s) of
        (r, n, fs) \<Rightarrow> c_lift r (s\<lparr> cd_ops := n, cd_fs := fs \<rparr>))"

definition c_emit :: "event \<Rightarrow> unit cond" where
  "c_emit e = c_modify (\<lambda>s. s\<lparr> cd_events := cd_events s @ [e] \<rparr>)"

definition c_push :: "string \<Rightarrow> unit cond" where
  "c_push msg = c_modify (\<lambda>s. s\<lparr> cd_conversation := cd_conversation s @ [msg] \<rparr>)"

definition c_set_current :: "plan_id \<Rightarrow> unit cond" where
  "c_set_current pid = c_modify (\<lambda>s. s\<lparr> cd_current := Some pid \<rparr>)"

definition new_conductor :: "hpath \<Rightarrow> fs \<Rightarrow> tree \<Rightarrow> conductor" where
  "new_conductor cwd fs tr = \<lparr> cd_conversation = [], cd_current = None, cd_digest = new_digest 512,
     cd_workspace = None, cd_save_dest = cwd, cd_events = [], cd_ops = 0, cd_fs = fs, cd_tree = tr,
     cd_asked = 0, cd_clock = 0, cd_started = [] \<rparr>"

definition set_workspace :: "hpath \<Rightarrow> hpath \<Rightarrow> conductor \<Rightarrow> conductor" where
  "set_workspace workspace save_dest s = s\<lparr> cd_workspace := Some workspace, cd_save_dest := save_dest \<rparr>"

section \<open>Calls of a model\<close>

definition tier_llm :: "conductor_env \<Rightarrow> tier \<Rightarrow> llm_config cond" where
  "tier_llm env tier = c_fs env (llm_for (ne_crypto env) (ne_random env) (ne_cfg env) tier)"

definition conductor_prompt :: "conductor_env \<Rightarrow> string" where
  "conductor_prompt env =
     replace_str ''{{conversation_id}}'' ''stdin-session'' (replace_str ''{{repo_root}}'' ''.'' (ne_prompt env))"

definition ask :: "(nat \<Rightarrow> string + 'a) \<Rightarrow> 'a cond" where
  "ask f s =
     (let s1 = s\<lparr> cd_asked := Suc (cd_asked s) \<rparr> in
      case f (cd_asked s) of Inl e \<Rightarrow> (CErr (Bail e), s1) | Inr x \<Rightarrow> (COk x, s1))"

text \<open>Messages at even positions are the user's, the others the assistant's.\<close>

definition history_json :: "string list \<Rightarrow> json list" where
  "history_json conv = map (\<lambda>(i, msg).
     jmsg (if even i then ''user'' else ''assistant'') (JStr msg)) (List.enumerate 0 conv)"

definition tokens_used :: "llm_config \<Rightarrow> token_usage \<Rightarrow> event" where
  "tokens_used lc u = TokensUsed ''conductor'' ''conductor'' (tu_input u) (tu_output u) (lc_model lc)"

definition emit_tokens :: "string list \<Rightarrow> unit cond" where
  "emit_tokens ts = c_modify (\<lambda>s. s\<lparr> cd_events := cd_events s @ map StreamToken ts \<rparr>)"

definition chat_reply :: "conductor_env \<Rightarrow> string cond" where
  "chat_reply env =
     c_bind (tier_llm env Conductor) (\<lambda>lc.
     c_bind (\<lambda>s. ask (\<lambda>n. ne_chat env n lc (conductor_prompt env) (history_json (cd_conversation s))) s)
       (\<lambda>(response, usage, tokens).
     c_bind (emit_tokens tokens) (\<lambda>_.
     c_bind (c_emit StreamDone) (\<lambda>_.
     c_bind (c_emit (tokens_used lc usage)) (\<lambda>_.
     c_bind (c_push response) (\<lambda>_. c_return response))))))"

section \<open>Drafting\<close>

definition hex_pad :: "nat \<Rightarrow> string \<Rightarrow> string" where
  "hex_pad w s = replicate (w - length s) CHR ''0'' @ s"

definition rand_hex :: "conductor_env \<Rightarrow> nat \<Rightarrow> nat" where
  "rand_hex env k = ne_nanos env k mod 2 ^ 24"

definition fresh_plan :: "conductor_env \<Rightarrow> string \<Rightarrow> plan cond" where
  "fresh_plan env goal s =
     (let k = cd_clock s; pid = ne_stamp env k @ ''-'' @ hex_pad 6 (show_hex (rand_hex env k)) in
      (COk (new_draft (ne_now env k) pid goal ''stdin-session''), s\<lparr> cd_clock := Suc k \<rparr>))"

definition store_draft :: "conductor_env \<Rightarrow> bool \<Rightarrow> string \<Rightarrow> plan \<Rightarrow> plan_id cond" where
  "store_draft env recover response p =
     (let p1 = p\<lparr> pl_task_graph := drafted_graph (dec_tasks (ne_codec env)) recover response (pl_task_graph p),
                  pl_overview := response \<rparr> in
      c_bind (c_fs env (save (ne_codec env) p1)) (\<lambda>_.
      c_bind (c_emit (PlanDrafted (pl_plan_id p) 1)) (\<lambda>_. c_return (pl_plan_id p))))"

definition build_authorized :: string where
  "build_authorized = [newline, newline] @ ''---'' @ [newline]
     @ ''[Build authorized: the user wants this built now. Output the <plan>...</plan> block directly. ''
     @ ''Do NOT ask further questions or reply conversationally.]''"

definition draft_plan :: "conductor_env \<Rightarrow> string \<Rightarrow> plan_id cond" where
  "draft_plan env user_msg =
     c_bind (fresh_plan env user_msg) (\<lambda>p.
     c_bind (tier_llm env Conductor) (\<lambda>lc.
     c_bind (\<lambda>s. ask (\<lambda>n. ne_chat env n lc (conductor_prompt env @ build_authorized)
                 (history_json (cd_conversation s))) s) (\<lambda>(response, usage, _).
     c_bind (c_emit (tokens_used lc usage)) (\<lambda>_.
     c_bind (c_push response) (\<lambda>_. store_draft env False response p)))))"

definition draft_plan_from_response :: "conductor_env \<Rightarrow> string \<Rightarrow> string \<Rightarrow> plan_id cond" where
  "draft_plan_from_response env response user_msg =
     c_bind (fresh_plan env user_msg) (store_draft env True response)"

definition materialize_task_as_plan :: "conductor_env \<Rightarrow> task_node \<Rightarrow> plan_id cond" where
  "materialize_task_as_plan env task =
     c_bind (fresh_plan env (tn_title task)) (\<lambda>p.
     c_bind (c_fs env (save (ne_codec env) (p\<lparr> pl_overview := ''Follow-up task: '' @ tn_title task,
                pl_task_graph := \<lparr> tg_tasks = [task] \<rparr> \<rparr>))) (\<lambda>_.
     c_bind (c_set_current (pl_plan_id p)) (\<lambda>_. c_return (pl_plan_id p))))"

section \<open>The tools of the conductor\<close>

definition execute_start_build :: "conductor_env \<Rightarrow> conductor \<Rightarrow> json \<times> conductor" where
  "execute_start_build env s =
     (case cd_current s of
        None \<Rightarrow> (JObj [(''error'', JStr (''no plan has been drafted yet '' @ em_dash @ '' draft a plan first''))], s)
      | Some pid \<Rightarrow>
          (JObj [(''started'', JBool True), (''plan_id'', JStr pid),
             (''note'', JStr ''Captain dispatched; build is now running. Progress will stream to the UI.''),
             (''warning'', JStr (''DO NOT call start_build again '' @ em_dash
                @ '' the captain is already running. Your NEXT response must be ONLY plain text confirming ''
                @ ''the build has started. No more tool calls.''))],
           s\<lparr> cd_started := cd_started s @ [(pid, unwrap_or (ne_cwd env) (cd_workspace s))] \<rparr>))"

text \<open>\<open>PathBuf::join\<close>, read as the operating system does: an absolute path replaces the base.\<close>

fun walk :: "hpath \<Rightarrow> string list \<Rightarrow> hpath" where
  "walk base [] = base"
| "walk base (c # cs) =
     (if c = [] \<or> c = ''.'' then walk base cs
      else if c = ''..'' then walk (butlast base) cs
      else walk (base @ [c]) cs)"

definition path_join :: "hpath \<Rightarrow> string \<Rightarrow> hpath" where
  "path_join base d = walk (if prefix ''/'' d then [] else base) (split_char (CHR ''/'') d)"

definition save_target :: "hpath \<Rightarrow> string option \<Rightarrow> hpath" where
  "save_target base dest =
     (case dest of
        Some d \<Rightarrow> if trim d \<noteq> [] then path_join base (trim d) else base
      | None \<Rightarrow> base)"

definition execute_save_to_host ::
  "conductor_env \<Rightarrow> string option \<Rightarrow> conductor \<Rightarrow> json \<times> conductor" where
  "execute_save_to_host env dest_override s =
     (case cd_workspace s of
        None \<Rightarrow> (JObj [(''error'', JStr ''no session sandbox is configured'')], s)
      | Some ws \<Rightarrow>
          (let dest = save_target (cd_save_dest s) dest_override in
           case copy_tree (ne_host env) (ne_entries env ws (cd_tree s)) dest (cd_tree s) of
             (Inl e, tr) \<Rightarrow> (JObj [(''error'', JStr (''save failed: '' @ e))], s\<lparr> cd_tree := tr \<rparr>)
           | (Inr count, tr) \<Rightarrow>
               (JObj [(''saved'', JBool True), (''files'', JInt (int count)),
                  (''destination'', JStr (he_display (ne_host env) dest))],
                s\<lparr> cd_tree := tr, cd_events := cd_events s @ [ConductorReply RkChat
                  (''Saved '' @ show_nat count @ '' files to '' @ he_display (ne_host env) dest)] \<rparr>)))"

definition execute_conductor_tool :: "conductor_env \<Rightarrow> tool_call \<Rightarrow> conductor \<Rightarrow> json \<times> conductor" where
  "execute_conductor_tool env tc s =
     (if tcl_name tc = ''start_build'' then execute_start_build env s
      else if tcl_name tc = ''save_to_host''
      then execute_save_to_host env (jget_str (tcl_args tc) ''destination'') s
      else (JObj [(''error'', JStr (''unknown tool: '' @ tcl_name tc))], s))"

definition conductor_tool_schemas :: "json list" where
  "conductor_tool_schemas =
    [JObj [(''name'', JStr ''start_build''),
       (''description'', JStr (''Dispatch the Captain to actually execute the most recently drafted plan (spawns the crews ''
          @ ''that write the code). Call this when the user approves the plan or tells you to build/start/go ahead ''
          @ em_dash @ '' even if the Critic raised issues, because the user is the final approval gate. You MUST call ''
          @ ''this to begin work; never claim a build has started unless you have called it. Takes no arguments.'')),
       (''parameters'', JObj [(''type'', JStr ''object''), (''properties'', JObj []), (''required'', JArr [])])],
     JObj [(''name'', JStr ''save_to_host''),
       (''description'', JStr (''Save everything built in the session sandbox to the user'' @ [CHR 0x27]
          @ ''s machine. Call this ONLY when the user explicitly asks to save, export, download, or keep the project. ''
          @ ''Do not call it on your own initiative.'')),
       (''parameters'', JObj [(''type'', JStr ''object''),
          (''properties'', JObj [(''destination'', JObj [(''type'', JStr ''string''),
             (''description'', JStr (''Optional subfolder name (under the user'' @ [CHR 0x27]
                @ ''s project directory) to save into. Omit to save directly into the project directory.''))])]),
          (''required'', JArr [])])]]"

section \<open>A turn of the conversation\<close>

definition seed_conversation :: "string list \<Rightarrow> conversation" where
  "seed_conversation conv =
     map (\<lambda>(i, msg). if even i then MUser msg else MAssistantText msg) (List.enumerate 0 conv)"

definition better_text :: "string \<Rightarrow> string option \<Rightarrow> string" where
  "better_text old new = (case new of Some t \<Rightarrow> if t \<noteq> [] then t else old | None \<Rightarrow> old)"

text \<open>A plan in the text is stored before a build is started.\<close>

definition inline_draft :: "conductor_env \<Rightarrow> string \<Rightarrow> tool_call list \<Rightarrow> unit cond" where
  "inline_draft env text calls s =
     (if contains_sub plan_open text \<and> cd_current s = None
         \<and> list_ex (\<lambda>tc. tcl_name tc = ''start_build'') calls
      then case draft_plan_from_response env text
               (if cd_conversation s = [] then [] else last (cd_conversation s)) s of
             (COk pid, s') \<Rightarrow> c_set_current pid s'
           | (CErr e, s') \<Rightarrow> (COk (), s')
           | (CPanic, s') \<Rightarrow> (CPanic, s')
      else (COk (), s))"

text \<open>The results of the calls, and whether one of them has started a build.\<close>

fun run_conductor_tools ::
  "conductor_env \<Rightarrow> tool_call list \<Rightarrow> conductor \<Rightarrow> (tool_call \<times> json) list \<times> bool \<times> conductor" where
  "run_conductor_tools env [] s = ([], False, s)"
| "run_conductor_tools env (tc # tcs) s =
     (case execute_conductor_tool env tc s of
        (r, s1) \<Rightarrow>
          (case run_conductor_tools env tcs s1 of
             (rs, built, s2) \<Rightarrow>
               ((tc, r) # rs,
                tcl_name tc = ''start_build'' \<and> Option.bind (jget r ''started'') jbool = Some True \<or> built, s2)))"

fun turn_rounds ::
  "nat \<Rightarrow> conductor_env \<Rightarrow> llm_config \<Rightarrow> conversation \<Rightarrow> string \<Rightarrow> (string \<times> bool) cond" where
  "turn_rounds 0 env lc convo text = c_return (text, False)"
| "turn_rounds (Suc n) env lc convo text =
     c_bind (ask (\<lambda>k. ne_round env k lc convo conductor_tool_schemas (conductor_prompt env)))
       (\<lambda>(round, tokens).
     c_bind (emit_tokens tokens) (\<lambda>_.
     c_bind (c_emit (tokens_used lc (ar_usage round))) (\<lambda>_.
       let text1 = better_text text (ar_text round); calls = ar_tool_calls round in
       if calls = [] then c_return (text1, False)
       else c_bind (inline_draft env text1 calls) (\<lambda>_ s.
         case run_conductor_tools env calls s of
           (results, built, s1) \<Rightarrow>
             if built then (COk (text1, True), s1)
             else turn_rounds n env lc
               (push_tool_results results (push_assistant_tool_calls calls convo)) text1 s1))))"

definition conversational_turn :: "conductor_env \<Rightarrow> (string \<times> bool) cond" where
  "conversational_turn env =
     c_bind (tier_llm env Conductor) (\<lambda>lc.
     c_bind (\<lambda>s. turn_rounds 5 env lc (seed_conversation (cd_conversation s)) [] s) (\<lambda>(text, built).
     c_bind (c_emit StreamDone) (\<lambda>_.
     c_bind (c_push text) (\<lambda>_. c_return (text, built)))))"

section \<open>Classification\<close>

definition truncate_str :: "string \<Rightarrow> nat \<Rightarrow> string option" where
  "truncate_str s n =
     (if length s \<le> n then Some s
      else if char_boundary s n then Some (take n s @ ''...'') else None)"

text \<open>The derived \<open>Deserialize\<close> of the classifier's answer.\<close>

definition dec_strings :: "json \<Rightarrow> string list option" where
  "dec_strings v = Option.bind (jarr v) (\<lambda>xs.
     if list_all (\<lambda>x. jstr x \<noteq> None) xs then Some (map (\<lambda>x. the (jstr x)) xs) else None)"

definition dec_classifier_task :: "json \<Rightarrow> classifier_task option" where
  "dec_classifier_task v =
     (case (jget_str v ''title'', jget_str v ''description'',
            case jget v ''deps'' of None \<Rightarrow> Some [] | Some d \<Rightarrow> dec_strings d) of
        (Some t, Some d, Some ds) \<Rightarrow> Some \<lparr> ck_title = t, ck_description = d, ck_deps = ds \<rparr>
      | _ \<Rightarrow> None)"

definition dec_decision :: "string \<Rightarrow> classifier_decision option" where
  "dec_decision s =
     (if s = ''informational'' then Some Informational
      else if s = ''hot_patch'' then Some HotPatch
      else if s = ''scope_change'' then Some ScopeChange
      else if s = ''new_plan'' then Some NewPlan else None)"

definition dec_classifier :: "json \<Rightarrow> classifier_output option" where
  "dec_classifier v =
     Option.bind (Option.bind (jget_str v ''decision'') dec_decision) (\<lambda>d.
     Option.bind (jget_str v ''reason'') (\<lambda>r.
       case jget v ''task'' of
         None \<Rightarrow> Some \<lparr> co_decision = d, co_reason = r, co_task = None \<rparr>
       | Some t \<Rightarrow>
           if t = JNull then Some \<lparr> co_decision = d, co_reason = r, co_task = None \<rparr>
           else map_option (\<lambda>task. \<lparr> co_decision = d, co_reason = r, co_task = Some task \<rparr>)
                  (dec_classifier_task t)))"

definition plan_summary :: "conductor_env \<Rightarrow> string cond" where
  "plan_summary env s =
     (case cd_current s of
        None \<Rightarrow> (COk ''No plan running'', s)
      | Some pid \<Rightarrow>
          (case load (ne_codec env) (cd_fs s) (oc_plans_dir (ne_cfg env)) pid of
             Inl e \<Rightarrow> (COk ''No plan loaded'', s)
           | Inr p \<Rightarrow>
               (case truncate_str (pl_overview p) 200 of
                  None \<Rightarrow> (CPanic, s)
                | Some t \<Rightarrow> (COk (''Current plan: '' @ pid @ [newline] @ ''Overview: '' @ t), s))))"

definition classify_message :: "conductor_env \<Rightarrow> string \<Rightarrow> classifier_output cond" where
  "classify_message env msg =
     c_bind (tier_llm env Crew) (\<lambda>lc.
     c_bind (plan_summary env) (\<lambda>summary.
     c_bind (ask (\<lambda>n. ne_text env n lc (ne_classifier_prompt env)
         (''User message: '' @ msg @ [newline, newline] @ summary @ [newline, newline] @ ''Respond with JSON only.'')))
       (\<lambda>response.
     c_return (case Option.bind (ne_parse env response) dec_classifier of
         Some out \<Rightarrow> out
       | None \<Rightarrow> \<lparr> co_decision = Informational, co_reason = ''failed to parse classifier output'', co_task = None \<rparr>))))"

section \<open>User messages\<close>

text \<open>The normal flow, when no plan runs or the classifier has nothing to say.\<close>

definition normal_flow :: "conductor_env \<Rightarrow> string \<Rightarrow> conductor_answer cond" where
  "normal_flow env msg =
     c_bind (conversational_turn env) (\<lambda>(reply, built).
       if built then (\<lambda>s.
         let clean = strip_tool_calls reply in
         (COk (case cd_current s of
                 Some pid \<Rightarrow> AnsBuildDispatched pid (trim (strip_plan_from_reply clean))
               | None \<Rightarrow> AnsChat clean), s))
       else if contains_sub plan_open reply then
         c_bind (draft_plan_from_response env reply msg) (\<lambda>pid.
         c_bind (c_set_current pid) (\<lambda>_. c_return (AnsPlanDrafted pid 1)))
       else c_return (AnsChat (strip_tool_calls reply)))"

definition hot_task :: "conductor_env \<Rightarrow> nat \<Rightarrow> classifier_task \<Rightarrow> task_node" where
  "hot_task env k t = \<lparr> tn_id = CHR ''h'' # show_nat (rand_hex env k), tn_title = ck_title t,
     tn_description = ck_description t, tn_deps = ck_deps t, tn_model_tier = Fast,
     tn_tool_budget = 10, tn_files_hint = [] \<rparr>"

definition act_on :: "conductor_env \<Rightarrow> string \<Rightarrow> plan_id \<Rightarrow> classifier_output \<Rightarrow> conductor_answer cond" where
  "act_on env msg current out =
     (case co_decision out of
        Informational \<Rightarrow>
          c_bind (conversational_turn env) (\<lambda>(reply, built).
            c_return (AnsChat (if built then strip_tool_calls reply else reply)))
      | HotPatch \<Rightarrow>
          (case co_task out of
             None \<Rightarrow> normal_flow env msg
           | Some t \<Rightarrow> (\<lambda>s. (COk (AnsHotPatched (hot_task env (cd_clock s) t) current),
                s\<lparr> cd_clock := Suc (cd_clock s) \<rparr>)))
      | ScopeChange \<Rightarrow>
          c_bind (draft_plan env msg) (\<lambda>pid.
          c_bind (c_emit (PlanSuperseded current pid)) (\<lambda>_.
          c_bind (c_set_current pid) (\<lambda>_. c_return (AnsScopeChanged pid))))
      | NewPlan \<Rightarrow>
          c_bind (draft_plan env msg) (\<lambda>pid.
          c_bind (c_set_current pid) (\<lambda>_. c_return (AnsPlanDrafted pid 1))))"

definition take_digest :: "unit cond" where
  "take_digest s =
     (case drain_markdown (cd_digest s) of
        (md, d) \<Rightarrow>
          (COk (), s\<lparr> cd_digest := d,
             cd_conversation := cd_conversation s @ (if md = [] then [] else [''[System] '' @ md]) \<rparr>))"

definition handle_user_message :: "conductor_env \<Rightarrow> string \<Rightarrow> conductor_answer cond" where
  "handle_user_message env msg =
     c_bind (c_emit (UserMessageReceived msg)) (\<lambda>_.
     c_bind (c_push msg) (\<lambda>_.
     c_bind take_digest (\<lambda>_ s.
       case cd_current s of
         None \<Rightarrow> normal_flow env msg s
       | Some current \<Rightarrow>
           (case classify_message env msg s of
              (COk out, s1) \<Rightarrow> act_on env msg current out s1
            | (CErr e, s1) \<Rightarrow> normal_flow env msg s1
            | (CPanic, s1) \<Rightarrow> (CPanic, s1)))))"

section \<open>The critic's verdict and the end of a build\<close>

definition issue_line :: "issue \<Rightarrow> string" where
  "issue_line i = ''- ['' @ is_severity i @ ''] '' @ is_section i @ '': '' @ is_message i"

definition fix_prompt :: "issue list \<Rightarrow> string" where
  "fix_prompt issues = ''The critic found these issues with the plan:'' @ [newline]
     @ join_str [newline] (map issue_line issues) @ [newline, newline]
     @ ''Please fix these issues and update the plan.''"

definition revise_plan :: "conductor_env \<Rightarrow> plan_id \<Rightarrow> issue list \<Rightarrow> unit cond" where
  "revise_plan env pid issues =
     c_bind (\<lambda>s. c_lift (load (ne_codec env) (cd_fs s) (oc_plans_dir (ne_cfg env)) pid) s) (\<lambda>p.
     c_bind (c_fs env (snapshot_to_history p)) (\<lambda>_.
       let version = pl_current_version p + 1 in
     c_bind (c_push (fix_prompt issues)) (\<lambda>_.
     c_bind (chat_reply env) (\<lambda>response.
     c_bind (c_fs env (save (ne_codec env)
         (p\<lparr> pl_current_version := version, pl_overview := response \<rparr>))) (\<lambda>_.
     c_bind (c_emit (PlanRevised pid version)) (\<lambda>_. c_emit (PlanDrafted pid version)))))))"

definition handle_critic_verdict :: "conductor_env \<Rightarrow> plan_id \<Rightarrow> u32 \<Rightarrow> verdict \<Rightarrow> unit cond" where
  "handle_critic_verdict env pid version v =
     (case v of
        Approve \<Rightarrow> c_emit (ConductorReply RkChat (''Critic approved plan v'' @ show_nat (unat version)))
      | Revise issues \<Rightarrow> revise_plan env pid issues
      | Block reason _ \<Rightarrow> c_emit (ConductorReply RkChat (''Critic blocked the plan: '' @ reason)))"

definition announce_completion :: "conductor_env \<Rightarrow> string \<Rightarrow> string cond" where
  "announce_completion env built_summary =
     c_bind (c_push (''[System] The build finished. The output is staged in the session sandbox and has NOT been ''
        @ ''saved to the user'' @ [CHR 0x27] @ ''s machine yet. What was built:'' @ [newline] @ built_summary
        @ [newline, newline] @ ''Tell the user briefly what you built, then ask whether they want to change or ''
        @ ''add anything, or save it to their project. Do not claim it has been saved.'')) (\<lambda>_.
     c_bind (chat_reply env) (\<lambda>reply. c_return (strip_tool_calls reply)))"

section \<open>Interface: what the bookkeeping leaves alone\<close>

text \<open>
  A view of the state that does not depend on the conversation, the events, the clock, the current plan
  and the stored plans. Everything the conductor does keeps such a view, except what the tools change.
\<close>

definition keeps :: "(conductor \<Rightarrow> 'b) \<Rightarrow> 'a cond \<Rightarrow> bool" where
  "keeps view m \<longleftrightarrow> (\<forall>s. view (snd (m s)) = view s)"

definition no_call :: "conductor_env \<Rightarrow> string \<Rightarrow> bool" where
  "no_call env name \<longleftrightarrow>
     (\<forall>n lc convo tools prompt round ts. ne_round env n lc convo tools prompt = Inr (round, ts)
        \<longrightarrow> (\<forall>tc\<in>set (ar_tool_calls round). tcl_name tc \<noteq> name))"

lemma keepsI: "(\<And>s. view (snd (m s)) = view s) \<Longrightarrow> keeps view m"
  by (simp add: keeps_def)

lemma keeps_bind: "keeps view m \<Longrightarrow> (\<And>x. keeps view (k x)) \<Longrightarrow> keeps view (c_bind m k)"
  unfolding keeps_def c_bind_def
  by (auto split: prod.split cond_result.split) (metis snd_conv)+

lemma keeps_return: "keeps view (c_return x)"
  by (simp add: keeps_def c_return_def)

lemma keeps_lift: "keeps view (c_lift r)"
  by (simp add: keeps_def c_lift_def split: sum.split)

lemma keeps_state: "(\<And>s. keeps view (m s)) \<Longrightarrow> keeps view (\<lambda>s. m s s)"
  by (simp add: keeps_def)

lemma keeps_bind2:
  "keeps view m \<Longrightarrow> (\<And>x y. keeps view (k x y)) \<Longrightarrow> keeps view (c_bind m (\<lambda>(x, y). k x y))"
  by (rule keeps_bind) auto

lemma keeps_bind3:
  "keeps view m \<Longrightarrow> (\<And>x y z. keeps view (k x y z)) \<Longrightarrow> keeps view (c_bind m (\<lambda>(x, y, z). k x y z))"
  by (rule keeps_bind) auto

lemma keeps_if: "keeps view m \<Longrightarrow> keeps view m' \<Longrightarrow> keeps view (if b then m else m')"
  by simp

lemma keepsD: "keeps view m \<Longrightarrow> view (snd (m s)) = view s"
  by (simp add: keeps_def)

lemma keeps_pure: "keeps view (\<lambda>s. (f s, s))"
  by (simp add: keeps_def)

lemmas keeps_binds = keeps_bind2 keeps_bind3 keeps_bind

locale bookkeeping =
  fixes view :: "conductor \<Rightarrow> 'b" and tool :: string
  assumes view_fs: "view (s\<lparr> cd_ops := n, cd_fs := fs \<rparr>) = view s"
    and view_events: "view (s\<lparr> cd_events := es \<rparr>) = view s"
    and view_conversation: "view (s\<lparr> cd_conversation := ms \<rparr>) = view s"
    and view_digest: "view (s\<lparr> cd_digest := d, cd_conversation := ms \<rparr>) = view s"
    and view_asked: "view (s\<lparr> cd_asked := n \<rparr>) = view s"
    and view_clock: "view (s\<lparr> cd_clock := n \<rparr>) = view s"
    and view_current: "view (s\<lparr> cd_current := c \<rparr>) = view s"
    and view_tools: "tcl_name tc \<noteq> tool \<Longrightarrow> view (snd (execute_conductor_tool env tc s)) = view s"
begin

lemma keeps_fs: "keeps view (c_fs env act)"
  by (simp add: keeps_def c_fs_def c_lift_def view_fs split: prod.split sum.split)

lemma keeps_emit: "keeps view (c_emit e)" "keeps view (emit_tokens ts)"
  by (simp_all add: keeps_def c_emit_def emit_tokens_def c_modify_def view_events)

lemma keeps_push: "keeps view (c_push m)"
  by (simp add: keeps_def c_push_def c_modify_def view_conversation)

lemma keeps_set: "keeps view (c_set_current pid)"
  by (simp add: keeps_def c_set_current_def c_modify_def view_current)

lemma keeps_ask: "keeps view (ask f)"
  by (simp add: keeps_def ask_def Let_def view_asked split: sum.split)

lemma keeps_fresh: "keeps view (fresh_plan env goal)"
  by (simp add: keeps_def fresh_plan_def Let_def view_clock)

lemma keeps_digest: "keeps view take_digest"
  by (simp add: keeps_def take_digest_def view_digest split: prod.split)

lemma keeps_llm: "keeps view (tier_llm env t)"
  unfolding tier_llm_def by (rule keeps_fs)

lemmas keeps_basic = keeps_return keeps_lift keeps_fs keeps_emit keeps_push keeps_set keeps_ask
  keeps_fresh keeps_digest keeps_llm

lemma keeps_store: "keeps view (store_draft env b r p)"
  unfolding store_draft_def Let_def by (intro keeps_bind keeps_basic)

lemma keeps_asking: "keeps view (\<lambda>s. ask (f s) s)"
  by (rule keeps_state) (rule keeps_ask)

lemma keeps_draft: "keeps view (draft_plan env m)" "keeps view (draft_plan_from_response env r m)"
  unfolding draft_plan_def draft_plan_from_response_def
  by (intro keeps_binds keeps_basic keeps_store keeps_asking)+

lemma keeps_summary: "keeps view (plan_summary env)"
  by (simp add: keeps_def plan_summary_def split: option.split sum.split)

lemma keeps_classify: "keeps view (classify_message env m)"
  unfolding classify_message_def by (intro keeps_bind keeps_basic keeps_summary)

lemma keeps_inline: "keeps view (inline_draft env text calls)"
proof (rule keepsI)
  fix s :: conductor
  let ?d = "draft_plan_from_response env text (if cd_conversation s = [] then [] else last (cd_conversation s))"
  have "view (snd (?d s)) = view s" using keeps_draft(2) by (simp add: keeps_def)
  moreover have "view (snd (c_set_current pid s')) = view s'" for pid s'
    using keeps_set by (simp add: keeps_def)
  ultimately show "view (snd (inline_draft env text calls s)) = view s"
    by (cases "?d s"; cases "fst (?d s)") (auto simp: inline_draft_def)
qed

lemma tools_view:
  "\<forall>tc\<in>set calls. tcl_name tc \<noteq> tool \<Longrightarrow> view (snd (snd (run_conductor_tools env calls s))) = view s"
proof (induction calls arbitrary: s)
  case (Cons tc calls)
  obtain r s1 where 1: "execute_conductor_tool env tc s = (r, s1)" by fastforce
  obtain rs built s2 where 2: "run_conductor_tools env calls s1 = (rs, built, s2)" by (metis prod.exhaust)
  have "view s1 = view s" using view_tools [of tc env s] Cons.prems 1 by simp
  moreover have "view s2 = view s1" using Cons.IH [of s1] Cons.prems 2 by simp
  ultimately show ?case using 1 2 by simp
qed simp

lemma keeps_tools:
  assumes "\<forall>tc\<in>set calls. tcl_name tc \<noteq> tool" and "\<And>rs. keeps view (k rs)"
  shows "keeps view (\<lambda>s. case run_conductor_tools env calls s of
    (results, built, s1) \<Rightarrow> if built then (COk x, s1) else k results s1)"
proof (rule keepsI)
  fix s :: conductor
  obtain rs built s1 where r: "run_conductor_tools env calls s = (rs, built, s1)" by (metis prod.exhaust)
  have "view s1 = view s" using tools_view [OF assms(1), of env s] r by simp
  then show "view (snd (case run_conductor_tools env calls s of
    (results, built, s1) \<Rightarrow> if built then (COk x, s1) else k results s1)) = view s"
    using r keepsD [OF assms(2)] by simp
qed

lemma keeps_round:
  assumes "no_call env tool"
    and "\<And>round ts. \<forall>tc\<in>set (ar_tool_calls round). tcl_name tc \<noteq> tool \<Longrightarrow> keeps view (k round ts)"
  shows "keeps view (c_bind (ask (\<lambda>n. ne_round env n lc convo tools prompt)) (\<lambda>(round, ts). k round ts))"
proof (rule keepsI)
  fix s :: conductor
  show "view (snd (c_bind (ask (\<lambda>n. ne_round env n lc convo tools prompt)) (\<lambda>(round, ts). k round ts) s)) = view s"
  proof (cases "ne_round env (cd_asked s) lc convo tools prompt")
    case (Inl e)
    then show ?thesis by (simp add: c_bind_def ask_def Let_def view_asked)
  next
    case (Inr rt)
    then obtain round ts where "ne_round env (cd_asked s) lc convo tools prompt = Inr (round, ts)"
      by (cases rt) auto
    moreover from this have "keeps view (k round ts)"
      using assms unfolding no_call_def by blast
    ultimately show ?thesis by (simp add: c_bind_def ask_def Let_def keepsD view_asked)
  qed
qed

lemma keeps_turn:
  assumes "no_call env tool"
  shows "keeps view (turn_rounds n env lc convo acc)"
proof (induction n arbitrary: convo acc)
  case (Suc n)
  show ?case
    unfolding turn_rounds.simps Let_def
    by (intro keeps_round [OF assms] keeps_binds keeps_basic keeps_if keeps_inline keeps_tools Suc.IH)
qed (simp add: keeps_return)

lemma keeps_conversation:
  assumes "no_call env tool"
  shows "keeps view (conversational_turn env)"
proof -
  have "keeps view (\<lambda>s. turn_rounds 5 env lc (seed_conversation (cd_conversation s)) [] s)" for lc
    by (rule keeps_state) (rule keeps_turn [OF assms])
  then show ?thesis
    unfolding conversational_turn_def by (intro keeps_binds keeps_basic)
qed

lemma keeps_normal:
  assumes "no_call env tool"
  shows "keeps view (normal_flow env m)"
  unfolding normal_flow_def
proof (rule keeps_bind2 [OF keeps_conversation [OF assms]], rule keeps_if)
  fix reply built
  show "keeps view (\<lambda>s. let clean = strip_tool_calls reply in
         (COk (case cd_current s of
                 Some pid \<Rightarrow> AnsBuildDispatched pid (trim (strip_plan_from_reply clean))
               | None \<Rightarrow> AnsChat clean), s))"
    by (simp add: keeps_def Let_def)
  show "keeps view (if contains_sub plan_open reply then
         c_bind (draft_plan_from_response env reply m) (\<lambda>pid.
         c_bind (c_set_current pid) (\<lambda>_. c_return (AnsPlanDrafted pid 1)))
       else c_return (AnsChat (strip_tool_calls reply)))"
    by (intro keeps_if keeps_bind keeps_draft keeps_set keeps_return)
qed

lemma keeps_act:
  assumes "no_call env tool"
  shows "keeps view (act_on env m pid out)"
proof (cases "co_decision out")
  case HotPatch
  show ?thesis
  proof (cases "co_task out")
    case None
    then show ?thesis using HotPatch keeps_normal [OF assms] by (simp add: act_on_def)
  next
    case (Some t)
    then show ?thesis using HotPatch by (simp add: act_on_def keeps_def view_clock)
  qed
next
  case Informational
  then show ?thesis
    by (simp add: act_on_def) (intro keeps_binds keeps_basic keeps_conversation [OF assms])
next
  case ScopeChange
  then show ?thesis
    by (simp add: act_on_def) (intro keeps_binds keeps_basic keeps_draft)
next
  case NewPlan
  then show ?thesis
    by (simp add: act_on_def) (intro keeps_binds keeps_basic keeps_draft)
qed

lemma keeps_message:
  assumes "no_call env tool"
  shows "keeps view (handle_user_message env m)"
proof -
  have "keeps view (\<lambda>s. case cd_current s of
         None \<Rightarrow> normal_flow env m s
       | Some current \<Rightarrow>
           (case classify_message env m s of
              (COk out, s1) \<Rightarrow> act_on env m current out s1
            | (CErr e, s1) \<Rightarrow> normal_flow env m s1
            | (CPanic, s1) \<Rightarrow> (CPanic, s1)))"
  proof (rule keepsI)
    fix s :: conductor
    have "view (snd (classify_message env m s)) = view s"
      using keeps_classify by (simp add: keeps_def)
    moreover have "view (snd (normal_flow env m s')) = view s'" for s'
      using keeps_normal [OF assms] by (simp add: keeps_def)
    moreover have "view (snd (act_on env m pid out s')) = view s'" for pid out s'
      using keeps_act [OF assms] by (simp add: keeps_def)
    ultimately show "view (snd (case cd_current s of
         None \<Rightarrow> normal_flow env m s
       | Some current \<Rightarrow>
           (case classify_message env m s of
              (COk out, s1) \<Rightarrow> act_on env m current out s1
            | (CErr e, s1) \<Rightarrow> normal_flow env m s1
            | (CPanic, s1) \<Rightarrow> (CPanic, s1)))) = view s"
      by (cases "classify_message env m s"; cases "fst (classify_message env m s)")
         (auto split: option.split)
  qed
  then show ?thesis
    unfolding handle_user_message_def by (intro keeps_bind keeps_basic)
qed

end

interpretation host_tree: bookkeeping cd_tree "''save_to_host''"
  by unfold_locales
     (auto simp: execute_conductor_tool_def execute_start_build_def split: option.split)

interpretation started_builds: bookkeeping "\<lambda>s. (cd_started s, cd_workspace s)" "''start_build''"
  by unfold_locales
     (auto simp: execute_conductor_tool_def execute_save_to_host_def Let_def
        split: option.split sum.split prod.split)


section \<open>Which builds a message starts\<close>

definition turn_post ::
  "conductor_env \<Rightarrow> conductor \<Rightarrow> (string \<times> bool) cond_result \<Rightarrow> conductor \<Rightarrow> bool" where
  "turn_post env s r s' \<longleftrightarrow>
     cd_workspace s' = cd_workspace s \<and>
     ((\<exists>t. r = COk (t, True)) \<longrightarrow> (\<exists>pid k. cd_current s' = Some pid \<and> cd_started s' = cd_started s
            @ replicate (Suc k) (pid, unwrap_or (ne_cwd env) (cd_workspace s)))) \<and>
     ((\<nexists>t. r = COk (t, True)) \<longrightarrow> cd_started s' = cd_started s)"

definition turn_starts :: "conductor_env \<Rightarrow> (string \<times> bool) cond \<Rightarrow> bool" where
  "turn_starts env m \<longleftrightarrow> (\<forall>s. turn_post env s (fst (m s)) (snd (m s)))"

abbreviation keeps_starts :: "'a cond \<Rightarrow> bool" where
  "keeps_starts \<equiv> keeps (\<lambda>s. (cd_started s, cd_workspace s))"

lemma turn_post_from:
  assumes "turn_post env s r s'" and "cd_started s = cd_started s0" "cd_workspace s = cd_workspace s0"
  shows "turn_post env s0 r s'"
  using assms by (simp add: turn_post_def)

lemma turn_post_fail: "turn_post env s (CErr e) s' \<Longrightarrow> turn_post env s (CErr e') s'"
    "keeps_starts m \<Longrightarrow> m s = (CErr e, s') \<Longrightarrow> turn_post env s (CErr e') s'"
    "keeps_starts m \<Longrightarrow> m s = (CPanic, s') \<Longrightarrow> turn_post env s CPanic s'"
  by (auto simp: turn_post_def keeps_def dest: spec [of _ s])

lemma turn_starts_bind:
  assumes "keeps_starts m" and "\<And>x. turn_starts env (k x)"
  shows "turn_starts env (c_bind m k)"
  unfolding turn_starts_def
proof
  fix s :: conductor
  obtain r s' where m: "m s = (r, s')" by fastforce
  have v: "cd_started s' = cd_started s" "cd_workspace s' = cd_workspace s"
    using keepsD [OF assms(1), of s] m by simp_all
  show "turn_post env s (fst (c_bind m k s)) (snd (c_bind m k s))"
  proof (cases r)
    case (COk x)
    have "turn_post env s' (fst (k x s')) (snd (k x s'))"
      using assms(2) [of x] by (simp add: turn_starts_def)
    from turn_post_from [OF this v] COk m show ?thesis by (simp add: c_bind_def)
  qed (use m assms(1) in \<open>auto simp: c_bind_def intro: turn_post_fail\<close>)
qed

lemma turn_starts_bind2:
  "keeps_starts m \<Longrightarrow> (\<And>x y. turn_starts env (k x y)) \<Longrightarrow> turn_starts env (c_bind m (\<lambda>(x, y). k x y))"
  by (rule turn_starts_bind) auto

lemma turn_starts_if: "turn_starts env m \<Longrightarrow> turn_starts env m' \<Longrightarrow> turn_starts env (if b then m else m')"
  by simp

lemma turn_starts_return: "turn_starts env (c_return (t, False))"
  by (simp add: turn_starts_def turn_post_def c_return_def)

lemma tools_start:
  "case run_conductor_tools env calls s of (rs, built, s') \<Rightarrow>
     cd_workspace s' = cd_workspace s \<and> cd_current s' = cd_current s \<and>
     (if built
      then (\<exists>pid k. cd_current s = Some pid \<and> cd_started s' = cd_started s
            @ replicate (Suc k) (pid, unwrap_or (ne_cwd env) (cd_workspace s)))
      else cd_started s' = cd_started s)"
proof (induction calls arbitrary: s)
  case (Cons tc calls)
  obtain r s1 where 1: "execute_conductor_tool env tc s = (r, s1)" by fastforce
  obtain rs built s2 where 2: "run_conductor_tools env calls s1 = (rs, built, s2)" by (metis prod.exhaust)
  show ?case
  proof (cases "tcl_name tc = ''start_build'' \<and> cd_current s \<noteq> None")
    case True
    then obtain pid where pid: "cd_current s = Some pid" by auto
    with True 1 have s1: "s1 = s\<lparr> cd_started := cd_started s @ [(pid, unwrap_or (ne_cwd env) (cd_workspace s))] \<rparr>"
        and r: "Option.bind (jget r ''started'') jbool = Some True"
      by (auto simp: execute_conductor_tool_def execute_start_build_def)
    let ?w = "unwrap_or (ne_cwd env) (cd_workspace s)"
    have ih: "cd_workspace s2 = cd_workspace s" "cd_current s2 = Some pid"
        "if built then \<exists>k. cd_started s2 = cd_started s1 @ replicate (Suc k) (pid, ?w)
         else cd_started s2 = cd_started s1"
      using Cons.IH [of s1] 2 s1 pid by (auto simp del: replicate.simps)
    have "\<exists>k. cd_started s2 = cd_started s1 @ replicate k (pid, ?w)"
      using ih(3) by (cases built) (auto simp del: replicate.simps intro: exI [of _ 0])
    then have "\<exists>k. cd_started s2 = cd_started s @ replicate (Suc k) (pid, ?w)"
      by (auto simp: s1)
    then show ?thesis using ih(1,2) 1 2 pid r True by (simp del: replicate.simps)
  next
    case False
    have "Option.bind (jget r ''started'') jbool = None \<or> tcl_name tc \<noteq> ''start_build''"
      and s1: "cd_started s1 = cd_started s" "cd_workspace s1 = cd_workspace s" "cd_current s1 = cd_current s"
      using False 1
      by (auto simp: execute_conductor_tool_def execute_start_build_def execute_save_to_host_def Let_def
          split: if_splits option.splits sum.splits prod.splits)
    then show ?thesis using Cons.IH [of s1] 1 2 by (auto split: if_splits)
  qed
qed simp

lemma keeps_starts_rules:
  "keeps_starts (ask f)" "keeps_starts (emit_tokens ts)" "keeps_starts (c_emit e)"
  "keeps_starts (inline_draft env acc calls)" "keeps_starts (draft_plan env m)"
  "keeps_starts (draft_plan_from_response env r m)" "keeps_starts (c_set_current pid)"
  "keeps_starts (classify_message env m)" "keeps_starts (c_push m)" "keeps_starts take_digest"
  "keeps_starts (tier_llm env t)"
  by (rule started_builds.keeps_ask started_builds.keeps_emit started_builds.keeps_inline
      started_builds.keeps_draft started_builds.keeps_set started_builds.keeps_classify
      started_builds.keeps_push started_builds.keeps_digest started_builds.keeps_llm)+

lemma turn_starts_tools:
  assumes "\<And>rs. turn_starts env (k rs)"
  shows "turn_starts env (\<lambda>s :: conductor. case run_conductor_tools env calls s of
    (results, built, s1) \<Rightarrow> if built then (COk (t, True), s1) else k results s1)"
  unfolding turn_starts_def
proof
  fix s :: conductor
  obtain rs built s1 where r: "run_conductor_tools env calls s = (rs, built, s1)" by (metis prod.exhaust)
  have k: "turn_post env s1 (fst (k rs s1)) (snd (k rs s1))"
    using assms [of rs] by (simp add: turn_starts_def)
  have t: "cd_workspace s1 = cd_workspace s" "cd_current s1 = cd_current s"
      "if built then (\<exists>pid k. cd_current s = Some pid \<and> cd_started s1 = cd_started s
            @ replicate (Suc k) (pid, unwrap_or (ne_cwd env) (cd_workspace s)))
       else cd_started s1 = cd_started s"
    using tools_start [where env = env and calls = calls and s = s] r
    by (cases built; simp del: replicate.simps)+
  show "turn_post env s (fst (case run_conductor_tools env calls s of
       (results, built, s1) \<Rightarrow> if built then (COk (t, True), s1) else k results s1))
     (snd (case run_conductor_tools env calls s of
       (results, built, s1) \<Rightarrow> if built then (COk (t, True), s1) else k results s1))"
  proof (cases built)
    case True
    with t r show ?thesis by (simp add: turn_post_def)
  next
    case False
    with t r k show ?thesis by (simp add: turn_post_def)
  qed
qed

lemma turn_starts_rounds: "turn_starts env (turn_rounds n env lc convo acc)"
proof (induction n arbitrary: convo acc)
  case (Suc n)
  show ?case
    unfolding turn_rounds.simps Let_def
    by (intro turn_starts_bind2 turn_starts_bind turn_starts_if turn_starts_return
        keeps_starts_rules turn_starts_tools Suc.IH)
qed (simp add: turn_starts_return)

lemma turn_starts_end:
  assumes "turn_starts env m"
  shows "turn_starts env (c_bind m
     (\<lambda>(t, built). c_bind (c_emit StreamDone) (\<lambda>_. c_bind (c_push t) (\<lambda>_. c_return (t, built)))))"
  unfolding turn_starts_def
proof
  fix s :: conductor
  let ?m = "c_bind m (\<lambda>(t, built). c_bind (c_emit StreamDone) (\<lambda>_. c_bind (c_push t) (\<lambda>_. c_return (t, built))))"
  obtain r s' where m: "m s = (r, s')" by fastforce
  with assms have p: "turn_post env s r s'" by (auto simp: turn_starts_def dest: spec [of _ s])
  show "turn_post env s (fst (?m s)) (snd (?m s))"
  proof (cases r)
    case (COk tb)
    obtain t b where "tb = (t, b)" by fastforce
    moreover from this COk p have "turn_post env s (COk (t, b)) (s'\<lparr> cd_events := es, cd_conversation := c \<rparr>)" for es c
      by (simp add: turn_post_def del: replicate.simps)
    ultimately show ?thesis using m COk
      by (simp add: c_bind_def c_emit_def c_push_def c_modify_def c_return_def)
  qed (use p m in \<open>simp_all add: c_bind_def turn_post_def\<close>)
qed

lemma turn_starts_turn: "turn_starts env (conversational_turn env)"
proof -
  have "turn_starts env (\<lambda>s. turn_rounds 5 env lc (seed_conversation (cd_conversation s)) [] s)" for lc
    using turn_starts_rounds by (simp add: turn_starts_def)
  then show ?thesis
    unfolding conversational_turn_def
    by (intro turn_starts_bind [OF keeps_starts_rules(11)] turn_starts_end)
qed

lemma turn_result:
  assumes "conversational_turn env s = (r, s')"
  shows "turn_post env s r s'"
  using turn_starts_turn [of env] assms unfolding turn_starts_def by (metis fst_conv snd_conv)

text \<open>What a message may do to the started builds: nothing, or some captains for the current plan.\<close>

definition message_post ::
  "conductor_env \<Rightarrow> conductor \<Rightarrow> conductor_answer cond_result \<Rightarrow> conductor \<Rightarrow> bool" where
  "message_post env s r s' \<longleftrightarrow>
     cd_started s' = cd_started s \<and> (\<nexists>pid t. r = COk (AnsBuildDispatched pid t))
     \<or> (\<exists>pid k t. cd_current s' = Some pid
         \<and> cd_started s' = cd_started s @ replicate (Suc k) (pid, unwrap_or (ne_cwd env) (cd_workspace s))
         \<and> (r = COk (AnsBuildDispatched pid t) \<or> r = COk (AnsChat t)))"

lemma message_postI:
  assumes "keeps_starts m" and "\<And>pid t. fst (m s) \<noteq> COk (AnsBuildDispatched pid t)"
  shows "message_post env s (fst (m s)) (snd (m s))"
  using keepsD [OF assms(1), of s] assms(2) by (simp add: message_post_def)

lemma message_post_from:
  assumes "message_post env s r s'" and "cd_started s = cd_started s0" "cd_workspace s = cd_workspace s0"
  shows "message_post env s0 r s'"
  using assms by (simp add: message_post_def)

lemma normal_post: "message_post env s (fst (normal_flow env msg s)) (snd (normal_flow env msg s))"
proof -
  obtain r s' where t: "conversational_turn env s = (r, s')" by fastforce
  note p = turn_result [OF t]
  show ?thesis
  proof (cases r)
    case (COk tb)
    obtain reply built where tb: "tb = (reply, built)" by fastforce
    show ?thesis
    proof (cases built)
      case True
      with p COk tb t show ?thesis
        by (auto simp: turn_post_def message_post_def normal_flow_def c_bind_def Let_def)
    next
      case False
      let ?m = "if contains_sub plan_open reply then
         c_bind (draft_plan_from_response env reply msg) (\<lambda>pid.
         c_bind (c_set_current pid) (\<lambda>_. c_return (AnsPlanDrafted pid 1)))
       else c_return (AnsChat (strip_tool_calls reply))"
      have "message_post env s' (fst (?m s')) (snd (?m s'))"
        by (rule message_postI)
          (intro keeps_if keeps_bind keeps_starts_rules keeps_return,
           auto simp: c_bind_def c_return_def c_set_current_def c_modify_def split: prod.split cond_result.split)
      then show ?thesis
        using False p COk tb t by (simp add: turn_post_def normal_flow_def c_bind_def [of "conversational_turn env"] message_post_from)
    qed
  qed (use p t in \<open>simp_all add: normal_flow_def c_bind_def turn_post_def message_post_def\<close>)
qed

lemma act_post: "message_post env s (fst (act_on env msg pid out s)) (snd (act_on env msg pid out s))"
proof (cases "co_decision out")
  case Informational
  obtain r s' where t: "conversational_turn env s = (r, s')" by fastforce
  show ?thesis
    using turn_result [OF t] t Informational
    by (cases r) (auto simp: act_on_def c_bind_def c_return_def turn_post_def message_post_def split: if_splits)
next
  case HotPatch
  show ?thesis
    by (cases "co_task out") (simp add: act_on_def HotPatch normal_post, simp add: act_on_def HotPatch message_post_def)
next
  case ScopeChange
  show ?thesis
    by (rule message_postI)
      (auto simp: act_on_def ScopeChange intro!: keeps_bind keeps_starts_rules keeps_return,
       auto simp: c_bind_def c_return_def c_set_current_def c_emit_def c_modify_def split: prod.splits cond_result.splits)
next
  case NewPlan
  show ?thesis
    by (rule message_postI)
      (auto simp: act_on_def NewPlan intro!: keeps_bind keeps_starts_rules keeps_return,
       auto simp: c_bind_def c_return_def c_set_current_def c_modify_def split: prod.splits cond_result.splits)
qed

lemma noted:
  "c_bind (c_emit e) (\<lambda>_. c_bind (c_push msg) (\<lambda>_. c_bind take_digest (\<lambda>_. k))) s
     = k (snd (c_bind (c_emit e) (\<lambda>_. c_bind (c_push msg) (\<lambda>_. take_digest)) s))"
  unfolding c_bind_def c_emit_def c_push_def c_modify_def take_digest_def
  by (simp split: prod.split)

text \<open>
  C18. Whatever a message leads to, either no captain is started and the answer is not a dispatched
  build, or captains are started for the plan that is current afterwards, on the session's workspace
  (the working directory without one), and the answer is that dispatched build or plain text. A turn
  that fails has started nothing.
\<close>

theorem builds_of_a_message:
  assumes "handle_user_message env msg s = (r, s')"
  shows "cd_started s' = cd_started s \<and> (\<nexists>pid t. r = COk (AnsBuildDispatched pid t))
     \<or> (\<exists>pid k t. cd_current s' = Some pid
         \<and> cd_started s' = cd_started s @ replicate (Suc k) (pid, unwrap_or (ne_cwd env) (cd_workspace s))
         \<and> (r = COk (AnsBuildDispatched pid t) \<or> r = COk (AnsChat t)))"
proof -
  define s0 where "s0 = snd (c_bind (c_emit (UserMessageReceived msg)) (\<lambda>_. c_bind (c_push msg) (\<lambda>_. take_digest)) s)"
  have "keeps_starts (c_bind (c_emit (UserMessageReceived msg)) (\<lambda>_. c_bind (c_push msg) (\<lambda>_. take_digest)))"
    by (intro keeps_bind keeps_starts_rules)
  then have s0: "cd_started s0 = cd_started s" "cd_workspace s0 = cd_workspace s"
    using keepsD [of _ _ s] unfolding s0_def by fastforce+
  have m: "handle_user_message env msg s = (case cd_current s0 of
         None \<Rightarrow> normal_flow env msg s0
       | Some current \<Rightarrow>
           (case classify_message env msg s0 of
              (COk out, s1) \<Rightarrow> act_on env msg current out s1
            | (CErr e, s1) \<Rightarrow> normal_flow env msg s1
            | (CPanic, s1) \<Rightarrow> (CPanic, s1)))"
    unfolding handle_user_message_def s0_def by (rule noted)
  obtain out s1 where c: "classify_message env msg s0 = (out, s1)" by fastforce
  have s1: "cd_started s1 = cd_started s" "cd_workspace s1 = cd_workspace s"
    using keepsD [OF keeps_starts_rules(8), of env msg s0] c s0 by simp_all
  have n0: "message_post env s (fst (normal_flow env msg s0)) (snd (normal_flow env msg s0))"
    and n1: "message_post env s (fst (normal_flow env msg s1)) (snd (normal_flow env msg s1))"
    and a1: "message_post env s (fst (act_on env msg pid ans s1)) (snd (act_on env msg pid ans s1))" for pid ans
    using message_post_from [OF normal_post s0] message_post_from [OF normal_post s1]
      message_post_from [OF act_post s1] by blast+
  have "message_post env s (fst (handle_user_message env msg s)) (snd (handle_user_message env msg s))"
  proof (cases "cd_current s0")
    case None
    with m n0 show ?thesis by simp
  next
    case (Some pid)
    show ?thesis
    proof (cases out)
      case (COk ans)
      with m c Some a1 [of pid ans] show ?thesis by simp
    next
      case (CErr e)
      with m c Some n1 show ?thesis by simp
    next
      case CPanic
      with m c Some s1 show ?thesis by (auto simp: message_post_def)
    qed
  qed
  with assms show ?thesis by (simp add: message_post_def)
qed

section \<open>Revisions\<close>

lemma c_bind_ok:
  "c_bind m k s = (COk y, s') \<longleftrightarrow> (\<exists>x s1. m s = (COk x, s1) \<and> k x s1 = (COk y, s'))"
  by (auto simp: c_bind_def split: prod.split cond_result.split)

lemma c_fs_ok:
  "c_fs env act s = (COk x, s') \<longleftrightarrow> (\<exists>n fs. act (ne_io env) (cd_ops s) (cd_fs s) = (Inr x, n, fs)
     \<and> s' = s\<lparr> cd_ops := n, cd_fs := fs \<rparr>)"
  by (auto simp: c_fs_def c_lift_def split: prod.split sum.split)

lemma load_dir: "load c fs d pid = Inr p \<Longrightarrow> pl_plans_dir p = d"
  by (auto simp: load_def Let_def and_then_def split: option.splits sum.splits)

text \<open>
  A revision for the critic changes the version and the overview of the plan and nothing else: the
  stored task graph is the one the critic objected to, whatever the model answered.
\<close>

theorem revision_keeps_tasks:
  assumes "handle_critic_verdict env pid v (Revise issues) s = (COk (), s')"
    and "load (ne_codec env) (cd_fs s) (oc_plans_dir (ne_cfg env)) pid = Inr p"
    and "\<And>response. codec_inverts (ne_codec env)
           (p\<lparr> pl_current_version := pl_current_version p + 1, pl_overview := response \<rparr>)"
  shows "\<exists>response. load (ne_codec env) (cd_fs s') (oc_plans_dir (ne_cfg env)) (pl_plan_id p)
       = Inr (p\<lparr> pl_current_version := pl_current_version p + 1, pl_overview := response \<rparr>)"
proof -
  from assms(1,2) obtain response n fs' m fs where
    "save (ne_codec env) (p\<lparr> pl_current_version := pl_current_version p + 1, pl_overview := response \<rparr>)
       (ne_io env) n fs = (Inr (), m, fs')" and "cd_fs s' = fs'"
    by (auto simp: handle_critic_verdict_def revise_plan_def c_bind_ok c_fs_ok c_lift_def Let_def
        c_emit_def c_modify_def)
  with saved_plan_loads [OF assms(3)] load_dir [OF assms(2)] show ?thesis by fastforce
qed

section \<open>Instances\<close>

text \<open>A model that answers every round with the same calls, and every chat with a fixed text.\<close>

definition demo_conductor_env :: "tool_call list \<Rightarrow> conductor_env" where
  "demo_conductor_env calls = \<lparr> ne_io = \<lambda>_. IoOk,
     ne_crypto = \<lparr> ce_home = None, ce_sha256 = id, ce_b64_enc = id, ce_b64_dec = Some,
       ce_seal = \<lambda>_ _. Some, ce_open = \<lambda>_ _. Some, ce_utf8 = \<lambda>_. True \<rparr>,
     ne_random = [], ne_cfg = default_config,
     ne_codec = demo_codec\<lparr> enc_head := \<lambda>_. Some ''h2'',
       dec_plan := \<lambda>t. Some (plan_of_head ((head_of demo_plan)\<lparr> ph_current_version := if t = ''h2'' then 2 else 1 \<rparr>)) \<rparr>,
     ne_parse = \<lambda>_. None,
     ne_host = \<lparr> he_refuses = \<lambda>_. False, he_os_error = \<lambda>_. [], he_readonly = \<lambda>_. False,
       he_dir_size = \<lambda>_. 0, he_display = \<lambda>_. [], he_proc = \<lambda>_ tr. (None, tr), he_http = \<lambda>_ _ _. None \<rparr>,
     ne_cwd = [''w''], ne_entries = \<lambda>_ _. None, ne_prompt = [], ne_classifier_prompt = [],
     ne_stamp = \<lambda>_. [], ne_now = \<lambda>_. [], ne_nanos = id, ne_show = \<lambda>_. [],
     ne_text = \<lambda>_ _ _ _. Inr [], ne_chat = \<lambda>_ _ _ _. Inr (''fixed'', \<lparr> tu_input = 1, tu_output = 1 \<rparr>, []),
     ne_round = \<lambda>_ _ _ _ _. Inr (\<lparr> ar_text = Some ''ok'', ar_tool_calls = calls,
       ar_usage = \<lparr> tu_input = 1, tu_output = 1 \<rparr> \<rparr>, []) \<rparr>"

definition start_call :: tool_call where
  "start_call = \<lparr> tcl_id = ''1'', tcl_name = ''start_build'', tcl_args = JObj [] \<rparr>"

definition demo_conductor :: conductor where
  "demo_conductor = (new_conductor [''w''] [[''.mowis'', ''plans'', ''p1'', ''plan.toml''] \<mapsto> ''h''] [])
     \<lparr> cd_current := Some ''p1'' \<rparr>"


lemma builds_of_a_message_witness:
  "case handle_user_message (demo_conductor_env [start_call]) ''go'' demo_conductor of (r, s') \<Rightarrow>
     cd_started s' = [] \<and> (\<nexists>pid t. r = COk (AnsBuildDispatched pid t))
     \<or> (\<exists>pid k t. cd_current s' = Some pid \<and> cd_started s' = replicate (Suc k) (pid, [''w''])
         \<and> (r = COk (AnsBuildDispatched pid t) \<or> r = COk (AnsChat t)))"
proof (cases "handle_user_message (demo_conductor_env [start_call]) ''go'' demo_conductor")
  case (Pair r s')
  have "cd_started demo_conductor = []" "cd_workspace demo_conductor = None"
    "ne_cwd (demo_conductor_env [start_call]) = [''w'']"
    by (simp_all add: demo_conductor_def new_conductor_def demo_conductor_env_def)
  then show ?thesis
    using builds_of_a_message [OF Pair] Pair by (simp del: replicate.simps)
qed

lemma demo_revision_loads:
  "load (ne_codec (demo_conductor_env [])) (cd_fs demo_conductor) [''.mowis'', ''plans''] ''p1''
     = Inr (demo_plan\<lparr> pl_overview := [] \<rparr>)"
  by (simp add: load_def demo_conductor_env_def demo_conductor_def new_conductor_def demo_codec_def
      demo_plan_def new_draft_def read_part_def read_or_default_def and_then_def plan_of_head_def head_of_def)

lemma demo_revision_codec:
  "codec_inverts (ne_codec (demo_conductor_env []))
     (demo_plan\<lparr> pl_current_version := 2, pl_overview := response \<rparr>)"
  by (simp add: codec_inverts_def part_inverts_def demo_conductor_env_def demo_simps plan_of_head_def)

lemma demo_revision_ok:
  "\<exists>s'. handle_critic_verdict (demo_conductor_env []) ''p1'' 1 (Revise []) demo_conductor = (COk (), s')"
proof -
  let ?c = "ne_codec (demo_conductor_env [])" and ?p = "demo_plan\<lparr> pl_current_version := 2, pl_overview := ''fixed'' \<rparr>"
  have saved: "\<exists>n' fs'. save ?c ?p (\<lambda>_. IoOk) n fs = (Inr (), n', fs')" for n fs
  proof -
    have "\<exists>n' fs'. write_files (plan_dir ?p) (plan_files ?c ?p) (\<lambda>_. IoOk) (Suc n) fs = (Inr (), n', fs')"
      by (intro write_files_succeeds plain_plan_files) (simp add: demo_conductor_env_def demo_simps)
    then show ?thesis by (simp add: save_def fs_bind_def fs_create_dir_all_def)
  qed
  have io: "ne_io (demo_conductor_env []) = (\<lambda>_. IoOk)"
    and cfg: "oc_plans_dir (ne_cfg (demo_conductor_env [])) = [''.mowis'', ''plans'']"
    by (simp_all add: demo_conductor_env_def default_config_def)
  have snap: "snapshot_to_history (demo_plan\<lparr> pl_overview := [] \<rparr>) (\<lambda>_. IoOk) (cd_ops demo_conductor) (cd_fs demo_conductor)
      = (Inr (), 1, cd_fs demo_conductor)"
    by (simp add: snapshot_to_history_def fs_simps snapshot_names_def demo_simps demo_conductor_def
        new_conductor_def history_dir_def)
  have chat: "\<exists>s1. chat_reply (demo_conductor_env []) s = (COk ''fixed'', s1)" for s
    by (simp add: chat_reply_def tier_llm_def c_bind_def c_fs_def c_lift_def llm_for_def default_config_def
        api_key_def fs_simps demo_conductor_env_def ask_def emit_tokens_def c_emit_def c_modify_def c_push_def
        c_return_def Let_def)
  obtain s1 where s1: "chat_reply (demo_conductor_env []) (snd (c_push (fix_prompt [])
      (demo_conductor\<lparr> cd_ops := 1, cd_fs := cd_fs demo_conductor \<rparr>))) = (COk ''fixed'', s1)"
    using chat by blast
  obtain n' fs' where "save ?c ?p (\<lambda>_. IoOk) (cd_ops s1) (cd_fs s1) = (Inr (), n', fs')" using saved by blast
  with s1 demo_revision_loads snap io cfg show ?thesis
    by (simp add: handle_critic_verdict_def revise_plan_def c_bind_def c_lift_def c_fs_def c_push_def c_modify_def
        c_emit_def Let_def demo_plan_def new_draft_def)
qed

lemma revision_keeps_tasks_witness:
  "\<exists>s' response. handle_critic_verdict (demo_conductor_env []) ''p1'' 1 (Revise []) demo_conductor = (COk (), s')
     \<and> load (ne_codec (demo_conductor_env [])) (cd_fs s') [''.mowis'', ''plans''] ''p1''
       = Inr (demo_plan\<lparr> pl_current_version := 2, pl_overview := response \<rparr>)"
proof -
  obtain s' where s': "handle_critic_verdict (demo_conductor_env []) ''p1'' 1 (Revise []) demo_conductor = (COk (), s')"
    using demo_revision_ok by blast
  have cfg: "oc_plans_dir (ne_cfg (demo_conductor_env [])) = [''.mowis'', ''plans'']"
    by (simp add: demo_conductor_env_def default_config_def)
  have v: "pl_current_version demo_plan = 1" "pl_plan_id demo_plan = ''p1''"
    by (simp_all add: demo_plan_def new_draft_def)
  show ?thesis
    using revision_keeps_tasks [OF s', of "demo_plan\<lparr> pl_overview := [] \<rparr>"] demo_revision_loads
      demo_revision_codec cfg s' v by auto
qed

end
