(* ===== verification/Scheduler.thy ===== *)
theory Scheduler
  imports Task_Machine "HOL-Library.AList"
begin

text \<open>
  The scheduler of the daemon (\<open>agentd/src/orchestration/scheduler.rs\<close>) with the types it takes from
  \<open>agentd-protocol/src/lib.rs\<close>. It counts the open dependencies of each task, keeps a queue of ready
  tasks per sandbox, and skips what depends on a failed task. The hash maps that the code iterates or
  counts are association lists, the others are maps; a counter is a 64-bit word, as \<open>fetch_sub\<close> wraps.
  Every operation takes its locks in turn and is modelled as one step.
\<close>

section \<open>Types of the protocol\<close>

type_synonym work_id = string
type_synonym sandbox_name = string

record agent_task =
  at_id :: work_id
  at_description :: string
  at_deps :: "work_id list"
  at_hint :: "string option"

record checkpoint =
  cp_id :: u64
  cp_tool_call :: string
  cp_tool_args :: json
  cp_tool_result :: json
  cp_timestamp :: u64
  cp_layer_snapshot_path :: string

record agent_result =
  res_task_id :: work_id
  res_success :: bool
  res_git_diff :: "string option"
  res_error :: "string option"
  res_checkpoint_log :: "checkpoint list"
  res_timestamp :: u64

datatype layer_level = LayerBase | LayerSandbox | LayerAgent

record overlayfs_layer =
  ol_level :: layer_level
  ol_mount_path :: string
  ol_upper_dir :: string
  ol_work_dir :: string
  ol_lower_dirs :: "string list"

record agent_handle =
  ah_agent_id :: string
  ah_sandbox_name :: sandbox_name
  ah_container_id :: string
  ah_task_id :: "work_id option"
  ah_layer :: overlayfs_layer

section \<open>State\<close>

record scheduler =
  sr_graph :: "work_id \<rightharpoonup> agent_task"
  sr_counter :: "(work_id \<times> u64) list"
  sr_dependents :: "(work_id \<times> work_id list) list"
  sr_hints :: "work_id \<rightharpoonup> sandbox_name"
  sr_queues :: "(sandbox_name \<times> work_id list) list"
  sr_running :: "(work_id \<times> agent_handle) list"
  sr_completed :: "work_id set"
  sr_failed :: "(work_id \<times> string) list"
  sr_skipped :: "work_id set"
  sr_idle :: "sandbox_name \<rightharpoonup> agent_handle list"
  sr_results :: "work_id \<rightharpoonup> agent_result"
  sr_total :: nat

definition lookup_list :: "('k \<times> 'a list) list \<Rightarrow> 'k \<Rightarrow> 'a list" where
  "lookup_list al k = unwrap_or [] (map_of al k)"

text \<open>\<open>entry(k).or_insert_with(new).push(x)\<close>.\<close>

definition push_at :: "'k \<Rightarrow> 'a \<Rightarrow> ('k \<times> 'a list) list \<Rightarrow> ('k \<times> 'a list) list" where
  "push_at k x al = AList.update k (lookup_list al k @ [x]) al"

definition sandbox_hint :: "(work_id \<rightharpoonup> sandbox_name) \<Rightarrow> work_id \<Rightarrow> sandbox_name" where
  "sandbox_hint hints t = unwrap_or ''default'' (hints t)"

abbreviation failed_ids :: "scheduler \<Rightarrow> work_id set" where
  "failed_ids s \<equiv> fst ` set (sr_failed s)"

section \<open>Construction\<close>

definition task_map :: "agent_task list \<Rightarrow> work_id \<rightharpoonup> agent_task" where
  "task_map ts = map_of (rev (map (\<lambda>t. (at_id t, t)) ts))"

definition init_counters :: "agent_task list \<Rightarrow> (work_id \<times> u64) list" where
  "init_counters ts = fold (\<lambda>t. AList.update (at_id t) (of_nat (length (at_deps t)))) ts []"

definition init_dependents :: "agent_task list \<Rightarrow> (work_id \<times> work_id list) list" where
  "init_dependents ts = fold (\<lambda>t. fold (\<lambda>d. push_at d (at_id t)) (at_deps t)) ts []"

definition init_queues ::
  "(work_id \<rightharpoonup> sandbox_name) \<Rightarrow> agent_task list \<Rightarrow> (sandbox_name \<times> work_id list) list" where
  "init_queues hints ts =
     fold (\<lambda>t qs. if at_deps t = [] then push_at (sandbox_hint hints (at_id t)) (at_id t) qs else qs) ts []"

definition new_scheduler :: "agent_task list \<Rightarrow> (work_id \<rightharpoonup> sandbox_name) \<Rightarrow> scheduler" where
  "new_scheduler ts hints = \<lparr> sr_graph = task_map ts, sr_counter = init_counters ts,
     sr_dependents = init_dependents ts, sr_hints = hints, sr_queues = init_queues hints ts,
     sr_running = [], sr_completed = {}, sr_failed = [], sr_skipped = {}, sr_idle = Map.empty,
     sr_results = Map.empty, sr_total = length ts \<rparr>"

section \<open>Operations\<close>

definition get_task_description :: "scheduler \<Rightarrow> work_id \<Rightarrow> string option" where
  "get_task_description s t = map_option at_description (sr_graph s t)"

definition get_ready_task :: "sandbox_name \<Rightarrow> scheduler \<Rightarrow> work_id option \<times> scheduler" where
  "get_ready_task sb s =
     (case map_of (sr_queues s) sb of
        None \<Rightarrow> (None, s)
      | Some [] \<Rightarrow> (None, s)
      | Some (t # q) \<Rightarrow> (Some t, s\<lparr> sr_queues := AList.update sb q (sr_queues s) \<rparr>))"

definition mark_task_started :: "work_id \<Rightarrow> agent_handle \<Rightarrow> scheduler \<Rightarrow> scheduler" where
  "mark_task_started t agent s = s\<lparr> sr_running := AList.update t agent (sr_running s) \<rparr>"

definition resolved :: "scheduler \<Rightarrow> work_id \<Rightarrow> bool" where
  "resolved s t \<longleftrightarrow> t \<in> sr_completed s \<or> t \<in> sr_skipped s \<or> t \<in> failed_ids s"

definition should_skip :: "scheduler \<Rightarrow> work_id \<Rightarrow> bool" where
  "should_skip s t =
     (case sr_graph s t of
        Some task \<Rightarrow> list_ex (\<lambda>d. d \<in> failed_ids s \<or> d \<in> sr_skipped s) (at_deps task)
      | None \<Rightarrow> True)"

definition skip_task :: "work_id \<Rightarrow> scheduler \<Rightarrow> scheduler" where
  "skip_task t s = s\<lparr> sr_skipped := insert t (sr_skipped s),
     sr_queues := map (\<lambda>(sb, q). (sb, filter (\<lambda>x. x \<noteq> t) q)) (sr_queues s) \<rparr>"

text \<open>The breadth-first search of \<open>skip_dependents\<close>.\<close>

function skip_loop :: "work_id list \<Rightarrow> scheduler \<Rightarrow> scheduler" where
  "skip_loop [] s = s"
| "skip_loop (t # ts) s =
     (if resolved s t \<or> \<not> should_skip s t then skip_loop ts s
      else skip_loop (ts @ lookup_list (sr_dependents s) t) (skip_task t s))"
  by pat_completeness auto

definition open_keys :: "scheduler \<Rightarrow> work_id set" where
  "open_keys s = fst ` set (sr_dependents s) - sr_skipped s"

lemma open_keys_skip:
  assumes "t \<notin> sr_skipped s"
  shows "lookup_list (sr_dependents s) t \<noteq> [] \<Longrightarrow> card (open_keys (skip_task t s)) < card (open_keys s)"
    and "card (open_keys (skip_task t s)) \<le> card (open_keys s)"
proof -
  have eq: "open_keys (skip_task t s) = open_keys s - {t}"
    by (auto simp: open_keys_def skip_task_def)
  have fin: "finite (open_keys s)" by (simp add: open_keys_def)
  then show "card (open_keys (skip_task t s)) \<le> card (open_keys s)"
    unfolding eq by (intro card_mono) auto
  assume "lookup_list (sr_dependents s) t \<noteq> []"
  then obtain l where "map_of (sr_dependents s) t = Some l"
    by (cases "map_of (sr_dependents s) t") (auto simp: lookup_list_def)
  then have "t \<in> fst ` set (sr_dependents s)" by (force dest: map_of_SomeD)
  with assms have "t \<in> open_keys s" by (simp add: open_keys_def)
  with fin show "card (open_keys (skip_task t s)) < card (open_keys s)"
    unfolding eq by (rule card_Diff1_less)
qed

termination skip_loop
proof (relation "measures [\<lambda>(ts, s). card (open_keys s), \<lambda>(ts, s). length ts]")
  fix t ts s
  assume go: "\<not> (resolved s t \<or> \<not> should_skip s t)"
  then have t: "t \<notin> sr_skipped s" by (simp add: resolved_def)
  show "((ts @ lookup_list (sr_dependents s) t, skip_task t s), t # ts, s)
      \<in> measures [\<lambda>(ts, s). card (open_keys s), \<lambda>(ts, s). length ts]"
  proof (cases "lookup_list (sr_dependents s) t = []")
    case True
    then show ?thesis using open_keys_skip(2) [OF t] by (auto simp: le_less)
  next
    case False
    then show ?thesis using open_keys_skip(1) [OF t] by simp
  qed
qed auto

definition skip_dependents :: "work_id \<Rightarrow> scheduler \<Rightarrow> scheduler" where
  "skip_dependents t s = skip_loop (lookup_list (sr_dependents s) t) s"

definition unlock_task :: "work_id \<Rightarrow> scheduler \<Rightarrow> scheduler" where
  "unlock_task t s =
     (if t \<in> failed_ids s \<or> t \<in> sr_skipped s then s
      else case map_of (sr_counter s) t of
             None \<Rightarrow> s
           | Some c \<Rightarrow>
               (let s1 = s\<lparr> sr_counter := AList.update t (c - 1) (sr_counter s) \<rparr> in
                if c = 1
                then s1\<lparr> sr_queues := push_at (sandbox_hint (sr_hints s) t) t (sr_queues s1) \<rparr>
                else s1))"

definition unlock_dependents :: "work_id \<Rightarrow> scheduler \<Rightarrow> scheduler" where
  "unlock_dependents t s = fold unlock_task (lookup_list (sr_dependents s) t) s"

definition handle_task_completion :: "agent_result \<Rightarrow> scheduler \<Rightarrow> scheduler" where
  "handle_task_completion r s =
     (let t = res_task_id r;
          s1 = s\<lparr> sr_running := AList.delete t (sr_running s) \<rparr>;
          s2 = s1\<lparr> sr_results := (sr_results s1)(t \<mapsto> r) \<rparr> in
      if \<not> res_success r
      then skip_dependents t
             (s2\<lparr> sr_failed := AList.update t (unwrap_or ''Unknown error'' (res_error r)) (sr_failed s2) \<rparr>)
      else unlock_dependents t (s2\<lparr> sr_completed := insert t (sr_completed s2) \<rparr>))"

definition handle_task_failure :: "work_id \<Rightarrow> string \<Rightarrow> scheduler \<Rightarrow> scheduler" where
  "handle_task_failure t e s =
     (let s1 = s\<lparr> sr_failed := AList.update t e (sr_failed s) \<rparr> in
      skip_dependents t (s1\<lparr> sr_running := AList.delete t (sr_running s1) \<rparr>))"

definition register_idle_agent :: "agent_handle \<Rightarrow> scheduler \<Rightarrow> scheduler" where
  "register_idle_agent a s = s\<lparr> sr_idle := (sr_idle s)
     (ah_sandbox_name a \<mapsto> unwrap_or [] (sr_idle s (ah_sandbox_name a)) @ [a]) \<rparr>"

definition get_idle_agent :: "sandbox_name \<Rightarrow> scheduler \<Rightarrow> agent_handle option \<times> scheduler" where
  "get_idle_agent sb s =
     (case sr_idle s sb of
        None \<Rightarrow> (None, s)
      | Some [] \<Rightarrow> (None, s)
      | Some (a # as) \<Rightarrow> (Some a, s\<lparr> sr_idle := (sr_idle s)(sb \<mapsto> as) \<rparr>))"

definition is_complete :: "scheduler \<Rightarrow> bool" where
  "is_complete s \<longleftrightarrow>
     sum_list (map (\<lambda>(_, q). length q) (sr_queues s)) = 0
     \<and> \<not> list_ex (\<lambda>(t, c). c \<noteq> 0 \<and> \<not> resolved s t) (sr_counter s)"

record scheduler_stats =
  ss_total :: nat
  ss_completed :: nat
  ss_failed :: nat
  ss_skipped :: nat
  ss_running :: nat
  ss_pending :: nat

definition get_stats :: "scheduler \<Rightarrow> scheduler_stats" where
  "get_stats s =
     (let c = card (sr_completed s); f = length (sr_failed s); k = card (sr_skipped s);
          r = length (sr_running s) in
      \<lparr> ss_total = sr_total s, ss_completed = c, ss_failed = f, ss_skipped = k, ss_running = r,
        ss_pending = sr_total s - (c + f + k + r) \<rparr>)"

definition retry_task :: "work_id \<Rightarrow> scheduler \<Rightarrow> bool \<times> scheduler" where
  "retry_task t s =
     (if map_of (sr_failed s) t = None then (False, s)
      else let s1 = s\<lparr> sr_failed := AList.delete t (sr_failed s) \<rparr> in
        case (sr_graph s1 t, map_of (sr_counter s1) t) of
          (Some task, Some _) \<Rightarrow>
            (let n = length (filter (\<lambda>d. d \<notin> sr_completed s1) (at_deps task));
                 s2 = s1\<lparr> sr_counter := AList.update t (of_nat n) (sr_counter s1) \<rparr> in
             (True, if n = 0
                then s2\<lparr> sr_queues := push_at (sandbox_hint (sr_hints s) t) t (sr_queues s2) \<rparr>
                else s2))
        | _ \<Rightarrow> (True, s1))"

section \<open>What the construction yields\<close>

lemma lookup_list_simps [simp]:
  "lookup_list [] k = []"
  "lookup_list (AList.update k l al) = (lookup_list al)(k := l)"
  "lookup_list (push_at k x al) = (lookup_list al)(k := lookup_list al k @ [x])"
  by (auto simp: lookup_list_def push_at_def update_conv')

lemma distinct_push_at [simp]: "distinct (map fst al) \<Longrightarrow> distinct (map fst (push_at k x al))"
  by (simp add: push_at_def distinct_update)

lemma lookup_filter_all:
  "lookup_list (map (\<lambda>(k, q). (k, filter P q)) al) k = filter P (lookup_list al k)"
  by (induction al) (auto simp: lookup_list_def)

lemma fst_comp_value [simp]: "fst \<circ> (\<lambda>(k, q). (k, f q)) = fst"
  by auto

lemma sum_lengths_0:
  assumes "distinct (map fst qs)"
  shows "sum_list (map (\<lambda>(_, q). length q) qs) = 0 \<longleftrightarrow> (\<forall>sb. lookup_list qs sb = [])"
proof
  assume z: "sum_list (map (\<lambda>(_, q). length q) qs) = 0"
  then have "\<forall>(k, q)\<in>set qs. q = []" by (induction qs) auto
  then show "\<forall>sb. lookup_list qs sb = []"
    by (auto simp: lookup_list_def unwrap_or_def split: option.split dest: map_of_SomeD)
next
  assume e: "\<forall>sb. lookup_list qs sb = []"
  have "q = []" if "(k, q) \<in> set qs" for k q
    using e map_of_is_SomeI [OF assms that] by (auto simp: lookup_list_def dest: spec [of _ k])
  then show "sum_list (map (\<lambda>(_, q). length q) qs) = 0" by (induction qs) force+
qed

abbreviation task_ids_of :: "agent_task list \<Rightarrow> work_id set" where
  "task_ids_of ts \<equiv> at_id ` set ts"

definition deps_in :: "agent_task list \<Rightarrow> work_id \<Rightarrow> work_id list" where
  "deps_in ts t = (case task_map ts t of None \<Rightarrow> [] | Some x \<Rightarrow> at_deps x)"

definition waiting_on :: "agent_task list \<Rightarrow> work_id \<Rightarrow> work_id list" where
  "waiting_on ts d = concat (map (\<lambda>t. map (\<lambda>_. at_id t) (filter (\<lambda>x. x = d) (at_deps t))) ts)"

lemma task_map_known:
  assumes "distinct (map at_id ts)" and "x \<in> set ts"
  shows "task_map ts (at_id x) = Some x"
  using assms unfolding task_map_def
  by (intro map_of_is_SomeI) (auto simp: rev_map [symmetric] comp_def)

lemma deps_in_known: "distinct (map at_id ts) \<Longrightarrow> x \<in> set ts \<Longrightarrow> deps_in ts (at_id x) = at_deps x"
  by (simp add: deps_in_def task_map_known)

lemma fold_push_lookup:
  "lookup_list (fold (\<lambda>d. push_at d i) ds al) d
     = lookup_list al d @ map (\<lambda>_. i) (filter (\<lambda>x. x = d) ds)"
  by (induction ds arbitrary: al) auto

lemma lookup_init_dependents: "lookup_list (init_dependents ts) d = waiting_on ts d"
proof -
  have "lookup_list (fold (\<lambda>t. fold (\<lambda>d. push_at d (at_id t)) (at_deps t)) ts al) d
      = lookup_list al d @ waiting_on ts d" for al
    by (induction ts arbitrary: al) (simp_all add: waiting_on_def fold_push_lookup)
  then show ?thesis by (simp add: init_dependents_def)
qed

lemma set_waiting_on: "set (waiting_on ts d) = {at_id t | t. t \<in> set ts \<and> d \<in> set (at_deps t)}"
  by (auto simp: waiting_on_def)

lemma count_waiting_on:
  assumes "distinct (map at_id ts)" and "x \<in> set ts"
  shows "count_list (waiting_on ts d) (at_id x) = count_list (at_deps x) d"
proof -
  have c: "count_list (map (\<lambda>_. i) (filter (\<lambda>x. x = d) ds)) j = (if i = j then count_list ds d else 0)"
    for i j :: work_id and ds
    by (induction ds) auto
  have sum: "count_list (waiting_on ts d) j = (\<Sum>t\<leftarrow>ts. if at_id t = j then count_list (at_deps t) d else 0)" for j
    by (induction ts) (auto simp: waiting_on_def c)
  have none: "(\<Sum>t\<leftarrow>us. if at_id t = i then count_list (at_deps t) d else 0) = 0"
    if "i \<notin> at_id ` set us" for us i
  proof -
    have "map (\<lambda>t. if at_id t = i then count_list (at_deps t) d else 0) us = map (\<lambda>_. 0) us"
      using that by (intro map_cong refl) (metis image_eqI)
    then show ?thesis by simp
  qed
  have "(\<Sum>t\<leftarrow>ts. if at_id t = at_id x then count_list (at_deps t) d else 0) = count_list (at_deps x) d"
    using assms
  proof (induction ts)
    case (Cons t ts)
    show ?case
    proof (cases "at_id t = at_id x")
      case True
      have "t = x"
      proof (rule ccontr)
        assume "t \<noteq> x"
        with Cons.prems(2) have "x \<in> set ts" by simp
        then have "at_id x \<in> set (map at_id ts)" by simp
        with Cons.prems(1) True show False by simp
      qed
      have "at_id x \<notin> at_id ` set ts" using Cons.prems(1) True by simp
      with none [of "at_id x" ts] True \<open>t = x\<close> show ?thesis by simp
    next
      case False
      then have "x \<in> set ts" using Cons.prems(2) by auto
      with Cons.IH Cons.prems(1) False show ?thesis by simp
    qed
  qed simp
  with sum show ?thesis by simp
qed

lemma init_counters_entry:
  assumes "distinct (map at_id ts)"
  shows "distinct (map fst (init_counters ts)) \<and> fst ` set (init_counters ts) = task_ids_of ts
    \<and> (\<forall>x\<in>set ts. map_of (init_counters ts) (at_id x) = Some (of_nat (length (at_deps x))))"
  using assms
proof (induction ts rule: rev_induct)
  case (snoc t ts)
  have "init_counters (ts @ [t]) = AList.update (at_id t) (of_nat (length (at_deps t))) (init_counters ts)"
    by (simp add: init_counters_def)
  with snoc show ?case
    by (auto simp: distinct_update dom_update update_conv' image_iff)
qed (simp add: init_counters_def)

lemma init_queues_lookup:
  "distinct (map fst (init_queues hints ts))
   \<and> lookup_list (init_queues hints ts) sb
     = map at_id (filter (\<lambda>t. at_deps t = [] \<and> sandbox_hint hints (at_id t) = sb) ts)"
proof (induction ts arbitrary: sb rule: rev_induct)
  case (snoc t ts)
  have "init_queues hints (ts @ [t]) = (if at_deps t = []
      then push_at (sandbox_hint hints (at_id t)) (at_id t) (init_queues hints ts) else init_queues hints ts)"
    by (simp add: init_queues_def)
  with snoc show ?case by auto
qed (simp add: init_queues_def)

section \<open>The invariant\<close>

text \<open>
  \<open>todo\<close> are the dependents that a completion has still to unlock, \<open>wl\<close> those a failure has still to
  look at, and \<open>out\<close> the tasks that were handed out and have not been reported.
\<close>

definition graph_ok :: "agent_task list \<Rightarrow> bool" where
  "graph_ok ts \<longleftrightarrow> distinct (map at_id ts) \<and> (\<forall>t\<in>set ts. set (at_deps t) \<subseteq> task_ids_of ts
     \<and> length (at_deps t) < 2 ^ 64) \<and> acyclic {(t, d). t \<in> task_ids_of ts \<and> d \<in> set (deps_in ts t)}"

definition abs_state :: "agent_task list \<Rightarrow> scheduler \<Rightarrow> work_id set \<Rightarrow> work_id dag_state" where
  "abs_state ts s out = \<lparr> ds_pending = task_ids_of ts - (out \<union> sr_completed s \<union> failed_ids s),
     ds_running = out, ds_done = sr_completed s, ds_failed = failed_ids s \<rparr>"

definition static_inv :: "agent_task list \<Rightarrow> (work_id \<rightharpoonup> sandbox_name) \<Rightarrow> scheduler \<Rightarrow> bool" where
  "static_inv ts hints s \<longleftrightarrow> sr_graph s = task_map ts \<and> sr_dependents s = init_dependents ts
     \<and> sr_hints s = hints \<and> sr_total s = length ts \<and> distinct (map fst (sr_counter s))
     \<and> fst ` set (sr_counter s) = task_ids_of ts \<and> distinct (map fst (sr_queues s))
     \<and> distinct (map fst (sr_failed s))"

definition open_deps :: "agent_task list \<Rightarrow> scheduler \<Rightarrow> work_id \<Rightarrow> nat" where
  "open_deps ts s t = length (filter (\<lambda>d. d \<notin> sr_completed s) (deps_in ts t))"

definition count_inv :: "agent_task list \<Rightarrow> work_id list \<Rightarrow> scheduler \<Rightarrow> bool" where
  "count_inv ts todo s \<longleftrightarrow> (\<forall>t\<in>task_ids_of ts - (failed_ids s \<union> sr_skipped s).
     map_of (sr_counter s) t = Some (of_nat (open_deps ts s t + count_list todo t)))"

definition ready_set :: "agent_task list \<Rightarrow> work_id list \<Rightarrow> scheduler \<Rightarrow> work_id set \<Rightarrow> work_id set" where
  "ready_set ts todo s out = {t \<in> task_ids_of ts. t \<notin> out \<union> sr_completed s \<union> failed_ids s \<union> sr_skipped s
     \<and> t \<notin> set todo \<and> set (deps_in ts t) \<subseteq> sr_completed s}"

definition queue_inv ::
  "agent_task list \<Rightarrow> (work_id \<rightharpoonup> sandbox_name) \<Rightarrow> work_id list \<Rightarrow> scheduler \<Rightarrow> work_id set \<Rightarrow> bool" where
  "queue_inv ts hints todo s out \<longleftrightarrow> (\<forall>sb. distinct (lookup_list (sr_queues s) sb)
     \<and> set (lookup_list (sr_queues s) sb) = {t \<in> ready_set ts todo s out. sandbox_hint hints t = sb})"

definition doomed :: "agent_task list \<Rightarrow> scheduler \<Rightarrow> work_id set" where
  "doomed ts s = {t \<in> task_ids_of ts. \<exists>d\<in>set (deps_in ts t). d \<in> failed_ids s \<union> sr_skipped s}"

definition skip_inv :: "agent_task list \<Rightarrow> work_id list \<Rightarrow> scheduler \<Rightarrow> bool" where
  "skip_inv ts wl s \<longleftrightarrow> sr_skipped s \<subseteq> doomed ts s \<and> doomed ts s \<subseteq> sr_skipped s \<union> set wl
     \<and> set wl \<subseteq> doomed ts s \<and> sr_skipped s \<inter> sr_completed s = {}"

definition sched_inv ::
  "agent_task list \<Rightarrow> (work_id \<rightharpoonup> sandbox_name) \<Rightarrow> work_id list \<Rightarrow> work_id list \<Rightarrow> scheduler \<Rightarrow> work_id set \<Rightarrow> bool"
where
  "sched_inv ts hints todo wl s out \<longleftrightarrow> static_inv ts hints s \<and> count_inv ts todo s
     \<and> queue_inv ts hints todo s out \<and> skip_inv ts wl s
     \<and> dag_inv (deps_in ts) (task_ids_of ts) (abs_state ts s out)
     \<and> set todo \<subseteq> task_ids_of ts - (out \<union> sr_completed s)"

lemma queue_invD:
  "queue_inv ts hints todo s out \<Longrightarrow> distinct (lookup_list (sr_queues s) sb)"
  "queue_inv ts hints todo s out \<Longrightarrow> set (lookup_list (sr_queues s) sb)
     = {t \<in> ready_set ts todo s out. sandbox_hint hints t = sb}"
  by (simp_all add: queue_inv_def)

lemma sched_invD:
  assumes "sched_inv ts hints todo wl s out"
  shows "static_inv ts hints s" "count_inv ts todo s" "queue_inv ts hints todo s out" "skip_inv ts wl s"
    "dag_inv (deps_in ts) (task_ids_of ts) (abs_state ts s out)"
    "set todo \<subseteq> task_ids_of ts - (out \<union> sr_completed s)"
  using assms by (simp_all add: sched_inv_def)

lemmas sched_invs = static_inv_def count_inv_def queue_inv_def skip_inv_def sched_inv_def

lemma known_dep:
  assumes "graph_ok ts" and "t \<in> task_ids_of ts" and "d \<in> set (deps_in ts t)"
  shows "d \<in> task_ids_of ts"
proof -
  obtain z where "z \<in> set ts" "t = at_id z" using assms(2) by blast
  with assms(1,3) have "d \<in> set (at_deps z)" "set (at_deps z) \<subseteq> task_ids_of ts"
    by (simp_all add: graph_ok_def deps_in_known)
  then show ?thesis by blast
qed

section \<open>A fresh scheduler\<close>

lemma sched_inv_new:
  assumes "graph_ok ts"
  shows "sched_inv ts hints [] [] (new_scheduler ts hints) {}"
proof -
  have d: "distinct (map at_id ts)" using assms by (simp add: graph_ok_def)
  note c = init_counters_entry [OF d] and q = init_queues_lookup [of hints ts]
  let ?s = "new_scheduler ts hints"
  have sel: "sr_completed ?s = {}" "sr_failed ?s = []" "sr_skipped ?s = {}" "sr_counter ?s = init_counters ts"
      "sr_queues ?s = init_queues hints ts" "sr_graph ?s = task_map ts" "sr_dependents ?s = init_dependents ts"
      "sr_hints ?s = hints" "sr_total ?s = length ts"
    by (simp_all add: new_scheduler_def)
  have "static_inv ts hints ?s" using c q by (simp add: static_inv_def sel)
  moreover have "count_inv ts [] ?s"
    using c d by (auto simp: count_inv_def sel open_deps_def deps_in_known)
  moreover have "queue_inv ts hints [] ?s {}"
    unfolding queue_inv_def sel
  proof (intro allI conjI)
    fix sb
    show "distinct (lookup_list (init_queues hints ts) sb)"
      using q d by (simp add: distinct_map_filter)
    show "set (lookup_list (init_queues hints ts) sb)
        = {t \<in> ready_set ts [] ?s {}. sandbox_hint hints t = sb}"
      using q d by (auto simp: ready_set_def sel deps_in_known)
  qed
  moreover have "skip_inv ts [] ?s" by (simp add: skip_inv_def doomed_def sel)
  moreover have "dag_inv (deps_in ts) (task_ids_of ts) (abs_state ts ?s {})"
    by (simp add: dag_inv_def abs_state_def sel)
  ultimately show ?thesis by (simp add: sched_inv_def)
qed

lemma abs_state_new: "abs_state ts (new_scheduler ts hints) {} = all_pending (task_ids_of ts)"
  by (simp add: abs_state_def new_scheduler_def all_pending_def)

section \<open>Handing out a task\<close>

lemma get_ready_task_Some:
  assumes "get_ready_task sb s = (Some t, s')"
  shows "\<exists>q. lookup_list (sr_queues s) sb = t # q \<and> s' = s\<lparr> sr_queues := AList.update sb q (sr_queues s) \<rparr>"
  using assms by (auto simp: get_ready_task_def lookup_list_def split: option.splits list.splits)

lemma get_ready_task_None:
  "fst (get_ready_task sb s) = None \<longleftrightarrow> lookup_list (sr_queues s) sb = []"
  "get_ready_task sb s = (None, s') \<Longrightarrow> s' = s"
  by (auto simp: get_ready_task_def lookup_list_def split: option.splits list.splits)

lemma hand_out_step:
  assumes inv: "sched_inv ts hints [] [] s out" and get: "get_ready_task sb s = (Some t, s')"
  shows "sched_inv ts hints [] [] s' (insert t out)
    \<and> dag_step (deps_in ts) (abs_state ts s out) (Spawn t) (abs_state ts s' (insert t out))"
proof -
  obtain q where q: "lookup_list (sr_queues s) sb = t # q"
      and s': "s' = s\<lparr> sr_queues := AList.update sb q (sr_queues s) \<rparr>"
    using get_ready_task_Some [OF get] by blast
  note I = sched_invD [OF inv] and Q = queue_invD [OF sched_invD(3) [OF inv]]
  from Q [of sb] have t: "t \<in> ready_set ts [] s out" "sandbox_hint hints t = sb" "t \<notin> set q" "distinct q"
    unfolding q by auto
  have step: "dag_step (deps_in ts) (abs_state ts s out) (Spawn t) (abs_state ts s' (insert t out))"
  proof -
    have "dag_step (deps_in ts) (abs_state ts s out) (Spawn t)
       ((abs_state ts s out)\<lparr> ds_pending := ds_pending (abs_state ts s out) - {t},
          ds_running := insert t (ds_running (abs_state ts s out)) \<rparr>)"
      using t by (intro dag_step.start) (auto simp: abs_state_def ready_set_def)
    moreover have "(abs_state ts s out)\<lparr> ds_pending := ds_pending (abs_state ts s out) - {t},
          ds_running := insert t (ds_running (abs_state ts s out)) \<rparr> = abs_state ts s' (insert t out)"
      by (auto simp: abs_state_def s')
    ultimately show ?thesis by simp
  qed
  have "queue_inv ts hints [] s' (insert t out)"
    unfolding queue_inv_def
  proof (intro allI conjI)
    fix sb'
    show "distinct (lookup_list (sr_queues s') sb')" using Q(1) [of sb'] t(4) by (simp add: s')
    show "set (lookup_list (sr_queues s') sb')
        = {x \<in> ready_set ts [] s' (insert t out). sandbox_hint hints x = sb'}"
    proof (cases "sb' = sb")
      case True
      have "set q = set (t # q) - {t}" using t(3) by auto
      also have "\<dots> = {x \<in> ready_set ts [] s out. sandbox_hint hints x = sb} - {t}"
        using Q(2) [of sb'] q True by simp
      also have "\<dots> = {x \<in> ready_set ts [] s' (insert t out). sandbox_hint hints x = sb}"
        by (auto simp: ready_set_def s')
      finally show ?thesis using True by (simp add: s')
    next
      case False
      then show ?thesis using Q(2) [of sb'] t(2) by (auto simp: ready_set_def s')
    qed
  qed
  moreover have "static_inv ts hints s'" "count_inv ts [] s'" "skip_inv ts [] s'"
    using I(1,2,4)
    by (simp_all add: static_inv_def count_inv_def skip_inv_def s' distinct_update open_deps_def doomed_def)
  moreover have "dag_inv (deps_in ts) (task_ids_of ts) (abs_state ts s' (insert t out))"
    using dag_inv_step [OF I(5) step] .
  ultimately show ?thesis using step by (simp add: sched_inv_def)
qed

section \<open>Unlocking\<close>

lemma word_count_step:
  assumes "n < 2 ^ 64"
  shows "(of_nat n :: u64) = 1 \<longleftrightarrow> n = 1"
  using assms word_of_nat_eq_iff [of n 1, where 'a = 64] by (simp add: take_bit_nat_eq_self)

lemma open_deps_le: "open_deps ts s t \<le> length (deps_in ts t)"
  by (simp add: open_deps_def)

lemma open_deps_0: "open_deps ts s t = 0 \<longleftrightarrow> set (deps_in ts t) \<subseteq> sr_completed s"
  by (auto simp: open_deps_def filter_empty_conv)

lemma unlock_step:
  assumes inv: "sched_inv ts hints (t # todo) [] s out"
    and bound: "open_deps ts s t + count_list (t # todo) t < 2 ^ 64"
  shows "sched_inv ts hints todo [] (unlock_task t s) out
    \<and> abs_state ts (unlock_task t s) out = abs_state ts s out"
proof (cases "t \<in> failed_ids s \<or> t \<in> sr_skipped s")
  case True
  then have same: "unlock_task t s = s" by (auto simp: unlock_task_def)
  have "ready_set ts todo s out = ready_set ts (t # todo) s out" using True by (auto simp: ready_set_def)
  moreover have "count_inv ts todo s"
    using sched_invD(2) [OF inv] True unfolding count_inv_def by (metis DiffD2 Un_iff count_list.simps(2))
  ultimately show ?thesis
    using sched_invD [OF inv] by (simp add: sched_inv_def same queue_inv_def)
next
  case False
  note I = sched_invD [OF inv]
  let ?n = "open_deps ts s t + count_list todo t"
  have t: "t \<in> task_ids_of ts" "t \<notin> out \<union> sr_completed s" using I(6) by auto
  have c: "map_of (sr_counter s) t = Some (of_nat (Suc ?n))"
    using I(2) False t by (auto simp: count_inv_def)
  define s1 where "s1 = s\<lparr> sr_counter := AList.update t (of_nat ?n) (sr_counter s) \<rparr>"
  define s' where "s' = unlock_task t s"
  have ready: "of_nat (Suc ?n) = (1 :: u64) \<longleftrightarrow> ?n = 0"
    using word_count_step [of "Suc ?n"] bound by simp
  have s': "s' = (if ?n = 0 then s1\<lparr> sr_queues := push_at (sandbox_hint hints t) t (sr_queues s) \<rparr> else s1)"
    using False c ready I(1) by (simp add: s'_def unlock_task_def s1_def Let_def static_inv_def)
  have sel: "sr_completed s' = sr_completed s" "sr_failed s' = sr_failed s" "sr_skipped s' = sr_skipped s"
      "sr_graph s' = sr_graph s" "sr_dependents s' = sr_dependents s" "sr_hints s' = sr_hints s"
      "sr_total s' = sr_total s" "sr_counter s' = AList.update t (of_nat ?n) (sr_counter s)"
    by (simp_all add: s' s1_def)
  have od: "open_deps ts s' = open_deps ts s" by (rule ext) (simp add: open_deps_def sel)
  have queues: "lookup_list (sr_queues s') sb = lookup_list (sr_queues s) sb
      @ (if ?n = 0 \<and> sb = sandbox_hint hints t then [t] else [])" for sb
    by (simp add: s' s1_def)
  have rdy: "ready_set ts todo s' out = ready_set ts (t # todo) s out \<union> (if ?n = 0 then {t} else {})"
  proof -
    have in_t: "t \<in> ready_set ts todo s' out \<longleftrightarrow> ?n = 0"
      using t False open_deps_0 [of ts s t] by (auto simp: ready_set_def sel count_list_0_iff)
    have out_t: "t \<notin> ready_set ts (t # todo) s out" by (simp add: ready_set_def)
    have "x \<in> ready_set ts todo s' out \<longleftrightarrow> x \<in> ready_set ts (t # todo) s out" if "x \<noteq> t" for x
      using that by (auto simp: ready_set_def sel)
    then have "x \<in> ready_set ts todo s' out \<longleftrightarrow> x \<in> ready_set ts (t # todo) s out \<or> ?n = 0 \<and> x = t" for x
      using in_t out_t by (cases "x = t") simp_all
    then show ?thesis by auto
  qed
  have "queue_inv ts hints todo s' out"
    unfolding queue_inv_def
  proof (intro allI conjI)
    fix sb
    have "t \<notin> set (lookup_list (sr_queues s) sb)" using queue_invD(2) [OF I(3), of sb] by (auto simp: ready_set_def)
    then show "distinct (lookup_list (sr_queues s') sb)" using queue_invD(1) [OF I(3), of sb] by (auto simp: queues)
    show "set (lookup_list (sr_queues s') sb) = {x \<in> ready_set ts todo s' out. sandbox_hint hints x = sb}"
      unfolding queues rdy using queue_invD(2) [OF I(3), of sb] by auto
  qed
  moreover have "static_inv ts hints s'"
    using I(1) t by (auto simp: static_inv_def sel distinct_update dom_update insert_absorb s' s1_def)
  moreover have "count_inv ts todo s'"
    using I(2) by (auto simp: count_inv_def sel od update_conv')
  moreover have "skip_inv ts [] s'" using I(4) by (simp add: skip_inv_def sel doomed_def)
  moreover have abs: "abs_state ts s' out = abs_state ts s out" by (simp add: abs_state_def sel)
  ultimately show ?thesis
    using I(5,6) sel(1) by (simp add: sched_inv_def s'_def)
qed

lemma unlock_fold:
  assumes "sched_inv ts hints todo [] s out"
    and "\<And>t. open_deps ts s t + count_list todo t < 2 ^ 64"
  shows "sched_inv ts hints [] [] (fold unlock_task todo s) out
    \<and> abs_state ts (fold unlock_task todo s) out = abs_state ts s out"
  using assms
proof (induction todo arbitrary: s)
  case (Cons t todo)
  note u = unlock_step [OF Cons.prems(1) Cons.prems(2)]
  have "sr_completed (unlock_task t s) = sr_completed s"
    by (simp add: unlock_task_def Let_def split: option.split)
  then have "open_deps ts (unlock_task t s) = open_deps ts s"
    by (intro ext) (simp add: open_deps_def)
  then have "open_deps ts (unlock_task t s) x + count_list todo x < 2 ^ 64" for x
    by (intro order.strict_trans1 [OF _ Cons.prems(2) [of x]]) simp
  from Cons.IH [OF conjunct1 [OF u] this] u show ?case by simp
qed simp

section \<open>Skipping\<close>

lemma doomed_known:
  assumes "static_inv ts hints s" and "t \<in> doomed ts s"
  shows "should_skip s t"
  using assms by (auto simp: static_inv_def doomed_def should_skip_def deps_in_def list_ex_iff split: option.splits)

lemma doomed_not_done:
  assumes "dag_inv (deps_in ts) (task_ids_of ts) (abs_state ts s out)" and "skip_inv ts wl s"
    and "t \<in> doomed ts s"
  shows "t \<notin> out \<union> sr_completed s \<union> failed_ids s"
proof
  assume "t \<in> out \<union> sr_completed s \<union> failed_ids s"
  then have "set (deps_in ts t) \<subseteq> sr_completed s" using assms(1) by (auto simp: dag_inv_def abs_state_def)
  moreover obtain d where "d \<in> set (deps_in ts t)" "d \<in> failed_ids s \<union> sr_skipped s"
    using assms(3) by (auto simp: doomed_def)
  moreover have "sr_completed s \<inter> failed_ids s = {}" using assms(1) by (auto simp: dag_inv_def abs_state_def)
  moreover have "sr_completed s \<inter> sr_skipped s = {}" using assms(2) by (auto simp: skip_inv_def)
  ultimately show False by blast
qed

lemma dependents_doomed:
  assumes "static_inv ts hints s" and "distinct (map at_id ts)"
  shows "set (lookup_list (sr_dependents s) t) = {x \<in> task_ids_of ts. t \<in> set (deps_in ts x)}"
  using assms by (auto simp: static_inv_def lookup_init_dependents set_waiting_on deps_in_known)

lemma skip_task_inv:
  assumes inv: "sched_inv ts hints [] (t # wl) s out" and new: "t \<notin> sr_skipped s"
    and dist: "distinct (map at_id ts)"
  shows "sched_inv ts hints [] (wl @ lookup_list (sr_dependents s) t) (skip_task t s) out"
proof -
  note I = sched_invD [OF inv]
  let ?s = "skip_task t s" and ?ds = "lookup_list (sr_dependents s) t"
  have t: "t \<in> doomed ts s" using I(4) by (simp add: skip_inv_def)
  then have t': "t \<in> task_ids_of ts" "t \<notin> out \<union> sr_completed s \<union> failed_ids s"
    using doomed_not_done [OF I(5,4) t] by (auto simp: doomed_def)
  have doom: "doomed ts ?s = doomed ts s \<union> set ?ds"
    unfolding dependents_doomed [OF I(1) dist] by (auto simp: doomed_def skip_task_def)
  have "skip_inv ts (wl @ ?ds) ?s"
    using I(4) t t' unfolding skip_inv_def doom by (auto simp: skip_task_def)
  moreover have "static_inv ts hints ?s" using I(1) by (simp add: static_inv_def skip_task_def)
  moreover have "count_inv ts [] ?s"
    using I(2) by (auto simp: count_inv_def skip_task_def open_deps_def)
  moreover have "queue_inv ts hints [] ?s out"
    using queue_invD [OF I(3)] by (auto simp: queue_inv_def skip_task_def lookup_filter_all ready_set_def)
  moreover have "abs_state ts ?s out = abs_state ts s out" by (simp add: abs_state_def skip_task_def)
  ultimately show ?thesis using I(5) by (simp add: sched_inv_def)
qed

lemma skip_loop_inv:
  assumes "sched_inv ts hints [] wl s out" and "distinct (map at_id ts)"
  shows "sched_inv ts hints [] [] (skip_loop wl s) out
    \<and> abs_state ts (skip_loop wl s) out = abs_state ts s out"
  using assms
proof (induction wl s rule: skip_loop.induct)
  case (1 s)
  then show ?case by simp
next
  case (2 t wl s)
  note I = sched_invD [OF "2.prems"(1)]
  have t: "t \<in> doomed ts s" using I(4) by (simp add: skip_inv_def)
  then have go: "should_skip s t" and nd: "t \<notin> sr_completed s \<union> failed_ids s"
    using doomed_known [OF I(1)] doomed_not_done [OF I(5,4) t] by auto
  show ?case
  proof (cases "t \<in> sr_skipped s")
    case True
    then have r: "resolved s t" by (simp add: resolved_def)
    have "sched_inv ts hints [] wl s out"
      using I True by (auto simp: sched_inv_def skip_inv_def)
    with "2.IH"(1) r "2.prems"(2) show ?thesis by simp
  next
    case False
    then have r: "\<not> resolved s t" using nd by (simp add: resolved_def)
    have "abs_state ts (skip_task t s) out = abs_state ts s out"
      by (simp add: abs_state_def skip_task_def)
    with "2.IH"(2) [OF _ skip_task_inv [OF "2.prems"(1) False "2.prems"(2)] "2.prems"(2)] r go
    show ?thesis by simp
  qed
qed

section \<open>Reports\<close>

lemma success_step:
  assumes ok: "graph_ok ts" and inv: "sched_inv ts hints [] [] s out"
    and t: "res_task_id r \<in> out" and succ: "res_success r"
  shows "sched_inv ts hints [] [] (handle_task_completion r s) (out - {res_task_id r})
    \<and> dag_step (deps_in ts) (abs_state ts s out) (Recv (res_task_id r) True)
        (abs_state ts (handle_task_completion r s) (out - {res_task_id r}))"
proof -
  let ?t = "res_task_id r" and ?out = "out - {res_task_id r}"
  note I = sched_invD [OF inv]
  have dist: "distinct (map at_id ts)" using ok by (simp add: graph_ok_def)
  have nt: "?t \<notin> sr_completed s" "?t \<notin> failed_ids s" "?t \<notin> sr_skipped s" "?t \<in> task_ids_of ts"
  proof -
    show "?t \<notin> sr_completed s" "?t \<notin> failed_ids s" "?t \<in> task_ids_of ts"
      using I(5) t by (auto simp: dag_inv_def abs_state_def)
    show "?t \<notin> sr_skipped s"
      using doomed_not_done [OF I(5,4)] I(4) t by (auto simp: skip_inv_def)
  qed
  define s1 where "s1 = s\<lparr> sr_running := AList.delete ?t (sr_running s),
    sr_results := (sr_results s)(?t \<mapsto> r), sr_completed := insert ?t (sr_completed s) \<rparr>"
  let ?todo = "waiting_on ts ?t"
  have todo: "set ?todo = {x \<in> task_ids_of ts. ?t \<in> set (deps_in ts x)}"
    using dependents_doomed [OF I(1) dist, of ?t] I(1) by (simp add: static_inv_def lookup_init_dependents)
  have eq: "handle_task_completion r s = fold unlock_task ?todo s1"
    using succ I(1) by (simp add: handle_task_completion_def Let_def unlock_dependents_def s1_def
        static_inv_def lookup_init_dependents)
  have cnt: "open_deps ts s1 x + count_list ?todo x = open_deps ts s x" if "x \<in> task_ids_of ts" for x
  proof -
    have "count_list ?todo x = count_list (deps_in ts x) ?t"
      using that count_waiting_on [OF dist] dist by (auto simp: deps_in_known)
    moreover have "length (filter (\<lambda>d. d \<noteq> ?t \<and> d \<notin> sr_completed s) ds) + count_list ds ?t
        = length (filter (\<lambda>d. d \<notin> sr_completed s) ds)" for ds
      using nt(1) by (induction ds) auto
    ultimately show ?thesis by (simp add: open_deps_def s1_def)
  qed
  have step: "dag_step (deps_in ts) (abs_state ts s out) (Recv ?t True) (abs_state ts s1 ?out)"
  proof -
    have "dag_step (deps_in ts) (abs_state ts s out) (Recv ?t True)
       ((abs_state ts s out)\<lparr> ds_running := ds_running (abs_state ts s out) - {?t},
          ds_done := insert ?t (ds_done (abs_state ts s out)) \<rparr>)"
      using t by (intro dag_step.succeed) (simp add: abs_state_def)
    moreover have "(abs_state ts s out)\<lparr> ds_running := ds_running (abs_state ts s out) - {?t},
          ds_done := insert ?t (ds_done (abs_state ts s out)) \<rparr> = abs_state ts s1 ?out"
      using t by (auto simp: abs_state_def s1_def)
    ultimately show ?thesis by simp
  qed
  have "sched_inv ts hints ?todo [] s1 ?out"
  proof -
    have "static_inv ts hints s1" using I(1) by (simp add: static_inv_def s1_def)
    moreover have "count_inv ts ?todo s1"
      unfolding count_inv_def
    proof
      fix x assume "x \<in> task_ids_of ts - (failed_ids s1 \<union> sr_skipped s1)"
      then show "map_of (sr_counter s1) x = Some (of_nat (open_deps ts s1 x + count_list ?todo x))"
        using I(2) cnt [of x] by (auto simp: count_inv_def s1_def)
    qed
    moreover have "ready_set ts ?todo s1 ?out = ready_set ts [] s out"
      using t nt unfolding ready_set_def todo by (auto simp: s1_def)
    then have "queue_inv ts hints ?todo s1 ?out"
      using queue_invD [OF I(3)] by (simp add: queue_inv_def s1_def)
    moreover have "skip_inv ts [] s1" using I(4) nt by (auto simp: skip_inv_def s1_def doomed_def)
    moreover have "set ?todo \<subseteq> task_ids_of ts - (?out \<union> sr_completed s1)"
    proof
      fix x assume "x \<in> set ?todo"
      then have x: "x \<in> task_ids_of ts" "?t \<in> set (deps_in ts x)" by (auto simp: todo)
      have "x \<notin> out \<union> sr_completed s"
        using x nt(1) I(5) by (auto simp: dag_inv_def abs_state_def)
      moreover have "x \<noteq> ?t" using calculation t by blast
      ultimately show "x \<in> task_ids_of ts - (?out \<union> sr_completed s1)"
        using x by (simp add: s1_def)
    qed
    ultimately show ?thesis using dag_inv_step [OF I(5) step] by (simp add: sched_inv_def)
  qed
  moreover have "open_deps ts s1 x + count_list ?todo x < 2 ^ 64" for x
  proof (cases "x \<in> task_ids_of ts")
    case True
    then obtain y where "y \<in> set ts" "x = at_id y" by blast
    then have "length (deps_in ts x) < 2 ^ 64" using ok dist by (simp add: graph_ok_def deps_in_known)
    then show ?thesis using cnt [OF True] open_deps_le [of ts s x] by simp
  next
    case False
    then have "task_map ts x = None" by (auto simp: task_map_def map_of_eq_None_iff image_iff)
    moreover have "x \<notin> set ?todo" using False todo by blast
    ultimately show ?thesis by (simp add: open_deps_def deps_in_def count_list_0_iff)
  qed
  ultimately show ?thesis using unlock_fold step eq by fastforce
qed

text \<open>A failed report, by either of the two functions: the task is entered in \<open>failed\<close> and its dependents are skipped.\<close>

lemma failure_step:
  assumes ok: "graph_ok ts" and inv: "sched_inv ts hints [] [] s out" and t: "t \<in> out"
    and s1: "sr_failed s1 = AList.update t e (sr_failed s)" "sr_completed s1 = sr_completed s"
      "sr_skipped s1 = sr_skipped s" "sr_queues s1 = sr_queues s" "sr_counter s1 = sr_counter s"
      "sr_graph s1 = sr_graph s" "sr_dependents s1 = sr_dependents s" "sr_hints s1 = sr_hints s"
      "sr_total s1 = sr_total s"
  shows "sched_inv ts hints [] [] (skip_dependents t s1) (out - {t})
    \<and> dag_step (deps_in ts) (abs_state ts s out) (Recv t False) (abs_state ts (skip_dependents t s1) (out - {t}))"
proof -
  let ?out = "out - {t}" and ?wl = "lookup_list (sr_dependents s1) t"
  note I = sched_invD [OF inv]
  have dist: "distinct (map at_id ts)" using ok by (simp add: graph_ok_def)
  have fids: "failed_ids s1 = insert t (failed_ids s)" by (simp add: s1(1) dom_update)
  have nt: "t \<notin> sr_skipped s" "t \<notin> sr_completed s"
    using doomed_not_done [OF I(5,4)] I(4,5) t by (auto simp: skip_inv_def dag_inv_def abs_state_def)
  have step: "dag_step (deps_in ts) (abs_state ts s out) (Recv t False) (abs_state ts s1 ?out)"
  proof -
    have "dag_step (deps_in ts) (abs_state ts s out) (Recv t False)
       ((abs_state ts s out)\<lparr> ds_running := ds_running (abs_state ts s out) - {t},
          ds_failed := insert t (ds_failed (abs_state ts s out)) \<rparr>)"
      using t by (intro dag_step.failure) (simp add: abs_state_def)
    moreover have "(abs_state ts s out)\<lparr> ds_running := ds_running (abs_state ts s out) - {t},
          ds_failed := insert t (ds_failed (abs_state ts s out)) \<rparr> = abs_state ts s1 ?out"
      using t by (auto simp: abs_state_def fids s1(2))
    ultimately show ?thesis by simp
  qed
  have st: "static_inv ts hints s1"
    using I(1) by (simp add: static_inv_def s1 distinct_update)
  have doom: "doomed ts s1 = doomed ts s \<union> set ?wl"
    unfolding dependents_doomed [OF st dist] by (auto simp: doomed_def fids s1(3))
  have "sched_inv ts hints [] ?wl s1 ?out"
  proof -
    have "count_inv ts [] s1" using I(2) fids by (auto simp: count_inv_def s1(2-9) open_deps_def)
    moreover have "ready_set ts [] s1 ?out = ready_set ts [] s out"
      using t by (auto simp: ready_set_def fids s1(2-9))
    then have "queue_inv ts hints [] s1 ?out" using queue_invD [OF I(3)] by (simp add: queue_inv_def s1)
    moreover have "skip_inv ts ?wl s1" using I(4) unfolding skip_inv_def doom by (auto simp: s1)
    ultimately show ?thesis using st dag_inv_step [OF I(5) step] by (simp add: sched_inv_def)
  qed
  from skip_loop_inv [OF this dist] step show ?thesis by (simp add: skip_dependents_def)
qed

section \<open>Runs of the scheduler\<close>

text \<open>
  What a caller may do: take a task from a queue, report a task it has taken, and the operations that
  leave the schedule alone.
\<close>

inductive work_step ::
  "scheduler \<times> work_id set \<Rightarrow> work_id act option \<Rightarrow> scheduler \<times> work_id set \<Rightarrow> bool"
where
  hand_out: "get_ready_task sb s = (Some t, s') \<Longrightarrow> work_step (s, out) (Some (Spawn t)) (s', insert t out)"
| report: "res_task_id r \<in> out \<Longrightarrow> work_step (s, out) (Some (Recv (res_task_id r) (res_success r)))
    (handle_task_completion r s, out - {res_task_id r})"
| report_failure: "t \<in> out \<Longrightarrow>
    work_step (s, out) (Some (Recv t False)) (handle_task_failure t e s, out - {t})"
| mark: "work_step (s, out) None (mark_task_started t a s, out)"
| register: "work_step (s, out) None (register_idle_agent a s, out)"
| take_agent: "get_idle_agent sb s = (a, s') \<Longrightarrow> work_step (s, out) None (s', out)"

inductive work_run ::
  "scheduler \<times> work_id set \<Rightarrow> work_id act list \<Rightarrow> scheduler \<times> work_id set \<Rightarrow> bool"
  for c0 :: "scheduler \<times> work_id set"
where
  work_refl: "work_run c0 [] c0"
| work_snoc: "work_run c0 tr c \<Longrightarrow> work_step c a c'
    \<Longrightarrow> work_run c0 (tr @ (case a of None \<Rightarrow> [] | Some x \<Rightarrow> [x])) c'"

lemma sched_inv_same:
  assumes "sched_inv ts hints [] [] s out"
    and "sr_failed s' = sr_failed s" "sr_completed s' = sr_completed s"
      "sr_skipped s' = sr_skipped s" "sr_queues s' = sr_queues s" "sr_counter s' = sr_counter s"
      "sr_graph s' = sr_graph s" "sr_dependents s' = sr_dependents s" "sr_hints s' = sr_hints s"
      "sr_total s' = sr_total s"
  shows "sched_inv ts hints [] [] s' out \<and> abs_state ts s' out = abs_state ts s out"
  using assms by (simp add: sched_invs abs_state_def open_deps_def doomed_def ready_set_def)

lemma work_step_refines:
  assumes "graph_ok ts" and "work_step (s, out) a (s', out')" and "sched_inv ts hints [] [] s out"
  shows "sched_inv ts hints [] [] s' out' \<and> (case a of
      None \<Rightarrow> abs_state ts s' out' = abs_state ts s out
    | Some x \<Rightarrow> dag_step (deps_in ts) (abs_state ts s out) x (abs_state ts s' out'))"
  using assms(2)
proof (cases rule: work_step.cases)
  case (hand_out sb t)
  with hand_out_step [OF assms(3)] show ?thesis by simp
next
  case (report r)
  show ?thesis
  proof (cases "res_success r")
    case True
    with success_step [OF assms(1,3)] report show ?thesis by simp
  next
    case False
    with failure_step [OF assms(1,3), of "res_task_id r"] report show ?thesis
      by (simp add: handle_task_completion_def Let_def)
  qed
next
  case (report_failure t e)
  with failure_step [OF assms(1,3), of t] show ?thesis by (simp add: handle_task_failure_def Let_def)
next
  case (mark t ag)
  then show ?thesis using sched_inv_same [OF assms(3), of s'] by (simp add: mark_task_started_def)
next
  case (register ag)
  then show ?thesis using sched_inv_same [OF assms(3), of s'] by (simp add: register_idle_agent_def)
next
  case (take_agent sb ag)
  then consider "s' = s" | f where "s' = s\<lparr> sr_idle := f \<rparr>"
    by (auto simp: get_idle_agent_def split: option.splits list.splits)
  then show ?thesis using sched_inv_same [OF assms(3), of s'] take_agent by cases simp_all
qed

lemma work_run_refines:
  assumes "graph_ok ts" and "work_run (new_scheduler ts hints, {}) tr (s, out)"
  shows "sched_inv ts hints [] [] s out
    \<and> dag_run (deps_in ts) (all_pending (task_ids_of ts)) tr (abs_state ts s out)"
  using assms(2)
proof (induction tr "(s, out)" arbitrary: s out rule: work_run.induct)
  case work_refl
  then show ?case
    using sched_inv_new [OF assms(1), of hints] by (simp add: abs_state_new dag_run.run_refl)
next
  case (work_snoc tr c a)
  obtain s1 out1 where c: "c = (s1, out1)" by fastforce
  note ih = work_snoc.hyps(2) [OF c]
  note st = work_step_refines [OF assms(1) work_snoc.hyps(3) [unfolded c] conjunct1 [OF ih]]
  show ?case
  proof (cases a)
    case None
    with st ih show ?thesis by simp
  next
    case (Some x)
    with st ih show ?thesis by (auto intro: dag_run.run_step)
  qed
qed


section \<open>When there is nothing left to do\<close>

definition depends :: "agent_task list \<Rightarrow> (work_id \<times> work_id) set" where
  "depends ts = {(t, d). t \<in> task_ids_of ts \<and> d \<in> set (deps_in ts t)}"

lemma doomed_reaches_failed:
  assumes "skip_inv ts [] s" and "graph_ok ts" and "t \<in> sr_skipped s"
  shows "\<exists>f\<in>failed_ids s. (t, f) \<in> (depends ts)\<^sup>+"
proof -
  have "wf ((depends ts)\<inverse>)"
  proof -
    have "depends ts \<subseteq> (\<Union>t\<in>task_ids_of ts. {t} \<times> set (deps_in ts t))" by (auto simp: depends_def)
    then have "finite (depends ts)" by (rule finite_subset) auto
    moreover have "acyclic (depends ts)" using assms(2) by (simp add: graph_ok_def depends_def)
    ultimately show ?thesis by (simp add: finite_acyclic_wf_converse)
  qed
  then show ?thesis
    using assms(3)
  proof (induction t rule: wf_induct_rule)
    case (less t)
    then have "t \<in> doomed ts s" using assms(1) by (auto simp: skip_inv_def)
    then obtain d where d: "(t, d) \<in> depends ts" "d \<in> failed_ids s \<union> sr_skipped s"
      by (auto simp: doomed_def depends_def)
    show ?case
    proof (cases "d \<in> failed_ids s")
      case True
      with d(1) show ?thesis by blast
    next
      case False
      with d less.IH [of d] obtain f where "f \<in> failed_ids s" "(d, f) \<in> (depends ts)\<^sup>+" by auto
      with d(1) show ?thesis by (meson trancl_into_trancl2)
    qed
  qed
qed

lemma failed_dooms:
  assumes "skip_inv ts [] s" and "(t, f) \<in> (depends ts)\<^sup>+" and "f \<in> failed_ids s"
  shows "t \<in> sr_skipped s"
  using assms(2)
proof (induction rule: converse_trancl_induct)
  case (base t)
  with assms(1,3) show ?case by (auto simp: skip_inv_def doomed_def depends_def)
next
  case (step t d)
  with assms(1) show ?case by (auto simp: skip_inv_def doomed_def depends_def)
qed

lemma drained_quiescent:
  assumes "sched_inv ts hints [] [] s {}" and "\<forall>sb. lookup_list (sr_queues s) sb = []"
  shows "task_ids_of ts \<subseteq> sr_completed s \<union> failed_ids s \<union> sr_skipped s \<or> \<not> graph_ok ts"
proof -
  note I = sched_invD [OF assms(1)]
  have "ready_set ts [] s {} = {}"
    using queue_invD(2) [OF I(3)] assms(2) by fastforce
  have "x \<in> sr_completed s \<union> failed_ids s \<union> sr_skipped s" if ok: "graph_ok ts" and x: "x \<in> task_ids_of ts" for x
  proof (rule ccontr)
    assume nx: "x \<notin> sr_completed s \<union> failed_ids s \<union> sr_skipped s"
    define S where "S = task_ids_of ts - (sr_completed s \<union> failed_ids s \<union> sr_skipped s)"
    have "\<exists>d\<in>S. (y, d) \<in> depends ts" if y: "y \<in> S" for y
    proof -
      from y \<open>ready_set ts [] s {} = {}\<close> have "\<not> set (deps_in ts y) \<subseteq> sr_completed s"
        by (auto simp: S_def ready_set_def)
      then obtain d where d: "d \<in> set (deps_in ts y)" "d \<notin> sr_completed s" by blast
      have "d \<in> task_ids_of ts" using known_dep [OF ok _ d(1)] y by (simp add: S_def)
      moreover have "d \<notin> failed_ids s \<union> sr_skipped s"
        using y d(1) I(4) by (auto simp: S_def skip_inv_def doomed_def)
      ultimately show ?thesis using d y by (auto simp: S_def depends_def)
    qed
    then have "\<not> acyclic (depends ts)"
      using stuck_set_cyclic [of S "depends ts"] x nx by (auto simp: S_def)
    then show False using ok by (simp add: graph_ok_def depends_def)
  qed
  then show ?thesis by blast
qed

lemma sched_parts:
  assumes "sched_inv ts hints [] [] s out"
  shows "out \<union> sr_completed s \<union> failed_ids s \<union> sr_skipped s \<subseteq> task_ids_of ts"
    and "out \<inter> (sr_completed s \<union> failed_ids s \<union> sr_skipped s) = {}"
    and "sr_completed s \<inter> failed_ids s = {}" and "(sr_completed s \<union> failed_ids s) \<inter> sr_skipped s = {}"
proof -
  note I = sched_invD [OF assms]
  have sk: "sr_skipped s = doomed ts s" using I(4) by (auto simp: skip_inv_def)
  then have "sr_skipped s \<subseteq> task_ids_of ts" by (auto simp: doomed_def)
  moreover have D: "(task_ids_of ts - (out \<union> sr_completed s \<union> failed_ids s)) \<union> out \<union> sr_completed s \<union> failed_ids s
        = task_ids_of ts"
      "out \<inter> (sr_completed s \<union> failed_ids s) = {}" "sr_completed s \<inter> failed_ids s = {}"
    using I(5) by (simp_all only: dag_inv_def abs_state_def dag_state.simps)
  ultimately show "out \<union> sr_completed s \<union> failed_ids s \<union> sr_skipped s \<subseteq> task_ids_of ts" by blast
  have nd: "x \<notin> out \<union> sr_completed s \<union> failed_ids s" if "x \<in> sr_skipped s" for x
    using doomed_not_done [OF I(5,4)] that sk by blast
  then show "(sr_completed s \<union> failed_ids s) \<inter> sr_skipped s = {}" by blast
  show "out \<inter> (sr_completed s \<union> failed_ids s \<union> sr_skipped s) = {}" using D(2) nd by blast
  show "sr_completed s \<inter> failed_ids s = {}" by (rule D(3))
qed

definition resolved_ids :: "scheduler \<Rightarrow> work_id set" where
  "resolved_ids s = sr_completed s \<union> failed_ids s \<union> sr_skipped s"

lemma resolved_sub:
  "sched_inv ts hints [] [] s out \<Longrightarrow> resolved_ids s \<subseteq> task_ids_of ts"
  unfolding resolved_ids_def by (drule sched_parts(1)) blast

lemma resolved_count:
  assumes "sched_inv ts hints [] [] s out"
  shows "card (sr_completed s) + length (sr_failed s) + card (sr_skipped s) = card (resolved_ids s)"
proof -
  have "finite (resolved_ids s)" using resolved_sub [OF assms] by (rule finite_subset) simp
  then have fin: "finite (sr_completed s)" "finite (failed_ids s)" "finite (sr_skipped s)"
    by (auto simp: resolved_ids_def)
  note disj = sched_parts(3,4) [OF assms]
  have "card (failed_ids s) = length (sr_failed s)"
    using sched_invD(1) [OF assms] distinct_card [of "map fst (sr_failed s)"] by (simp add: static_inv_def)
  then show ?thesis
    using card_Un_disjoint [OF fin(1,2) disj(1)] card_Un_disjoint [OF _ fin(3) disj(2)] fin
    by (simp add: resolved_ids_def)
qed

lemma card_ids: "graph_ok ts \<Longrightarrow> card (task_ids_of ts) = length ts"
  using distinct_card [of "map at_id ts"] by (simp add: graph_ok_def)

text \<open>The statistics say that all is done exactly when every task is resolved; then nothing is out or ready.\<close>

lemma all_resolved_iff:
  assumes "sched_inv ts hints [] [] s out" and "graph_ok ts"
  shows "sr_total s \<le> card (sr_completed s) + length (sr_failed s) + card (sr_skipped s)
     \<longleftrightarrow> resolved_ids s = task_ids_of ts"
proof -
  have tot: "sr_total s = card (task_ids_of ts)"
    using sched_invD(1) [OF assms(1)] card_ids [OF assms(2)] by (simp add: static_inv_def)
  show ?thesis
    unfolding resolved_count [OF assms(1)] tot
    using resolved_sub [OF assms(1)] by (metis List.finite_set card_seteq finite_imageI order_refl)
qed

lemma all_resolved_idle:
  assumes "sched_inv ts hints [] [] s out" and "resolved_ids s = task_ids_of ts"
  shows "out = {} \<and> (\<forall>sb. lookup_list (sr_queues s) sb = [])"
proof -
  note I = sched_invD [OF assms(1)]
  have "out = {}" using sched_parts(1,2) [OF assms(1)] assms(2) by (auto simp: resolved_ids_def)
  moreover have "ready_set ts [] s out = {}" using assms(2) by (auto simp: ready_set_def resolved_ids_def)
  ultimately show ?thesis using queue_invD(2) [OF I(3)] by auto
qed

text \<open>
  When every task that was handed out has been reported and the queues are empty, the run is over:
  each task is completed, failed or skipped, the skipped ones are exactly those that depend, directly or
  through others, on a failed one, \<open>is_complete\<close> holds and the statistics account for all tasks.
\<close>

theorem drained_scheduler_resolved:
  assumes "graph_ok ts" and "work_run (new_scheduler ts hints, {}) tr (s, {})"
    and "\<And>sb. fst (get_ready_task sb s) = None"
  shows "task_ids_of ts = sr_completed s \<union> failed_ids s \<union> sr_skipped s
    \<and> sr_skipped s = {t. \<exists>f\<in>failed_ids s. (t, f) \<in> (depends ts)\<^sup>+}
    \<and> is_complete s
    \<and> ss_completed (get_stats s) + ss_failed (get_stats s) + ss_skipped (get_stats s) = ss_total (get_stats s)"
proof -
  have inv: "sched_inv ts hints [] [] s {}" using work_run_refines [OF assms(1,2)] by simp
  note I = sched_invD [OF inv]
  have q: "\<forall>sb. lookup_list (sr_queues s) sb = []" using assms(3) by (simp add: get_ready_task_None)
  have all: "resolved_ids s = task_ids_of ts"
    using drained_quiescent [OF inv q] assms(1) resolved_sub [OF inv] by (auto simp: resolved_ids_def)
  have "sr_skipped s = {t. \<exists>f\<in>failed_ids s. (t, f) \<in> (depends ts)\<^sup>+}"
    using doomed_reaches_failed [OF I(4) assms(1)] failed_dooms [OF I(4)] by blast
  moreover have "is_complete s"
  proof -
    have "sum_list (map (\<lambda>(_, q). length q) (sr_queues s)) = 0"
      using I(1) q sum_lengths_0 [of "sr_queues s"] by (simp add: static_inv_def)
    moreover have "resolved s t" if "(t, c) \<in> set (sr_counter s)" for t c
    proof -
      have "t \<in> fst ` set (sr_counter s)" using that by force
      then show ?thesis using I(1) all by (auto simp: static_inv_def resolved_def resolved_ids_def)
    qed
    ultimately show ?thesis by (auto simp: is_complete_def list_ex_iff)
  qed
  moreover have "ss_completed (get_stats s) + ss_failed (get_stats s) + ss_skipped (get_stats s) = ss_total (get_stats s)"
    using I(1) resolved_count [OF inv] all card_ids [OF assms(1)]
    by (simp add: get_stats_def Let_def static_inv_def)
  ultimately show ?thesis using all by (simp add: resolved_ids_def)
qed

section \<open>Retries\<close>

lemma unlock_skipped: "sr_skipped (fold unlock_task ts s) = sr_skipped s"
  by (induction ts arbitrary: s) (simp_all add: unlock_task_def Let_def split: option.split)

text \<open>
  A retry of a failed task puts it back into its queue, but when it succeeds this time, the tasks
  that were skipped because of its first failure stay skipped, and no retry can bring them back: they
  are not in \<open>failed\<close>.
\<close>

theorem retry_leaves_dependents_skipped:
  assumes "graph_ok ts" and "work_run (new_scheduler ts hints, {}) tr (s, out)" and "f \<in> failed_ids s"
    and "res_task_id r = f" and "res_success r"
  shows "fst (retry_task f s)
    \<and> f \<in> set (lookup_list (sr_queues (snd (retry_task f s))) (sandbox_hint hints f))
    \<and> sr_skipped (handle_task_completion r (snd (retry_task f s))) = sr_skipped s
    \<and> (\<forall>t\<in>sr_skipped s. \<not> fst (retry_task t (handle_task_completion r (snd (retry_task f s)))))"
proof -
  note I = sched_invD [OF conjunct1 [OF work_run_refines [OF assms(1,2)]]]
  have f: "f \<in> task_ids_of ts" "set (deps_in ts f) \<subseteq> sr_completed s"
    using I(5) assms(3) by (auto simp: dag_inv_def abs_state_def)
  obtain x where x: "x \<in> set ts" "at_id x = f" using f(1) by blast
  have g: "sr_graph s f = Some x" "deps_in ts f = at_deps x"
    using I(1) assms(1) x task_map_known [of ts x] deps_in_known [of ts x]
    by (simp_all add: static_inv_def graph_ok_def)
  have e: "map_of (sr_failed s) f \<noteq> None" using assms(3) by (simp add: map_of_eq_None_iff)
  have c: "map_of (sr_counter s) f \<noteq> None" using I(1) f(1) by (simp add: map_of_eq_None_iff static_inv_def)
  have n: "filter (\<lambda>d. d \<notin> sr_completed s) (at_deps x) = []"
    using f(2) g(2) by (auto simp: filter_empty_conv)
  define s1 where "s1 = s\<lparr> sr_failed := AList.delete f (sr_failed s),
    sr_counter := AList.update f 0 (sr_counter s),
    sr_queues := push_at (sandbox_hint hints f) f (sr_queues s) \<rparr>"
  have r: "retry_task f s = (True, s1)"
    using e c g n I(1) by (auto simp: retry_task_def Let_def static_inv_def s1_def)
  have kept: "sr_skipped (handle_task_completion r s1) = sr_skipped s1"
    using assms(5) by (simp add: handle_task_completion_def Let_def unlock_dependents_def unlock_skipped)
  have fl: "sr_failed (handle_task_completion r s1) = sr_failed s1"
  proof -
    have "sr_failed (fold unlock_task ds z) = sr_failed z" for ds z
      by (induction ds arbitrary: z) (simp_all add: unlock_task_def Let_def split: option.split)
    then show ?thesis using assms(5) by (simp add: handle_task_completion_def Let_def unlock_dependents_def)
  qed
  have "map_of (sr_failed s1) t = None" if "t \<in> sr_skipped s" for t
  proof -
    have "t \<notin> failed_ids s"
      using doomed_not_done [OF I(5,4)] I(4) that by (auto simp: skip_inv_def)
    then show ?thesis by (simp add: s1_def delete_conv' map_of_eq_None_iff)
  qed
  with r kept fl show ?thesis by (simp add: retry_task_def s1_def)
qed

section \<open>Instances\<close>

definition demo_tasks :: "agent_task list" where
  "demo_tasks = [\<lparr> at_id = ''a'', at_description = [], at_deps = [], at_hint = None \<rparr>,
     \<lparr> at_id = ''b'', at_description = [], at_deps = [''a''], at_hint = None \<rparr>]"

definition demo_report :: "work_id \<Rightarrow> bool \<Rightarrow> agent_result" where
  "demo_report t ok = \<lparr> res_task_id = t, res_success = ok, res_git_diff = None, res_error = None,
     res_checkpoint_log = [], res_timestamp = 0 \<rparr>"

lemma demo_tasks_ok: "graph_ok demo_tasks"
proof -
  have "{(t, d). t \<in> task_ids_of demo_tasks \<and> d \<in> set (deps_in demo_tasks t)} = {(''b'', ''a'')}"
    by (auto simp: demo_tasks_def deps_in_def task_map_def split: if_splits)
  moreover have "acyclic {(''b'', ''a'')}" by (simp add: acyclic_def) (auto elim: trancl.cases)
  ultimately show ?thesis by (simp add: graph_ok_def) (simp add: demo_tasks_def)
qed

lemma demo_failed_run:
  defines "s0 \<equiv> new_scheduler demo_tasks Map.empty"
  defines "s1 \<equiv> snd (get_ready_task ''default'' s0)"
  shows "work_run (s0, {}) [Spawn ''a'', Recv ''a'' False]
           (handle_task_completion (demo_report ''a'' False) s1, {})"
    and "''a'' \<in> failed_ids (handle_task_completion (demo_report ''a'' False) s1)"
    and "fst (get_ready_task sb (handle_task_completion (demo_report ''a'' False) s1)) = None"
proof -
  have s0: "get_ready_task ''default'' s0 = (Some ''a'', s1)"
    by (simp add: s1_def s0_def get_ready_task_def new_scheduler_def init_queues_def demo_tasks_def
        push_at_def sandbox_hint_def)
  have "work_run (s0, {}) ([] @ [Spawn ''a'']) (s1, {''a''})"
    using work_snoc [OF work_refl hand_out [OF s0]] by simp
  from work_snoc [OF this report [of "demo_report ''a'' False"]]
  show "work_run (s0, {}) [Spawn ''a'', Recv ''a'' False]
           (handle_task_completion (demo_report ''a'' False) s1, {})"
    by (simp add: demo_report_def)
  have "s1 = s0\<lparr> sr_queues := [(''default'', [])] \<rparr>"
    by (simp add: s1_def s0_def get_ready_task_def new_scheduler_def init_queues_def demo_tasks_def
        push_at_def sandbox_hint_def)
  then have "handle_task_completion (demo_report ''a'' False) s1
      = s0\<lparr> sr_queues := [(''default'', [])], sr_failed := [(''a'', ''Unknown error'')],
          sr_skipped := {''b''}, sr_results := [''a'' \<mapsto> demo_report ''a'' False] \<rparr>"
    by (simp add: handle_task_completion_def Let_def demo_report_def skip_dependents_def s0_def new_scheduler_def
        init_dependents_def demo_tasks_def push_at_def lookup_list_def resolved_def should_skip_def task_map_def
        skip_task_def)
  then show "''a'' \<in> failed_ids (handle_task_completion (demo_report ''a'' False) s1)"
    and "fst (get_ready_task sb (handle_task_completion (demo_report ''a'' False) s1)) = None"
    by (simp_all add: get_ready_task_def split: option.split)
qed



lemma drained_scheduler_resolved_witness:
  "\<exists>s. task_ids_of demo_tasks = sr_completed s \<union> failed_ids s \<union> sr_skipped s
    \<and> sr_skipped s = {t. \<exists>f\<in>failed_ids s. (t, f) \<in> (depends demo_tasks)\<^sup>+} \<and> is_complete s"
  using drained_scheduler_resolved [OF demo_tasks_ok demo_failed_run(1) demo_failed_run(3)] by blast

lemma retry_leaves_dependents_skipped_witness:
  "\<exists>s. fst (retry_task ''a'' s)
     \<and> sr_skipped (handle_task_completion (demo_report ''a'' True) (snd (retry_task ''a'' s))) = sr_skipped s"
  using retry_leaves_dependents_skipped [OF demo_tasks_ok demo_failed_run(1,2), of "demo_report ''a'' True"]
  by (auto simp: demo_report_def)

end
