(* ===== verification/Text_Tools.thy ===== *)
theory Text_Tools
  imports Prelude
begin

text \<open>
  String functions of the Rust standard library that the parts outside the orchestrator use: words
  separated by white space, and the parsing of decimal numbers with a bound.
\<close>

fun word_len :: "string \<Rightarrow> nat" where
  "word_len [] = 0"
| "word_len (c # s) = (if ws_len ws_seqs (c # s) \<noteq> 0 then 0 else Suc (word_len s))"

text \<open>\<open>str::split_whitespace\<close>.\<close>

function split_whitespace :: "string \<Rightarrow> string list" where
  "split_whitespace s =
     (let t = trim_start s; n = word_len t in
      if t = [] then [] else take (max n 1) t # split_whitespace (drop (max n 1) t))"
  by pat_completeness auto

termination
proof (relation "measure length")
  fix s t and n :: nat
  assume "t = trim_start s" "n = word_len t" "t \<noteq> []"
  moreover have "length (trim_start s) \<le> length s"
    unfolding trim_start_def by (rule suffix_length_le [OF suffix_trim_with])
  ultimately have "length t - max n 1 < length s"
    by (metis One_nat_def diff_less length_greater_0_conv less_le_trans max.strict_coboundedI2 zero_less_one)
  then show "(drop (max n 1) t, s) \<in> measure length" by simp
qed simp

declare split_whitespace.simps [simp del]

definition digit :: "char \<Rightarrow> bool" where
  "digit c \<longleftrightarrow> 48 \<le> (of_char c :: nat) \<and> (of_char c :: nat) \<le> 57"

text \<open>\<open>str::parse\<close> to an unsigned integer below \<open>bound\<close>.\<close>

definition parse_below :: "nat \<Rightarrow> string \<Rightarrow> nat option" where
  "parse_below bound s =
     (let ds = (case s of c # cs \<Rightarrow> if c = CHR ''+'' then cs else s | [] \<Rightarrow> []);
          n = fold (\<lambda>c n. 10 * n + (of_char c - 48)) ds (0 :: nat) in
      if ds \<noteq> [] \<and> list_all digit ds \<and> n < bound then Some n else None)"

text \<open>The three backquotes that open and close a block of code.\<close>

definition fence :: string where
  "fence = replicate 3 (CHR 0x60)"

lemma parse_below_bound: "parse_below b s = Some n \<Longrightarrow> n < b"
  by (auto simp: parse_below_def Let_def split: if_splits)

section \<open>Reading what was written\<close>

lemma digit_digit_char: "d < 10 \<Longrightarrow> digit (digit_char d)"
  by (simp add: digit_def digit_char_def)

lemma show_nat_digits: "list_all digit (show_nat n) \<and> show_nat n \<noteq> []"
proof (induction n rule: show_nat.induct)
  case (1 n)
  then show ?case by (subst (1 2) show_nat.simps) (simp add: digit_digit_char)
qed

lemma show_nat_no_char: "\<not> digit c \<Longrightarrow> c \<notin> set (show_nat n)"
  using show_nat_digits [of n] by (auto simp: list_all_iff)

lemma fold_show_nat: "fold (\<lambda>c n. 10 * n + (of_char c - 48)) (show_nat n) (0 :: nat) = n"
proof (induction n rule: show_nat.induct)
  case (1 n)
  then show ?case by (subst show_nat.simps) (auto simp: digit_char_def)
qed

lemma parse_below_show_nat: "n < b \<Longrightarrow> parse_below b (show_nat n) = Some n"
proof -
  assume n: "n < b"
  obtain c cs where s: "show_nat n = c # cs" using show_nat_digits [of n] by (cases "show_nat n") auto
  then have "c \<noteq> CHR ''+''" using show_nat_digits [of n] by (auto simp: digit_def)
  with s n show ?thesis
    using show_nat_digits [of n] fold_show_nat [of n] by (simp add: parse_below_def Let_def)
qed

text \<open>A search for a pattern finds the place where it was written, if its second character does not occur earlier.\<close>

lemma find_sub_fresh:
  assumes "p = c # d # q" and "d \<notin> set u" and "c \<noteq> d"
  shows "find_sub p (u @ p @ v) = Some (length u)"
  using assms(2)
proof (induction u)
  case Nil
  then show ?case by (simp add: assms(1))
next
  case (Cons x u)
  have "\<not> prefix p (x # u @ p @ v)"
    using Cons.prems assms(1,3) by (cases u) auto
  with Cons show ?case by simp
qed

lemma find_char_at: "c \<notin> set u \<Longrightarrow> find_sub [c] (u @ c # v) = Some (length u)"
  by (induction u) auto

lemma find_char_none: "c \<notin> set u \<Longrightarrow> find_sub [c] u = None"
  by (induction u) auto

lemma trim_end_plain: "plain_char (last s) \<Longrightarrow> trim_end s = s"
  by (simp add: trim_end_def trim_with.simps ws_len_plain hd_rev)

text \<open>The lines of a text that was put together from lines.\<close>

definition unlines :: "string list \<Rightarrow> string" where
  "unlines ls = concat (map (\<lambda>l. l @ [newline]) ls)"

definition plain_line :: "string \<Rightarrow> bool" where
  "plain_line l \<longleftrightarrow> newline \<notin> set l \<and> (l = [] \<or> last l \<noteq> CHR 0x0D)"

lemma plain_line_append: "newline \<notin> set u \<Longrightarrow> v \<noteq> [] \<Longrightarrow> plain_line v \<Longrightarrow> plain_line (u @ v)"
  by (auto simp: plain_line_def)

lemma split_char_cons: "c \<notin> set l \<Longrightarrow> split_char c (l @ c # s) = l # split_char c s"
  by (induction l) auto

lemma split_unlines: "list_all plain_line ls \<Longrightarrow> split_char newline (unlines ls) = ls @ [[]]"
  by (induction ls) (auto simp: unlines_def plain_line_def split_char_cons)

lemma str_lines_unlines: "list_all plain_line ls \<Longrightarrow> str_lines (unlines ls) = ls"
  by (simp add: str_lines_def split_unlines) (auto simp: list_all_iff plain_line_def strip_cr_def intro!: map_idI)

end
