(* ===== verification/Health.thy ===== *)
theory Health
  imports Complex_Main Text_Tools "HOL-Library.AList"
begin

text \<open>
  The health monitor of the daemon (\<open>agentd/src/orchestration/health.rs\<close>): heartbeats of agents, a
  circuit breaker per sandbox, and the resource limits. Times are seconds since the epoch, a parameter
  of the operations; \<open>saturating_sub\<close> on them is the subtraction of natural numbers.
\<close>

section \<open>State\<close>

datatype circuit_state = Closed | Open | HalfOpen

record circuit_breaker =
  cb_state :: circuit_state
  cb_consecutive :: nat
  cb_last_failure :: nat
  cb_total :: nat

definition new_breaker :: circuit_breaker where
  "new_breaker = \<lparr> cb_state = Closed, cb_consecutive = 0, cb_last_failure = 0, cb_total = 0 \<rparr>"

record health =
  hm_heartbeats :: "(string \<times> nat) list"
  hm_breakers :: "(string \<times> circuit_breaker) list"
  hm_heartbeat_timeout :: nat
  hm_threshold :: nat
  hm_recovery :: nat

record health_status =
  hs_total_agents :: nat
  hs_dead_agents :: "string list"
  hs_sandbox_states :: "(string \<times> circuit_state) list"
  hs_open_circuits :: nat

definition new_monitor :: "nat \<Rightarrow> nat \<Rightarrow> health" where
  "new_monitor timeout threshold = \<lparr> hm_heartbeats = [], hm_breakers = [],
     hm_heartbeat_timeout = timeout, hm_threshold = threshold, hm_recovery = 60 \<rparr>"

section \<open>Operations\<close>

definition heartbeat :: "nat \<Rightarrow> string \<Rightarrow> health \<Rightarrow> health" where
  "heartbeat now agent h = h\<lparr> hm_heartbeats := AList.update agent now (hm_heartbeats h) \<rparr>"

definition remove_agent :: "string \<Rightarrow> health \<Rightarrow> health" where
  "remove_agent agent h = h\<lparr> hm_heartbeats := AList.delete agent (hm_heartbeats h) \<rparr>"

definition breaker_of :: "string \<Rightarrow> health \<Rightarrow> circuit_breaker" where
  "breaker_of sb h = unwrap_or new_breaker (map_of (hm_breakers h) sb)"

definition set_breaker :: "string \<Rightarrow> circuit_breaker \<Rightarrow> health \<Rightarrow> health" where
  "set_breaker sb cb h = h\<lparr> hm_breakers := AList.update sb cb (hm_breakers h) \<rparr>"

definition record_failure :: "nat \<Rightarrow> string \<Rightarrow> health \<Rightarrow> health" where
  "record_failure now sb h =
     (let cb = breaker_of sb h;
          cb1 = cb\<lparr> cb_consecutive := cb_consecutive cb + 1, cb_total := cb_total cb + 1,
                    cb_last_failure := now \<rparr> in
      set_breaker sb
        (if hm_threshold h \<le> cb_consecutive cb1 then cb1\<lparr> cb_state := Open \<rparr> else cb1) h)"

definition record_success :: "string \<Rightarrow> health \<Rightarrow> health" where
  "record_success sb h =
     (let cb1 = (breaker_of sb h)\<lparr> cb_consecutive := 0 \<rparr> in
      set_breaker sb
        (if cb_state cb1 = HalfOpen \<or> cb_state cb1 = Open then cb1\<lparr> cb_state := Closed \<rparr> else cb1) h)"

definition is_sandbox_healthy :: "nat \<Rightarrow> string \<Rightarrow> health \<Rightarrow> bool \<times> health" where
  "is_sandbox_healthy now sb h =
     (case map_of (hm_breakers h) sb of
        None \<Rightarrow> (True, h)
      | Some cb \<Rightarrow>
          (case cb_state cb of
             Closed \<Rightarrow> (True, h)
           | HalfOpen \<Rightarrow> (True, h)
           | Open \<Rightarrow>
               (if hm_recovery h \<le> now - cb_last_failure cb
                then (True, set_breaker sb (cb\<lparr> cb_state := HalfOpen \<rparr>) h) else (False, h))))"

text \<open>The order is that of the hash map, here of the association list.\<close>

definition get_dead_agents :: "nat \<Rightarrow> health \<Rightarrow> string list" where
  "get_dead_agents now h =
     map fst (filter (\<lambda>(_, latest). hm_heartbeat_timeout h < now - latest) (hm_heartbeats h))"

definition get_status :: "nat \<Rightarrow> health \<Rightarrow> health_status" where
  "get_status now h = \<lparr> hs_total_agents = length (hm_heartbeats h), hs_dead_agents = get_dead_agents now h,
     hs_sandbox_states = map (\<lambda>(sb, cb). (sb, cb_state cb)) (hm_breakers h),
     hs_open_circuits = length (filter (\<lambda>(_, cb). cb_state cb = Open) (hm_breakers h)) \<rparr>"

section \<open>Resource limits\<close>

text \<open>
  The fields of \<open>SystemResources\<close> that the limits read; the load average is the rational that the
  floating point number stands for. The comparison of the share of open descriptors with \<open>0.8\<close> is
  exact here; on 32-bit counts the rounding of the division never moves a quotient across \<open>0.8\<close>.
\<close>

record resources =
  rs_available_memory :: nat
  rs_disk_available :: nat
  rs_open_fds :: u32
  rs_max_fds :: u32
  rs_load :: rat
  rs_cpu_cores :: u32

definition can_spawn_agent :: "resources \<Rightarrow> bool" where
  "can_spawn_agent r \<longleftrightarrow>
     \<not> rs_available_memory r < 100 * 1024 * 1024
     \<and> \<not> 4 * max (unat (rs_max_fds r)) 1 < 5 * unat (rs_open_fds r)
     \<and> \<not> rs_disk_available r < 1024 * 1024 * 1024
     \<and> \<not> of_nat (4 * unat (rs_cpu_cores r)) < rs_load r"

text \<open>\<open>max_fds - open_fds\<close> panics when it overflows (with overflow checks); casts to \<open>u32\<close> truncate.\<close>

definition max_recommended_agents :: "resources \<Rightarrow> u32 option" where
  "max_recommended_agents r =
     (let mem_limit = of_nat (rs_available_memory r div (50 * 1024 * 1024)) :: u32;
          disk_limit = of_nat (rs_disk_available r div (100 * 1024 * 1024)) :: u32 in
      if rs_max_fds r < rs_open_fds r then None
      else let free = rs_max_fds r - rs_open_fds r;
               fd_limit = (if free < 100 then 0 else free - 100) in
        Some (max (min (min mem_limit fd_limit) disk_limit) 1))"

definition parse_meminfo_kb :: "string \<Rightarrow> nat" where
  "parse_meminfo_kb line =
     (case drop 1 (split_whitespace line) of
        [] \<Rightarrow> 0
      | w # _ \<Rightarrow> unwrap_or 0 (parse_below (2 ^ 64) w))"

definition read_memory :: "string option \<Rightarrow> nat \<times> nat" where
  "read_memory info =
     (case info of
        None \<Rightarrow> (0, 0)
      | Some text \<Rightarrow>
          fold (\<lambda>line (total, available).
            if prefix ''MemTotal:'' line then (parse_meminfo_kb line * 1024, available)
            else if prefix ''MemAvailable:'' line then (total, parse_meminfo_kb line * 1024)
            else (total, available)) (str_lines text) (0, 0))"

section \<open>What a circuit breaker promises\<close>

text \<open>
  The history of a sandbox: failures and checks with their times, and successes. The abstract breaker
  counts the failures since the last success and the time of the last failure; it refuses work for
  sixty seconds after a failure that completes a row of \<open>threshold\<close>.
\<close>

datatype health_event = Failure nat | Success | Checked nat

fun apply_event :: "string \<Rightarrow> health_event \<Rightarrow> health \<Rightarrow> health" where
  "apply_event sb (Failure now) h = record_failure now sb h"
| "apply_event sb Success h = record_success sb h"
| "apply_event sb (Checked now) h = snd (is_sandbox_healthy now sb h)"

fun abstract_event :: "health_event \<Rightarrow> nat \<times> nat \<Rightarrow> nat \<times> nat" where
  "abstract_event (Failure now) (n, latest) = (Suc n, now)"
| "abstract_event Success (n, latest) = (0, latest)"
| "abstract_event (Checked now) (n, latest) = (n, latest)"

fun event_time :: "health_event \<Rightarrow> nat option" where
  "event_time (Failure now) = Some now"
| "event_time Success = None"
| "event_time (Checked now) = Some now"

definition times :: "health_event list \<Rightarrow> nat list" where
  "times es = concat (map (\<lambda>e. case event_time e of None \<Rightarrow> [] | Some n \<Rightarrow> [n]) es)"

definition breaker_inv :: "nat \<Rightarrow> string \<Rightarrow> health_event list \<Rightarrow> health \<Rightarrow> bool" where
  "breaker_inv threshold sb es h \<longleftrightarrow>
     (case fold abstract_event es (0, 0) of (n, latest) \<Rightarrow>
        hm_threshold h = threshold \<and> hm_recovery h = 60
        \<and> cb_consecutive (breaker_of sb h) = n \<and> cb_last_failure (breaker_of sb h) = latest
        \<and> (cb_state (breaker_of sb h) = Closed \<longleftrightarrow> n < threshold)
        \<and> (cb_state (breaker_of sb h) = HalfOpen \<longrightarrow> (\<exists>t\<in>set (times es). latest + 60 \<le> t)))"

lemma breaker_of_set [simp]: "breaker_of sb (set_breaker sb cb h) = cb"
  by (simp add: breaker_of_def set_breaker_def update_conv')

lemma set_breaker_fields [simp]:
  "hm_threshold (set_breaker sb cb h) = hm_threshold h" "hm_recovery (set_breaker sb cb h) = hm_recovery h"
  by (simp_all add: set_breaker_def)

lemma times_snoc [simp]:
  "times (es @ [e]) = times es @ (case event_time e of None \<Rightarrow> [] | Some n \<Rightarrow> [n])"
  by (simp add: times_def)

lemma last_failure_time:
  "fold abstract_event es (0, 0) = (n, latest) \<Longrightarrow> latest = 0 \<or> latest \<in> set (times es)"
proof (induction es arbitrary: n latest rule: rev_induct)
  case (snoc e es)
  then show ?case by (cases e; cases "fold abstract_event es (0, 0)") auto
qed simp

lemma breaker_inv_step:
  assumes "breaker_inv threshold sb es h" and "0 < threshold"
  shows "breaker_inv threshold sb (es @ [e]) (apply_event sb e h)"
proof -
  obtain n latest where a: "fold abstract_event es (0, 0) = (n, latest)" by fastforce
  note I = assms(1) [unfolded breaker_inv_def a prod.case]
  show ?thesis
  proof (cases e)
    case (Failure now)
    then show ?thesis
      using I a by (auto simp: breaker_inv_def record_failure_def Let_def not_le)
  next
    case Success
    then show ?thesis
      using I a assms(2) by (cases "cb_state (breaker_of sb h)")
        (auto simp: breaker_inv_def record_success_def Let_def)
  next
    case (Checked now)
    show ?thesis
    proof (cases "map_of (hm_breakers h) sb")
      case None
      then show ?thesis using I a Checked
        by (auto simp: breaker_inv_def is_sandbox_healthy_def)
    next
      case (Some cb)
      then have cb: "breaker_of sb h = cb" by (simp add: breaker_of_def)
      show ?thesis
        using I a Checked Some
        by (cases "cb_state cb") (auto simp: breaker_inv_def is_sandbox_healthy_def cb)
    qed
  qed
qed

lemma breaker_inv_history:
  assumes "0 < threshold"
  shows "breaker_inv threshold sb es (fold (apply_event sb) es (new_monitor timeout threshold))"
proof (induction es rule: rev_induct)
  case Nil
  show ?case
    using assms by (simp add: breaker_inv_def new_monitor_def breaker_of_def new_breaker_def times_def)
next
  case (snoc e es)
  from breaker_inv_step [OF this assms] show ?case by simp
qed

text \<open>
  C20. After any history of a sandbox under a clock that does not run backwards, work is refused at time
  \<open>now\<close> exactly when at least \<open>threshold\<close> failures have followed the last success and the last of them is
  less than sixty seconds old. In particular, after that minute every request is admitted, not one
  probe, until the next failure is recorded.
\<close>

theorem circuit_breaker_spec:
  assumes "0 < threshold" and "sorted (times es @ [now])"
    and "fold abstract_event es (0, 0) = (n, latest)"
  shows "fst (is_sandbox_healthy now sb (fold (apply_event sb) es (new_monitor timeout threshold)))
     \<longleftrightarrow> \<not> (threshold \<le> n \<and> now < latest + 60)"
proof -
  let ?h = "fold (apply_event sb) es (new_monitor timeout threshold)"
  have I: "hm_threshold ?h = threshold" "hm_recovery ?h = 60"
      "cb_consecutive (breaker_of sb ?h) = n" "cb_last_failure (breaker_of sb ?h) = latest"
      "cb_state (breaker_of sb ?h) = Closed \<longleftrightarrow> n < threshold"
      "cb_state (breaker_of sb ?h) = HalfOpen \<longrightarrow> (\<exists>t\<in>set (times es). latest + 60 \<le> t)"
    using breaker_inv_history [OF assms(1), of sb es timeout] assms(3) by (simp_all add: breaker_inv_def)
  have le: "latest \<le> now"
    using last_failure_time [OF assms(3)] assms(2) by (auto simp: sorted_append)
  show ?thesis
  proof (cases "map_of (hm_breakers ?h) sb")
    case None
    then have "cb_state (breaker_of sb ?h) = Closed" by (simp add: breaker_of_def new_breaker_def)
    with I None show ?thesis by (simp add: is_sandbox_healthy_def)
  next
    case (Some cb)
    then have cb: "breaker_of sb ?h = cb" by (simp add: breaker_of_def)
    show ?thesis
    proof (cases "cb_state cb")
      case HalfOpen
      with I(6) cb obtain t where "t \<in> set (times es)" "latest + 60 \<le> t" by auto
      with assms(2) have "latest + 60 \<le> now" by (fastforce simp: sorted_append)
      with HalfOpen Some show ?thesis by (simp add: is_sandbox_healthy_def)
    next
      case Open
      with I cb have "threshold \<le> n" by (metis circuit_state.distinct(1) not_le)
      with Open Some I(2,4) cb le show ?thesis by (auto simp: is_sandbox_healthy_def)
    qed (use I(5) cb Some in \<open>simp add: is_sandbox_healthy_def\<close>)
  qed
qed

lemma circuit_breaker_spec_witness:
  "\<not> fst (is_sandbox_healthy 30 ''s'' (fold (apply_event ''s'') [Failure 10, Failure 20] (new_monitor 300 2)))"
  using circuit_breaker_spec [of 2 "[Failure 10, Failure 20]" 30 2 20 "''s''" 300]
  by (simp add: times_def)

end
