(* ===== verification/Worker_Pool.thy ===== *)
theory Worker_Pool
  imports Scheduler Health "HOL-Library.Multiset"
begin

text \<open>
  The fourth layer of the daemon's orchestrator (\<open>agentd/src/orchestration/new_orchestrator.rs\<close>): a pool
  of workers that take ready tasks from the scheduler, ask the health monitor, start agents, run them and
  report. The workers interleave at the calls they make; which worker moves, the clock, and the
  outcomes of starting and running an agent are not determined.
\<close>

section \<open>State\<close>

text \<open>
  A worker looks at the sandbox with index \<open>i\<close> (\<open>found\<close> is \<open>task_found\<close>), runs a task it took from
  that sandbox, or has left its loop.
\<close>

datatype worker = Looking nat bool | Running nat work_id agent_handle | Gone

record agent_work_result =
  aw_result :: agent_result
  aw_description :: string

record pool =
  po_sched :: scheduler
  po_health :: health
  po_errors :: "string list"
  po_count :: nat
  po_results :: "(sandbox_name \<times> agent_work_result list) list"
  po_workers :: "worker list"

datatype pool_act = Took work_id | Dropped work_id | Reported work_id bool | Internal

definition new_pool ::
  "agent_task list \<Rightarrow> (work_id \<rightharpoonup> sandbox_name) \<Rightarrow> nat \<Rightarrow> pool" where
  "new_pool ts hints max_agents = \<lparr> po_sched = new_scheduler ts hints, po_health = new_monitor 300 5,
     po_errors = [], po_count = 0, po_results = [],
     po_workers = replicate (min max_agents 1000) (Looking 0 False) \<rparr>"

abbreviation set_worker :: "nat \<Rightarrow> worker \<Rightarrow> pool \<Rightarrow> pool" where
  "set_worker w x p \<equiv> p\<lparr> po_workers := (po_workers p)[w := x] \<rparr>"

section \<open>Parts of a worker's loop\<close>

definition task_text :: "scheduler \<Rightarrow> work_id \<Rightarrow> string" where
  "task_text s t = unwrap_or ''Unknown task'' (get_task_description s t)"

definition all_done :: "scheduler_stats \<Rightarrow> bool" where
  "all_done st \<longleftrightarrow> ss_total st \<le> ss_completed st + ss_failed st + ss_skipped st"

definition worker_msg :: "nat \<Rightarrow> string \<Rightarrow> string" where
  "worker_msg w m = ''[Worker '' @ show_nat w @ ''] '' @ m"

definition fail_result :: "work_id \<Rightarrow> string \<Rightarrow> u64 \<Rightarrow> agent_result" where
  "fail_result t msg now = \<lparr> res_task_id = t, res_success = False, res_git_diff = None,
     res_error = Some msg, res_checkpoint_log = [], res_timestamp = now \<rparr>"

definition start_failed :: "nat \<Rightarrow> string \<Rightarrow> pool \<Rightarrow> pool" where
  "start_failed w e p =
     p\<lparr> po_errors := po_errors p @ [worker_msg w (''Failed to create agent: '' @ e)] \<rparr>"

definition start_agent :: "nat \<Rightarrow> work_id \<Rightarrow> agent_handle \<Rightarrow> pool \<Rightarrow> pool" where
  "start_agent now t a p = p\<lparr> po_count := po_count p + 1,
     po_health := heartbeat now (ah_agent_id a) (po_health p),
     po_sched := mark_task_started t a (po_sched p) \<rparr>"

definition run_failed :: "nat \<Rightarrow> work_id \<Rightarrow> string \<Rightarrow> u64 \<Rightarrow> pool \<Rightarrow> pool" where
  "run_failed w t e stamp p =
     (let msg = worker_msg w (''Task '' @ [CHR 0x27] @ task_text (po_sched p) t @ [CHR 0x27] @ '' failed: '' @ e) in
      p\<lparr> po_errors := po_errors p @ [msg],
         po_sched := handle_task_completion (fail_result t msg stamp) (po_sched p) \<rparr>)"

definition run_ended :: "nat \<Rightarrow> sandbox_name \<Rightarrow> agent_handle \<Rightarrow> agent_result \<Rightarrow> pool \<Rightarrow> pool" where
  "run_ended now sb a r p =
     (let h = (if res_success r then record_success sb (po_health p) else record_failure now sb (po_health p)) in
      p\<lparr> po_sched := handle_task_completion r (po_sched p),
         po_health := remove_agent (ah_agent_id a) h,
         po_results := push_at sb \<lparr> aw_result = r, aw_description = task_text (po_sched p) (res_task_id r) \<rparr>
           (po_results p) \<rparr>)"

section \<open>Steps\<close>

text \<open>
  \<open>wake_or_create_agent_layer\<close> hands out an agent for the task in the sandbox or fails; \<open>execute_task\<close>
  returns a result for the agent's task or fails. A worker that drops a task goes on to the next
  sandbox, as does one whose run failed; one that has reported a result starts over.
\<close>

inductive pool_step :: "sandbox_name list \<Rightarrow> pool \<Rightarrow> pool_act \<Rightarrow> pool \<Rightarrow> bool"
  for sbs :: "sandbox_name list"
where
  no_task: "w < length (po_workers p) \<Longrightarrow> po_workers p ! w = Looking i found \<Longrightarrow> i < length sbs
    \<Longrightarrow> get_ready_task (sbs ! i) (po_sched p) = (None, s')
    \<Longrightarrow> pool_step sbs p Internal (set_worker w (Looking (Suc i) found) p)"
| circuit_open: "w < length (po_workers p) \<Longrightarrow> po_workers p ! w = Looking i found \<Longrightarrow> i < length sbs
    \<Longrightarrow> get_ready_task (sbs ! i) (po_sched p) = (Some t, s')
    \<Longrightarrow> is_sandbox_healthy now (sbs ! i) (po_health p) = (False, h')
    \<Longrightarrow> pool_step sbs p (Dropped t)
          (set_worker w (Looking (Suc i) True) (p\<lparr> po_sched := s', po_health := h' \<rparr>))"
| no_agent: "w < length (po_workers p) \<Longrightarrow> po_workers p ! w = Looking i found \<Longrightarrow> i < length sbs
    \<Longrightarrow> get_ready_task (sbs ! i) (po_sched p) = (Some t, s')
    \<Longrightarrow> is_sandbox_healthy now (sbs ! i) (po_health p) = (True, h')
    \<Longrightarrow> pool_step sbs p (Dropped t)
          (set_worker w (Looking (Suc i) True) (start_failed w e (p\<lparr> po_sched := s', po_health := h' \<rparr>)))"
| agent: "w < length (po_workers p) \<Longrightarrow> po_workers p ! w = Looking i found \<Longrightarrow> i < length sbs
    \<Longrightarrow> get_ready_task (sbs ! i) (po_sched p) = (Some t, s')
    \<Longrightarrow> is_sandbox_healthy now (sbs ! i) (po_health p) = (True, h')
    \<Longrightarrow> ah_task_id a = Some t
    \<Longrightarrow> pool_step sbs p (Took t)
          (set_worker w (Running i t a) (start_agent now t a (p\<lparr> po_sched := s', po_health := h' \<rparr>)))"
| run_error: "w < length (po_workers p) \<Longrightarrow> po_workers p ! w = Running i t a
    \<Longrightarrow> pool_step sbs p (Reported t False) (set_worker w (Looking (Suc i) True) (run_failed w t e stamp p))"
| run_result: "w < length (po_workers p) \<Longrightarrow> po_workers p ! w = Running i t a
    \<Longrightarrow> res_task_id r = unwrap_or [] (ah_task_id a)
    \<Longrightarrow> pool_step sbs p (Reported (res_task_id r) (res_success r))
          (set_worker w (Looking 0 False) (run_ended now (sbs ! i) a r p))"
| start_over: "w < length (po_workers p) \<Longrightarrow> po_workers p ! w = Looking (length sbs) found
    \<Longrightarrow> found \<or> \<not> all_done (get_stats (po_sched p))
    \<Longrightarrow> pool_step sbs p Internal (set_worker w (Looking 0 False) p)"
| leave: "w < length (po_workers p) \<Longrightarrow> po_workers p ! w = Looking (length sbs) False
    \<Longrightarrow> all_done (get_stats (po_sched p))
    \<Longrightarrow> pool_step sbs p Internal (set_worker w Gone p)"

inductive pool_run :: "sandbox_name list \<Rightarrow> pool \<Rightarrow> pool_act list \<Rightarrow> pool \<Rightarrow> bool"
  for sbs :: "sandbox_name list" and p0 :: pool
where
  pool_refl: "pool_run sbs p0 [] p0"
| pool_snoc: "pool_run sbs p0 tr p \<Longrightarrow> pool_step sbs p a p' \<Longrightarrow> pool_run sbs p0 (tr @ [a]) p'"

text \<open>The task that reports the statistics ends only when there are tasks and all are done.\<close>

definition stats_loop_ends :: "scheduler_stats \<Rightarrow> bool" where
  "stats_loop_ends st \<longleftrightarrow> all_done st \<and> 0 < ss_total st"

section \<open>The pool drives the scheduler\<close>

fun sched_act :: "pool_act \<Rightarrow> work_id act list" where
  "sched_act (Took t) = [Spawn t]"
| "sched_act (Dropped t) = [Spawn t]"
| "sched_act (Reported t ok) = [Recv t ok]"
| "sched_act Internal = []"

definition dropped :: "pool_act list \<Rightarrow> work_id set" where
  "dropped tr = {t. Dropped t \<in> set tr}"

definition workers_inv :: "sandbox_name list \<Rightarrow> pool \<Rightarrow> bool" where
  "workers_inv sbs p \<longleftrightarrow> (\<forall>x\<in>set (po_workers p). case x of
     Looking i _ \<Rightarrow> i \<le> length sbs
   | Running i t a \<Rightarrow> i < length sbs \<and> ah_task_id a = Some t
   | Gone \<Rightarrow> True)"

definition worker_task :: "worker \<Rightarrow> work_id list" where
  "worker_task x = (case x of Running _ t _ \<Rightarrow> [t] | _ \<Rightarrow> [])"

lemma worker_task_simps [simp]:
  "worker_task (Looking i f) = []" "worker_task (Running i t a) = [t]" "worker_task Gone = []"
  by (simp_all add: worker_task_def)

definition held :: "worker list \<Rightarrow> work_id list" where
  "held ws = concat (map worker_task ws)"

lemma held_set_worker:
  assumes "w < length ws"
  shows "mset (held (ws[w := x])) + mset (worker_task (ws ! w))
     = mset (held ws) + mset (worker_task x)"
proof -
  have "mset (concat (map worker_task (take w ws @ y # drop (Suc w) ws)))
      = mset (concat (map worker_task (take w ws))) + mset (worker_task y)
        + mset (concat (map worker_task (drop (Suc w) ws)))" for y
    by (simp add: held_def)
  from this [of x] this [of "ws ! w"] show ?thesis
    using assms by (simp add: held_def upd_conv_take_nth_drop id_take_nth_drop [symmetric])
qed

text \<open>
  \<open>pool_inv\<close>: the scheduler of the pool is in a state of a run of the scheduler, and the tasks it has
  handed out are those the workers hold and those they have dropped.
\<close>

definition pool_inv :: "agent_task list \<Rightarrow> (work_id \<rightharpoonup> sandbox_name) \<Rightarrow> sandbox_name list
    \<Rightarrow> pool_act list \<Rightarrow> pool \<Rightarrow> bool" where
  "pool_inv ts hints sbs tr p \<longleftrightarrow>
     work_run (new_scheduler ts hints, {}) (concat (map sched_act tr))
       (po_sched p, set (held (po_workers p)) \<union> dropped tr)
     \<and> distinct (held (po_workers p))
     \<and> set (held (po_workers p)) \<inter> dropped tr = {}
     \<and> workers_inv sbs p
     \<and> (\<forall>t. Took t \<in> set tr \<or> Dropped t \<in> set tr \<longrightarrow> sandbox_hint hints t \<in> set sbs)
     \<and> (Gone \<in> set (po_workers p) \<longrightarrow> resolved_ids (po_sched p) = task_ids_of ts)"

lemma held_changes:
  assumes "w < length ws" and "distinct (held ws)"
  shows "worker_task (ws ! w) = [] \<Longrightarrow> worker_task x = [] \<Longrightarrow>
      set (held (ws[w := x])) = set (held ws)
      \<and> distinct (held (ws[w := x]))"
    and "worker_task (ws ! w) = [] \<Longrightarrow> worker_task x = [t] \<Longrightarrow> t \<notin> set (held ws) \<Longrightarrow>
      set (held (ws[w := x])) = insert t (set (held ws))
      \<and> distinct (held (ws[w := x]))"
    and "worker_task (ws ! w) = [t] \<Longrightarrow> worker_task x = [] \<Longrightarrow>
      t \<in> set (held ws)
      \<and> set (held (ws[w := x])) = set (held ws) - {t}
      \<and> distinct (held (ws[w := x]))"
proof -
  let ?h = held
  note m = held_set_worker [OF assms(1), of x]
  show "set (?h (ws[w := x])) = set (?h ws) \<and> distinct (?h (ws[w := x]))"
    if "worker_task (ws ! w) = []" "worker_task x = []"
    using m that assms(2) mset_eq_setD mset_eq_imp_distinct_iff by (metis add.right_neutral mset.simps(1))
  show "set (?h (ws[w := x])) = insert t (set (?h ws)) \<and> distinct (?h (ws[w := x]))"
    if "worker_task (ws ! w) = []" "worker_task x = [t]" "t \<notin> set (?h ws)"
  proof -
    have "mset (?h (ws[w := x])) = mset (t # ?h ws)" using m that(1,2) by simp
    then show ?thesis using mset_eq_setD mset_eq_imp_distinct_iff that(3) assms(2)
      by (metis distinct.simps(2) list.simps(15))
  qed
  show "t \<in> set (?h ws) \<and> set (?h (ws[w := x])) = set (?h ws) - {t} \<and> distinct (?h (ws[w := x]))"
    if "worker_task (ws ! w) = [t]" "worker_task x = []"
  proof -
    have "mset (t # ?h (ws[w := x])) = mset (?h ws)" using m that by simp
    then have "set (t # ?h (ws[w := x])) = set (?h ws)" "distinct (t # ?h (ws[w := x]))"
      using mset_eq_setD mset_eq_imp_distinct_iff assms(2) by blast+
    then show ?thesis by auto
  qed
qed

lemma workers_inv_update:
  assumes "workers_inv sbs p" and "workers_inv sbs (p\<lparr> po_workers := [x] \<rparr>)"
    and "po_workers p' = (po_workers p)[w := x]"
  shows "workers_inv sbs p'"
  using assms set_update_subset_insert [of "po_workers p" w x]
  by (auto simp: workers_inv_def)

lemma work_run_snoc2:
  "work_run c0 tr c \<Longrightarrow> work_step c (Some a) c' \<Longrightarrow> work_run c0 (tr @ [a]) c'"
  using work_snoc [of c0 tr c "Some a" c'] by simp

lemma work_run_silent: "work_run c0 tr c \<Longrightarrow> work_step c None c' \<Longrightarrow> work_run c0 tr c'"
  using work_snoc [of c0 tr c None c'] by simp

lemma pool_inv_hand_out:
  assumes ok: "graph_ok ts" and inv: "pool_inv ts hints sbs tr p"
    and get: "get_ready_task sb (po_sched p) = (Some t, s')"
  defines "out \<equiv> set (held (po_workers p)) \<union> dropped tr"
  shows "work_run (new_scheduler ts hints, {}) (concat (map sched_act tr) @ [Spawn t]) (s', insert t out)
    \<and> t \<notin> out \<and> sandbox_hint hints t = sb \<and> Gone \<notin> set (po_workers p)"
proof -
  have r: "work_run (new_scheduler ts hints, {}) (concat (map sched_act tr)) (po_sched p, out)"
    using inv by (simp add: pool_inv_def out_def)
  have si: "sched_inv ts hints [] [] (po_sched p) out"
    using work_run_refines [OF ok r] by simp
  have q: "t \<in> set (lookup_list (sr_queues (po_sched p)) sb)"
    using get_ready_task_Some [OF get] by auto
  then have "t \<in> ready_set ts [] (po_sched p) out" "sandbox_hint hints t = sb"
    using queue_invD(2) [OF sched_invD(3) [OF si]] by blast+
  moreover have "Gone \<notin> set (po_workers p)"
    using all_resolved_idle [OF si] inv q by (auto simp: pool_inv_def)
  ultimately show ?thesis
    using work_run_snoc2 [OF r work_step.hand_out [OF get]] by (auto simp: ready_set_def)
qed

lemma pool_inv_report:
  assumes ok: "graph_ok ts" and inv: "pool_inv ts hints sbs tr p"
    and w: "w < length (po_workers p)" and run: "po_workers p ! w = Running i t a"
    and r: "res_task_id r = t" and x: "worker_task x = []" "x \<noteq> Gone"
      "workers_inv sbs (p\<lparr> po_workers := [x] \<rparr>)"
    and p': "po_sched p' = handle_task_completion r (po_sched p)" "po_workers p' = (po_workers p)[w := x]"
  shows "pool_inv ts hints sbs (tr @ [Reported t (res_success r)]) p'"
proof -
  let ?ws = "po_workers p" and ?h = held
  have d: "distinct (?h ?ws)" "set (?h ?ws) \<inter> dropped tr = {}" using inv by (simp_all add: pool_inv_def)
  have h: "t \<in> set (?h ?ws)" "set (?h (?ws[w := x])) = set (?h ?ws) - {t}" "distinct (?h (?ws[w := x]))"
    using held_changes(3) [OF w d(1), of t x] run x(1) by simp_all
  have dr: "dropped (tr @ [Reported t (res_success r)]) = dropped tr" by (auto simp: dropped_def)
  have run0: "work_run (new_scheduler ts hints, {}) (concat (map sched_act tr)) (po_sched p, set (?h ?ws) \<union> dropped tr)"
    using inv by (simp add: pool_inv_def)
  have "set (?h ?ws) \<union> dropped tr - {t} = set (?h (?ws[w := x])) \<union> dropped tr"
    using h d(2) by blast
  moreover have "work_step (po_sched p, set (?h ?ws) \<union> dropped tr) (Some (Recv t (res_success r)))
      (handle_task_completion r (po_sched p), set (?h ?ws) \<union> dropped tr - {t})"
    using work_step.report [of r "set (?h ?ws) \<union> dropped tr" "po_sched p"] r h(1) by simp
  ultimately have "work_run (new_scheduler ts hints, {}) (concat (map sched_act tr) @ [Recv t (res_success r)])
      (po_sched p', set (?h (po_workers p')) \<union> dropped tr)"
    using work_run_snoc2 [OF run0] p' by simp
  then have run1: "work_run (new_scheduler ts hints, {}) (concat (map sched_act (tr @ [Reported t (res_success r)])))
      (po_sched p', set (held (po_workers p')) \<union> dropped (tr @ [Reported t (res_success r)]))"
    by (simp add: dr)
  have "Gone \<notin> set ?ws"
  proof
    assume "Gone \<in> set ?ws"
    then have "resolved_ids (po_sched p) = task_ids_of ts" using inv by (simp add: pool_inv_def)
    then have "set (?h ?ws) = {}"
      using all_resolved_idle [OF conjunct1 [OF work_run_refines [OF ok run0]]] by blast
    with h(1) show False by simp
  qed
  then have gone: "Gone \<notin> set (po_workers p')"
    using x(2) p'(2) set_update_subset_insert [of ?ws w x] by auto
  have wi: "workers_inv sbs p'"
    using workers_inv_update [OF _ x(3) p'(2)] inv by (simp add: pool_inv_def)
  have known: "\<forall>u. Took u \<in> set (tr @ [Reported t (res_success r)]) \<or> Dropped u \<in> set (tr @ [Reported t (res_success r)])
      \<longrightarrow> sandbox_hint hints u \<in> set sbs"
    using inv by (simp add: pool_inv_def)
  have disj: "set (held (po_workers p')) \<inter> dropped (tr @ [Reported t (res_success r)]) = {}"
    using h(2) d(2) p'(2) dr by auto
  have dist: "distinct (held (po_workers p'))" using h(3) p'(2) by simp
  show ?thesis
    unfolding pool_inv_def
    by (intro conjI run1 dist disj wi known) (use gone in blast)
qed

lemma pool_inv_take:
  assumes ok: "graph_ok ts" and inv: "pool_inv ts hints sbs tr p"
    and w: "w < length (po_workers p)" and look: "po_workers p ! w = Looking i found" and i: "i < length sbs"
    and get: "get_ready_task (sbs ! i) (po_sched p) = (Some t, s')"
    and a: "a = Took t \<and> x = Running i t ag \<and> ah_task_id ag = Some t
        \<and> po_sched p' = mark_task_started t ag s'
      \<or> a = Dropped t \<and> x = Looking (Suc i) True \<and> po_sched p' = s'"
    and p': "po_workers p' = (po_workers p)[w := x]"
  shows "pool_inv ts hints sbs (tr @ [a]) p'"
proof -
  let ?ws = "po_workers p" and ?h = held
  have d: "distinct (?h ?ws)" "set (?h ?ws) \<inter> dropped tr = {}" using inv by (simp_all add: pool_inv_def)
  note ho = pool_inv_hand_out [OF ok inv get]
  then have t: "t \<notin> set (?h ?ws)" "t \<notin> dropped tr" and gone: "Gone \<notin> set ?ws"
    and hint: "sandbox_hint hints t \<in> set sbs" using i by auto
  have gone': "Gone \<notin> set (po_workers p')"
    using a gone p' set_update_subset_insert [of ?ws w x] by auto
  have wi: "workers_inv sbs p'"
    using workers_inv_update [OF _ _ p', of sbs] inv a i by (auto simp: pool_inv_def workers_inv_def)
  from a show ?thesis
  proof (elim disjE conjE)
    assume a: "a = Took t" "x = Running i t ag" "po_sched p' = mark_task_started t ag s'"
    have h: "set (?h (?ws[w := x])) = insert t (set (?h ?ws))" "distinct (?h (?ws[w := x]))"
      using held_changes(2) [OF w d(1), of x t] look a(2) t(1) by simp_all
    have "dropped (tr @ [a]) = dropped tr" using a(1) by (auto simp: dropped_def)
    moreover have "work_run (new_scheduler ts hints, {}) (concat (map sched_act tr) @ [Spawn t])
        (po_sched p', insert t (set (?h ?ws) \<union> dropped tr))"
      using work_run_silent [OF conjunct1 [OF ho] work_step.mark [of s' _ t ag]] a(3) by simp
    ultimately show ?thesis
      using h t d(2) wi gone' hint inv p' a(1) by (auto simp: pool_inv_def)
  next
    assume a: "a = Dropped t" "x = Looking (Suc i) True" "po_sched p' = s'"
    have h: "set (?h (?ws[w := x])) = set (?h ?ws)" "distinct (?h (?ws[w := x]))"
      using held_changes(1) [OF w d(1), of x] look a(2) by simp_all
    have "dropped (tr @ [a]) = insert t (dropped tr)" using a(1) by (auto simp: dropped_def)
    then show ?thesis
      using conjunct1 [OF ho] h t d(2) wi gone' hint inv p' a by (auto simp: pool_inv_def)
  qed
qed

lemma pool_inv_internal:
  assumes inv: "pool_inv ts hints sbs tr p" and w: "w < length (po_workers p)"
    and x: "worker_task (po_workers p ! w) = []" "worker_task x = []" "workers_inv sbs (p\<lparr> po_workers := [x] \<rparr>)"
    and gone: "x = Gone \<Longrightarrow> resolved_ids (po_sched p) = task_ids_of ts"
  shows "pool_inv ts hints sbs (tr @ [Internal]) (set_worker w x p)"
proof -
  let ?h = held
  have h: "set (?h ((po_workers p)[w := x])) = set (?h (po_workers p))" "distinct (?h ((po_workers p)[w := x]))"
    using held_changes(1) [OF w _ x(1,2)] inv by (simp_all add: pool_inv_def)
  have "Gone \<in> set ((po_workers p)[w := x]) \<Longrightarrow> Gone \<in> set (po_workers p) \<or> x = Gone"
    using set_update_subset_insert [of "po_workers p" w x] by auto
  moreover have "dropped (tr @ [Internal]) = dropped tr" by (auto simp: dropped_def)
  moreover have "workers_inv sbs (set_worker w x p)"
    using workers_inv_update [OF _ x(3), of "set_worker w x p"] inv by (simp add: pool_inv_def)
  ultimately show ?thesis using inv h gone by (auto simp: pool_inv_def)
qed

lemma pool_inv_step:
  assumes ok: "graph_ok ts" and inv: "pool_inv ts hints sbs tr p" and "pool_step sbs p a p'"
  shows "pool_inv ts hints sbs (tr @ [a]) p'"
  using assms(3)
proof (cases rule: pool_step.cases)
  case (no_task w i found s')
  then show ?thesis
    using pool_inv_internal [OF inv no_task(3), of "Looking (Suc i) found"] by (simp add: workers_inv_def)
next
  case (circuit_open w i found t s' now h')
  then show ?thesis
    by (intro pool_inv_take [OF ok inv circuit_open(3-6), where x = "Looking (Suc i) True"]) simp_all
next
  case (no_agent w i found t s' now h' e)
  then show ?thesis
    by (intro pool_inv_take [OF ok inv no_agent(3-6), where x = "Looking (Suc i) True"])
       (simp_all add: start_failed_def)
next
  case (agent w i found t s' now h' ag)
  then show ?thesis
    by (intro pool_inv_take [OF ok inv agent(3-6), where x = "Running i t ag" and ag = ag])
       (simp_all add: start_agent_def)
next
  case (run_error w i t ag e stamp)
  let ?r = "fail_result t (worker_msg w (''Task '' @ [CHR 0x27] @ task_text (po_sched p) t @ [CHR 0x27]
      @ '' failed: '' @ e)) stamp"
  have wi: "i < length sbs" using inv run_error(3,4) nth_mem [of w "po_workers p"]
    by (force simp: pool_inv_def workers_inv_def)
  have "pool_inv ts hints sbs (tr @ [Reported t (res_success ?r)]) p'"
    by (intro pool_inv_report [OF ok inv run_error(3,4), where x = "Looking (Suc i) True"])
       (use wi run_error(2) in \<open>simp_all add: run_failed_def Let_def fail_result_def workers_inv_def\<close>)
  then show ?thesis using run_error(1) by (simp add: fail_result_def)
next
  case (run_result w i t ag r now)
  have "ah_task_id ag = Some t" using inv run_result(3,4) nth_mem [of w "po_workers p"]
    by (force simp: pool_inv_def workers_inv_def)
  then have r: "res_task_id r = t" using run_result(5) by simp
  have "pool_inv ts hints sbs (tr @ [Reported t (res_success r)]) p'"
    by (intro pool_inv_report [OF ok inv run_result(3,4) r, where x = "Looking 0 False"])
       (use run_result(2) in \<open>simp_all add: run_ended_def Let_def workers_inv_def\<close>)
  then show ?thesis using run_result(1) r by simp
next
  case (start_over w found)
  then show ?thesis
    using pool_inv_internal [OF inv start_over(3), of "Looking 0 False"] by (simp add: workers_inv_def)
next
  case (leave w)
  have "work_run (new_scheduler ts hints, {}) (concat (map sched_act tr)) (po_sched p, set (held (po_workers p)) \<union> dropped tr)"
    using inv by (simp add: pool_inv_def)
  then have "sched_inv ts hints [] [] (po_sched p) (set (held (po_workers p)) \<union> dropped tr)"
    using work_run_refines [OF ok] by blast
  from all_resolved_iff [OF this ok] leave(5) have "resolved_ids (po_sched p) = task_ids_of ts"
    by (simp add: all_done_def get_stats_def Let_def)
  then show ?thesis
    using pool_inv_internal [OF inv leave(3), of Gone] leave by (simp add: workers_inv_def)
qed

lemma pool_inv_run:
  assumes "graph_ok ts" and "pool_run sbs (new_pool ts hints n) tr p"
  shows "pool_inv ts hints sbs tr p"
  using assms(2)
proof (induction rule: pool_run.induct)
  case pool_refl
  have "held (replicate m (Looking 0 False)) = []" for m by (induction m) (auto simp: held_def)
  then show ?case
    by (auto simp: pool_inv_def new_pool_def dropped_def workers_inv_def intro: work_run.work_refl)
next
  case (pool_snoc tr p a p')
  then show ?case using pool_inv_step [OF assms(1)] by blast
qed

section \<open>What the pool guarantees\<close>

lemma pool_invD:
  assumes "pool_inv ts hints sbs tr p" and "graph_ok ts"
  shows "sched_inv ts hints [] [] (po_sched p) (set (held (po_workers p)) \<union> dropped tr)"
    and "dag_run (deps_in ts) (all_pending (task_ids_of ts)) (concat (map sched_act tr))
      (abs_state ts (po_sched p) (set (held (po_workers p)) \<union> dropped tr))"
proof -
  have "work_run (new_scheduler ts hints, {}) (concat (map sched_act tr))
      (po_sched p, set (held (po_workers p)) \<union> dropped tr)"
    using assms(1) by (simp add: pool_inv_def)
  from work_run_refines [OF assms(2) this]
  show "sched_inv ts hints [] [] (po_sched p) (set (held (po_workers p)) \<union> dropped tr)"
    and "dag_run (deps_in ts) (all_pending (task_ids_of ts)) (concat (map sched_act tr))
      (abs_state ts (po_sched p) (set (held (po_workers p)) \<union> dropped tr))" by blast+
qed

lemma sched_act_simps:
  "Spawn t \<in> set (sched_act a) \<longleftrightarrow> a = Took t \<or> a = Dropped t"
  "Recv t ok \<in> set (sched_act a) \<longleftrightarrow> a = Reported t ok"
  by (cases a; auto)+

lemma in_sched_trace:
  "Spawn t \<in> set (concat (map sched_act tr)) \<longleftrightarrow> Took t \<in> set tr \<or> Dropped t \<in> set tr"
  "Recv t ok \<in> set (concat (map sched_act tr)) \<longleftrightarrow> Reported t ok \<in> set tr"
  by (auto simp: sched_act_simps)

text \<open>
  C21. However the workers interleave, whatever the clock says and however starting and running the
  agents turns out: a task is given to an agent at most once, never after it was dropped, and only when
  each of its dependencies has been reported successful before.
\<close>

theorem pool_respects_dependencies:
  assumes "graph_ok ts" and "pool_run sbs (new_pool ts hints n) (us @ Took t # vs) p"
  shows "Took t \<notin> set us \<and> Dropped t \<notin> set us \<and> (\<forall>d\<in>set (deps_in ts t). Reported d True \<in> set us)"
proof -
  have "dag_run (deps_in ts) (all_pending (task_ids_of ts))
      (concat (map sched_act us) @ Spawn t # concat (map sched_act vs))
      (abs_state ts (po_sched p) (set (held (po_workers p)) \<union> dropped (us @ Took t # vs)))"
    using pool_invD(2) [OF pool_inv_run [OF assms] assms(1)] by simp
  from dag_run_starts_once [OF this] show ?thesis unfolding in_sched_trace by blast
qed

text \<open>
  C22. A worker leaves only when every task is completed, failed or skipped, no task was lost (one that
  was taken from its queue while the circuit was open or whose agent could not be created) and every
  task whose hint names no sandbox of the topology was skipped. So one lost task, or one such
  task whose dependencies succeed, keeps all workers in their loops.
\<close>

theorem pool_exit_means_resolved:
  assumes "graph_ok ts" and "pool_run sbs (new_pool ts hints n) tr p" and "Gone \<in> set (po_workers p)"
  shows "task_ids_of ts = sr_completed (po_sched p) \<union> failed_ids (po_sched p) \<union> sr_skipped (po_sched p)
    \<and> dropped tr = {} \<and> held (po_workers p) = []
    \<and> {t \<in> task_ids_of ts. sandbox_hint hints t \<notin> set sbs} \<subseteq> sr_skipped (po_sched p)"
proof -
  note inv = pool_inv_run [OF assms(1,2)]
  note P = pool_invD [OF inv assms(1)]
  have all: "resolved_ids (po_sched p) = task_ids_of ts" using inv assms(3) by (simp add: pool_inv_def)
  have "set (held (po_workers p)) \<union> dropped tr = {}" using all_resolved_idle [OF P(1) all] by blast
  then have idle: "dropped tr = {}" "held (po_workers p) = []" by simp_all
  have hints: "sandbox_hint hints t \<in> set sbs" if "Took t \<in> set tr \<or> Dropped t \<in> set tr" for t
    using inv that unfolding pool_inv_def by blast
  have "t \<in> sr_skipped (po_sched p)" if t: "t \<in> task_ids_of ts" "sandbox_hint hints t \<notin> set sbs" for t
  proof (rule ccontr)
    assume "t \<notin> sr_skipped (po_sched p)"
    then have "t \<in> sr_completed (po_sched p) \<union> failed_ids (po_sched p)"
      using all t(1) by (auto simp: resolved_ids_def)
    then have "Spawn t \<in> set (concat (map sched_act tr))"
      using dag_run_trace [OF P(2)] t(1) by (auto simp: abs_state_def)
    then show False using hints [of t] t(2) by (simp only: in_sched_trace) blast
  qed
  then show ?thesis using all idle by (auto simp: resolved_ids_def)
qed

text \<open>
  As long as no task is lost and every hint names a sandbox of the topology, the pool cannot get stuck: while a
  task is unresolved all workers are in their loops, and one of them runs a task or a sandbox has a ready one.
\<close>

theorem pool_never_stuck:
  assumes "graph_ok ts" and "pool_run sbs (new_pool ts hints n) tr p" and "dropped tr = {}"
    and "sandbox_hint hints ` task_ids_of ts \<subseteq> set sbs" and "resolved_ids (po_sched p) \<noteq> task_ids_of ts"
  shows "Gone \<notin> set (po_workers p)
    \<and> ((\<exists>i t a. Running i t a \<in> set (po_workers p)) \<or> (\<exists>sb\<in>set sbs. fst (get_ready_task sb (po_sched p)) \<noteq> None))"
proof (intro conjI)
  note inv = pool_inv_run [OF assms(1,2)]
  note P = pool_invD [OF inv assms(1)]
  show "Gone \<notin> set (po_workers p)" using inv assms(5) by (auto simp: pool_inv_def)
  show "(\<exists>i t a. Running i t a \<in> set (po_workers p)) \<or> (\<exists>sb\<in>set sbs. fst (get_ready_task sb (po_sched p)) \<noteq> None)"
  proof (cases "held (po_workers p) = []")
    case True
    then have inv0: "sched_inv ts hints [] [] (po_sched p) {}" using P(1) assms(3) by simp
    have "\<not> (\<forall>sb. lookup_list (sr_queues (po_sched p)) sb = [])"
      using drained_quiescent [OF inv0] assms(1,5) resolved_sub [OF inv0] unfolding resolved_ids_def by blast
    then obtain sb t where q: "t \<in> set (lookup_list (sr_queues (po_sched p)) sb)" by (meson ex_in_conv set_empty)
    then have "t \<in> ready_set ts [] (po_sched p) {}" "sandbox_hint hints t = sb"
      using queue_invD(2) [OF sched_invD(3) [OF inv0]] by blast+
    then have "sb \<in> set sbs" using assms(4) by (auto simp: ready_set_def)
    moreover have "fst (get_ready_task sb (po_sched p)) \<noteq> None"
      using q by (auto simp: get_ready_task_None)
    ultimately show ?thesis by blast
  next
    case False
    then obtain x where x: "x \<in> set (po_workers p)" "worker_task x \<noteq> []" by (auto simp: held_def)
    obtain i t a where "x = Running i t a" using x(2) by (cases x) simp_all
    with x(1) show ?thesis by blast
  qed
qed

section \<open>Instances\<close>

definition demo_agent :: "work_id \<Rightarrow> agent_handle" where
  "demo_agent t = \<lparr> ah_agent_id = ''agent'', ah_sandbox_name = ''box'', ah_container_id = ''c'', ah_task_id = Some t,
     ah_layer = \<lparr> ol_level = LayerAgent, ol_mount_path = [], ol_upper_dir = [], ol_work_dir = [], ol_lower_dirs = [] \<rparr> \<rparr>"

abbreviation demo_pool :: pool where
  "demo_pool \<equiv> new_pool demo_tasks Map.empty 1"

abbreviation demo_took :: "work_id \<Rightarrow> pool \<Rightarrow> pool" where
  "demo_took t p \<equiv> set_worker 0 (Running 0 t (demo_agent t)) (start_agent 0 t (demo_agent t)
     (p\<lparr> po_sched := snd (get_ready_task ''default'' (po_sched p)),
        po_health := snd (is_sandbox_healthy 0 ''default'' (po_health p)) \<rparr>))"

lemma demo_take:
  assumes "pool_run [''default''] demo_pool tr p" and "po_workers p = [Looking 0 f]"
    and "fst (get_ready_task ''default'' (po_sched p)) = Some t"
    and "fst (is_sandbox_healthy 0 ''default'' (po_health p))"
  shows "pool_run [''default''] demo_pool (tr @ [Took t]) (demo_took t p)"
proof -
  have "pool_step [''default''] p (Took t) (demo_took t p)"
    using pool_step.agent [of 0 p 0 f "[''default'']" t "snd (get_ready_task ''default'' (po_sched p))" 0
        "snd (is_sandbox_healthy 0 ''default'' (po_health p))" "demo_agent t"] assms(2-4)
    by (simp add: demo_agent_def prod_eq_iff)
  with assms(1) show ?thesis by (rule pool_run.pool_snoc)
qed

lemma demo_queue:
  "get_ready_task ''default'' (new_scheduler demo_tasks Map.empty)
     = (Some ''a'', (new_scheduler demo_tasks Map.empty)\<lparr> sr_queues := [(''default'', [])] \<rparr>)"
  by (simp add: get_ready_task_def new_scheduler_def init_queues_def demo_tasks_def push_at_def sandbox_hint_def)

definition demo_busy :: pool where
  "demo_busy = demo_took ''a'' demo_pool"

lemma demo_take_a: "pool_run [''default''] demo_pool [Took ''a''] demo_busy"
  unfolding demo_busy_def
  using demo_take [OF pool_run.pool_refl, of False "''a''"] demo_queue
  by (simp add: new_pool_def is_sandbox_healthy_def new_monitor_def)

definition demo_started :: scheduler where
  "demo_started = (new_scheduler demo_tasks Map.empty)\<lparr> sr_queues := [(''default'', [])],
     sr_running := [(''a'', demo_agent ''a'')] \<rparr>"

lemma demo_took_a:
  "po_sched demo_busy = demo_started"
  "po_workers demo_busy = [Running 0 ''a'' (demo_agent ''a'')]"
  "po_health demo_busy = heartbeat 0 ''agent'' (new_monitor 300 5)"
  unfolding demo_busy_def
  by (simp_all add: new_pool_def start_agent_def mark_task_started_def demo_queue demo_started_def
      is_sandbox_healthy_def new_monitor_def demo_agent_def) (simp add: new_scheduler_def)

definition demo_told :: "bool \<Rightarrow> pool" where
  "demo_told ok = set_worker 0 (Looking 0 False)
     (run_ended 0 ''default'' (demo_agent ''a'') (demo_report ''a'' ok) demo_busy)"

lemma demo_told_parts:
  "po_sched (demo_told ok) = handle_task_completion (demo_report ''a'' ok) demo_started"
  "po_workers (demo_told ok) = [Looking 0 False]"
  "map_of (hm_breakers (po_health (demo_told ok))) ''default''
     = Some (if ok then new_breaker else new_breaker\<lparr> cb_consecutive := 1, cb_total := 1 \<rparr>)"
  unfolding demo_told_def
  by (simp_all add: run_ended_def Let_def demo_took_a demo_report_def record_success_def record_failure_def
      breaker_of_def set_breaker_def remove_agent_def heartbeat_def new_monitor_def new_breaker_def)

lemma demo_tell_a:
  "pool_run [''default''] demo_pool [Took ''a'', Reported ''a'' ok] (demo_told ok)"
proof -
  let ?p = demo_busy
  have "pool_step [''default''] ?p (Reported (res_task_id (demo_report ''a'' ok)) (res_success (demo_report ''a'' ok)))
      (set_worker 0 (Looking 0 False) (run_ended 0 ([''default''] ! 0) (demo_agent ''a'') (demo_report ''a'' ok) ?p))"
    by (rule pool_step.run_result) (simp_all only: demo_took_a, simp_all add: demo_agent_def demo_report_def)
  then have "pool_step [''default''] ?p (Reported ''a'' ok) (demo_told ok)"
    by (simp only: demo_told_def nth_Cons_0) (simp add: demo_report_def)
  from pool_run.pool_snoc [OF demo_take_a this] show ?thesis by simp
qed

lemmas demo_simps = handle_task_completion_def Let_def demo_report_def skip_dependents_def new_scheduler_def demo_tasks_def
  unlock_dependents_def unlock_task_def init_dependents_def init_counters_def lookup_list_def resolved_def
  should_skip_def task_map_def skip_task_def push_at_def sandbox_hint_def get_ready_task_def

lemma demo_take_b:
  "pool_run [''default''] demo_pool ([Took ''a'', Reported ''a'' True] @ Took ''b'' # []) (demo_took ''b'' (demo_told True))"
proof -
  have "fst (get_ready_task ''default'' (po_sched (demo_told True))) = Some ''b''"
    unfolding demo_told_parts demo_started_def by (simp add: demo_simps)
  moreover have "fst (is_sandbox_healthy 0 ''default'' (po_health (demo_told True)))"
    by (simp add: is_sandbox_healthy_def demo_told_parts new_breaker_def)
  ultimately show ?thesis using demo_take [OF demo_tell_a demo_told_parts(2)] by simp
qed

lemma demo_leave:
  "\<exists>p. pool_run [''default''] demo_pool [Took ''a'', Reported ''a'' False, Internal, Internal] p
     \<and> Gone \<in> set (po_workers p) \<and> sr_skipped (po_sched p) = {''b''}"
proof -
  let ?p = "demo_told False"
  have none: "get_ready_task ''default'' (po_sched ?p) = (None, po_sched ?p)"
    and sk: "sr_skipped (po_sched ?p) = {''b''}" and all: "all_done (get_stats (po_sched ?p))"
    unfolding demo_told_parts demo_started_def by (simp_all add: demo_simps all_done_def get_stats_def)
  note ws = demo_told_parts(2)
  have "pool_step [''default''] ?p Internal (set_worker 0 (Looking (Suc 0) False) ?p)"
    by (rule pool_step.no_task [of 0 _ 0]) (simp_all add: ws none)
  note r1 = pool_run.pool_snoc [OF demo_tell_a this]
  define q where "q = set_worker 0 (Looking (Suc 0) False) ?p"
  have q: "po_workers q = [Looking 1 False]" "po_sched q = po_sched ?p" by (simp_all add: q_def ws)
  have "pool_step [''default''] q Internal (set_worker 0 Gone q)"
    by (rule pool_step.leave) (simp_all add: q all)
  from pool_run.pool_snoc [OF r1 [folded q_def] this]
  have "pool_run [''default''] demo_pool [Took ''a'', Reported ''a'' False, Internal, Internal] (set_worker 0 Gone q)"
    by simp
  moreover have "Gone \<in> set (po_workers (set_worker 0 Gone q))" "sr_skipped (po_sched (set_worker 0 Gone q)) = {''b''}"
    by (simp_all add: q sk)
  ultimately show ?thesis by blast
qed

lemma pool_respects_dependencies_witness:
  "Took ''b'' \<notin> set [Took ''a'', Reported ''a'' True] \<and> Reported ''a'' True \<in> set [Took ''a'', Reported ''a'' True]"
  using pool_respects_dependencies [OF demo_tasks_ok demo_take_b]
  by (simp add: deps_in_def task_map_def demo_tasks_def)

lemma pool_exit_means_resolved_witness:
  "\<exists>p :: pool. task_ids_of demo_tasks = sr_completed (po_sched p) \<union> failed_ids (po_sched p) \<union> sr_skipped (po_sched p)
    \<and> sr_skipped (po_sched p) = {''b''} \<and> held (po_workers p) = []"
proof -
  obtain p where p: "pool_run [''default''] demo_pool [Took ''a'', Reported ''a'' False, Internal, Internal] p"
      "Gone \<in> set (po_workers p)" "sr_skipped (po_sched p) = {''b''}"
    using demo_leave by blast
  note e = pool_exit_means_resolved [OF demo_tasks_ok p(1,2)]
  show ?thesis
    by (intro exI [of _ p] conjI p(3) conjunct1 [OF e] conjunct1 [OF conjunct2 [OF conjunct2 [OF e]]])
qed

lemma pool_never_stuck_witness:
  "\<exists>t. fst (get_ready_task ''default'' (po_sched demo_pool)) = Some t"
proof -
  have "dropped [] = {}" by (simp add: dropped_def)
  moreover have "sandbox_hint Map.empty ` task_ids_of demo_tasks \<subseteq> set [''default'']"
    by (simp add: sandbox_hint_def demo_tasks_def)
  moreover have "resolved_ids (po_sched demo_pool) \<noteq> task_ids_of demo_tasks"
    by (simp add: resolved_ids_def new_pool_def new_scheduler_def demo_tasks_def)
  ultimately show ?thesis
    using pool_never_stuck [OF demo_tasks_ok pool_run.pool_refl, of Map.empty "[''default'']" 1]
    by (auto simp: new_pool_def)
qed

end
