(* ===== verification/Initrd.thy ===== *)
theory Initrd
  imports Text_Tools "HOL-Library.Char_ord" "HOL-Library.List_Lexorder"
begin

text \<open>
  The initial ramdisk of the guest (\<open>mowis-host/src/initrd.rs\<close>): the writer of cpio archives in the
  "newc" format and the files that \<open>build\<close> puts into one. Reading files, running \<open>ldd\<close>,
  decompressing modules and writing to the compressed output are parameters; every call that writes may
  fail. \<open>ie_debug\<close> says whether the program was compiled with debug assertions and overflow checks.
\<close>

section \<open>The environment\<close>

datatype initrd_error = IoError string | Panicked

record initrd_env =
  ie_debug :: bool
  ie_write :: "nat \<Rightarrow> string option"
  ie_canonicalize :: "string \<Rightarrow> string option"
  ie_read :: "string \<Rightarrow> string option"
  ie_exists :: "string \<Rightarrow> bool"
  ie_ldd :: "string \<Rightarrow> (string + string) option"
  ie_decompress :: "string \<Rightarrow> string \<Rightarrow> string option"
  ie_create :: "string \<Rightarrow> bool"

definition or_err :: "string \<Rightarrow> 'a option \<Rightarrow> initrd_error + 'a" where
  "or_err msg x = (case x of None \<Rightarrow> Inl (IoError msg) | Some y \<Rightarrow> Inr y)"

fun foldE :: "('a \<Rightarrow> 's \<Rightarrow> 'e + 's) \<Rightarrow> 'a list \<Rightarrow> 's \<Rightarrow> 'e + 's" where
  "foldE f [] s = Inr s"
| "foldE f (x # xs) s = and_then (f x s) (foldE f xs)"

section \<open>The archive writer\<close>

record cpio_writer =
  cw_out :: string
  cw_calls :: nat
  cw_ino :: u32
  cw_dirs :: "string set"

definition new_writer :: cpio_writer where
  "new_writer = \<lparr> cw_out = [], cw_calls = 0, cw_ino = 1, cw_dirs = {} \<rparr>"

definition upper_hex_digit :: "nat \<Rightarrow> char" where
  "upper_hex_digit d = (if d < 10 then char_of (48 + d) else char_of (55 + d))"

fun upper_hex :: "nat \<Rightarrow> string" where
  "upper_hex n = (if n < 16 then [upper_hex_digit n] else upper_hex (n div 16) @ [upper_hex_digit (n mod 16)])"

declare upper_hex.simps [simp del]

definition hex8 :: "nat \<Rightarrow> string" where
  "hex8 n = replicate (8 - length (upper_hex n)) CHR ''0'' @ upper_hex n"

definition zeros :: "nat \<Rightarrow> string" where
  "zeros n = replicate n CHR ''0''"

text \<open>The format string of the header, with the zeros it has.\<close>

definition header :: "u32 \<Rightarrow> nat \<Rightarrow> nat \<Rightarrow> nat \<Rightarrow> nat \<Rightarrow> string" where
  "header ino mode nlink filesize namesize =
     ''070701'' @ hex8 (unat ino) @ hex8 mode @ zeros 16 @ hex8 nlink @ zeros 8
     @ hex8 filesize @ zeros 33 @ hex8 namesize @ zeros 8"

definition write_all :: "initrd_env \<Rightarrow> string \<Rightarrow> cpio_writer \<Rightarrow> initrd_error + cpio_writer" where
  "write_all env d w =
     (if d = [] then Inr w
      else case ie_write env (cw_calls w) of
             Some e \<Rightarrow> Inl (IoError e)
           | None \<Rightarrow> Inr (w\<lparr> cw_out := cw_out w @ d, cw_calls := Suc (cw_calls w) \<rparr>))"

definition nul_bytes :: "nat \<Rightarrow> string" where
  "nul_bytes n = replicate n (char_of (0 :: nat))"

definition pad4 :: "nat \<Rightarrow> nat" where
  "pad4 n = (4 - n mod 4) mod 4"

definition write_entry ::
  "initrd_env \<Rightarrow> nat \<Rightarrow> nat \<Rightarrow> string \<Rightarrow> string \<Rightarrow> cpio_writer \<Rightarrow> initrd_error + cpio_writer" where
  "write_entry env mode nlink name data w =
     (if ie_debug env \<and> cw_ino w = - 1 then Inl Panicked
      else let w1 = w\<lparr> cw_ino := cw_ino w + 1 \<rparr>;
               namesize = length name + 1; filesize = length data;
               h = header (cw_ino w) mode nlink filesize namesize in
        if ie_debug env \<and> length h \<noteq> 110 then Inl Panicked
        else and_then (write_all env h w1) (\<lambda>w2.
             and_then (write_all env name w2) (\<lambda>w3.
             and_then (write_all env (nul_bytes 1) w3) (\<lambda>w4.
             and_then (write_all env (nul_bytes (pad4 (110 + namesize))) w4) (\<lambda>w5.
             if data = [] then Inr w5
             else and_then (write_all env data w5) (\<lambda>w6.
                  write_all env (nul_bytes (pad4 filesize)) w6))))))"

text \<open>The modes \<open>0o040755\<close>, \<open>0o100000\<close>, \<open>0o777\<close> and \<open>0o120777\<close>.\<close>

definition add_dir :: "initrd_env \<Rightarrow> string \<Rightarrow> cpio_writer \<Rightarrow> initrd_error + cpio_writer" where
  "add_dir env name w =
     (if name \<in> cw_dirs w then Inr w
      else write_entry env 16877 2 name [] (w\<lparr> cw_dirs := insert name (cw_dirs w) \<rparr>))"

definition add_dir_if_new :: "initrd_env \<Rightarrow> string \<Rightarrow> cpio_writer \<Rightarrow> initrd_error + cpio_writer" where
  "add_dir_if_new = add_dir"

definition add_file :: "initrd_env \<Rightarrow> string \<Rightarrow> string \<Rightarrow> nat \<Rightarrow> cpio_writer \<Rightarrow> initrd_error + cpio_writer" where
  "add_file env name data perms = write_entry env (or 32768 (and perms 511)) 1 name data"

definition add_symlink :: "initrd_env \<Rightarrow> string \<Rightarrow> string \<Rightarrow> cpio_writer \<Rightarrow> initrd_error + cpio_writer" where
  "add_symlink env name target = write_entry env 41471 1 name target"

text \<open>The flush at the end is one more call of the output. An empty \<open>write_all\<close> makes no call.\<close>

definition finish :: "initrd_env \<Rightarrow> cpio_writer \<Rightarrow> initrd_error + string" where
  "finish env w = and_then (write_entry env 0 1 ''TRAILER!!!'' [] w) (\<lambda>w1.
     (case ie_write env (cw_calls w1) of Some e \<Rightarrow> Inl (IoError e) | None \<Rightarrow> Inr (cw_out w1)))"

section \<open>Shared libraries\<close>

text \<open>The components of a path below the root, and the path without the root (\<open>strip_prefix("/")\<close>).\<close>

definition skipped_part :: "string \<Rightarrow> bool" where
  "skipped_part c \<longleftrightarrow> c = [] \<or> c = ''.''"

definition path_parts :: "string \<Rightarrow> string list" where
  "path_parts p = filter (\<lambda>c. \<not> skipped_part c) (split_char (CHR ''/'') p)"

definition strip_root :: "string \<Rightarrow> string" where
  "strip_root p = join_str ''/''
     (rev (dropWhile skipped_part (rev (dropWhile skipped_part (split_char (CHR ''/'') p)))))"

text \<open>The order of a \<open>BTreeSet<PathBuf>\<close> on absolute paths: \<open>..\<close> comes before every name.\<close>

definition path_key :: "string \<Rightarrow> string list" where
  "path_key p = map (\<lambda>c. if c = ''..'' then [] else c) (path_parts p)"

fun path_insert :: "string \<Rightarrow> string list \<Rightarrow> string list" where
  "path_insert p [] = [p]"
| "path_insert p (q # qs) =
     (if path_key p < path_key q then p # q # qs
      else if path_key p = path_key q then q # qs
      else q # path_insert p qs)"

definition ldd_path :: "string \<Rightarrow> string option" where
  "ldd_path raw =
     (let line = trim raw; word = (\<lambda>t. case split_whitespace t of [] \<Rightarrow> [] | w # _ \<Rightarrow> w) in
      if line = [] \<or> prefix ''linux-vdso'' line then None
      else let path = (case find_sub ''=> '' line of
                         Some i \<Rightarrow> Some (word (drop (i + 3) line))
                       | None \<Rightarrow> if prefix ''/'' line then Some (word line) else None) in
        Option.bind path (\<lambda>p. if p = [] \<or> p = ''(0x'' \<or> p = ''not'' then None else Some p))"

text \<open>
  \<open>ldd_linux\<close>: \<open>None\<close> stands for a missing \<open>ldd\<close>, \<open>Inl\<close> for a failure with its message (already
  decoded, like the output).
\<close>

definition ldd_linux :: "initrd_env \<Rightarrow> string \<Rightarrow> initrd_error + string list" where
  "ldd_linux env bin =
     (case ie_ldd env bin of
        None \<Rightarrow> Inr []
      | Some (Inl stderr) \<Rightarrow>
          if contains_sub ''not a dynamic executable'' stderr then Inr []
          else Inl (IoError (''ldd failed: '' @ stderr))
      | Some (Inr stdout) \<Rightarrow>
          Inr (fold (\<lambda>line ps. case ldd_path line of
                 None \<Rightarrow> ps
               | Some p \<Rightarrow> if prefix ''/'' p \<and> ie_exists env p then path_insert p ps else ps)
               (str_lines stdout) []))"

section \<open>The contents of the archive\<close>

definition mount_points :: "string list" where
  "mount_points = [''proc'', ''sys'', ''dev'', ''dev/pts'', ''tmp'', ''run'', ''bin'', ''lib'', ''lib64'']"

definition add_lib :: "initrd_env \<Rightarrow> string \<Rightarrow> cpio_writer \<Rightarrow> initrd_error + cpio_writer" where
  "add_lib env lib w =
     (let rel = strip_root lib; parts = path_parts rel in
      and_then (foldE (\<lambda>n. add_dir_if_new env (join_str ''/'' (take n parts))) [1..<length parts] w) (\<lambda>w1.
      and_then (or_err (''read lib '' @ lib) (ie_read env lib)) (\<lambda>data.
        add_file env rel data 493 w1)))"

definition applets :: "string list" where
  "applets = [''sh'', ''ash'', ''echo'', ''ls'', ''cat'', ''mkdir'', ''rm'', ''rmdir'', ''mv'', ''cp'',
     ''ln'', ''mount'', ''umount'', ''ps'', ''kill'', ''ip'', ''true'', ''false'', ''sleep'',
     ''env'', ''id'', ''uname'', ''head'', ''tail'', ''grep'', ''find'', ''touch'', ''stat'',
     ''df'', ''free'']"

definition bundle_busybox :: "initrd_env \<Rightarrow> cpio_writer \<Rightarrow> initrd_error + cpio_writer" where
  "bundle_busybox env w =
     (case find (ie_exists env) [''/bin/busybox'', ''/usr/bin/busybox''] of
        None \<Rightarrow> Inr w
      | Some src \<Rightarrow>
          and_then (or_err (''read busybox from '' @ src) (ie_read env src)) (\<lambda>data.
          and_then (add_file env ''bin/busybox'' data 493 w)
            (foldE (\<lambda>a. add_symlink env (''bin/'' @ a) ''busybox'') applets)))"

definition module_names :: "string list" where
  "module_names = [''vsock'', ''vmw_vsock_virtio_transport_common'', ''vmw_vsock_virtio_transport'']"

definition add_module ::
  "initrd_env \<Rightarrow> string \<Rightarrow> string \<Rightarrow> string \<Rightarrow> cpio_writer \<Rightarrow> initrd_error + cpio_writer" where
  "add_module env src_dir dest name w =
     (let file = (\<lambda>ext. src_dir @ ''/'' @ name @ ''.'' @ ext) in
      case find (\<lambda>ext. ie_exists env (file ext)) [''ko'', ''ko.gz'', ''ko.zst'', ''ko.xz''] of
        None \<Rightarrow> Inr w
      | Some ext \<Rightarrow>
          and_then (or_err (''decompress '' @ file ext @ '' ('' @ ext @ '')'') (ie_decompress env (file ext) ext)) (\<lambda>data.
            add_file env (dest @ ''/'' @ name @ ''.ko'') data 420 w))"

definition bundle_vsock_modules :: "initrd_env \<Rightarrow> cpio_writer \<Rightarrow> initrd_error + cpio_writer" where
  "bundle_vsock_modules env w =
     and_then (or_err ''read /proc/sys/kernel/osrelease'' (ie_read env ''/proc/sys/kernel/osrelease'')) (\<lambda>content.
       let release = trim content;
           src_dir = ''/lib/modules/'' @ release @ ''/kernel/net/vmw_vsock'';
           dest = ''lib/modules/'' @ release @ ''/kernel/net/vmw_vsock'' in
       if \<not> ie_exists env src_dir then Inr w
       else and_then (foldE (add_dir_if_new env)
              [''lib/modules'', ''lib/modules/'' @ release, ''lib/modules/'' @ release @ ''/kernel'',
               ''lib/modules/'' @ release @ ''/kernel/net'', dest] w)
            (foldE (add_module env src_dir dest) module_names))"

text \<open>\<open>build\<close> on a Linux host: the bytes that go through the compressor.\<close>

definition build :: "initrd_env \<Rightarrow> string \<Rightarrow> string \<Rightarrow> initrd_error + string" where
  "build env executor_bin output =
     and_then (or_err (''resolve executor path '' @ executor_bin) (ie_canonicalize env executor_bin)) (\<lambda>bin.
     and_then (or_err (''read executor '' @ bin) (ie_read env bin)) (\<lambda>executor.
     and_then (ldd_linux env bin) (\<lambda>libs.
     and_then (if ie_create env output then Inr new_writer else Inl (IoError (''create '' @ output))) (\<lambda>w0.
     and_then (foldE (add_dir env) mount_points w0) (\<lambda>w1.
     and_then (add_file env ''init'' executor 493 w1) (\<lambda>w2.
     and_then (foldE (add_lib env) libs w2) (\<lambda>w3.
     and_then (bundle_busybox env w3) (\<lambda>w4.
     and_then (bundle_vsock_modules env w4) (\<lambda>w5.
       finish env w5)))))))))"

definition default_kernel :: "initrd_env \<Rightarrow> string option" where
  "default_kernel env = Option.bind (ie_read env ''/proc/sys/kernel/osrelease'') (\<lambda>release.
     find (ie_exists env) [''/boot/vmlinuz-'' @ trim release, ''/boot/vmlinuz''])"

section \<open>What a reader of the archive sees\<close>

text \<open>
  The layout that the comment on \<open>write_entry\<close> gives: a magic of six bytes and thirteen fields of eight
  hexadecimal digits.
\<close>

definition upper_hex_value :: "char \<Rightarrow> nat" where
  "upper_hex_value c = (if (of_char c :: nat) < 58 then of_char c - 48 else of_char c - 55)"

definition read_hex :: "string \<Rightarrow> nat" where
  "read_hex s = fold (\<lambda>c n. 16 * n + upper_hex_value c) s 0"

definition newc_field :: "nat \<Rightarrow> string \<Rightarrow> nat" where
  "newc_field i s = read_hex (take 8 (drop (6 + 8 * i) s))"

definition entry_bytes :: "u32 \<Rightarrow> nat \<Rightarrow> nat \<Rightarrow> string \<Rightarrow> string \<Rightarrow> string" where
  "entry_bytes ino mode nlink name data =
     header ino mode nlink (length data) (length name + 1) @ name @ nul_bytes 1
     @ nul_bytes (pad4 (110 + (length name + 1))) @ data
     @ (if data = [] then [] else nul_bytes (pad4 (length data)))"

section \<open>Hexadecimal digits\<close>

lemma upper_hex_digit_value: "d < 16 \<Longrightarrow> upper_hex_value (upper_hex_digit d) = d"
  by (auto simp: upper_hex_value_def upper_hex_digit_def)

lemma read_hex_snoc: "read_hex (s @ [c]) = 16 * read_hex s + upper_hex_value c"
  by (simp add: read_hex_def)

lemma read_hex_zeros: "read_hex (replicate n CHR ''0'' @ s) = read_hex s"
  by (induction n) (simp_all add: read_hex_def upper_hex_value_def)

lemma read_upper_hex: "read_hex (upper_hex n) = n"
proof (induction n rule: upper_hex.induct)
  case (1 n)
  show ?case
  proof (cases "n < 16")
    case True
    then show ?thesis
      by (subst upper_hex.simps) (simp add: read_hex_def upper_hex_digit_value)
  next
    case False
    then show ?thesis using 1
      by (subst upper_hex.simps) (simp add: read_hex_snoc upper_hex_digit_value)
  qed
qed

lemma length_upper_hex: "n < 16 ^ Suc k \<Longrightarrow> length (upper_hex n) \<le> Suc k"
proof (induction k arbitrary: n)
  case 0
  then show ?case by (subst upper_hex.simps) simp
next
  case (Suc k)
  have "length (upper_hex (n div 16)) \<le> Suc k"
    using Suc.prems by (intro Suc.IH) (simp add: less_mult_imp_div_less)
  then show ?case by (subst upper_hex.simps) simp
qed

lemma length_hex8: "8 \<le> length (hex8 n)" "n < 2 ^ 32 \<Longrightarrow> length (hex8 n) = 8"
  using length_upper_hex [of n 7] by (simp_all add: hex8_def)

lemma length_hex8_word: "length (hex8 (unat (w :: u32))) = 8"
  using unsigned_less [where w = w and 'a = nat] by (intro length_hex8(2)) simp

lemma read_hex8: "read_hex (hex8 n) = n"
  by (simp add: hex8_def read_hex_zeros read_upper_hex)

text \<open>All but the last of the eight digits, and the last one.\<close>

lemma hex8_split: "\<exists>s. hex8 n = s @ [upper_hex_digit (n mod 16)] \<and> read_hex s = n div 16"
proof (cases "n < 16")
  case True
  then have u: "upper_hex n = [upper_hex_digit (n mod 16)]" by (subst upper_hex.simps) simp
  show ?thesis
    using read_hex_zeros [of 7 "[]"] True
    by (intro exI [of _ "replicate 7 CHR ''0''"]) (simp add: hex8_def u read_hex_def)
next
  case False
  then have u: "upper_hex n = upper_hex (n div 16) @ [upper_hex_digit (n mod 16)]"
    by (subst upper_hex.simps) simp
  show ?thesis
    by (intro exI [of _ "replicate (8 - length (upper_hex n)) CHR ''0'' @ upper_hex (n div 16)"])
       (simp add: hex8_def u read_hex_zeros read_upper_hex)
qed

section \<open>Entries and the invariant of the writer\<close>

type_synonym entry = "u32 \<times> nat \<times> nat \<times> string \<times> string"

fun bytes_of :: "entry \<Rightarrow> string" where
  "bytes_of (ino, mode, nlink, name, data) = entry_bytes ino mode nlink name data"

fun name_of :: "entry \<Rightarrow> string" where
  "name_of (ino, mode, nlink, name, data) = name"

fun is_dir :: "entry \<Rightarrow> bool" where
  "is_dir (ino, mode, nlink, name, data) \<longleftrightarrow> mode = 16877"

definition dir_names :: "entry list \<Rightarrow> string list" where
  "dir_names es = map name_of (filter is_dir es)"

definition writer_inv :: "cpio_writer \<Rightarrow> entry list \<Rightarrow> bool" where
  "writer_inv w es \<longleftrightarrow> cw_out w = concat (map bytes_of es) \<and> cw_ino w = of_nat (Suc (length es))
     \<and> map fst es = map (\<lambda>i. of_nat (Suc i)) [0..<length es]
     \<and> distinct (dir_names es) \<and> cw_dirs w = set (dir_names es)"

lemma write_all_out:
  "write_all env d w = Inr w' \<Longrightarrow> cw_out w' = cw_out w @ d \<and> cw_ino w' = cw_ino w \<and> cw_dirs w' = cw_dirs w"
  by (auto simp: write_all_def split: if_splits option.splits)

lemma length_header:
  "111 \<le> length (header ino mode nlink filesize namesize)"
  "mode < 2 ^ 32 \<Longrightarrow> nlink < 2 ^ 32 \<Longrightarrow> filesize < 2 ^ 32 \<Longrightarrow> namesize < 2 ^ 32 \<Longrightarrow>
     length (header ino mode nlink filesize namesize) = 111"
proof -
  note length_hex8_word [of ino]
  moreover have "8 \<le> length (hex8 mode)" "8 \<le> length (hex8 nlink)" "8 \<le> length (hex8 filesize)"
    "8 \<le> length (hex8 namesize)"
    by (rule length_hex8(1))+
  ultimately show "111 \<le> length (header ino mode nlink filesize namesize)"
    by (simp add: header_def zeros_def)
  assume "mode < 2 ^ 32" "nlink < 2 ^ 32" "filesize < 2 ^ 32" "namesize < 2 ^ 32"
  then have "length (hex8 mode) = 8" "length (hex8 nlink) = 8" "length (hex8 filesize) = 8"
    "length (hex8 namesize) = 8"
    by (simp_all only: length_hex8(2))
  with length_hex8_word [of ino] show "length (header ino mode nlink filesize namesize) = 111"
    by (simp add: header_def zeros_def)
qed

lemma write_entry_debug: "ie_debug env \<Longrightarrow> write_entry env mode nlink name data w = Inl Panicked"
  using length_header(1) [of "cw_ino w" mode nlink "length data" "length name + 1"]
  by (simp add: write_entry_def Let_def)

lemma write_entry_release:
  assumes "\<not> ie_debug env" and "write_entry env mode nlink name data w = Inr w'"
  shows "cw_out w' = cw_out w @ bytes_of (cw_ino w, mode, nlink, name, data)
    \<and> cw_ino w' = cw_ino w + 1 \<and> cw_dirs w' = cw_dirs w"
proof -
  from assms obtain w2 w3 w4 w5 where
    w: "write_all env (header (cw_ino w) mode nlink (length data) (length name + 1)) (w\<lparr> cw_ino := cw_ino w + 1 \<rparr>) = Inr w2"
      "write_all env name w2 = Inr w3" "write_all env (nul_bytes 1) w3 = Inr w4"
      "write_all env (nul_bytes (pad4 (110 + (length name + 1)))) w4 = Inr w5"
    and r: "(if data = [] then Inr w5 else and_then (write_all env data w5)
        (\<lambda>w6. write_all env (nul_bytes (pad4 (length data))) w6)) = Inr w'"
    by (auto simp: write_entry_def Let_def and_then_Inr_iff)
  note o = w [THEN write_all_out]
  show ?thesis
  proof (cases "data = []")
    case True
    with o r show ?thesis by (simp add: entry_bytes_def)
  next
    case False
    then obtain w6 where "write_all env data w5 = Inr w6" "write_all env (nul_bytes (pad4 (length data))) w6 = Inr w'"
      using r by (auto simp: and_then_Inr_iff)
    from this [THEN write_all_out] o False show ?thesis by (simp add: entry_bytes_def)
  qed
qed

text \<open>An operation keeps the invariant when it appends entries.\<close>

definition appends :: "(cpio_writer \<Rightarrow> initrd_error + cpio_writer) \<Rightarrow> bool" where
  "appends f \<longleftrightarrow> (\<forall>w w' es. f w = Inr w' \<longrightarrow> writer_inv w es \<longrightarrow> (\<exists>fs. writer_inv w' (es @ fs)))"

lemma appendsI: "(\<And>w w' es. f w = Inr w' \<Longrightarrow> writer_inv w es \<Longrightarrow> \<exists>fs. writer_inv w' (es @ fs)) \<Longrightarrow> appends f"
  by (simp add: appends_def)

lemma appendsD: "appends f \<Longrightarrow> f w = Inr w' \<Longrightarrow> writer_inv w es \<Longrightarrow> \<exists>fs. writer_inv w' (es @ fs)"
  by (simp add: appends_def)

lemma appends_return: "appends Inr"
  by (rule appendsI) (auto intro: exI [of _ "[]"])

lemma appends_and_then:
  assumes "appends f" and "appends g"
  shows "appends (\<lambda>w. and_then (f w) g)"
proof (rule appendsI)
  fix w w' es
  assume "and_then (f w) g = Inr w'" and inv: "writer_inv w es"
  then obtain w1 where w1: "f w = Inr w1" "g w1 = Inr w'" by (auto simp: and_then_Inr_iff)
  from appendsD [OF assms(1) w1(1) inv] obtain fs where "writer_inv w1 (es @ fs)" by blast
  from appendsD [OF assms(2) w1(2) this] show "\<exists>fs. writer_inv w' (es @ fs)" by auto
qed

lemma appends_bind: "(\<And>x. appends (f x)) \<Longrightarrow> appends (\<lambda>w. and_then r (\<lambda>x. f x w))"
  by (auto simp: appends_def and_then_Inr_iff)

lemma appends_foldE: "(\<And>x. x \<in> set xs \<Longrightarrow> appends (f x)) \<Longrightarrow> appends (foldE f xs)"
proof (induction xs)
  case Nil
  have "foldE f [] = Inr" by (rule ext) simp
  then show ?case by (simp add: appends_return)
next
  case (Cons x xs)
  have "foldE f (x # xs) = (\<lambda>w. and_then (f x w) (foldE f xs))" by (rule ext) simp
  then show ?case using Cons by (simp add: appends_and_then)
qed

lemma writer_inv_snoc:
  assumes "\<not> ie_debug env" and "write_entry env mode nlink name data w = Inr w'"
    and "cw_out w = concat (map bytes_of es)" and "cw_ino w = of_nat (Suc (length es))"
    and "map fst es = map (\<lambda>i. of_nat (Suc i)) [0..<length es]"
    and "distinct (dir_names (es @ [(cw_ino w, mode, nlink, name, data)]))"
    and "cw_dirs w = set (dir_names (es @ [(cw_ino w, mode, nlink, name, data)]))"
  shows "writer_inv w' (es @ [(cw_ino w, mode, nlink, name, data)])"
  using write_entry_release [OF assms(1,2)] assms(3-7) by (simp add: writer_inv_def)

lemma appends_plain:
  assumes "\<not> ie_debug env" and "mode \<noteq> 16877"
  shows "appends (write_entry env mode nlink name data)"
proof (rule appendsI)
  fix w w' es
  assume w: "write_entry env mode nlink name data w = Inr w'" and inv: "writer_inv w es"
  have "writer_inv w' (es @ [(cw_ino w, mode, nlink, name, data)])"
    by (rule writer_inv_snoc [OF assms(1) w])
       (use inv assms(2) in \<open>simp_all add: writer_inv_def dir_names_def\<close>)
  then show "\<exists>fs. writer_inv w' (es @ fs)" by blast
qed

lemma appends_add_dir:
  assumes "\<not> ie_debug env"
  shows "appends (add_dir env name)"
proof (rule appendsI)
  fix w w' es
  assume w: "add_dir env name w = Inr w'" and inv: "writer_inv w es"
  show "\<exists>fs. writer_inv w' (es @ fs)"
  proof (cases "name \<in> cw_dirs w")
    case True
    then show ?thesis using w inv by (auto simp: add_dir_def intro: exI [of _ "[]"])
  next
    case False
    then have "write_entry env 16877 2 name [] (w\<lparr> cw_dirs := insert name (cw_dirs w) \<rparr>) = Inr w'"
      using w by (simp add: add_dir_def)
    from writer_inv_snoc [OF assms this, of es] False inv
    have "writer_inv w' (es @ [(cw_ino w, 16877, 2, name, [])])"
      by (simp add: writer_inv_def dir_names_def)
    then show ?thesis by blast
  qed
qed

lemma add_file_mode: "or 32768 (and perms 511) \<noteq> (16877 :: nat)"
proof
  assume "or 32768 (and perms 511) = (16877 :: nat)"
  then have "bit (or 32768 (and perms 511) :: nat) 15 = bit (16877 :: nat) 15" by simp
  then show False by (simp add: bit_simps)
qed

lemma appends_add_file: "\<not> ie_debug env \<Longrightarrow> appends (add_file env name data perms)"
  unfolding add_file_def by (rule appends_plain) (simp_all add: add_file_mode del: or_numerals)

lemma appends_add_symlink: "\<not> ie_debug env \<Longrightarrow> appends (add_symlink env name target)"
  unfolding add_symlink_def by (rule appends_plain) simp_all

lemmas appends_entries = appends_add_dir appends_add_file appends_add_symlink

lemma appends_add_lib:
  assumes "\<not> ie_debug env"
  shows "appends (add_lib env lib)"
  unfolding add_lib_def Let_def add_dir_if_new_def
  by (intro appends_and_then [OF appends_foldE appends_bind] appends_entries assms)

lemma appends_busybox:
  assumes "\<not> ie_debug env"
  shows "appends (bundle_busybox env)"
proof (cases "find (ie_exists env) [''/bin/busybox'', ''/usr/bin/busybox'']")
  case None
  then have "bundle_busybox env = Inr" by (intro ext) (simp add: bundle_busybox_def)
  then show ?thesis by (simp add: appends_return)
next
  case (Some src)
  then have "bundle_busybox env = (\<lambda>w. and_then (or_err (''read busybox from '' @ src) (ie_read env src)) (\<lambda>data.
      and_then (add_file env ''bin/busybox'' data 493 w)
        (foldE (\<lambda>a. add_symlink env (''bin/'' @ a) ''busybox'') applets)))"
    by (intro ext) (simp add: bundle_busybox_def)
  then show ?thesis
    by (simp only:) (intro appends_bind appends_and_then appends_foldE appends_entries assms)
qed

lemma appends_module:
  assumes "\<not> ie_debug env"
  shows "appends (add_module env src dest name)"
proof (cases "find (\<lambda>ext. ie_exists env (src @ ''/'' @ name @ ''.'' @ ext)) [''ko'', ''ko.gz'', ''ko.zst'', ''ko.xz'']")
  case None
  then have "add_module env src dest name = Inr" by (intro ext) (simp add: add_module_def)
  then show ?thesis by (simp add: appends_return)
next
  case (Some e)
  then have "add_module env src dest name = (\<lambda>w. and_then
      (or_err (''decompress '' @ (src @ ''/'' @ name @ ''.'' @ e) @ '' ('' @ e @ '')'')
        (ie_decompress env (src @ ''/'' @ name @ ''.'' @ e) e))
      (\<lambda>data. add_file env (dest @ ''/'' @ name @ ''.ko'') data 420 w))"
    by (intro ext) (simp add: add_module_def)
  then show ?thesis by (simp only:) (intro appends_bind appends_entries assms)
qed

lemma appends_vsock:
  assumes "\<not> ie_debug env"
  shows "appends (bundle_vsock_modules env)"
proof -
  have "appends (\<lambda>w. if \<not> c then Inr w else and_then (foldE (add_dir_if_new env) ds w) (foldE (add_module env src dest) ms))"
    for c ds src dest ms
    using appends_return appends_and_then [OF appends_foldE appends_foldE, of ds "add_dir_if_new env" ms]
      appends_entries [OF assms] appends_module [OF assms]
    by (cases c) (simp_all add: add_dir_if_new_def)
  then show ?thesis
    unfolding bundle_vsock_modules_def Let_def by (intro appends_bind)
qed

section \<open>What becomes of the archive\<close>

lemma length_zeros: "length (zeros n) = n"
  by (simp add: zeros_def)

lemma zeros_add: "zeros (m + n) = zeros m @ zeros n"
  by (simp add: zeros_def replicate_add)

lemma newc_field_at: "length a = 6 + 8 * i \<Longrightarrow> length b = 8 \<Longrightarrow> newc_field i (a @ b @ r) = read_hex b"
  by (simp add: newc_field_def)

lemma read_hex_shift: "read_hex (s @ zeros n) = read_hex s * 16 ^ n"
proof (induction n)
  case (Suc n)
  have "s @ zeros (Suc n) = (s @ zeros n) @ [CHR ''0'']"
    by (simp add: zeros_def replicate_append_same)
  with Suc show ?case by (simp only: read_hex_snoc) (simp add: upper_hex_value_def)
qed (simp add: zeros_def)

text \<open>The size of the data, and the last two fields of the header.\<close>

lemma newc_name_field:
  assumes "mode < 2 ^ 32" "nlink < 2 ^ 32" "length data < 2 ^ 32" "length name + 1 < 2 ^ 32"
  shows "newc_field 6 (entry_bytes ino mode nlink name data @ rest) = length data
    \<and> newc_field 11 (entry_bytes ino mode nlink name data @ rest) = (length name + 1) div 16
    \<and> newc_field 12 (entry_bytes ino mode nlink name data @ rest) = (length name + 1) mod 16 * 16 ^ 7"
proof -
  have l: "length (hex8 (unat ino)) = 8" "length (hex8 mode) = 8" "length (hex8 nlink) = 8"
    "length (hex8 (length data)) = 8"
    using assms by (simp_all only: length_hex8(2) length_hex8_word)
  obtain h where h: "hex8 (length name + 1) = h @ [upper_hex_digit ((length name + 1) mod 16)]"
    "read_hex h = (length name + 1) div 16" using hex8_split by blast
  have lh: "length h = 7" using length_hex8(2) [OF assms(4)] h(1) by simp
  define a where "a = ''070701'' @ hex8 (unat ino) @ hex8 mode @ zeros 16 @ hex8 nlink @ zeros 8"
  have la: "length a = 54" using l by (simp add: a_def length_zeros)
  define c where "c = upper_hex_digit ((length name + 1) mod 16) # zeros 7"
  obtain r where e: "entry_bytes ino mode nlink name data @ rest
      = a @ hex8 (length data) @ zeros 32 @ (zeros 1 @ h) @ c @ r"
    using zeros_add [of 32 1] zeros_add [of 7 1] h(1) by (simp add: entry_bytes_def header_def a_def c_def)
  have lc: "length c = 8" "length (zeros 1 @ h) = 8" using lh by (simp_all add: c_def length_zeros)
  have "newc_field 6 (a @ hex8 (length data) @ zeros 32 @ (zeros 1 @ h) @ c @ r) = read_hex (hex8 (length data))"
    by (rule newc_field_at) (simp_all add: la l)
  moreover have "newc_field 11 ((a @ hex8 (length data) @ zeros 32) @ (zeros 1 @ h) @ c @ r) = read_hex (zeros 1 @ h)"
    by (rule newc_field_at) (simp_all add: la l lh length_zeros)
  moreover have "newc_field 12 ((a @ hex8 (length data) @ zeros 32 @ (zeros 1 @ h)) @ c @ r) = read_hex c"
    by (rule newc_field_at) (simp_all add: la l lc lh length_zeros)
  moreover have "read_hex c = (length name + 1) mod 16 * 16 ^ 7"
    using read_hex_shift [of "[upper_hex_digit ((length name + 1) mod 16)]" 7]
    by (simp add: c_def read_hex_def upper_hex_digit_value)
  moreover have "read_hex (zeros 1 @ h) = (length name + 1) div 16"
    using h(2) read_hex_zeros [of 1 h] by (simp only: zeros_def)
  ultimately show ?thesis unfolding e by (simp only: append_assoc read_hex8)
qed

lemma build_archive:
  assumes "\<not> ie_debug env" and "build env bin out = Inr bytes"
  shows "\<exists>es n. bytes = concat (map bytes_of ((1, 16877, 2, ''proc'', []) # es @ [(of_nat n, 0, 1, ''TRAILER!!!'', [])]))
    \<and> n = length es + 2 \<and> distinct (''proc'' # dir_names es)
    \<and> map fst es = map of_nat [2..<length es + 2]"
proof -
  from assms(2) obtain libs executor w1 w2 w3 w4 w5 where
    w: "foldE (add_dir env) mount_points new_writer = Inr w1" "add_file env ''init'' executor 493 w1 = Inr w2"
      "foldE (add_lib env) libs w2 = Inr w3" "bundle_busybox env w3 = Inr w4"
      "bundle_vsock_modules env w4 = Inr w5" "finish env w5 = Inr bytes"
    by (auto simp: build_def and_then_Inr_iff split: if_splits)
  obtain w0 where w0: "add_dir env ''proc'' new_writer = Inr w0" "foldE (add_dir env) (tl mount_points) w0 = Inr w1"
    using w(1) by (auto simp: mount_points_def and_then_Inr_iff)
  have inv0: "writer_inv w0 [(1, 16877, 2, ''proc'', [])]"
    using writer_inv_snoc [OF assms(1), of 16877 2 "''proc''" "[]" "new_writer\<lparr> cw_dirs := {''proc''} \<rparr>" w0 "[]"] w0(1)
    by (simp add: add_dir_def new_writer_def dir_names_def)
  have "appends (foldE (add_dir env) (tl mount_points))"
    by (intro appends_foldE appends_entries assms(1))
  from appendsD [OF this w0(2) inv0] obtain e1 where i1: "writer_inv w1 ((1, 16877, 2, ''proc'', []) # e1)" by auto
  from appendsD [OF appends_add_file [OF assms(1)] w(2) i1]
  obtain e2 where i2: "writer_inv w2 ((1, 16877, 2, ''proc'', []) # e1 @ e2)" by auto
  have "appends (foldE (add_lib env) libs)" by (intro appends_foldE appends_add_lib assms(1))
  from appendsD [OF this w(3) i2] obtain e3 where i3: "writer_inv w3 ((1, 16877, 2, ''proc'', []) # e1 @ e2 @ e3)" by auto
  from appendsD [OF appends_busybox [OF assms(1)] w(4) i3]
  obtain e4 where i4: "writer_inv w4 ((1, 16877, 2, ''proc'', []) # e1 @ e2 @ e3 @ e4)" by auto
  from appendsD [OF appends_vsock [OF assms(1)] w(5) i4]
  obtain e5 where i5: "writer_inv w5 ((1, 16877, 2, ''proc'', []) # e1 @ e2 @ e3 @ e4 @ e5)" by auto
  define es where "es = e1 @ e2 @ e3 @ e4 @ e5"
  have i: "writer_inv w5 ((1, 16877, 2, ''proc'', []) # es)" using i5 by (simp add: es_def)
  obtain w6 where w6: "write_entry env 0 1 ''TRAILER!!!'' [] w5 = Inr w6" "bytes = cw_out w6"
    using w(6) by (auto simp: finish_def and_then_Inr_iff split: option.splits)
  have "map fst es = map of_nat [2..<length es + 2]"
  proof -
    have "map (\<lambda>i. of_nat (Suc i) :: u32) [0..<Suc (length es)] = 1 # map of_nat [2..<length es + 2]"
      by (subst upt_conv_Cons)
         (simp_all add: map_Suc_upt [symmetric] numeral_2_eq_2 del: upt_Suc)
    with i show ?thesis by (simp add: writer_inv_def del: upt_Suc)
  qed
  moreover have "distinct (''proc'' # dir_names es)" using i by (simp add: writer_inv_def dir_names_def)
  moreover have "bytes = concat (map bytes_of ((1, 16877, 2, ''proc'', []) # es
      @ [(of_nat (length es + 2), 0, 1, ''TRAILER!!!'', [])]))"
    using write_entry_release [OF assms(1) w6(1)] w6(2) i by (simp add: writer_inv_def)
  ultimately show ?thesis by blast
qed

text \<open>
  The header that \<open>write_entry\<close> formats is one byte too long, so with debug assertions no ramdisk is
  ever built: whenever \<open>build\<close> gets as far as creating the output, it panics at the first entry.
\<close>

theorem debug_build_panics:
  assumes "ie_debug env" and "ie_canonicalize env executor_bin = Some bin" and "ie_read env bin \<noteq> None"
    and "ldd_linux env bin = Inr libs" and "ie_create env output"
  shows "build env executor_bin output = Inl Panicked"
  using assms
  by (auto simp: build_def or_err_def mount_points_def add_dir_def new_writer_def write_entry_debug)

text \<open>
  Without debug assertions every archive is a sequence of entries that starts with \<open>proc\<close>, names no
  directory twice, numbers its entries from 1 and ends with the trailer; but what a reader finds in
  the field of the name size is the size divided by 16, so that it is 0 for \<open>proc\<close>, and the field after it
  is not zero. This holds for each entry whose sizes fit into 32 bits, wherever the archive continues.
\<close>

theorem archive_misread:
  assumes "\<not> ie_debug env" and "build env executor_bin output = Inr bytes"
  shows "newc_field 11 bytes = 0
    \<and> (\<exists>es n. bytes = concat (map bytes_of ((1, 16877, 2, ''proc'', []) # es @ [(of_nat n, 0, 1, ''TRAILER!!!'', [])]))
        \<and> distinct (''proc'' # dir_names es) \<and> map fst es = map of_nat [2..<n]
        \<and> (\<forall>(ino, mode, nlink, name, data)\<in>set es. \<forall>rest.
             mode < 2 ^ 32 \<and> nlink < 2 ^ 32 \<and> length data < 2 ^ 32 \<and> length name + 1 < 2 ^ 32 \<longrightarrow>
             newc_field 6 (bytes_of (ino, mode, nlink, name, data) @ rest) = length data
             \<and> newc_field 11 (bytes_of (ino, mode, nlink, name, data) @ rest) = (length name + 1) div 16
             \<and> newc_field 12 (bytes_of (ino, mode, nlink, name, data) @ rest) = (length name + 1) mod 16 * 16 ^ 7))"
proof -
  obtain es n where b: "bytes = concat (map bytes_of ((1, 16877, 2, ''proc'', []) # es @ [(of_nat n, 0, 1, ''TRAILER!!!'', [])]))"
      "n = length es + 2" "distinct (''proc'' # dir_names es)" "map fst es = map of_nat [2..<length es + 2]"
    using build_archive [OF assms] by blast
  have f: "newc_field 11 bytes = 0"
    using b(1) newc_name_field [of 16877 2 "[]" "''proc''" 1] by simp
  show ?thesis
  proof (intro conjI f exI [of _ es] exI [of _ n] b(1,3))
    show "map fst es = map of_nat [2..<n]" using b(2,4) by simp
  qed (clarsimp simp only: bytes_of.simps split: prod.splits, rule newc_name_field)
qed

definition demo_initrd :: "bool \<Rightarrow> initrd_env" where
  "demo_initrd dbg = \<lparr> ie_debug = dbg, ie_write = (\<lambda>_. None), ie_canonicalize = Some,
     ie_read = (\<lambda>p. if p = ''/proc/sys/kernel/osrelease'' then Some ''6.1'' else Some ''ELF''),
     ie_exists = (\<lambda>_. False), ie_ldd = (\<lambda>_. None), ie_decompress = (\<lambda>_ _. None), ie_create = (\<lambda>_. True) \<rparr>"

lemma debug_build_panics_witness: "build (demo_initrd True) ''/x'' ''/out'' = Inl Panicked"
  by (rule debug_build_panics [where bin = "''/x''" and libs = "[]"]) (simp_all add: demo_initrd_def ldd_linux_def)

lemma write_entry_ok: "\<exists>w'. write_entry (demo_initrd False) mode nlink name data w = Inr w'"
proof -
  have "\<not> ie_debug (demo_initrd False)" "ie_write (demo_initrd False) = (\<lambda>_. None)" by (simp_all add: demo_initrd_def)
  then show ?thesis by (simp add: write_entry_def Let_def write_all_def)
qed

lemma foldE_ok: "(\<And>x s. x \<in> set xs \<Longrightarrow> \<exists>s'. f x s = Inr s') \<Longrightarrow> \<exists>s'. foldE f xs s = Inr s'"
proof (induction xs arbitrary: s)
  case (Cons x xs)
  obtain s1 where "f x s = Inr s1" using Cons.prems [of x s] by auto
  then show ?case using Cons.IH [of s1] Cons.prems by simp
qed simp

lemma demo_initrd_builds: "\<exists>bytes. build (demo_initrd False) ''/x'' ''/out'' = Inr bytes"
proof -
  let ?e = "demo_initrd False"
  note ok = write_entry_ok
  have "\<exists>w'. add_dir ?e d w = Inr w'" for d w
    using ok by (simp add: add_dir_def)
  then obtain w1 where w1: "foldE (add_dir ?e) mount_points new_writer = Inr w1" using foldE_ok by metis
  obtain w2 where w2: "add_file ?e ''init'' ''ELF'' 493 w1 = Inr w2"
    unfolding add_file_def using ok by metis
  have "bundle_busybox ?e w2 = Inr w2" "bundle_vsock_modules ?e w2 = Inr w2"
    by (simp_all add: bundle_busybox_def bundle_vsock_modules_def demo_initrd_def or_err_def Let_def)
  moreover obtain w3 where "write_entry ?e 0 1 ''TRAILER!!!'' [] w2 = Inr w3" using ok by metis
  moreover have "ie_canonicalize ?e ''/x'' = Some ''/x''" "ie_read ?e ''/x'' = Some ''ELF''" "ldd_linux ?e ''/x'' = Inr []"
    "ie_create ?e ''/out''" "ie_write ?e = (\<lambda>_. None)"
    by (simp_all add: demo_initrd_def ldd_linux_def)
  ultimately show ?thesis
    using w1 w2 by (simp add: build_def or_err_def finish_def)
qed

lemma archive_misread_witness:
  "\<exists>bytes. build (demo_initrd False) ''/x'' ''/out'' = Inr bytes \<and> newc_field 11 bytes = 0"
proof -
  obtain bytes where b: "build (demo_initrd False) ''/x'' ''/out'' = Inr bytes" using demo_initrd_builds by blast
  have "\<not> ie_debug (demo_initrd False)" by (simp add: demo_initrd_def)
  from archive_misread [OF this b] b show ?thesis by blast
qed

end
