(* ===== verification/Guest_Tools.thy ===== *)
theory Guest_Tools
  imports Protocol Copying
begin

text \<open>
  The tools of the guest (\<open>mowis-executor/src/tools.rs\<close>): what the executor in the virtual machine
  runs for a sandbox. The operating system is a parameter: a record of its operations on a world of any
  type, with paths as the code passes them, as strings. An error is its message.
\<close>

section \<open>The operating system\<close>

record guest_call =
  gc_program :: string
  gc_args :: "string list"
  gc_cwd :: "string option"
  gc_env :: "(string \<times> string) list"
  gc_chroot :: "string option"

record file_meta =
  fm_is_dir :: bool
  fm_is_file :: bool
  fm_len :: nat
  fm_readonly :: bool

datatype mount_kind = Tmpfs | Overlay string string string

type_synonym ('w, 'a) effect = "'w \<Rightarrow> (string + 'a) \<times> 'w"

record 'w guest_os =
  gs_checks :: bool
  gs_metadata :: "string \<Rightarrow> ('w, file_meta) effect"
  gs_read :: "string \<Rightarrow> ('w, string) effect"
  gs_write :: "string \<Rightarrow> string \<Rightarrow> ('w, unit) effect"
  gs_append :: "string \<Rightarrow> string \<Rightarrow> ('w, unit) effect"
  gs_mkdirs :: "string \<Rightarrow> ('w, unit) effect"
  gs_remove_file :: "string \<Rightarrow> ('w, unit) effect"
  gs_copy :: "string \<Rightarrow> string \<Rightarrow> ('w, unit) effect"
  gs_rename :: "string \<Rightarrow> string \<Rightarrow> ('w, unit) effect"
  gs_read_dir :: "string \<Rightarrow> ('w, (string \<times> bool \<times> bool) list) effect"
  gs_remove_dir :: "string \<Rightarrow> ('w, unit) effect"
  gs_remove_dir_all :: "string \<Rightarrow> ('w, unit) effect"
  gs_exists :: "string \<Rightarrow> 'w \<Rightarrow> bool"
  gs_proc :: "guest_call \<Rightarrow> ('w, proc_output) effect"
  gs_http :: "string \<Rightarrow> string \<Rightarrow> string \<Rightarrow> ('w, nat \<times> string) effect"
  gs_tempdir :: "('w, string) effect"
  gs_temp_dir :: string
  gs_mount :: "mount_kind \<Rightarrow> string \<Rightarrow> ('w, unit) effect"
  gs_umount :: "string \<Rightarrow> ('w, unit) effect"
  gs_tree :: "string \<Rightarrow> 'w \<Rightarrow> string + entries"
  gs_archive :: "string \<Rightarrow> string + (string + string \<times> string) list"
  gs_unpack :: "string \<Rightarrow> string \<Rightarrow> ('w, unit) effect"

definition w_bind :: "(string + 'a) \<times> 'w \<Rightarrow> ('a \<Rightarrow> ('w, 'b) effect) \<Rightarrow> (string + 'b) \<times> 'w" where
  "w_bind r k = (case r of (Inl e, w) \<Rightarrow> (Inl e, w) | (Inr x, w) \<Rightarrow> k x w)"

lemma w_bind_simps [simp]:
  "w_bind (Inl e, w) k = (Inl e, w)"
  "w_bind (Inr x, w) k = k x w"
  by (simp_all add: w_bind_def)

lemma w_bind_cong [fundef_cong]:
  "r = r' \<Longrightarrow> (\<And>x w. r' = (Inr x, w) \<Longrightarrow> k x w = k' x w) \<Longrightarrow> w_bind r k = w_bind r' k'"
  by (auto simp: w_bind_def split: prod.split sum.split)

definition required :: "string \<Rightarrow> 'a option \<Rightarrow> ('a \<Rightarrow> ('w, 'b) effect) \<Rightarrow> ('w, 'b) effect" where
  "required msg x k w = (case x of None \<Rightarrow> (Inl msg, w) | Some y \<Rightarrow> k y w)"

lemma required_simps [simp]:
  "required msg None k w = (Inl msg, w)"
  "required msg (Some y) k w = k y w"
  by (simp_all add: required_def)

section \<open>Paths\<close>

definition resolved_path :: "string \<Rightarrow> string \<Rightarrow> string" where
  "resolved_path root rel = join_path root (dropWhile (\<lambda>c. c = CHR ''/'') rel)"

text \<open>\<open>Path::parent\<close> of such a path: without its last component.\<close>

definition parent_path :: "string \<Rightarrow> string" where
  "parent_path p = (let t = rev (dropWhile (\<lambda>c. c = CHR ''/'') (rev p)) in
     rev (dropWhile (\<lambda>c. c = CHR ''/'') (dropWhile (\<lambda>c. c \<noteq> CHR ''/'') (rev t))))"

section \<open>The tools\<close>

type_synonym 'w guest_tool = "'w guest_os \<Rightarrow> string \<Rightarrow> json \<Rightarrow> ('w, json) effect"

definition guest_read_file :: "'w guest_tool" where
  "guest_read_file os root input = required ''read_file: missing `path`'' (arg input ''path'') (\<lambda>path w.
     let p = resolved_path root path in
     w_bind (gs_metadata os p w) (\<lambda>meta w1.
       if fm_is_dir meta
       then (Inr (JObj [(''error'', JStr ''is a directory''), (''path'', JStr path), (''success'', JBool False)]), w1)
       else if 10 * 1024 * 1024 < fm_len meta then (Inl (''file too large (>10MB): '' @ p), w1)
       else w_bind (gs_read os p w1) (\<lambda>s w2.
         (Inr (ok_json [(''content'', JStr s), (''size'', JInt (int (length s)))]), w2))))"

definition guest_write_file :: "'w guest_tool" where
  "guest_write_file os root input = required ''write_file: missing `path`'' (arg input ''path'') (\<lambda>path.
     required ''write_file: missing `contents`'' (arg2 input ''contents'' ''content'') (\<lambda>s w.
       let p = resolved_path root path in
       w_bind (gs_mkdirs os (parent_path p) w) (\<lambda>_ w1.
       w_bind (gs_write os p s w1) (\<lambda>_ w2.
         (Inr (ok_json [(''path'', JStr path), (''bytes'', JInt (int (length s)))]), w2)))))"

definition guest_append_file :: "'w guest_tool" where
  "guest_append_file os root input = required ''append_file: missing `path`'' (arg input ''path'') (\<lambda>path.
     required ''append_file: missing `contents`'' (arg2 input ''contents'' ''content'') (\<lambda>s w.
       w_bind (gs_append os (resolved_path root path) s w) (\<lambda>_ w1.
         (Inr (ok_json [(''path'', JStr path), (''bytes'', JInt (int (length s)))]), w1))))"

definition guest_delete_file :: "'w guest_tool" where
  "guest_delete_file os root input = required ''delete_file: missing `path`'' (arg input ''path'') (\<lambda>path w.
     w_bind (gs_remove_file os (resolved_path root path) w) (\<lambda>_ w1. (Inr (ok_json [(''path'', JStr path)]), w1)))"

definition guest_copy_file :: "'w guest_tool" where
  "guest_copy_file os root input = required ''copy_file: missing `from`'' (arg input ''from'') (\<lambda>from.
     required ''copy_file: missing `to`'' (arg input ''to'') (\<lambda>to w.
       let src = resolved_path root from; dst = resolved_path root to in
       w_bind (gs_mkdirs os (parent_path dst) w) (\<lambda>_ w1.
       w_bind (gs_copy os src dst w1) (\<lambda>_ w2.
         (Inr (ok_json [(''from'', JStr from), (''to'', JStr to)]), w2)))))"

definition guest_move_file :: "'w guest_tool" where
  "guest_move_file os root input = required ''move_file: missing `from`'' (arg input ''from'') (\<lambda>from.
     required ''move_file: missing `to`'' (arg input ''to'') (\<lambda>to w.
       let src = resolved_path root from; dst = resolved_path root to in
       w_bind (gs_mkdirs os (parent_path dst) w) (\<lambda>_ w1.
       w_bind (gs_rename os src dst w1) (\<lambda>_ w2.
         (Inr (ok_json [(''from'', JStr from), (''to'', JStr to)]), w2)))))"

definition guest_list_dir :: "'w guest_tool" where
  "guest_list_dir os root input w =
     (let path = unwrap_or ''/'' (arg input ''path'') in
      w_bind (gs_read_dir os (resolved_path root path) w) (\<lambda>entries w1.
        (Inr (ok_json [(''path'', JStr path),
           (''entries'', JArr (map (\<lambda>(name, d, l). JObj [(''name'', JStr name), (''is_dir'', JBool d),
              (''is_symlink'', JBool l)]) entries))]), w1)))"

definition guest_create_directory :: "'w guest_tool" where
  "guest_create_directory os root input =
     required ''create_directory: missing `path`'' (arg input ''path'') (\<lambda>path w.
       w_bind (gs_mkdirs os (resolved_path root path) w) (\<lambda>_ w1. (Inr (ok_json [(''path'', JStr path)]), w1)))"

definition guest_delete_directory :: "'w guest_tool" where
  "guest_delete_directory os root input =
     required ''delete_directory: missing `path`'' (arg input ''path'') (\<lambda>path w.
       w_bind (gs_remove_dir_all os (resolved_path root path) w) (\<lambda>_ w1. (Inr (ok_json [(''path'', JStr path)]), w1)))"

definition guest_get_file_info :: "'w guest_tool" where
  "guest_get_file_info os root input =
     required ''get_file_info: missing `path`'' (arg input ''path'') (\<lambda>path w.
       w_bind (gs_metadata os (resolved_path root path) w) (\<lambda>m w1.
         (Inr (ok_json [(''path'', JStr path), (''size'', JInt (int (fm_len m))), (''is_dir'', JBool (fm_is_dir m)),
            (''is_file'', JBool (fm_is_file m)), (''readonly'', JBool (fm_readonly m))]), w1)))"

definition guest_file_exists :: "'w guest_tool" where
  "guest_file_exists os root input =
     required ''file_exists: missing `path`'' (arg input ''path'') (\<lambda>path w.
       (Inr (ok_json [(''path'', JStr path), (''exists'', JBool (gs_exists os (resolved_path root path) w))]), w))"

subsection \<open>Processes\<close>

definition call_proc :: "'w guest_os \<Rightarrow> guest_call \<Rightarrow> ('w, json) effect" where
  "call_proc os c w = w_bind (gs_proc os c w) (\<lambda>out w1. (Inr (proc_json out), w1))"

definition guest_call :: "string \<Rightarrow> string list \<Rightarrow> string option \<Rightarrow> guest_call" where
  "guest_call program args cwd =
     \<lparr> gc_program = program, gc_args = args, gc_cwd = cwd, gc_env = [], gc_chroot = None \<rparr>"

definition guest_run_command :: "'w guest_tool" where
  "guest_run_command os root input = required ''run_command: missing `cmd`'' (arg input ''cmd'') (\<lambda>cmd.
     let args = unwrap_or [] (Option.bind (jget input ''args'') string_list);
         env = unwrap_or [] (Option.bind (jget input ''env'') (dec_arr dec_pair));
         cwd = map_option (resolved_path root) (arg input ''cwd'') in
     call_proc os ((guest_call ''/bin/sh'' ([''-c'', cmd] @ args) cwd)\<lparr> gc_env := env \<rparr>))"

definition guest_run_script :: "'w guest_tool" where
  "guest_run_script os root input w =
     (let interpreter = unwrap_or ''sh'' (arg input ''interpreter'');
          run = (\<lambda>script. call_proc os (guest_call interpreter [script] None)) in
      case arg input ''path'' of
        Some p \<Rightarrow> run (resolved_path root p) w
      | None \<Rightarrow>
          (case arg input ''script'' of
             Some s \<Rightarrow>
               (let tmp = join_path (join_path root ''tmp'') ''_script'' in
                w_bind (gs_mkdirs os (join_path root ''tmp'') w) (\<lambda>_ w1.
                w_bind (gs_write os tmp s w1) (\<lambda>_. run tmp)))
           | None \<Rightarrow> (Inl ''run_script: need `path` or `script`'', w)))"

definition guest_http :: "'w guest_os \<Rightarrow> string \<Rightarrow> string \<Rightarrow> string \<Rightarrow> ('w, json) effect" where
  "guest_http os verb url body w = w_bind (gs_http os verb url body w) (\<lambda>(status, resp) w1.
     (Inr (JObj [(''status'', JInt (int status)), (''body'', JStr resp), (''success'', JBool (status < 400))]), w1))"

definition guest_http_get :: "'w guest_tool" where
  "guest_http_get os root input =
     required ''http_get: missing `url`'' (arg input ''url'') (\<lambda>url. guest_http os ''GET'' url [])"

definition guest_http_post :: "'w guest_tool" where
  "guest_http_post os root input = required ''http_post: missing `url`'' (arg input ''url'') (\<lambda>url.
     guest_http os ''POST'' url (unwrap_or [] (arg input ''body'')))"

definition guest_http_put :: "'w guest_tool" where
  "guest_http_put os root input = required ''http_put: missing `url`'' (arg input ''url'') (\<lambda>url.
     guest_http os ''PUT'' url (unwrap_or [] (arg input ''body'')))"

definition guest_http_delete :: "'w guest_tool" where
  "guest_http_delete os root input =
     required ''http_delete: missing `url`'' (arg input ''url'') (\<lambda>url. guest_http os ''DELETE'' url [])"

definition guest_http_patch :: "'w guest_tool" where
  "guest_http_patch os root input = required ''http_patch: missing `url`'' (arg input ''url'') (\<lambda>url.
     guest_http os ''PATCH'' url (unwrap_or [] (arg input ''body'')))"

definition guest_git :: "'w guest_os \<Rightarrow> string \<Rightarrow> string list \<Rightarrow> string option \<Rightarrow> ('w, json) effect" where
  "guest_git os root args path = call_proc os (guest_call ''git'' args
     (Some (case path of None \<Rightarrow> root | Some p \<Rightarrow> resolved_path root p)))"

definition guest_git_clone :: "'w guest_tool" where
  "guest_git_clone os root input = required ''git_clone: missing `repo`'' (arg input ''repo'') (\<lambda>repo.
     required ''git_clone: missing `path`'' (arg input ''path'') (\<lambda>path.
       call_proc os (guest_call ''git'' [''clone'', repo, resolved_path root path] None)))"

definition guest_git_add :: "'w guest_tool" where
  "guest_git_add os root input = required ''git_add: missing `path`'' (arg input ''path'') (\<lambda>path.
     required ''git_add: missing `files`'' (Option.bind (jget input ''files'') string_list) (\<lambda>files.
       guest_git os root (''add'' # files) (Some path)))"

definition guest_git_commit :: "'w guest_tool" where
  "guest_git_commit os root input = required ''git_commit: missing `path`'' (arg input ''path'') (\<lambda>path.
     required ''git_commit: missing `message`'' (arg input ''message'') (\<lambda>message.
       guest_git os root [''commit'', ''-m'', message] (Some path)))"

definition guest_git_branch :: "'w guest_tool" where
  "guest_git_branch os root input =
     guest_git os root (case arg input ''name'' of Some n \<Rightarrow> [''branch'', n] | None \<Rightarrow> [''branch'']) (arg input ''path'')"

definition guest_git_checkout :: "'w guest_tool" where
  "guest_git_checkout os root input = required ''git_checkout: missing `path`'' (arg input ''path'') (\<lambda>path.
     required ''git_checkout: missing `branch`'' (arg input ''branch'') (\<lambda>branch.
       guest_git os root [''checkout'', branch] (Some path)))"

definition guest_grep :: "'w guest_tool" where
  "guest_grep os root input = required ''grep: missing `pattern`'' (arg input ''pattern'') (\<lambda>pat w.
     let p = resolved_path root (unwrap_or ''.'' (arg input ''path''));
         inc = (case arg input ''include'' of None \<Rightarrow> [] | Some i \<Rightarrow> [''--include'', i]);
         n = unwrap_or 100 (Option.bind (jget input ''max_results'') ju64) in
     w_bind (gs_proc os (guest_call ''grep'' ([''-rn'', ''--color=never'', pat] @ inc @ [p]) None) w) (\<lambda>out w1.
       let ls = str_lines (po_stdout out) in
       (Inr (ok_json [(''matches'', JArr (map JStr (take n ls))), (''count'', JInt (int (length (take n ls)))),
          (''truncated'', JBool (n < length ls))]), w1)))"

definition guest_find_files :: "'w guest_tool" where
  "guest_find_files os root input = required ''find_files: missing `pattern`'' (arg input ''pattern'') (\<lambda>pat w.
     let p = resolved_path root (unwrap_or ''.'' (arg input ''path''));
         depth = unwrap_or 10 (Option.bind (jget input ''max_depth'') ju64) in
     w_bind (gs_proc os (guest_call ''find'' [p, ''-maxdepth'', show_nat depth, ''-name'', pat] None) w) (\<lambda>out w1.
       let files = str_lines (po_stdout out) in
       (Inr (ok_json [(''files'', JArr (map JStr files)), (''count'', JInt (int (length files)))]), w1)))"

definition guest_echo :: "'w guest_tool" where
  "guest_echo os root input w =
     (Inr (ok_json [(''output'', JStr (unwrap_or [] (arg input ''message'')))]), w)"

text \<open>The table of \<open>invoke\<close>.\<close>

definition guest_tools :: "(string \<times> 'w guest_tool) list" where
  "guest_tools = [(''read_file'', guest_read_file), (''write_file'', guest_write_file),
     (''append_file'', guest_append_file), (''delete_file'', guest_delete_file), (''copy_file'', guest_copy_file),
     (''move_file'', guest_move_file), (''list_files'', guest_list_dir), (''list_dir'', guest_list_dir),
     (''create_directory'', guest_create_directory), (''delete_directory'', guest_delete_directory),
     (''get_file_info'', guest_get_file_info), (''file_exists'', guest_file_exists),
     (''run_command'', guest_run_command), (''run_script'', guest_run_script), (''http_get'', guest_http_get),
     (''http_post'', guest_http_post), (''http_put'', guest_http_put), (''http_delete'', guest_http_delete),
     (''http_patch'', guest_http_patch), (''git_clone'', guest_git_clone),
     (''git_status'', \<lambda>os root input. guest_git os root [''status'', ''--porcelain''] (arg input ''path'')),
     (''git_add'', guest_git_add), (''git_commit'', guest_git_commit),
     (''git_diff'', \<lambda>os root input. guest_git os root [''diff''] (arg input ''path'')),
     (''git_branch'', guest_git_branch), (''git_checkout'', guest_git_checkout), (''grep'', guest_grep),
     (''find_files'', guest_find_files), (''echo'', guest_echo)]"

definition guest_invoke :: "'w guest_os \<Rightarrow> string \<Rightarrow> string \<Rightarrow> json \<Rightarrow> ('w, json) effect" where
  "guest_invoke os root tool input w =
     (case map_of guest_tools tool of
        Some f \<Rightarrow> f os root input w
      | None \<Rightarrow> (Inl (''tool `'' @ tool @ ''` not implemented in executor''), w))"

section \<open>A sandbox is no jail for its tools\<close>

text \<open>
  \<open>os_path\<close> is the path that the operating system makes of a string when no symbolic link is involved:
  empty and \<open>.\<close> components are dropped and \<open>..\<close> goes up, at the root to itself.
\<close>

definition os_path :: "string \<Rightarrow> hpath" where
  "os_path p = fold push_component (components p) []"

text \<open>That the operating system looks at nothing else of a path.\<close>

definition lexical_paths :: "'w guest_os \<Rightarrow> bool" where
  "lexical_paths os \<longleftrightarrow> (\<forall>p q. os_path p = os_path q \<longrightarrow> gs_metadata os p = gs_metadata os q
     \<and> gs_read os p = gs_read os q \<and> gs_remove_file os p = gs_remove_file os q
     \<and> gs_remove_dir_all os p = gs_remove_dir_all os q)"

lemma components_append:
  "components (p @ CHR ''/'' # q) = components p @ components q"
proof -
  have "split_char c (p @ c # q) = split_char c p @ split_char c q" for c
    by (induction p) (auto split: list.splits simp: neq_Nil_conv)
  then show ?thesis by (simp add: components_def)
qed

lemma push_butlast: "fold push_component (replicate n ParentDir) d = take (length d - n) d"
proof (induction n arbitrary: d)
  case (Suc n)
  then show ?case by (simp add: butlast_conv_take min_def)
qed simp

definition ups :: "nat \<Rightarrow> string" where
  "ups n = concat (replicate n ''../'')"

lemma components_ups: "components (ups n @ p) = replicate n ParentDir @ components p"
proof (induction n)
  case (Suc n)
  have "components (ups (Suc n) @ p) = components (''..'' @ CHR ''/'' # (ups n @ p))"
    by (simp add: ups_def)
  also have "\<dots> = components ''..'' @ components (ups n @ p)" by (rule components_append)
  also have "components ''..'' = [ParentDir]" by (simp add: components_def component_of_def)
  finally show ?case using Suc by simp
qed (simp add: ups_def)

lemma os_path_join: "os_path (join_path root rel) = fold push_component (components rel) (os_path root)"
proof -
  have slash: "os_path (r @ CHR ''/'' # rel) = fold push_component (components rel) (os_path r)" for r
    by (simp add: os_path_def components_append)
  have trail: "os_path (r @ ''/'') = os_path r" for r
    using components_append [of r "[]"] by (simp add: os_path_def) (simp add: components_def component_of_def)
  consider "root = []" | r where "root = r @ ''/''" | "root \<noteq> []" "last root \<noteq> CHR ''/''"
    by (metis append_butlast_last_id)
  then show ?thesis
  proof cases
    case 1
    then show ?thesis by (simp add: join_path_def os_path_def) (simp add: components_def component_of_def)
  next
    case (2 r)
    then show ?thesis using slash [of r] trail [of r] by (simp add: join_path_def)
  next
    case 3
    then show ?thesis using slash [of root] by (simp add: join_path_def)
  qed
qed

lemma escape_path:
  assumes "length (os_path root) \<le> n" and "0 < n"
  shows "os_path (resolved_path root (ups n @ p)) = os_path p"
proof -
  have "hd (ups n @ p) = CHR ''.''" "ups n @ p \<noteq> []"
    using assms(2) by (cases n; simp add: ups_def)+
  then have "dropWhile (\<lambda>c. c = CHR ''/'') (ups n @ p) = ups n @ p"
    by (cases "ups n @ p") auto
  then have "os_path (resolved_path root (ups n @ p))
      = fold push_component (components p) (fold push_component (replicate n ParentDir) (os_path root))"
    by (simp add: resolved_path_def os_path_join components_ups)
  then show ?thesis using assms(1) unfolding push_butlast by (simp add: os_path_def)
qed

text \<open>
  The root of a sandbox does not confine its tools. A path with enough \<open>..\<close> reads, describes or deletes
  the same file in every sandbox, the one that its rest names from the root of the guest; and \<open>run_command\<close>
  without a working directory does exactly the same whichever sandbox it is called for, since it changes neither
  the root nor the directory.
\<close>

theorem guest_tools_not_confined:
  fixes p :: string and n :: nat
  assumes "lexical_paths os" and "length (os_path root) \<le> n" and "0 < n"
  defines "input \<equiv> JObj [(''path'', JStr (ups n @ p))]"
  shows "(gs_metadata os p w = (Inr m, w1) \<and> \<not> fm_is_dir m \<and> fm_len m \<le> 10 * 1024 * 1024 \<longrightarrow>
          guest_invoke os root ''read_file'' input w = w_bind (gs_read os p w1) (\<lambda>s w2.
            (Inr (ok_json [(''content'', JStr s), (''size'', JInt (int (length s)))]), w2)))
    \<and> guest_invoke os root ''delete_file'' input w
        = w_bind (gs_remove_file os p w) (\<lambda>_ w1. (Inr (ok_json [(''path'', JStr (ups n @ p))]), w1))
    \<and> guest_invoke os root ''delete_directory'' input w
        = w_bind (gs_remove_dir_all os p w) (\<lambda>_ w1. (Inr (ok_json [(''path'', JStr (ups n @ p))]), w1))
    \<and> (jget cmd ''cwd'' = None \<longrightarrow>
         guest_invoke os root ''run_command'' cmd w = guest_invoke os root' ''run_command'' cmd w)"
proof -
  have p: "os_path (resolved_path root (ups n @ p)) = os_path p" by (rule escape_path [OF assms(2,3)])
  have same: "gs_metadata os (resolved_path root (ups n @ p)) = gs_metadata os p"
    "gs_read os (resolved_path root (ups n @ p)) = gs_read os p"
    "gs_remove_file os (resolved_path root (ups n @ p)) = gs_remove_file os p"
    "gs_remove_dir_all os (resolved_path root (ups n @ p)) = gs_remove_dir_all os p"
    using assms(1) p unfolding lexical_paths_def by blast+
  have "arg input ''path'' = Some (ups n @ p)" by (simp add: input_def arg_def jget_str_def)
  then have t: "guest_read_file os root input w = w_bind (gs_metadata os p w) (\<lambda>meta w1.
        if fm_is_dir meta
        then (Inr (JObj [(''error'', JStr ''is a directory''), (''path'', JStr (ups n @ p)), (''success'', JBool False)]), w1)
        else if 10 * 1024 * 1024 < fm_len meta
        then (Inl (''file too large (>10MB): '' @ resolved_path root (ups n @ p)), w1)
        else w_bind (gs_read os p w1) (\<lambda>s w2.
          (Inr (ok_json [(''content'', JStr s), (''size'', JInt (int (length s)))]), w2)))"
    "guest_delete_file os root input w
      = w_bind (gs_remove_file os p w) (\<lambda>_ w1. (Inr (ok_json [(''path'', JStr (ups n @ p))]), w1))"
    "guest_delete_directory os root input w
      = w_bind (gs_remove_dir_all os p w) (\<lambda>_ w1. (Inr (ok_json [(''path'', JStr (ups n @ p))]), w1))"
    by (simp_all only: guest_read_file_def guest_delete_file_def guest_delete_directory_def Let_def same required_simps)
  have c: "guest_run_command os root cmd w = guest_run_command os root' cmd w" if "jget cmd ''cwd'' = None"
    using that by (simp add: guest_run_command_def arg_def jget_str_def)
  have inv: "guest_invoke os r ''read_file'' = guest_read_file os r" "guest_invoke os r ''delete_file'' = guest_delete_file os r"
    "guest_invoke os r ''delete_directory'' = guest_delete_directory os r"
    "guest_invoke os r ''run_command'' = guest_run_command os r" for r
    by (intro ext; simp add: guest_invoke_def guest_tools_def)+
  show ?thesis
    unfolding inv using c by (intro conjI impI t(2,3)) (simp_all add: t(1))
qed

section \<open>An operating system for the instances\<close>

text \<open>Its world is the list of the existing paths; every file reads as empty.\<close>

definition demo_os :: "hpath list guest_os" where
  "demo_os = \<lparr> gs_checks = False,
     gs_metadata = (\<lambda>p w. (if os_path p \<in> set w
        then Inr \<lparr> fm_is_dir = False, fm_is_file = True, fm_len = 0, fm_readonly = False \<rparr> else Inl ''not found'', w)),
     gs_read = (\<lambda>p w. (if os_path p \<in> set w then Inr [] else Inl ''not found'', w)),
     gs_write = (\<lambda>p s w. (Inr (), os_path p # w)), gs_append = (\<lambda>p s w. (Inr (), os_path p # w)),
     gs_mkdirs = (\<lambda>p w. (Inr (), prefixes (os_path p) @ w)),
     gs_remove_file = (\<lambda>p w. (Inr (), filter (\<lambda>q. q \<noteq> os_path p) w)),
     gs_copy = (\<lambda>p q w. (Inr (), os_path q # w)), gs_rename = (\<lambda>p q w. (Inr (), os_path q # w)),
     gs_read_dir = (\<lambda>p w. (Inr [], w)),
     gs_remove_dir = (\<lambda>p w. (Inr (), filter (\<lambda>q. q \<noteq> os_path p) w)),
     gs_remove_dir_all = (\<lambda>p w. (Inr (), filter (\<lambda>q. \<not> prefix (os_path p) q) w)),
     gs_exists = (\<lambda>p w. os_path p \<in> set w),
     gs_proc = (\<lambda>c w. (Inr \<lparr> po_code = Some 0, po_stdout = [], po_stderr = [] \<rparr>, w)),
     gs_http = (\<lambda>_ _ _ w. (Inl ''offline'', w)),
     gs_tempdir = (\<lambda>w. (Inr (''/tmp/t'' @ show_nat (length w)), [''tmp'', CHR ''t'' # show_nat (length w)] # w)),
     gs_temp_dir = ''/tmp'', gs_mount = (\<lambda>_ _ w. (Inr (), w)), gs_umount = (\<lambda>_ w. (Inr (), w)),
     gs_tree = (\<lambda>_ _. Inr []), gs_archive = (\<lambda>_. Inr []), gs_unpack = (\<lambda>_ _ w. (Inr (), w)) \<rparr>"

lemma demo_os_lexical: "lexical_paths demo_os"
  by (simp add: lexical_paths_def demo_os_def)

lemma guest_tools_not_confined_witness:
  "guest_invoke demo_os ''/tmp/t1'' ''delete_file'' (JObj [(''path'', JStr (ups 2 @ ''etc/passwd''))]) [[''etc'', ''passwd'']]
     = (Inr (ok_json [(''path'', JStr (ups 2 @ ''etc/passwd''))]), [])"
proof -
  have o: "os_path ''etc/passwd'' = [''etc'', ''passwd'']" and l: "length (os_path ''/tmp/t1'') \<le> 2"
    by (simp_all add: os_path_def components_def component_of_def)
  have "guest_invoke demo_os ''/tmp/t1'' ''delete_file'' (JObj [(''path'', JStr (ups 2 @ ''etc/passwd''))]) [[''etc'', ''passwd'']]
      = w_bind (gs_remove_file demo_os ''etc/passwd'' [[''etc'', ''passwd'']])
          (\<lambda>_ w1. (Inr (ok_json [(''path'', JStr (ups 2 @ ''etc/passwd''))]), w1))"
    using guest_tools_not_confined [OF demo_os_lexical l, of "''etc/passwd''"] by simp
  then show ?thesis by (simp add: demo_os_def o)
qed

end
