(* ===== verification/Guest.thy ===== *)
theory Guest
  imports Guest_Tools
begin

text \<open>
  The executor in the virtual machine: its sandboxes (\<open>mowis-executor/src/sandbox.rs\<close>) and the requests
  of the host (\<open>mowis-executor/src/server.rs\<close>). A request is handled in a task of its own; here it is one
  step, and a run is a sequence of requests in the order in which they are handled. Dropping a
  sandbox is written out where the code drops its last reference.
\<close>

section \<open>Sandboxes\<close>

record sandbox =
  sb_id :: string
  sb_root :: string
  sb_overlay :: "(string \<times> string) option"
  sb_limits :: resource_limits

text \<open>The result of a blocking task: \<open>None\<close> if it panicked.\<close>

type_synonym 'a blocking = "(string + 'a) option"

definition cgroup_base :: string where
  "cgroup_base = ''/sys/fs/cgroup/mowis''"

definition cgroup_dir :: "string \<Rightarrow> string" where
  "cgroup_dir i = join_path cgroup_base (''sandbox-'' @ i)"

text \<open>\<open>apply_cgroup_limits\<close>, which ignores what fails. It panics when the quota overflows and overflows are checked.\<close>

definition cpu_quota_overflows :: "u64 \<Rightarrow> bool" where
  "cpu_quota_overflows cpu \<longleftrightarrow> 2 ^ 64 \<le> unat cpu * 100"

definition write_limits :: "'w guest_os \<Rightarrow> sandbox \<Rightarrow> 'w \<Rightarrow> bool \<times> 'w" where
  "write_limits os sb w =
     (let cg = cgroup_dir (sb_id sb) in
      case gs_mkdirs os cg w of
        (Inl _, w1) \<Rightarrow> (False, w1)
      | (Inr _, w1) \<Rightarrow>
          (let w2 = (case rl_ram_bytes (sb_limits sb) of
                       Some ram \<Rightarrow> snd (gs_write os (join_path cg ''memory.max'') (show_nat (unat ram)) w1)
                     | None \<Rightarrow> w1) in
           case rl_cpu_millis (sb_limits sb) of
             None \<Rightarrow> (False, w2)
           | Some cpu \<Rightarrow>
               if gs_checks os \<and> cpu_quota_overflows cpu then (True, w2)
               else (False, snd (gs_write os (join_path cg ''cpu.max'') (show_nat (unat (cpu * 100)) @ '' 100000'') w2))))"

definition apply_limits :: "'w guest_os \<Rightarrow> sandbox \<Rightarrow> 'w \<Rightarrow> bool \<times> 'w" where
  "apply_limits os sb w =
     (if gs_exists os cgroup_base w then write_limits os sb w
      else case gs_mkdirs os cgroup_base w of
             (Inl _, w1) \<Rightarrow> (False, w1)
           | (Inr _, w1) \<Rightarrow> write_limits os sb w1)"

text \<open>\<open>Drop\<close>: unmount, remove the directories of the overlay and the control group, and the root.\<close>

definition drop_sandbox :: "'w guest_os \<Rightarrow> sandbox \<Rightarrow> 'w \<Rightarrow> 'w" where
  "drop_sandbox os sb w =
     (let w1 = snd (gs_umount os (sb_root sb) w);
          w2 = (case sb_overlay sb of None \<Rightarrow> w1
                | Some (upper, _) \<Rightarrow> snd (gs_remove_dir_all os (parent_path upper) w1));
          w3 = snd (gs_remove_dir os (cgroup_dir (sb_id sb)) w2) in
      snd (gs_remove_dir_all os (sb_root sb) w3))"

definition with_limits :: "'w guest_os \<Rightarrow> sandbox \<Rightarrow> 'w \<Rightarrow> sandbox blocking \<times> 'w" where
  "with_limits os sb w =
     (case apply_limits os sb w of
        (True, w1) \<Rightarrow> (None, drop_sandbox os sb w1)
      | (False, w1) \<Rightarrow> (Some (Inr sb), w1))"

text \<open>Directories and mount of an overlay; when one fails, the temporary root is removed.\<close>

definition mount_overlay ::
  "'w guest_os \<Rightarrow> string \<Rightarrow> string \<Rightarrow> string \<Rightarrow> string \<Rightarrow> sandbox \<Rightarrow> 'w \<Rightarrow> sandbox blocking \<times> 'w" where
  "mount_overlay os what base lower root sb w =
     (let upper = join_path base ''upper''; work = join_path base ''work'';
          r = w_bind (gs_mkdirs os upper w) (\<lambda>_ w1. w_bind (gs_mkdirs os work w1) (\<lambda>_ w2.
                case gs_mount os (Overlay lower upper work) root w2 of
                  (Inl _, w3) \<Rightarrow> (Inl (''mount overlayfs for '' @ what), w3)
                | (Inr _, w3) \<Rightarrow> (Inr (), w3))) in
      case r of
        (Inl e, w4) \<Rightarrow> (Some (Inl e), snd (gs_remove_dir_all os root w4))
      | (Inr _, w4) \<Rightarrow> with_limits os (sb\<lparr> sb_overlay := Some (upper, work) \<rparr>) w4)"

definition fresh_id :: "string option \<Rightarrow> u64 \<Rightarrow> string \<times> u64" where
  "fresh_id req counter = (case req of Some i \<Rightarrow> (i, counter)
     | None \<Rightarrow> (''sb-'' @ show_nat (unat counter), counter + 1))"

definition create_in ::
  "'w guest_os \<Rightarrow> string \<Rightarrow> string option \<Rightarrow> resource_limits \<Rightarrow> 'w \<Rightarrow> sandbox blocking \<times> 'w" where
  "create_in os i rootfs limits w =
     (case gs_tempdir os w of
        (Inl _, w1) \<Rightarrow> (Some (Inl ''create sandbox root''), w1)
      | (Inr root, w1) \<Rightarrow>
          (let sb = \<lparr> sb_id = i, sb_root = root, sb_overlay = None, sb_limits = limits \<rparr> in
           case rootfs of
             Some lower \<Rightarrow>
               if gs_exists os lower w1
               then mount_overlay os (''sandbox '' @ i) (join_path (gs_temp_dir os) (''mowis-overlay-'' @ i)) lower root sb w1
               else (Some (Inl (''image_rootfs does not exist: '' @ lower)), snd (gs_remove_dir_all os root w1))
           | None \<Rightarrow> with_limits os sb (snd (gs_mount os Tmpfs root w1))))"

definition create_agent_overlay ::
  "'w guest_os \<Rightarrow> sandbox \<Rightarrow> string \<Rightarrow> resource_limits \<Rightarrow> 'w \<Rightarrow> sandbox blocking \<times> 'w" where
  "create_agent_overlay os par agent limits w =
     (case gs_tempdir os w of
        (Inl _, w1) \<Rightarrow> (Some (Inl ''create agent overlay root''), w1)
      | (Inr root, w1) \<Rightarrow>
          mount_overlay os (''agent overlay '' @ agent)
            (join_path (gs_temp_dir os) (''mowis-agent-overlay-'' @ agent)) (sb_root par) root
            \<lparr> sb_id = sb_id par @ '':'' @ agent, sb_root = root, sb_overlay = None, sb_limits = limits \<rparr> w1)"

definition sandbox_run_command ::
  "'w guest_os \<Rightarrow> sandbox \<Rightarrow> string \<Rightarrow> string list \<Rightarrow> (string \<times> string) list \<Rightarrow> ('w, proc_output) effect" where
  "sandbox_run_command os sb cmd args env w =
     (case gs_proc os \<lparr> gc_program = cmd, gc_args = args, gc_cwd = Some ''/'',
         gc_env = (''PATH'', ''/usr/local/sbin:/usr/local/bin:/usr/sbin:/usr/bin:/sbin:/bin'') # env,
         gc_chroot = Some (sb_root sb) \<rparr> w of
        (Inl _, w1) \<Rightarrow> (Inl (''spawn `'' @ cmd @ ''` in sandbox '' @ sb_id sb), w1)
      | (Inr out, w1) \<Rightarrow> (Inr out, w1))"

text \<open>
  The recursion of \<open>copy_dir_recursive\<close>, over the contents of the upper directory; it passes \<open>dst_base\<close> on
  and takes the path of an entry relative to the directory the entry is in.
\<close>

function (sequential) merge_entries ::
  "'w guest_os \<Rightarrow> string \<Rightarrow> string \<Rightarrow> entries \<Rightarrow> string list \<Rightarrow> ('w, string list) effect" where
  "merge_entries os src dst_base [] changed w = (Inr changed, w)"
| "merge_entries os src dst_base ((name, DDir es) # rest) changed w =
     w_bind (gs_mkdirs os (join_path dst_base name) w) (\<lambda>_ w1.
     w_bind (merge_entries os (join_path src name) dst_base es changed w1) (\<lambda>changed1 w2.
       merge_entries os src dst_base rest changed1 w2))"
| "merge_entries os src dst_base ((name, DFile s) # rest) changed w =
     w_bind (gs_mkdirs os (parent_path (join_path dst_base name)) w) (\<lambda>_ w1.
     w_bind (gs_copy os (join_path src name) (join_path dst_base name) w1) (\<lambda>_ w2.
       merge_entries os src dst_base rest (changed @ [name]) w2))"
  by pat_completeness auto

termination
  by (relation "measure (\<lambda>(os, src, dst, es, n, w). size_list (size_prod (\<lambda>_. 0) size) es)") auto

definition merge_overlay :: "'w guest_os \<Rightarrow> sandbox \<Rightarrow> sandbox \<Rightarrow> ('w, string list) effect" where
  "merge_overlay os par overlay w =
     (case sb_overlay overlay of
        None \<Rightarrow> (Inl ''overlay has no upper directory'', w)
      | Some (upper, _) \<Rightarrow>
          (case gs_tree os upper w of
             Inl e \<Rightarrow> (Inl e, w)
           | Inr es \<Rightarrow> merge_entries os upper (sb_root par) es [] w))"

section \<open>Uploads\<close>

definition unsafe_path :: "string \<Rightarrow> bool" where
  "unsafe_path p \<longleftrightarrow> prefix ''/'' p \<or> ParentDir \<in> set (components p)"

fun unpack_entries ::
  "'w guest_os \<Rightarrow> string \<Rightarrow> (string + string \<times> string) list \<Rightarrow> u32 \<Rightarrow> ('w, u32) effect" where
  "unpack_entries os root [] n w = (Inr n, w)"
| "unpack_entries os root (Inl e # es) n w = (Inl e, w)"
| "unpack_entries os root (Inr (p, content) # es) n w =
     (if unsafe_path p then unpack_entries os root es n w
      else case gs_unpack os (join_path root p) content w of
             (Inl _, w1) \<Rightarrow> (Inl ''unpack entry'', w1)
           | (Inr _, w1) \<Rightarrow> unpack_entries os root es (n + 1) w1)"

text \<open>\<open>gs_archive\<close> undoes base64, gzip and tar; an entry that cannot be read is an error in its place.\<close>

definition upload_codebase :: "'w guest_os \<Rightarrow> sandbox \<Rightarrow> string \<Rightarrow> ('w, u32) effect" where
  "upload_codebase os sb archive w =
     (case gs_archive os archive of
        Inl e \<Rightarrow> (Inl e, w)
      | Inr es \<Rightarrow> unpack_entries os (sb_root sb) es 0 w)"

section \<open>The server\<close>

record 'w guest =
  gu_sandboxes :: "(string \<times> sandbox) list"
  gu_counter :: u64
  gu_stdin :: bool
  gu_waiting :: bool
  gu_prompt :: string
  gu_exited :: bool
  gu_world :: 'w

definition new_guest :: "'w \<Rightarrow> 'w guest" where
  "new_guest w = \<lparr> gu_sandboxes = [], gu_counter = 1, gu_stdin = False, gu_waiting = False,
     gu_prompt = [], gu_exited = False, gu_world = w \<rparr>"

type_synonym 'w handled = "envelope list \<times> 'w guest"

definition answer :: "u64 \<Rightarrow> payload \<Rightarrow> 'w guest \<Rightarrow> 'w handled" where
  "answer i p g = ([\<lparr> env_id = i, env_payload = p \<rparr>], g)"

definition lookup_sandbox :: "'w guest \<Rightarrow> string \<Rightarrow> sandbox option" where
  "lookup_sandbox g k = map_of (gu_sandboxes g) k"

text \<open>\<open>insert\<close> and \<open>remove\<close> drop the sandbox that was there.\<close>

definition drop_at :: "'w guest_os \<Rightarrow> string \<Rightarrow> 'w guest \<Rightarrow> 'w" where
  "drop_at os k g = (case lookup_sandbox g k of None \<Rightarrow> gu_world g | Some sb \<Rightarrow> drop_sandbox os sb (gu_world g))"

definition insert_sandbox :: "'w guest_os \<Rightarrow> sandbox \<Rightarrow> 'w guest \<Rightarrow> 'w guest" where
  "insert_sandbox os sb g = g\<lparr> gu_sandboxes := AList.update (sb_id sb) sb (gu_sandboxes g),
     gu_world := drop_at os (sb_id sb) g \<rparr>"

definition remove_sandbox :: "'w guest_os \<Rightarrow> string \<Rightarrow> 'w guest \<Rightarrow> 'w guest" where
  "remove_sandbox os k g = g\<lparr> gu_sandboxes := AList.delete k (gu_sandboxes g), gu_world := drop_at os k g \<rparr>"

definition with_sandbox ::
  "u64 \<Rightarrow> string \<Rightarrow> string \<Rightarrow> 'w guest \<Rightarrow> (sandbox \<Rightarrow> 'w handled) \<Rightarrow> 'w handled" where
  "with_sandbox i k what g f =
     (case lookup_sandbox g k of None \<Rightarrow> answer i (Error (''no '' @ what @ ''`'')) g | Some sb \<Rightarrow> f sb)"

definition overlay_key :: "string \<Rightarrow> string \<Rightarrow> string" where
  "overlay_key sandbox_id agent = sandbox_id @ '':'' @ agent"

text \<open>A blocking task: nothing is sent when it panicked.\<close>

definition finish_create :: "'w guest_os \<Rightarrow> u64 \<Rightarrow> payload \<Rightarrow> 'w guest \<Rightarrow> sandbox blocking \<times> 'w \<Rightarrow> 'w handled" where
  "finish_create os i reply g r =
     (case r of
        (None, w) \<Rightarrow> ([], g\<lparr> gu_world := w \<rparr>)
      | (Some (Inl e), w) \<Rightarrow> answer i (Error e) (g\<lparr> gu_world := w \<rparr>)
      | (Some (Inr sb), w) \<Rightarrow> answer i reply (insert_sandbox os sb (g\<lparr> gu_world := w \<rparr>)))"

definition create_sandbox :: "'w guest_os \<Rightarrow> u64 \<Rightarrow> sandbox_spec \<Rightarrow> 'w guest \<Rightarrow> 'w handled" where
  "create_sandbox os i spec g =
     (case fresh_id (ss_sandbox_id spec) (gu_counter g) of
        (sid, counter) \<Rightarrow> finish_create os i (SandboxCreated sid) (g\<lparr> gu_counter := counter \<rparr>)
          (create_in os sid (ss_image_rootfs spec) (ss_limits spec) (gu_world g)))"

definition reply_result :: "u64 \<Rightarrow> ('a \<Rightarrow> payload) \<Rightarrow> 'w guest \<Rightarrow> (string + 'a) \<times> 'w \<Rightarrow> 'w handled" where
  "reply_result i f g r =
     (case r of
        (Inl e, w) \<Rightarrow> answer i (Error e) (g\<lparr> gu_world := w \<rparr>)
      | (Inr x, w) \<Rightarrow> answer i (f x) (g\<lparr> gu_world := w \<rparr>))"

definition exec_replies :: "u64 \<Rightarrow> 'w guest \<Rightarrow> (string + proc_output) \<times> 'w \<Rightarrow> 'w handled" where
  "exec_replies i g r =
     (case r of
        (Inl e, w) \<Rightarrow> answer i (Error e) (g\<lparr> gu_world := w \<rparr>)
      | (Inr out, w) \<Rightarrow>
          (map (\<lambda>p. \<lparr> env_id = i, env_payload = p \<rparr>)
             ((if po_stdout out = [] then [] else [Stdout (po_stdout out)])
              @ (if po_stderr out = [] then [] else [Stderr (po_stderr out)])
              @ [ExitCode (word_of_int (unwrap_or (- 1) (po_code out)))]),
           g\<lparr> gu_world := w \<rparr>))"

definition exec :: "'w guest_os \<Rightarrow> u64 \<Rightarrow> exec_request \<Rightarrow> 'w guest \<Rightarrow> 'w handled" where
  "exec os i req g =
     (case er_sandbox_id req of
        Some sid \<Rightarrow> with_sandbox i sid (''sandbox `'' @ sid) g (\<lambda>sb.
          exec_replies i g (sandbox_run_command os sb (er_cmd req) (er_args req) (er_env req) (gu_world g)))
      | None \<Rightarrow> exec_replies i g (gs_proc os \<lparr> gc_program = er_cmd req, gc_args = er_args req, gc_cwd = None,
          gc_env = er_env req, gc_chroot = None \<rparr> (gu_world g)))"

definition merge_agent_overlay :: "'w guest_os \<Rightarrow> u64 \<Rightarrow> string \<Rightarrow> string \<Rightarrow> 'w guest \<Rightarrow> 'w handled" where
  "merge_agent_overlay os i sid agent g =
     with_sandbox i sid (''sandbox `'' @ sid) g (\<lambda>par.
     with_sandbox i (overlay_key sid agent) (''agent overlay `'' @ agent) g (\<lambda>overlay.
       case merge_overlay os par overlay (gu_world g) of
         (Inr changed, w) \<Rightarrow>
           answer i (AgentOverlayMerged agent changed) (remove_sandbox os (overlay_key sid agent) (g\<lparr> gu_world := w \<rparr>))
       | (Inl e, w) \<Rightarrow> answer i (Error e) (g\<lparr> gu_world := w \<rparr>)))"

definition remove_and_reply ::
  "'w guest_os \<Rightarrow> u64 \<Rightarrow> string \<Rightarrow> string \<Rightarrow> payload \<Rightarrow> 'w guest \<Rightarrow> 'w handled" where
  "remove_and_reply os i k what reply g =
     with_sandbox i k what g (\<lambda>_. answer i reply (remove_sandbox os k g))"

definition invoke_tool ::
  "'w guest_os \<Rightarrow> u64 \<Rightarrow> string \<Rightarrow> string \<Rightarrow> string \<Rightarrow> json \<Rightarrow> 'w guest \<Rightarrow> 'w handled" where
  "invoke_tool os i k what tool input g = with_sandbox i k what g (\<lambda>sb.
     reply_result i ToolResult g (guest_invoke os (sb_root sb) tool input (gu_world g)))"

definition executor_version :: string where
  "executor_version = ''0.1.0''"

text \<open>
  The input of \<open>SendInput\<close> is sent by a future that is never awaited, so it goes nowhere; the sender is
  set nowhere either.
\<close>

definition send_input :: "u64 \<Rightarrow> string \<Rightarrow> string \<Rightarrow> string \<Rightarrow> 'w guest \<Rightarrow> 'w handled" where
  "send_input i sid agent input g =
     with_sandbox i (overlay_key sid agent) (''agent overlay `'' @ agent) g (\<lambda>_.
       if gu_stdin g
       then answer i (ToolResult (JObj [(''success'', JBool True), (''message'', JStr ''input sent'')])) g
       else answer i (Error ''no interactive command running'') g)"

fun dispatch :: "'w guest_os \<Rightarrow> u64 \<Rightarrow> payload \<Rightarrow> 'w guest \<Rightarrow> 'w handled" where
  "dispatch os i Ping g = answer i (Pong executor_version 2) g"
| "dispatch os i Version g = answer i (Pong executor_version 2) g"
| "dispatch os i Shutdown g = answer i (ExitCode 0) (g\<lparr> gu_exited := True \<rparr>)"
| "dispatch os i (CreateSandbox spec) g = create_sandbox os i spec g"
| "dispatch os i (DestroySandbox sid) g =
     remove_and_reply os i sid (''sandbox `'' @ sid) (SandboxDestroyed sid) g"
| "dispatch os i ListSandboxes g = answer i (SandboxList
     (map (\<lambda>(k, sb). \<lparr> si_sandbox_id = k, si_root_path = sb_root sb \<rparr>) (gu_sandboxes g))) g"
| "dispatch os i (Exec req) g = exec os i req g"
| "dispatch os i (InvokeTool sid tool input) g = invoke_tool os i sid (''sandbox `'' @ sid) tool input g"
| "dispatch os i (CreateAgentOverlay sid agent limits) g = with_sandbox i sid (''sandbox `'' @ sid) g (\<lambda>par.
     finish_create os i (AgentOverlayCreated agent) g (create_agent_overlay os par agent limits (gu_world g)))"
| "dispatch os i (MergeAgentOverlay sid agent) g = merge_agent_overlay os i sid agent g"
| "dispatch os i (DiscardAgentOverlay sid agent) g =
     remove_and_reply os i (overlay_key sid agent) (''agent overlay `'' @ agent) (AgentOverlayDiscarded agent) g"
| "dispatch os i (InvokeToolAsAgent sid agent tool input _) g =
     invoke_tool os i (overlay_key sid agent) (''agent overlay `'' @ agent) tool input g"
| "dispatch os i (UploadCodebase sid archive _) g = with_sandbox i sid (''sandbox `'' @ sid) g (\<lambda>sb.
     reply_result i (CodebaseUploaded sid) g (upload_codebase os sb archive (gu_world g)))"
| "dispatch os i HealthCheck g = answer i (HealthOk 0 (of_nat (length (gu_sandboxes g)))) g"
| "dispatch os i (SendInput sid agent input) g = send_input i sid agent input g"
| "dispatch os i (InteractiveStatus sid agent) g =
     with_sandbox i (overlay_key sid agent) (''agent overlay `'' @ agent) g (\<lambda>_.
       answer i (InteractivePrompt agent (gu_prompt g) (gu_waiting g)) g)"
| "dispatch os i _ g = ([], g)"

text \<open>A request after a shutdown finds no process to handle it.\<close>

definition serve_all :: "'w guest_os \<Rightarrow> envelope list \<Rightarrow> 'w guest \<Rightarrow> 'w guest" where
  "serve_all os es g =
     fold (\<lambda>e g. if gu_exited g then g else snd (dispatch os (env_id e) (env_payload e) g)) es g"

text \<open>One line of a connection: a line that does not decode is answered with the identifier 0.\<close>

definition handle_line ::
  "'w guest_os \<Rightarrow> (string \<Rightarrow> json option) \<Rightarrow> (json \<Rightarrow> string) \<Rightarrow> string \<Rightarrow> string \<Rightarrow> 'w guest \<Rightarrow> string list \<times> 'w guest" where
  "handle_line os parse text err line g =
     (case from_line parse line of
        None \<Rightarrow> ([to_line text \<lparr> env_id = 0, env_payload = Error err \<rparr>], g)
      | Some e \<Rightarrow> (case dispatch os (env_id e) (env_payload e) g of (rs, g1) \<Rightarrow> (map (to_line text) rs, g1)))"

section \<open>Every request is answered once\<close>

fun from_guest :: "payload \<Rightarrow> bool" where
  "from_guest (AgentOverlayCreated _) = True" | "from_guest (AgentOverlayMerged _ _) = True"
| "from_guest (AgentOverlayDiscarded _) = True" | "from_guest (CodebaseUploaded _ _) = True"
| "from_guest (HealthOk _ _) = True" | "from_guest (InteractivePrompt _ _ _) = True"
| "from_guest (Pong _ _) = True" | "from_guest (SandboxCreated _) = True"
| "from_guest (SandboxDestroyed _) = True" | "from_guest (SandboxList _) = True"
| "from_guest (Stdout _) = True" | "from_guest (Stderr _) = True" | "from_guest (ExitCode _) = True"
| "from_guest (ToolResult _) = True" | "from_guest (Error _) = True" | "from_guest _ = False"

fun is_output :: "payload \<Rightarrow> bool" where
  "is_output (Stdout _) = True" | "is_output (Stderr _) = True" | "is_output _ = False"

text \<open>Output of the request, then one reply that ends it.\<close>

definition answered :: "u64 \<Rightarrow> envelope list \<Rightarrow> bool" where
  "answered i rs \<longleftrightarrow> (\<exists>outs p. rs = map (\<lambda>p. \<lparr> env_id = i, env_payload = p \<rparr>) (outs @ [p])
     \<and> list_all is_output outs \<and> from_guest p \<and> \<not> is_output p)"

lemma answered_one: "from_guest p \<Longrightarrow> \<not> is_output p \<Longrightarrow> answered i [\<lparr> env_id = i, env_payload = p \<rparr>]"
  unfolding answered_def by (intro exI [of _ "[]"] exI [of _ p]) simp

lemma answered_answer: "from_guest p \<Longrightarrow> \<not> is_output p \<Longrightarrow> answered i (fst (answer i p g))"
  by (simp add: answer_def answered_one)

lemma answered_with_sandbox:
  "(\<And>sb. answered i (fst (f sb))) \<Longrightarrow> answered i (fst (with_sandbox i k what g f))"
  by (auto simp: with_sandbox_def intro!: answered_answer split: option.split)

lemma answered_exec: "answered i (fst (exec_replies i g r))"
proof (cases r)
  case (Pair x w)
  show ?thesis
  proof (cases x)
    case (Inl e)
    then show ?thesis using Pair by (simp add: exec_replies_def answered_answer)
  next
    case (Inr out)
    define outs where "outs = (if po_stdout out = [] then [] else [Stdout (po_stdout out)])
      @ (if po_stderr out = [] then [] else [Stderr (po_stderr out)])"
    have "fst (exec_replies i g r) = map (\<lambda>p. \<lparr> env_id = i, env_payload = p \<rparr>)
        (outs @ [ExitCode (word_of_int (unwrap_or (- 1) (po_code out)))])"
      using Pair Inr by (simp add: exec_replies_def outs_def)
    moreover have "list_all is_output outs" by (simp add: outs_def)
    ultimately show ?thesis
      unfolding answered_def
      by (intro exI [of _ outs] exI [of _ "ExitCode (word_of_int (unwrap_or (- 1) (po_code out)))"]) simp
  qed
qed

lemma answered_result:
  "(\<And>x. from_guest (f x) \<and> \<not> is_output (f x)) \<Longrightarrow> answered i (fst (reply_result i f g r))"
  by (auto simp: reply_result_def intro!: answered_answer split: prod.split sum.split)

text \<open>Without overflow checks the limits of a sandbox cannot make its creation panic.\<close>

lemma write_limits_release: "\<not> gs_checks os \<Longrightarrow> \<not> fst (write_limits os sb w)"
  by (simp add: write_limits_def Let_def split: prod.split sum.split option.split)

lemma apply_limits_release: "\<not> gs_checks os \<Longrightarrow> \<not> fst (apply_limits os sb w)"
  using write_limits_release [of os sb] by (auto simp: apply_limits_def split: prod.split sum.split)

lemma with_limits_release: "\<not> gs_checks os \<Longrightarrow> fst (with_limits os sb w) \<noteq> None"
  using apply_limits_release [of os sb w] by (auto simp: with_limits_def split: prod.split bool.split)

lemma mount_overlay_release: "\<not> gs_checks os \<Longrightarrow> fst (mount_overlay os what base lower root sb w) \<noteq> None"
  using with_limits_release [of os] by (simp add: mount_overlay_def Let_def split: prod.split sum.split)

lemma create_release:
  "\<not> gs_checks os \<Longrightarrow> fst (create_in os i rootfs limits w) \<noteq> None"
  "\<not> gs_checks os \<Longrightarrow> fst (create_agent_overlay os par agent limits w) \<noteq> None"
  using with_limits_release [of os] mount_overlay_release [of os]
  by (simp_all add: create_in_def create_agent_overlay_def Let_def split: prod.split sum.split option.split)

lemma answered_create:
  "fst r \<noteq> None \<Longrightarrow> from_guest reply \<Longrightarrow> \<not> is_output reply \<Longrightarrow> answered i (fst (finish_create os i reply g r))"
  by (cases r) (auto simp: finish_create_def intro!: answered_answer split: sum.split)

lemmas answered_rules = answered_with_sandbox answered_answer answered_exec answered_result answered_create

text \<open>
  C23. A request of the host is answered under its identifier: some output of a command, then exactly one reply
  that ends it, be it an error. Messages that only the guest sends are ignored. The program must be compiled
  without overflow checks, or a limit of the processor time can make the task panic without an answer.
\<close>

theorem every_request_answered:
  assumes "\<not> gs_checks os"
  shows "if from_guest p then dispatch os i p g = ([], g) else answered i (fst (dispatch os i p g))"
proof (cases "from_guest p")
  case True
  then show ?thesis by (cases p) simp_all
next
  case False
  note rules = answered_rules create_release [OF assms]
  have "answered i (fst (dispatch os i p g))"
    using False
  proof (cases p)
    case (CreateSandbox spec)
    obtain sid counter where "fresh_id (ss_sandbox_id spec) (gu_counter g) = (sid, counter)" by fastforce
    with CreateSandbox show ?thesis by (simp add: create_sandbox_def) (intro rules; simp)
  next
    case (DestroySandbox sid)
    then show ?thesis by (simp add: remove_and_reply_def) (intro rules; simp)
  next
    case (Exec req)
    then show ?thesis by (auto simp: exec_def intro!: rules split: option.split)
  next
    case (InvokeTool sid tool input)
    then show ?thesis by (simp add: invoke_tool_def) (intro rules; simp)
  next
    case (CreateAgentOverlay sid agent limits)
    then show ?thesis by simp (intro rules; simp)
  next
    case (MergeAgentOverlay sid agent)
    then show ?thesis
      by (simp add: merge_agent_overlay_def)
         (intro answered_with_sandbox, auto intro!: answered_answer split: prod.split sum.split)
  next
    case (DiscardAgentOverlay sid agent)
    then show ?thesis by (simp add: remove_and_reply_def) (intro rules; simp)
  next
    case (InvokeToolAsAgent sid agent tool input tier)
    then show ?thesis by (simp add: invoke_tool_def) (intro rules; simp)
  next
    case (UploadCodebase sid archive n)
    then show ?thesis by simp (intro rules; simp)
  next
    case (SendInput sid agent input)
    then show ?thesis by (auto simp: send_input_def intro!: rules)
  next
    case (InteractiveStatus sid agent)
    then show ?thesis by simp (intro rules; simp)
  qed (simp_all add: answered_answer)
  with False show ?thesis by simp
qed

section \<open>A request changes no sandbox but the one it names\<close>

definition table_ok :: "'w guest \<Rightarrow> bool" where
  "table_ok g \<longleftrightarrow> distinct (map fst (gu_sandboxes g))
     \<and> (\<forall>k sb. lookup_sandbox g k = Some sb \<longrightarrow> sb_id sb = k)"

text \<open>The key that a request may change.\<close>

fun named_key :: "payload \<Rightarrow> 'w guest \<Rightarrow> string option" where
  "named_key (CreateSandbox spec) g = Some (fst (fresh_id (ss_sandbox_id spec) (gu_counter g)))"
| "named_key (DestroySandbox sid) g = Some sid"
| "named_key (CreateAgentOverlay sid agent _) g = Some (overlay_key sid agent)"
| "named_key (MergeAgentOverlay sid agent) g = Some (overlay_key sid agent)"
| "named_key (DiscardAgentOverlay sid agent) g = Some (overlay_key sid agent)"
| "named_key _ g = None"

definition table_step :: "string option \<Rightarrow> 'w guest \<Rightarrow> 'w guest \<Rightarrow> bool" where
  "table_step key g g' \<longleftrightarrow> (table_ok g \<longrightarrow> table_ok g')
     \<and> (\<forall>k. Some k \<noteq> key \<longrightarrow> lookup_sandbox g' k = lookup_sandbox g k)"

lemma table_stepD:
  "table_step key g g' \<Longrightarrow> table_ok g \<Longrightarrow> table_ok g'"
  "table_step key g g' \<Longrightarrow> Some k \<noteq> key \<Longrightarrow> lookup_sandbox g' k = lookup_sandbox g k"
  by (auto simp: table_step_def)

lemma table_step_same: "gu_sandboxes g' = gu_sandboxes g \<Longrightarrow> table_step key g g'"
  by (simp add: table_step_def table_ok_def lookup_sandbox_def)

lemma table_step_answer: "gu_sandboxes g' = gu_sandboxes g \<Longrightarrow> table_step key g (snd (answer i p g'))"
  by (simp add: answer_def table_step_same)

lemma table_step_insert:
  "gu_sandboxes g0 = gu_sandboxes g \<Longrightarrow> table_step (Some (sb_id sb)) g (insert_sandbox os sb g0)"
  by (simp add: table_step_def table_ok_def lookup_sandbox_def insert_sandbox_def distinct_update update_conv')

lemma table_step_remove:
  "gu_sandboxes g0 = gu_sandboxes g \<Longrightarrow> table_step (Some k) g (remove_sandbox os k g0)"
  by (simp add: table_step_def table_ok_def lookup_sandbox_def remove_sandbox_def distinct_delete delete_conv')

lemma table_step_answer_remove: "table_step (Some k) g (snd (answer i p (remove_sandbox os k g)))"
  by (simp add: answer_def table_step_remove)

lemma table_step_with:
  "(\<And>sb. lookup_sandbox g k = Some sb \<Longrightarrow> table_step key g (snd (f sb)))
     \<Longrightarrow> table_step key g (snd (with_sandbox i k what g f))"
  by (auto simp: with_sandbox_def intro: table_step_answer split: option.split)

lemma table_step_result: "table_step key g (snd (reply_result i f g r))"
  by (auto simp: reply_result_def intro!: table_step_answer split: prod.split sum.split)

lemma table_step_exec: "table_step key g (snd (exec_replies i g r))"
  by (auto simp: exec_replies_def answer_def intro!: table_step_same split: prod.split sum.split)

text \<open>The identifier of what a creation makes.\<close>

lemma with_limits_id: "fst (with_limits os sb w) = Some (Inr sb') \<Longrightarrow> sb' = sb"
  by (auto simp: with_limits_def split: prod.splits bool.splits)

lemma mount_overlay_id:
  "fst (mount_overlay os what base lower root sb w) = Some (Inr sb')
     \<Longrightarrow> sb' = sb\<lparr> sb_overlay := Some (join_path base ''upper'', join_path base ''work'') \<rparr>"
  by (auto simp: mount_overlay_def Let_def split: prod.splits sum.splits dest: with_limits_id)

lemma create_in_id: "fst (create_in os i rootfs limits w) = Some (Inr sb) \<Longrightarrow> sb_id sb = i"
  by (auto simp: create_in_def Let_def split: prod.splits sum.splits option.splits if_splits
      dest: with_limits_id mount_overlay_id)

lemma agent_overlay_id:
  "fst (create_agent_overlay os par agent limits w) = Some (Inr sb)
     \<Longrightarrow> sb_id sb = overlay_key (sb_id par) agent
       \<and> sb_overlay sb = Some (join_path (join_path (gs_temp_dir os) (''mowis-agent-overlay-'' @ agent)) ''upper'',
           join_path (join_path (gs_temp_dir os) (''mowis-agent-overlay-'' @ agent)) ''work'')"
  by (auto simp: create_agent_overlay_def overlay_key_def split: prod.splits sum.splits dest: mount_overlay_id)

lemma table_step_create:
  assumes "\<And>sb. fst r = Some (Inr sb) \<Longrightarrow> sb_id sb = k" and "gu_sandboxes g0 = gu_sandboxes g"
  shows "table_step (Some k) g (snd (finish_create os i reply g0 r))"
proof (cases r)
  case (Pair x w)
  show ?thesis
  proof (cases x)
    case None
    then show ?thesis using Pair assms(2) by (simp add: finish_create_def table_step_same)
  next
    case (Some y)
    show ?thesis
    proof (cases y)
      case (Inl e)
      then show ?thesis using Pair Some assms(2) by (simp add: finish_create_def table_step_answer)
    next
      case (Inr sb)
      then show ?thesis
        using Pair Some assms table_step_insert [of "g0\<lparr> gu_world := w \<rparr>" g sb os]
        by (simp add: finish_create_def answer_def)
    qed
  qed
qed

lemma dispatch_table:
  assumes "table_ok g"
  shows "table_step (named_key p g) g (snd (dispatch os i p g))"
proof (cases p)
  case (CreateSandbox spec)
  obtain sid counter where f: "fresh_id (ss_sandbox_id spec) (gu_counter g) = (sid, counter)" by fastforce
  have "table_step (Some sid) g (snd (finish_create os i (SandboxCreated sid) (g\<lparr> gu_counter := counter \<rparr>)
      (create_in os sid (ss_image_rootfs spec) (ss_limits spec) (gu_world g))))"
    by (rule table_step_create) (auto dest: create_in_id)
  with CreateSandbox f show ?thesis by (simp add: create_sandbox_def)
next
  case (CreateAgentOverlay sid agent limits)
  have "table_step (Some (overlay_key sid agent)) g (snd (finish_create os i (AgentOverlayCreated agent) g
      (create_agent_overlay os sb agent limits (gu_world g))))" if "lookup_sandbox g sid = Some sb" for sb
    using that assms by (intro table_step_create) (auto simp: table_ok_def dest: agent_overlay_id)
  then show ?thesis using CreateAgentOverlay by (simp add: table_step_with)
next
  case (MergeAgentOverlay sid agent)
  have "table_step (Some (overlay_key sid agent)) g (snd (case merge_overlay os par overlay (gu_world g) of
       (Inr changed, w) \<Rightarrow>
         answer i (AgentOverlayMerged agent changed) (remove_sandbox os (overlay_key sid agent) (g\<lparr> gu_world := w \<rparr>))
     | (Inl e, w) \<Rightarrow> answer i (Error e) (g\<lparr> gu_world := w \<rparr>)))" for par overlay
    by (auto simp: answer_def split: prod.split sum.split) (rule table_step_same table_step_remove; simp)+
  then show ?thesis
    using MergeAgentOverlay by (auto simp: merge_agent_overlay_def intro!: table_step_with)
qed (auto simp: remove_and_reply_def invoke_tool_def exec_def send_input_def
     intro!: table_step_with table_step_result table_step_exec table_step_answer_remove
     intro: table_step_answer table_step_same split: option.split)

lemma table_ok_new: "table_ok (new_guest w)"
  by (simp add: table_ok_def new_guest_def lookup_sandbox_def)

lemma table_ok_serve: "table_ok g \<Longrightarrow> table_ok (serve_all os es g)"
  by (induction es arbitrary: g)
     (auto simp: serve_all_def dest: table_stepD(1) [OF dispatch_table])

text \<open>
  C24. In every state that requests can lead to, each sandbox stands once in the table, under its own identifier; and
  a request changes no entry but the one it names: the sandbox it creates, removes, or merges. In
  particular no tool, command or upload adds or removes a sandbox.
\<close>

theorem requests_keep_table:
  assumes "g = serve_all os es (new_guest w)"
  shows "distinct (map fst (gu_sandboxes g))
    \<and> (\<forall>k sb. lookup_sandbox g k = Some sb \<longrightarrow> sb_id sb = k)
    \<and> (\<forall>k. Some k \<noteq> named_key p g \<longrightarrow> lookup_sandbox (snd (dispatch os i p g)) k = lookup_sandbox g k)"
proof -
  have ok: "table_ok g" unfolding assms by (intro table_ok_serve table_ok_new)
  then show ?thesis using table_stepD(2) [OF dispatch_table [OF ok]] unfolding table_ok_def by blast
qed

section \<open>Overlays of one agent share their directories\<close>

text \<open>
  What removing directories does on every system: nothing is left below the removed directory, and
  nothing comes into being.
\<close>

definition removal_law :: "'w guest_os \<Rightarrow> bool" where
  "removal_law os \<longleftrightarrow> (\<forall>d p w.
     (gs_exists os p (snd (gs_remove_dir_all os d w)) \<longrightarrow> gs_exists os p w \<and> \<not> prefix (os_path d) (os_path p))
     \<and> (gs_exists os p (snd (gs_remove_dir os d w)) \<longrightarrow> gs_exists os p w))"

lemma os_path_trailing: "os_path (rev (dropWhile (\<lambda>c. c = CHR ''/'') (rev p))) = os_path p"
proof (induction p rule: rev_induct)
  case (snoc c p)
  show ?case
  proof (cases "c = CHR ''/''")
    case True
    have "os_path (p @ ''/'') = os_path p"
      using components_append [of p "[]"] by (simp add: os_path_def) (simp add: components_def component_of_def)
    with True snoc show ?thesis by simp
  qed simp
qed simp

lemma parent_upper: "os_path (parent_path (join_path base ''upper'')) = os_path base"
proof -
  have "parent_path (join_path base ''upper'') = rev (dropWhile (\<lambda>c. c = CHR ''/'') (rev base))"
    by (cases base rule: rev_cases) (auto simp: join_path_def parent_path_def)
  then show ?thesis by (simp add: os_path_trailing)
qed

lemma upper_below: "prefix (os_path base) (os_path (join_path base ''upper''))"
  by (simp add: os_path_join) (simp add: components_def component_of_def)

lemma drop_sandbox_removes:
  assumes "removal_law os" and "sb_overlay sb = Some (join_path base ''upper'', work)"
    and "prefix (os_path base) (os_path p)"
  shows "\<not> gs_exists os p (drop_sandbox os sb w)"
proof -
  have r: "gs_exists os p (snd (gs_remove_dir_all os d w)) \<Longrightarrow> gs_exists os p w \<and> \<not> prefix (os_path d) (os_path p)"
    "gs_exists os p (snd (gs_remove_dir os d w)) \<Longrightarrow> gs_exists os p w" for d w
    using assms(1) unfolding removal_law_def by blast+
  have "\<not> gs_exists os p (snd (gs_remove_dir_all os (parent_path (join_path base ''upper'')) w1))" for w1
    using r(1) assms(3) parent_upper [of base] by metis
  then show ?thesis
    using r unfolding drop_sandbox_def assms(2) Let_def option.case prod.case by metis
qed

lemma finish_create_reply:
  assumes "finish_create os i reply g r = ([\<lparr> env_id = i, env_payload = reply \<rparr>], g')" and "\<nexists>e. reply = Error e"
  shows "\<exists>sb. fst r = Some (Inr sb) \<and> gu_sandboxes g' = AList.update (sb_id sb) sb (gu_sandboxes g)"
  using assms by (cases r) (auto simp: finish_create_def answer_def insert_sandbox_def split: option.splits sum.splits)

text \<open>
  The overlay of an agent is kept under a directory that is named after the agent alone. When agents of
  two sandboxes have the same identifier, discarding the overlay of one leaves that of the other in the
  table, but deletes the directory in which its changes are: they are lost.
\<close>

theorem discarding_one_overlay_loses_other:
  assumes "removal_law os" and "g = serve_all os es (new_guest w)" and "s \<noteq> s'"
    and "dispatch os i (CreateAgentOverlay s agent l) g = ([\<lparr> env_id = i, env_payload = AgentOverlayCreated agent \<rparr>], g1)"
    and "dispatch os j (CreateAgentOverlay s' agent l') g1 = ([\<lparr> env_id = j, env_payload = AgentOverlayCreated agent \<rparr>], g2)"
  shows "\<exists>sb upper work. lookup_sandbox (snd (dispatch os k (DiscardAgentOverlay s agent) g2)) (overlay_key s' agent) = Some sb
    \<and> sb_overlay sb = Some (upper, work)
    \<and> \<not> gs_exists os upper (gu_world (snd (dispatch os k (DiscardAgentOverlay s agent) g2)))"
proof -
  let ?base = "join_path (gs_temp_dir os) (''mowis-agent-overlay-'' @ agent)"
  have ok: "table_ok g" unfolding assms(2) by (intro table_ok_serve table_ok_new)
  have made: "\<exists>sb. lookup_sandbox h' (overlay_key t agent) = Some sb
        \<and> sb_overlay sb = Some (join_path ?base ''upper'', join_path ?base ''work'')"
    if h: "table_ok h" and d: "dispatch os n (CreateAgentOverlay t agent lim) h = ([\<lparr> env_id = n, env_payload = AgentOverlayCreated agent \<rparr>], h')"
    for h h' t n lim
  proof -
    obtain par where par: "lookup_sandbox h t = Some par"
      using d by (auto simp: with_sandbox_def answer_def split: option.splits)
    then have f: "finish_create os n (AgentOverlayCreated agent) h (create_agent_overlay os par agent lim (gu_world h))
        = ([\<lparr> env_id = n, env_payload = AgentOverlayCreated agent \<rparr>], h')"
      using d by (simp add: with_sandbox_def)
    then obtain sb where sb: "fst (create_agent_overlay os par agent lim (gu_world h)) = Some (Inr sb)"
      "gu_sandboxes h' = AList.update (sb_id sb) sb (gu_sandboxes h)"
      using finish_create_reply by blast
    have "sb_id par = t" using h par by (simp add: table_ok_def)
    with agent_overlay_id [OF sb(1)] sb(2) show ?thesis by (simp add: lookup_sandbox_def update_conv')
  qed
  have ok1: "table_ok g1" using table_stepD(1) [OF dispatch_table [OF ok] ok] assms(4) by (metis snd_conv)
  have ok2: "table_ok g2" using table_stepD(1) [OF dispatch_table [OF ok1] ok1] assms(5) by (metis snd_conv)
  have ne: "overlay_key s agent \<noteq> overlay_key s' agent" using assms(3) by (simp add: overlay_key_def)
  obtain sb where sb: "lookup_sandbox g1 (overlay_key s agent) = Some sb"
    "sb_overlay sb = Some (join_path ?base ''upper'', join_path ?base ''work'')"
    using made [OF ok assms(4)] by blast
  have sb2: "lookup_sandbox g2 (overlay_key s agent) = Some sb"
    using table_stepD(2) [OF dispatch_table [OF ok1], of "overlay_key s agent" "CreateAgentOverlay s' agent l'" os j]
      ne assms(5) sb(1) by simp
  obtain sb' where sb': "lookup_sandbox g2 (overlay_key s' agent) = Some sb'"
    "sb_overlay sb' = Some (join_path ?base ''upper'', join_path ?base ''work'')"
    using made [OF ok1 assms(5)] by blast
  have d: "snd (dispatch os k (DiscardAgentOverlay s agent) g2) = remove_sandbox os (overlay_key s agent) g2"
    using sb2 by (simp add: remove_and_reply_def with_sandbox_def answer_def)
  have "lookup_sandbox (remove_sandbox os (overlay_key s agent) g2) (overlay_key s' agent) = Some sb'"
    using sb'(1) ne by (simp add: lookup_sandbox_def remove_sandbox_def)
  moreover have "\<not> gs_exists os (join_path ?base ''upper'') (gu_world (remove_sandbox os (overlay_key s agent) g2))"
    using drop_sandbox_removes [OF assms(1) sb(2) upper_below, of "gu_world g2"] sb2
    by (simp add: remove_sandbox_def drop_at_def)
  ultimately show ?thesis using d sb'(2) by auto
qed

section \<open>Uploads stay below the root\<close>

text \<open>A guard around the unpacking: it refuses what does not lie below the root.\<close>

definition guard_unpack :: "string \<Rightarrow> 'w guest_os \<Rightarrow> 'w guest_os" where
  "guard_unpack root os = os\<lparr> gs_unpack := (\<lambda>p c w. if prefix (os_path root) (os_path p) then gs_unpack os p c w
     else (Inl ''outside'', w)) \<rparr>"

lemma push_no_parent: "ParentDir \<notin> set cs \<Longrightarrow> prefix d (fold push_component cs d)"
proof (induction cs arbitrary: d)
  case (Cons c cs)
  then have "prefix d (push_component c d)" by (cases c) auto
  with Cons show ?case by (metis fold_simps(2) list.set_intros(2) prefix_order.trans)
qed simp

lemma safe_path_below: "\<not> unsafe_path p \<Longrightarrow> prefix (os_path root) (os_path (join_path root p))"
  by (simp add: unsafe_path_def os_path_join push_no_parent)


section \<open>Instances\<close>

lemma demo_os_removal: "removal_law demo_os"
  by (simp add: removal_law_def demo_os_def)

lemma every_request_answered_witness:
  "answered 7 (fst (dispatch demo_os 7 (Exec \<lparr> er_sandbox_id = None, er_cmd = ''ls'', er_args = [], er_env = [] \<rparr>) (new_guest [])))"
proof -
  have "\<not> gs_checks demo_os" by (simp add: demo_os_def)
  from every_request_answered [OF this, of "Exec \<lparr> er_sandbox_id = None, er_cmd = ''ls'', er_args = [], er_env = [] \<rparr>"]
  show ?thesis by simp
qed

definition demo_spec :: "string \<Rightarrow> sandbox_spec" where
  "demo_spec i = \<lparr> ss_sandbox_id = Some i, ss_image_rootfs = None, ss_limits = default_limits \<rparr>"

lemma demo_limits: "\<exists>w'. with_limits demo_os sb w = (Some (Inr sb), w')"
proof -
  have "\<exists>w'. write_limits demo_os sb w = (False, w')" for w
    by (auto simp: write_limits_def Let_def demo_os_def split: option.split)
  then have "\<exists>w'. apply_limits demo_os sb w = (False, w')"
    by (auto simp: apply_limits_def demo_os_def split: prod.split)
  then show ?thesis by (auto simp: with_limits_def)
qed

lemma demo_os_ops:
  "gs_tempdir demo_os w = (Inr (''/tmp/t'' @ show_nat (length w)), [''tmp'', CHR ''t'' # show_nat (length w)] # w)"
  "gs_mkdirs demo_os d w = (Inr (), prefixes (os_path d) @ w)" "gs_mount demo_os m r w = (Inr (), w)"
  by (simp_all add: demo_os_def)

lemma demo_limits_some: "\<exists>sb' w'. with_limits demo_os sb v = (Some (Inr sb'), w')"
  using demo_limits by blast

lemma demo_create: "\<exists>sb w'. create_in demo_os i None l w = (Some (Inr sb), w')"
  using demo_limits_some by (simp add: create_in_def Let_def demo_os_ops)

lemma demo_overlay: "\<exists>sb w'. create_agent_overlay demo_os par agent l w = (Some (Inr sb), w')"
  using demo_limits_some by (simp add: create_agent_overlay_def mount_overlay_def Let_def demo_os_ops)

lemma demo_creates_sandbox:
  "\<exists>g'. dispatch demo_os i (CreateSandbox (demo_spec s)) g = ([\<lparr> env_id = i, env_payload = SandboxCreated s \<rparr>], g')
     \<and> lookup_sandbox g' s \<noteq> None \<and> \<not> (gu_exited g \<noteq> gu_exited g')"
proof -
  obtain sb w' where c: "create_in demo_os s None default_limits (gu_world g) = (Some (Inr sb), w')"
    using demo_create by blast
  then have "sb_id sb = s" using create_in_id [of demo_os s None default_limits "gu_world g" sb] by simp
  with c show ?thesis
    by (simp add: create_sandbox_def demo_spec_def fresh_id_def finish_create_def answer_def insert_sandbox_def
        lookup_sandbox_def update_conv')
qed

lemma demo_creates_overlay:
  assumes "lookup_sandbox g s \<noteq> None"
  shows "\<exists>g'. dispatch demo_os i (CreateAgentOverlay s a l) g
     = ([\<lparr> env_id = i, env_payload = AgentOverlayCreated a \<rparr>], g')"
proof -
  obtain par where par: "lookup_sandbox g s = Some par" using assms by blast
  obtain sb w' where "create_agent_overlay demo_os par a l (gu_world g) = (Some (Inr sb), w')"
    using demo_overlay by blast
  with par show ?thesis by (simp add: with_sandbox_def finish_create_def answer_def)
qed

definition demo_requests :: "envelope list" where
  "demo_requests = [\<lparr> env_id = 1, env_payload = CreateSandbox (demo_spec ''a'') \<rparr>,
     \<lparr> env_id = 2, env_payload = CreateSandbox (demo_spec ''b'') \<rparr>]"

abbreviation demo_guest :: "hpath list guest" where
  "demo_guest \<equiv> serve_all demo_os demo_requests (new_guest [])"

lemma demo_guest_sandboxes: "lookup_sandbox demo_guest ''a'' \<noteq> None" "lookup_sandbox demo_guest ''b'' \<noteq> None"
proof -
  obtain g1 where g1: "dispatch demo_os 1 (CreateSandbox (demo_spec ''a'')) (new_guest []) = ([\<lparr> env_id = 1, env_payload = SandboxCreated ''a'' \<rparr>], g1)"
    "lookup_sandbox g1 ''a'' \<noteq> None" "\<not> gu_exited g1"
    using demo_creates_sandbox [of 1 "''a''" "new_guest []"] by (auto simp: new_guest_def)
  obtain g2 where g2: "dispatch demo_os 2 (CreateSandbox (demo_spec ''b'')) g1 = ([\<lparr> env_id = 2, env_payload = SandboxCreated ''b'' \<rparr>], g2)"
    "lookup_sandbox g2 ''b'' \<noteq> None"
    using demo_creates_sandbox by blast
  have "table_ok g1" using table_stepD(1) [OF dispatch_table [OF table_ok_new] table_ok_new] g1(1) by (metis snd_conv)
  from table_stepD(2) [OF dispatch_table [OF this], of "''a''" "CreateSandbox (demo_spec ''b'')" demo_os 2] g2(1) g1(2)
  have "lookup_sandbox g2 ''a'' \<noteq> None" by (simp add: demo_spec_def fresh_id_def)
  moreover have "demo_guest = g2"
    using g1 g2(1) by (simp add: serve_all_def demo_requests_def new_guest_def)
  ultimately show "lookup_sandbox demo_guest ''a'' \<noteq> None" "lookup_sandbox demo_guest ''b'' \<noteq> None" using g2(2) by simp_all
qed

lemma requests_keep_table_witness:
  "lookup_sandbox (snd (dispatch demo_os 1 (DestroySandbox ''b'') demo_guest)) ''a'' = lookup_sandbox demo_guest ''a''"
proof -
  have "Some ''a'' \<noteq> named_key (DestroySandbox ''b'') demo_guest" by simp
  then show ?thesis using requests_keep_table [OF refl, of demo_os demo_requests "[]"] by blast
qed

lemma discarding_one_overlay_loses_other_witness:
  "\<exists>g :: hpath list guest. \<exists>sb upper work. lookup_sandbox g ''b:x'' = Some sb \<and> sb_overlay sb = Some (upper, work)
     \<and> \<not> gs_exists demo_os upper (gu_world g)"
proof -
  obtain g1 where g1: "dispatch demo_os 3 (CreateAgentOverlay ''a'' ''x'' default_limits) demo_guest
      = ([\<lparr> env_id = 3, env_payload = AgentOverlayCreated ''x'' \<rparr>], g1)"
    using demo_creates_overlay [OF demo_guest_sandboxes(1)] by blast
  have ok: "table_ok demo_guest" by (intro table_ok_serve table_ok_new)
  have "lookup_sandbox g1 ''b'' = lookup_sandbox demo_guest ''b''"
    using table_stepD(2) [OF dispatch_table [OF ok], of "''b''" "CreateAgentOverlay ''a'' ''x'' default_limits" demo_os 3] g1
    by (simp add: overlay_key_def)
  then have "lookup_sandbox g1 ''b'' \<noteq> None" using demo_guest_sandboxes(2) by simp
  then obtain g2 where g2: "dispatch demo_os 4 (CreateAgentOverlay ''b'' ''x'' default_limits) g1
      = ([\<lparr> env_id = 4, env_payload = AgentOverlayCreated ''x'' \<rparr>], g2)"
    using demo_creates_overlay by blast
  have ne: "''a'' \<noteq> ''b''" by simp
  have k: "overlay_key ''b'' ''x'' = ''b:x''" by (simp add: overlay_key_def)
  from discarding_one_overlay_loses_other [OF demo_os_removal refl ne g1 g2, of 5] show ?thesis
    unfolding k by blast
qed

end
