(* ===== verification/Unified_Diff.thy ===== *)
theory Unified_Diff
  imports Text_Tools
begin

text \<open>
  The parser of unified diffs of the merge reviewer (\<open>agentd/src/orchestration/merge_reviewer.rs\<close>): the
  sections of a diff, the kind of change of each, and its hunks. The property is that it reads back
  what git writes.
\<close>

section \<open>Changes\<close>

datatype change_type = Added | Modified | Deleted | Renamed string

record diff_hunk =
  dh_old_start :: u32
  dh_old_count :: u32
  dh_new_start :: u32
  dh_new_count :: u32
  dh_content :: string

record file_change =
  fc_path :: string
  fc_type :: change_type
  fc_hunks :: "diff_hunk list"
  fc_raw :: string

section \<open>Headers\<close>

text \<open>\<open>str::rfind\<close>: the byte index of the last occurrence.\<close>

fun rfind_sub :: "string \<Rightarrow> string \<Rightarrow> nat option" where
  "rfind_sub p [] = (if p = [] then Some 0 else None)"
| "rfind_sub p (c # cs) =
     (case rfind_sub p cs of Some i \<Rightarrow> Some (Suc i) | None \<Rightarrow> if prefix p (c # cs) then Some 0 else None)"

definition extract_path_from_diff_header :: "string \<Rightarrow> string option" where
  "extract_path_from_diff_header header =
     Option.bind (strip_prefix_str ''diff --git a/'' header) (\<lambda>rest.
       case rfind_sub '' b/'' rest of
         Some i \<Rightarrow> Some (drop (i + 3) rest)
       | None \<Rightarrow> Some rest)"

definition parse_u32 :: "string \<Rightarrow> u32 option" where
  "parse_u32 s = map_option of_nat (parse_below (2 ^ 32) s)"

definition parse_range :: "string \<Rightarrow> (u32 \<times> u32) option" where
  "parse_range s =
     (case find_sub '','' s of
        Some i \<Rightarrow> Option.bind (parse_u32 (take i s)) (\<lambda>start.
                   Option.bind (parse_u32 (drop (i + 1) s)) (\<lambda>count. Some (start, count)))
      | None \<Rightarrow> map_option (\<lambda>start. (start, 1)) (parse_u32 s))"

definition parse_hunk_header :: "string \<Rightarrow> (u32 \<times> u32 \<times> u32 \<times> u32) option" where
  "parse_hunk_header line =
     Option.bind (strip_prefix_str ''@@ '' line) (\<lambda>rest.
     Option.bind (find_sub '' @@'' rest) (\<lambda>e.
       let ranges = take e rest in
       Option.bind (find_sub '' '' ranges) (\<lambda>i.
       Option.bind (strip_prefix_str ''-'' (take i ranges)) (\<lambda>old_part.
       Option.bind (strip_prefix_str ''+'' (drop (i + 1) ranges)) (\<lambda>new_part.
       Option.bind (parse_range old_part) (\<lambda>(old_start, old_count).
       Option.bind (parse_range new_part) (\<lambda>(new_start, new_count).
         Some (old_start, old_count, new_start, new_count))))))))"

section \<open>The parser\<close>

text \<open>The loop of \<open>parse_single_file_diff\<close>; a hunk extends to the next line that starts with \<open>@@\<close>.\<close>

definition hunk_body :: "string list \<Rightarrow> string list" where
  "hunk_body ls = takeWhile (\<lambda>l. \<not> prefix ''@@ '' l) ls"

function (sequential) scan_file ::
  "string list \<Rightarrow> change_type \<Rightarrow> string option \<Rightarrow> diff_hunk list \<Rightarrow> change_type \<times> diff_hunk list" where
  "scan_file [] ct from_name hs = (ct, hs)"
| "scan_file (line # ls) ct from_name hs =
     (if prefix ''new file mode'' line then scan_file ls Added from_name hs
      else if prefix ''deleted file mode'' line then scan_file ls Deleted from_name hs
      else case strip_prefix_str ''rename from '' line of
        Some f \<Rightarrow> scan_file ls ct (Some f) hs
      | None \<Rightarrow>
        if prefix ''rename to '' line
        then scan_file ls (case from_name of Some f \<Rightarrow> Renamed f | None \<Rightarrow> ct) None hs
        else if prefix ''--- '' line
        then scan_file ls (if trim_end line = ''--- /dev/null'' then Added else ct) from_name hs
        else if prefix ''+++ '' line
        then scan_file ls (if trim_end line = ''+++ /dev/null'' then Deleted else ct) from_name hs
        else if prefix ''@@ '' line
        then (case parse_hunk_header line of
                Some (old_start, old_count, new_start, new_count) \<Rightarrow>
                  scan_file (drop (length (hunk_body ls)) ls) ct from_name
                    (hs @ [\<lparr> dh_old_start = old_start, dh_old_count = old_count, dh_new_start = new_start,
                             dh_new_count = new_count,
                             dh_content = join_str [newline] (line # hunk_body ls) \<rparr>])
              | None \<Rightarrow> scan_file ls ct from_name hs)
        else scan_file ls ct from_name hs)"
  by pat_completeness auto

termination by (relation "measure (\<lambda>(ls, ct, f, hs). length ls)") auto

definition parse_single_file_diff :: "string list \<Rightarrow> string \<Rightarrow> file_change option" where
  "parse_single_file_diff file_lines raw =
     (case file_lines of
        [] \<Rightarrow> None
      | header # ls \<Rightarrow>
          Option.bind (extract_path_from_diff_header header) (\<lambda>path.
            case scan_file ls Modified None [] of
              (ct, hs) \<Rightarrow> Some \<lparr> fc_path = path, fc_type = ct, fc_hunks = hs, fc_raw = raw \<rparr>))"

definition file_header :: "string \<Rightarrow> bool" where
  "file_header l \<longleftrightarrow> prefix ''diff --git '' l"

text \<open>The sections of a diff: lines before the first header are skipped.\<close>

function (sequential) diff_sections :: "string list \<Rightarrow> string list list" where
  "diff_sections [] = []"
| "diff_sections (l # ls) =
     (if file_header l
      then (l # takeWhile (\<lambda>x. \<not> file_header x) ls) # diff_sections (dropWhile (\<lambda>x. \<not> file_header x) ls)
      else diff_sections ls)"
  by pat_completeness auto

termination
  by (relation "measure length") (auto simp: less_Suc_eq_le length_dropWhile_le)

definition parse_unified_diff :: "string \<Rightarrow> file_change list" where
  "parse_unified_diff raw =
     List.map_filter (\<lambda>sec. parse_single_file_diff sec (join_str [newline] sec)) (diff_sections (str_lines raw))"

section \<open>What git writes\<close>

text \<open>
  A hunk with its ranges, what git adds after the second \<open>@@\<close>, and its lines; a file with its path, the
  kind of its change and its hunks. \<open>git_lines\<close> are the lines that git writes for it.
\<close>

record git_hunk =
  gh_old :: "u32 \<times> u32"
  gh_new :: "u32 \<times> u32"
  gh_tail :: string
  gh_body :: "string list"

record git_file =
  gf_path :: string
  gf_type :: change_type
  gf_hunks :: "git_hunk list"

definition git_range :: "u32 \<times> u32 \<Rightarrow> string" where
  "git_range r = show_nat (unat (fst r)) @ (if snd r = 1 then [] else '','' @ show_nat (unat (snd r)))"

definition git_hunk_header :: "git_hunk \<Rightarrow> string" where
  "git_hunk_header h = ''@@ -'' @ git_range (gh_old h) @ '' +'' @ git_range (gh_new h) @ '' @@'' @ gh_tail h"

definition git_hunk_lines :: "git_hunk \<Rightarrow> string list" where
  "git_hunk_lines h = git_hunk_header h # gh_body h"

definition git_old_path :: "git_file \<Rightarrow> string" where
  "git_old_path f = (case gf_type f of Renamed old \<Rightarrow> old | _ \<Rightarrow> gf_path f)"

definition git_meta :: "git_file \<Rightarrow> string list" where
  "git_meta f =
     (case gf_type f of
        Added \<Rightarrow> [''new file mode 100644'', ''index 0000000..89ab3f2'', ''--- /dev/null'', ''+++ b/'' @ gf_path f]
      | Deleted \<Rightarrow> [''deleted file mode 100644'', ''index 89ab3f2..0000000'', ''--- a/'' @ gf_path f, ''+++ /dev/null'']
      | Modified \<Rightarrow> [''index 89ab3f2..1d4c6e0 100644'', ''--- a/'' @ gf_path f, ''+++ b/'' @ gf_path f]
      | Renamed old \<Rightarrow> [''similarity index 90%'', ''rename from '' @ old, ''rename to '' @ gf_path f,
          ''index 89ab3f2..1d4c6e0 100644'', ''--- a/'' @ old, ''+++ b/'' @ gf_path f])"

definition git_header :: "git_file \<Rightarrow> string" where
  "git_header f = ''diff --git a/'' @ git_old_path f @ '' b/'' @ gf_path f"

definition git_lines :: "git_file \<Rightarrow> string list" where
  "git_lines f = git_header f # git_meta f @ concat (map git_hunk_lines (gf_hunks f))"

definition git_diff :: "git_file list \<Rightarrow> string" where
  "git_diff fs = unlines (concat (map git_lines fs))"

text \<open>The change that the parser should make of a file.\<close>

definition hunk_of :: "git_hunk \<Rightarrow> diff_hunk" where
  "hunk_of h = \<lparr> dh_old_start = fst (gh_old h), dh_old_count = snd (gh_old h), dh_new_start = fst (gh_new h),
     dh_new_count = snd (gh_new h), dh_content = join_str [newline] (git_hunk_lines h) \<rparr>"

definition change_of :: "git_file \<Rightarrow> file_change" where
  "change_of f = \<lparr> fc_path = gf_path f, fc_type = gf_type f, fc_hunks = map hunk_of (gf_hunks f),
     fc_raw = join_str [newline] (git_lines f) \<rparr>"

text \<open>
  Files whose lines survive: no line ends in a carriage return, the path does not contain the separator of
  the header, and the lines of a hunk start as git starts them.
\<close>

definition body_line :: "string \<Rightarrow> bool" where
  "body_line l \<longleftrightarrow> plain_line l \<and> l \<noteq> [] \<and> hd l \<in> {CHR '' '', CHR ''+'', CHR ''-'', CHR 0x5C}"

definition plain_file :: "git_file \<Rightarrow> bool" where
  "plain_file f \<longleftrightarrow> gf_path f \<noteq> [] \<and> plain_line (gf_path f) \<and> \<not> contains_sub '' b/'' (gf_path f)
     \<and> git_old_path f \<noteq> [] \<and> plain_line (git_old_path f)
     \<and> (\<forall>h\<in>set (gf_hunks f). plain_line (gh_tail h) \<and> list_all body_line (gh_body h))"

section \<open>Reading it back\<close>

lemma parse_range_git: "parse_range (git_range r) = Some r"
proof -
  let ?a = "show_nat (unat (fst r))" and ?b = "show_nat (unat (snd r))"
  have free: "CHR '','' \<notin> set (show_nat n)" for n by (rule show_nat_no_char) (simp add: digit_def)
  have num: "parse_u32 (show_nat (unat x)) = Some x" for x
  proof -
    have "unat x < 2 ^ 32" using unsigned_less [of x] by simp
    then show ?thesis by (simp add: parse_u32_def parse_below_show_nat)
  qed
  show ?thesis
  proof (cases "snd r = 1")
    case True
    then show ?thesis by (cases r) (simp add: parse_range_def git_range_def find_char_none free num)
  next
    case False
    then show ?thesis
      by (cases r) (simp add: parse_range_def git_range_def find_char_at free num)
  qed
qed

lemma git_range_chars: "c \<in> set (git_range r) \<Longrightarrow> digit c \<or> c = CHR '',''"
  using show_nat_no_char by (auto simp: git_range_def split: if_splits)

lemma parse_hunk_header_git:
  "parse_hunk_header (git_hunk_header h) = Some (fst (gh_old h), snd (gh_old h), fst (gh_new h), snd (gh_new h))"
proof -
  let ?o = "CHR ''-'' # git_range (gh_old h)" and ?n = "CHR ''+'' # git_range (gh_new h)"
  let ?u = "?o @ CHR '' '' # ?n"
  have free: "CHR '' '' \<notin> set (git_range r)" "CHR ''@'' \<notin> set (git_range r)" for r
    using git_range_chars [of "CHR '' ''" r] git_range_chars [of "CHR ''@''" r] by (auto simp: digit_def)
  have e: "find_sub '' @@'' (?u @ '' @@'' @ gh_tail h) = Some (length ?u)"
    using free(2) by (intro find_sub_fresh [of _ "CHR '' ''" "CHR ''@''"]) auto
  have i: "find_sub '' '' ?u = Some (length ?o)" using free(1) by (intro find_char_at) auto
  have "git_hunk_header h = ''@@ '' @ ?u @ '' @@'' @ gh_tail h" by (simp add: git_hunk_header_def)
  then have "strip_prefix_str ''@@ '' (git_hunk_header h) = Some (?u @ '' @@'' @ gh_tail h)"
    by (simp add: strip_prefix_str_def)
  then have "parse_hunk_header (git_hunk_header h)
      = Option.bind (find_sub '' '' ?u) (\<lambda>i.
        Option.bind (strip_prefix_str ''-'' (take i ?u)) (\<lambda>old_part.
        Option.bind (strip_prefix_str ''+'' (drop (i + 1) ?u)) (\<lambda>new_part.
        Option.bind (parse_range old_part) (\<lambda>(old_start, old_count).
        Option.bind (parse_range new_part) (\<lambda>(new_start, new_count).
          Some (old_start, old_count, new_start, new_count))))))"
    unfolding parse_hunk_header_def using e by (simp only: Option.bind.simps Let_def) simp
  also have "\<dots> = Some (fst (gh_old h), snd (gh_old h), fst (gh_new h), snd (gh_new h))"
    unfolding i by (simp add: strip_prefix_str_def parse_range_git split_beta)
  finally show ?thesis .
qed

lemma rfind_sub_none: "p \<noteq> [] \<Longrightarrow> (\<And>j. \<not> prefix p (drop j s)) \<Longrightarrow> rfind_sub p s = None"
proof (induction s)
  case Nil
  then show ?case by simp
next
  case (Cons c s)
  have "rfind_sub p s = None" using Cons.prems(2) [of "Suc j" for j] by (intro Cons.IH Cons.prems(1)) simp
  moreover have "\<not> prefix p (c # s)" using Cons.prems(2) [of 0] by simp
  ultimately show ?case by simp
qed

lemma rfind_sub_at:
  assumes "rfind_sub p (drop 1 (p @ v)) = None" and "p \<noteq> []"
  shows "rfind_sub p (u @ p @ v) = Some (length u)"
proof (induction u)
  case Nil
  obtain c cs where p: "p = c # cs" using assms(2) by (cases p) auto
  with assms(1) have n: "rfind_sub p (cs @ v) = None" by simp
  have e: "[] @ p @ v = c # (cs @ v)" and "prefix p (c # (cs @ v))" using p by simp_all
  then show ?case unfolding e rfind_sub.simps(2) n by simp
qed simp

lemma path_of_header:
  assumes "\<not> contains_sub '' b/'' p"
  shows "extract_path_from_diff_header (''diff --git a/'' @ u @ '' b/'' @ p) = Some p"
proof -
  have no: "\<not> prefix '' b/'' (drop j p)" for j
    using assms unfolding contains_sub_def by (meson find_sub_None not_None_eq)
  have "\<not> prefix '' b/'' (drop j (''b/'' @ p))" for j
  proof (cases "j < 2")
    case True
    then have "j = 0 \<or> j = 1" by auto
    then show ?thesis by auto
  next
    case False
    then have "drop j (''b/'' @ p) = drop (j - 2) p" by (subst drop_append) (simp add: numeral_2_eq_2)
    with no show ?thesis by simp
  qed
  then have "rfind_sub '' b/'' (''b/'' @ p) = None" by (intro rfind_sub_none) simp_all
  then have "rfind_sub '' b/'' (u @ '' b/'' @ p) = Some (length u)" by (intro rfind_sub_at) simp_all
  then show ?thesis by (simp add: extract_path_from_diff_header_def strip_prefix_str_def)
qed

lemma path_of_git: "\<not> contains_sub '' b/'' (gf_path f) \<Longrightarrow> extract_path_from_diff_header (git_header f) = Some (gf_path f)"
  unfolding git_header_def by (rule path_of_header)

lemma hunk_lines_rest:
  "hunk_body (concat (map git_hunk_lines hs)) = []"
  "hs \<noteq> [] \<Longrightarrow> file_header (hd (concat (map git_hunk_lines hs))) = False"
  by (cases hs; simp add: hunk_body_def git_hunk_lines_def git_hunk_header_def file_header_def)+

lemma body_of_hunk:
  assumes "list_all body_line ls"
  shows "hunk_body (ls @ concat (map git_hunk_lines hs)) = ls"
proof -
  have "\<not> prefix ''@@ '' l" if "l \<in> set ls" for l
    using assms that by (cases l) (auto simp: list_all_iff body_line_def)
  then show ?thesis using hunk_lines_rest(1) [of hs] by (simp add: hunk_body_def takeWhile_append)
qed

lemma scan_hunks:
  "\<forall>h\<in>set hs. list_all body_line (gh_body h)
     \<Longrightarrow> scan_file (concat (map git_hunk_lines hs)) ct from_name acc = (ct, acc @ map hunk_of hs)"
proof (induction hs arbitrary: acc)
  case Nil
  then show ?case by simp
next
  case (Cons h hs)
  let ?rest = "concat (map git_hunk_lines hs)"
  have b: "hunk_body (gh_body h @ ?rest) = gh_body h" using Cons.prems by (intro body_of_hunk) simp
  have "scan_file (concat (map git_hunk_lines (h # hs))) ct from_name acc
      = scan_file (git_hunk_header h # gh_body h @ ?rest) ct from_name acc"
    by (simp add: git_hunk_lines_def)
  also have "\<dots> = scan_file ?rest ct from_name (acc @ [hunk_of h])"
    unfolding scan_file.simps b parse_hunk_header_git
    by (simp add: git_hunk_header_def strip_prefix_str_def hunk_of_def git_hunk_lines_def split_beta)
  finally show ?case using Cons by simp
qed

lemma not_dev_null:
  "trim_end (''--- a/'' @ p) \<noteq> ''--- /dev/null''" "trim_end (''+++ b/'' @ p) \<noteq> ''+++ /dev/null''"
  using prefix_trim_end [of "''--- a/'' @ p"] prefix_trim_end [of "''+++ b/'' @ p"] by auto

lemma dev_null: "trim_end ''--- /dev/null'' = ''--- /dev/null''" "trim_end ''+++ /dev/null'' = ''+++ /dev/null''"
  by (rule trim_end_plain, simp add: plain_char_def)+

lemma scan_meta: "scan_file (git_meta f @ ls) Modified None [] = scan_file ls (gf_type f) None []"
  using not_dev_null by (cases "gf_type f") (simp_all add: git_meta_def strip_prefix_str_def dev_null)

lemma file_header_git [simp]: "file_header (git_header f)"
  by (simp add: git_header_def file_header_def)

lemma header_lines:
  assumes "plain_file f"
  obtains h ls where "git_lines f = h # ls" and "file_header h"
    and "list_all (\<lambda>l. \<not> file_header l) ls"
proof -
  have "\<not> file_header l" if "body_line l" for l
    using that by (cases l) (auto simp: body_line_def file_header_def)
  then have "list_all (\<lambda>l. \<not> file_header l) (concat (map git_hunk_lines (gf_hunks f)))"
    using assms by (auto simp: plain_file_def list_all_iff git_hunk_lines_def git_hunk_header_def file_header_def)
  moreover have "list_all (\<lambda>l. \<not> file_header l) (git_meta f)"
    by (simp add: git_meta_def file_header_def split: change_type.split)
  ultimately show ?thesis
    using that [of "git_header f" "git_meta f @ concat (map git_hunk_lines (gf_hunks f))"]
    by (simp add: git_lines_def)
qed

lemma sections_git:
  "list_all plain_file fs \<Longrightarrow> diff_sections (concat (map git_lines fs)) = map git_lines fs"
proof (induction fs)
  case Nil
  then show ?case by simp
next
  case (Cons f fs)
  obtain h ls where f: "git_lines f = h # ls" "file_header h"
      "list_all (\<lambda>l. \<not> file_header l) ls"
    using Cons.prems header_lines [of f] by auto
  let ?rest = "concat (map git_lines fs)"
  have "?rest = [] \<or> file_header (hd ?rest)" by (cases fs) (simp_all add: git_lines_def)
  then have r: "takeWhile (\<lambda>l. \<not> file_header l) ?rest = []" "dropWhile (\<lambda>l. \<not> file_header l) ?rest = ?rest"
    by (auto simp: takeWhile_eq_Nil_iff dropWhile_eq_self_iff)
  have "concat (map git_lines (f # fs)) = h # ls @ ?rest" by (simp add: f(1))
  then have "diff_sections (concat (map git_lines (f # fs))) = (h # ls) # diff_sections ?rest"
    using f(2,3) r by (simp add: list_all_iff takeWhile_append dropWhile_append)
  with f(1) Cons show ?case by simp
qed

lemma git_plain_lines: "plain_file f \<Longrightarrow> list_all plain_line (git_lines f)"
proof -
  assume f: "plain_file f"
  have nl: "newline \<notin> set (git_range r)" for r
    using git_range_chars [of newline r] by (auto simp: digit_def newline_def)
  have "list_all plain_line (git_meta f)"
    using f by (auto simp: plain_file_def git_meta_def git_old_path_def plain_line_def newline_def
        split: change_type.splits)
  moreover have "plain_line (git_hunk_header h)" if "plain_line (gh_tail h)" for h
    using nl that by (auto simp: git_hunk_header_def plain_line_def newline_def)
  then have "list_all plain_line (concat (map git_hunk_lines (gf_hunks f)))"
    using f by (auto simp: plain_file_def list_all_iff git_hunk_lines_def body_line_def)
  moreover have "plain_line (git_header f)"
    using f by (auto simp: plain_file_def plain_line_def newline_def git_header_def)
  ultimately show ?thesis by (simp add: git_lines_def)
qed

lemma parse_single_git:
  "plain_file f \<Longrightarrow> parse_single_file_diff (git_lines f) (join_str [newline] (git_lines f)) = Some (change_of f)"
  by (simp add: git_lines_def parse_single_file_diff_def path_of_git scan_meta scan_hunks change_of_def
      plain_file_def)


text \<open>With the separator in the path the search from the right, which is meant for such paths, finds the wrong place.\<close>

lemma separator_in_path:
  assumes "gf_type f = Modified" and "gf_path f = u @ '' b/'' @ v" and "\<not> contains_sub '' b/'' v"
  shows "extract_path_from_diff_header (git_header f) = Some v"
proof -
  have "git_header f = ''diff --git a/'' @ (gf_path f @ '' b/'' @ u) @ '' b/'' @ v"
    using assms by (simp add: git_header_def git_old_path_def)
  then show ?thesis by (simp only: path_of_header [OF assms(3)])
qed

section \<open>An instance\<close>

definition demo_hunk :: git_hunk where
  "demo_hunk = \<lparr> gh_old = (1, 2), gh_new = (1, 1), gh_tail = '' fn main'', gh_body = ['' x'', ''-y''] \<rparr>"

definition demo_files :: "git_file list" where
  "demo_files = [\<lparr> gf_path = ''b.rs'', gf_type = Renamed ''a.rs'', gf_hunks = [demo_hunk] \<rparr>,
     \<lparr> gf_path = ''c.rs'', gf_type = Deleted, gf_hunks = [] \<rparr>]"

lemma demo_files_plain: "list_all plain_file demo_files"
  by (simp add: demo_files_def demo_hunk_def plain_file_def plain_line_def body_line_def newline_def
      contains_sub_def git_old_path_def)


end
