(* ===== verification/Merge_Review.thy ===== *)
theory Merge_Review
  imports Unified_Diff "HOL-Library.Multiset"
begin

text \<open>
  The merge reviewer of the daemon (\<open>agentd/src/orchestration/merge_reviewer.rs\<close>): it finds the files
  that several changes touch, accepts the others, and lets a model decide about the conflicts. The iteration
  order of the table of files, the model and the JSON parser are parameters, as is whether the program was
  compiled with overflow checks, in which case some additions and subtractions panic.
\<close>

section \<open>Conflicts\<close>

record contribution =
  co_agent_id :: string
  co_task_id :: string
  co_description :: string
  co_changes :: "file_change list"
  co_raw :: string

datatype conflict_type = FileOverlap | DeleteModify | SemanticConflict

datatype severity = Low | Medium | High | Critical

fun severity_rank :: "severity \<Rightarrow> nat" where
  "severity_rank Low = 0"
| "severity_rank Medium = 1"
| "severity_rank High = 2"
| "severity_rank Critical = 3"

lemma severity_rank_inj [simp]: "severity_rank a = severity_rank b \<longleftrightarrow> a = b"
  by (cases a; cases b) simp_all

instantiation severity :: linorder
begin

definition less_eq_severity :: "severity \<Rightarrow> severity \<Rightarrow> bool" where
  "a \<le> b \<longleftrightarrow> severity_rank a \<le> severity_rank b"

definition less_severity :: "severity \<Rightarrow> severity \<Rightarrow> bool" where
  "a < b \<longleftrightarrow> severity_rank a < severity_rank b"

instance
proof
  fix a b :: severity
  show "a \<le> b \<Longrightarrow> b \<le> a \<Longrightarrow> a = b"
    using le_antisym severity_rank_inj unfolding less_eq_severity_def by blast
qed (auto simp: less_eq_severity_def less_severity_def)

end

record review_conflict =
  mc_type :: conflict_type
  mc_path :: string
  mc_agents :: "string list"
  mc_description :: string
  mc_severity :: severity

text \<open>The table from a path to the changes of it, each with the position of its contribution.\<close>

type_synonym file_map = "string \<rightharpoonup> (nat \<times> file_change) list"

definition add_change :: "nat \<Rightarrow> file_change \<Rightarrow> file_map \<Rightarrow> file_map" where
  "add_change i fc m = m(fc_path fc \<mapsto> unwrap_or [] (m (fc_path fc)) @ [(i, fc)])"

definition file_map_of :: "contribution list \<Rightarrow> file_map" where
  "file_map_of cs = fold (\<lambda>(i, c). fold (add_change i) (co_changes c)) (List.enumerate 0 cs) Map.empty"

text \<open>The end of the range of a hunk; the addition of two 32-bit numbers may overflow.\<close>

definition hunk_end :: "bool \<Rightarrow> diff_hunk \<Rightarrow> u32 option" where
  "hunk_end checks h =
     (if checks \<and> 2 ^ 32 \<le> unat (dh_old_start h) + unat (dh_old_count h) then None
      else Some (dh_old_start h + dh_old_count h))"

definition or_else_found :: "bool option \<Rightarrow> bool option \<Rightarrow> bool option" where
  "or_else_found a b = (case a of None \<Rightarrow> None | Some True \<Rightarrow> Some True | Some False \<Rightarrow> b)"

fun meets_hunk :: "bool \<Rightarrow> diff_hunk \<Rightarrow> u32 \<Rightarrow> diff_hunk list \<Rightarrow> bool option" where
  "meets_hunk checks hi i_end [] = Some False"
| "meets_hunk checks hi i_end (hj # hjs) =
     Option.bind (hunk_end checks hj) (\<lambda>j_end.
       if dh_old_start hi < j_end \<and> dh_old_start hj < i_end then Some True
       else meets_hunk checks hi i_end hjs)"

fun hunks_meet :: "bool \<Rightarrow> diff_hunk list \<Rightarrow> diff_hunk list \<Rightarrow> bool option" where
  "hunks_meet checks [] hjs = Some False"
| "hunks_meet checks (hi # his) hjs =
     Option.bind (hunk_end checks hi) (\<lambda>i_end.
       or_else_found (meets_hunk checks hi i_end hjs) (hunks_meet checks his hjs))"

fun meets_later :: "bool \<Rightarrow> nat \<times> file_change \<Rightarrow> (nat \<times> file_change) list \<Rightarrow> bool option" where
  "meets_later checks ei [] = Some False"
| "meets_later checks ei (ej # es) =
     (if fst ei = fst ej then meets_later checks ei es
      else or_else_found (hunks_meet checks (fc_hunks (snd ei)) (fc_hunks (snd ej))) (meets_later checks ei es))"

fun hunks_overlap_between_agents :: "bool \<Rightarrow> (nat \<times> file_change) list \<Rightarrow> bool option" where
  "hunks_overlap_between_agents checks [] = Some False"
| "hunks_overlap_between_agents checks (e # es) =
     or_else_found (meets_later checks e es) (hunks_overlap_between_agents checks es)"

definition overlap_text :: "severity \<Rightarrow> string" where
  "overlap_text s =
     (if s = Medium then ''overlapping line ranges '' @ em_dash @ '' needs LLM review''
      else ''non-overlapping hunks '' @ em_dash @ '' likely auto-mergeable'')"

text \<open>What becomes of one file: \<open>None\<close> for a panic, \<open>Some None\<close> if it is in no conflict.\<close>

definition file_conflict ::
  "bool \<Rightarrow> contribution list \<Rightarrow> string \<Rightarrow> (nat \<times> file_change) list \<Rightarrow> review_conflict option option" where
  "file_conflict checks cs path es =
     (if length es \<le> 1 then Some None
      else let agents = map (\<lambda>(i, _). co_agent_id (cs ! i)) es in
        if list_ex (\<lambda>(_, fc). fc_type fc = Deleted) es \<and> list_ex (\<lambda>(_, fc). fc_type fc \<noteq> Deleted) es
        then Some (Some \<lparr> mc_type = DeleteModify, mc_path = path, mc_agents = agents,
               mc_description = ''Agent wants to delete '' @ [CHR 0x27] @ path @ [CHR 0x27]
                 @ '' while another modifies it'', mc_severity = Critical \<rparr>)
        else Option.bind (hunks_overlap_between_agents checks es) (\<lambda>overlap.
          let severity = (if overlap then Medium else Low) in
          Some (Some \<lparr> mc_type = FileOverlap, mc_path = path, mc_agents = agents,
            mc_description = ''Multiple agents modified '' @ [CHR 0x27] @ path @ [CHR 0x27] @ '' (''
              @ overlap_text severity @ '')'', mc_severity = severity \<rparr>)))"

fun file_conflicts ::
  "bool \<Rightarrow> contribution list \<Rightarrow> file_map \<Rightarrow> string list \<Rightarrow> review_conflict list option" where
  "file_conflicts checks cs m [] = Some []"
| "file_conflicts checks cs m (p # ps) =
     Option.bind (file_conflict checks cs p (unwrap_or [] (m p))) (\<lambda>c.
     Option.bind (file_conflicts checks cs m ps) (\<lambda>rest.
       Some (case c of None \<Rightarrow> rest | Some x \<Rightarrow> x # rest)))"

text \<open>A stable sort that puts the severest first.\<close>

definition by_severity :: "review_conflict list \<Rightarrow> review_conflict list" where
  "by_severity cs = rev (sort_key mc_severity (rev cs))"

definition detect :: "bool \<Rightarrow> (string set \<Rightarrow> string list) \<Rightarrow> contribution list \<Rightarrow> review_conflict list option" where
  "detect checks enum cs =
     map_option by_severity (file_conflicts checks cs (file_map_of cs) (enum (dom (file_map_of cs))))"

section \<open>Decisions\<close>

datatype merge_action = Accept string | Merge | Reject string | Delete

record merge_decision =
  md_path :: string
  md_action :: merge_action
  md_content :: "string option"
  md_reasoning :: string

record review_result =
  rr_decisions :: "merge_decision list"
  rr_diff :: string
  rr_resolved :: nat
  rr_accepted :: nat
  rr_rejected :: nat
  rr_summary :: string

text \<open>\<open>trim_start_matches\<close> and \<open>trim_end_matches\<close> with a string.\<close>

function trim_start_matches :: "string \<Rightarrow> string \<Rightarrow> string" where
  "trim_start_matches p s =
     (if p \<noteq> [] \<and> prefix p s then trim_start_matches p (drop (length p) s) else s)"
  by pat_completeness auto

termination
  by (relation "measure (\<lambda>(p, s). length s)") (auto simp: prefix_def)

declare trim_start_matches.simps [simp del]

definition trim_end_matches :: "string \<Rightarrow> string \<Rightarrow> string" where
  "trim_end_matches p s = rev (trim_start_matches (rev p) (rev s))"

definition clean_answer :: "string \<Rightarrow> string" where
  "clean_answer raw =
     trim (trim_end_matches fence (trim_start_matches fence (trim_start_matches (fence @ ''json'') (trim raw))))"

definition fallback_agent :: "review_conflict \<Rightarrow> string" where
  "fallback_agent c = (case mc_agents c of [] \<Rightarrow> [] | a # _ \<Rightarrow> a)"

definition fallback_decisions :: "review_conflict list \<Rightarrow> merge_decision list" where
  "fallback_decisions conflicts = map (\<lambda>c. \<lparr> md_path = mc_path c, md_action = Accept (fallback_agent c),
     md_content = None,
     md_reasoning = ''Fallback: LLM response was unparseable. Accepting first agent'' @ [CHR 0x27] @ ''s version.'' \<rparr>) conflicts"

definition item_decision :: "json \<Rightarrow> merge_decision option" where
  "item_decision item =
     Option.bind (jget_str item ''file_path'') (\<lambda>path.
     Option.bind (jget_str item ''action'') (\<lambda>action.
       let reasoning = unwrap_or (''LLM decision '' @ em_dash @ '' no reasoning provided'') (jget_str item ''reasoning'');
           agent = unwrap_or [] (jget_str item ''agent_id'') in
       Some \<lparr> md_path = path,
         md_action = (if action = ''accept'' then Accept agent else if action = ''merge'' then Merge
           else if action = ''delete'' then Delete else Reject reasoning),
         md_content = Option.bind (jget_str item ''merged_content'') (\<lambda>s. if s = [] then None else Some s),
         md_reasoning = reasoning \<rparr>))"

text \<open>The loop that fills the gaps: a conflict for whose file there is no decision yet.\<close>

definition fill_gap :: "review_conflict \<Rightarrow> merge_decision list \<Rightarrow> merge_decision list" where
  "fill_gap c ds =
     (if \<exists>d\<in>set ds. md_path d = mc_path c then ds
      else ds @ [\<lparr> md_path = mc_path c, md_action = Accept (fallback_agent c), md_content = None,
        md_reasoning = ''Fallback: LLM did not provide a decision for this file. Accepting first agent''
          @ [CHR 0x27] @ ''s version.'' \<rparr>])"

definition parse_llm_decisions :: "(string \<Rightarrow> json option) \<Rightarrow> string \<Rightarrow> review_conflict list \<Rightarrow> merge_decision list" where
  "parse_llm_decisions parse raw conflicts =
     (case Option.bind (parse (clean_answer raw)) jarr of
        None \<Rightarrow> fallback_decisions conflicts
      | Some items \<Rightarrow> fold fill_gap conflicts (List.map_filter item_decision items))"

section \<open>The diff of a decision\<close>

definition synthesize_diff_from_content :: "string \<Rightarrow> string \<Rightarrow> string" where
  "synthesize_diff_from_content path content =
     (let ls = str_lines content in
      join_str [newline]
        [''diff --git a/'' @ path @ '' b/'' @ path,
         ''index 0000000..0000001 100644'',
         ''--- a/'' @ path,
         ''+++ b/'' @ path,
         ''@@ -0,0 +1,'' @ show_nat (length ls) @ '' @@'',
         join_str [newline] (map (\<lambda>l. CHR ''+'' # l) ls)] @ [newline])"

text \<open>The table of the review holds for each path the agent, the task and the change.\<close>

type_synonym review_map = "string \<rightharpoonup> (string \<times> string \<times> file_change) list"

definition add_entry :: "contribution \<Rightarrow> file_change \<Rightarrow> review_map \<Rightarrow> review_map" where
  "add_entry c fc m = m(fc_path fc \<mapsto> unwrap_or [] (m (fc_path fc)) @ [(co_agent_id c, co_description c, fc)])"

definition review_map_of :: "contribution list \<Rightarrow> review_map" where
  "review_map_of cs = fold (\<lambda>c. fold (add_entry c) (co_changes c)) cs Map.empty"

definition nonempty :: "string \<Rightarrow> string option" where
  "nonempty s = (if s = [] then None else Some s)"

definition first_diff :: "(string \<times> string \<times> file_change) list \<Rightarrow> string option" where
  "first_diff es = (case es of [] \<Rightarrow> None | (_, _, fc) # _ \<Rightarrow> nonempty (fc_raw fc))"

definition build_diff_for_decision :: "merge_decision \<Rightarrow> review_map \<Rightarrow> string option" where
  "build_diff_for_decision d m =
     Option.bind (m (md_path d)) (\<lambda>es.
       case md_action d of
         Accept agent \<Rightarrow> (case find (\<lambda>(a, _, _). a = agent) es of
                            Some (_, _, fc) \<Rightarrow> nonempty (fc_raw fc) | None \<Rightarrow> first_diff es)
       | Merge \<Rightarrow> (case Option.bind (md_content d) nonempty of
                     Some content \<Rightarrow> Some (synthesize_diff_from_content (md_path d) content)
                   | None \<Rightarrow> first_diff es)
       | Delete \<Rightarrow> None
       | Reject _ \<Rightarrow> None)"

section \<open>The review\<close>

record review_env =
  rv_checks :: bool
  rv_enum :: "string set \<Rightarrow> string list"
  rv_generate :: "nat \<Rightarrow> string \<Rightarrow> string + string"
  rv_parse :: "string \<Rightarrow> json option"
  rv_prompt :: "review_conflict list \<Rightarrow> review_map \<Rightarrow> contribution list \<Rightarrow> string"

text \<open>\<open>call_llm\<close>: three attempts; the error of the last is returned.\<close>

fun call_from :: "review_env \<Rightarrow> nat \<Rightarrow> nat \<Rightarrow> string \<Rightarrow> string + string" where
  "call_from env 0 attempt prompt = Inl ''LLM call failed after 0 attempts''"
| "call_from env (Suc left) attempt prompt =
     (case rv_generate env attempt prompt of
        Inr text \<Rightarrow> Inr text
      | Inl e \<Rightarrow> if left = 0 then Inl e else call_from env left (Suc attempt) prompt)"

definition call_llm :: "review_env \<Rightarrow> string \<Rightarrow> string + string" where
  "call_llm env prompt = call_from env 3 0 prompt"

record review_state =
  vs_decisions :: "merge_decision list"
  vs_diffs :: "string list"
  vs_accepted :: nat
  vs_resolved :: nat
  vs_rejected :: nat

definition auto_accept :: "review_map \<Rightarrow> string \<Rightarrow> review_state \<Rightarrow> review_state" where
  "auto_accept m path s =
     (case m path of
        Some ((agent, _, fc) # _) \<Rightarrow>
          s\<lparr> vs_decisions := vs_decisions s @ [\<lparr> md_path = path, md_action = Accept agent, md_content = None,
               md_reasoning = ''Single agent modification '' @ em_dash @ '' auto-accepted without LLM.'' \<rparr>],
             vs_diffs := vs_diffs s @ (if fc_raw fc = [] then [] else [fc_raw fc]),
             vs_accepted := vs_accepted s + 1 \<rparr>
      | _ \<Rightarrow> s)"

definition apply_decision :: "review_map \<Rightarrow> merge_decision \<Rightarrow> review_state \<Rightarrow> review_state" where
  "apply_decision m d s =
     (case md_action d of
        Delete \<Rightarrow> s\<lparr> vs_resolved := vs_resolved s + 1 \<rparr>
      | Reject _ \<Rightarrow> s\<lparr> vs_rejected := vs_rejected s + 1, vs_resolved := vs_resolved s + 1 \<rparr>
      | _ \<Rightarrow> s\<lparr> vs_diffs := vs_diffs s @ (case build_diff_for_decision d m of
                  Some diff \<Rightarrow> if diff = [] then [] else [diff] | None \<Rightarrow> []),
               vs_accepted := vs_accepted s + 1, vs_resolved := vs_resolved s + 1 \<rparr>)"

text \<open>The outcome; the difference of the summary is one of unsigned numbers.\<close>

datatype review_outcome = Reviewed review_result | ReviewFailed string | ReviewPanics

definition auto_count :: "review_state \<Rightarrow> nat" where
  "auto_count s = (if vs_resolved s - vs_rejected s \<le> vs_accepted s
     then vs_accepted s - (vs_resolved s - vs_rejected s)
     else 2 ^ 64 + vs_accepted s - (vs_resolved s - vs_rejected s))"

definition count_underflows :: "review_state \<Rightarrow> bool" where
  "count_underflows s \<longleftrightarrow> vs_accepted s < vs_resolved s - vs_rejected s"

definition start_review :: "review_env \<Rightarrow> review_map \<Rightarrow> review_conflict list \<Rightarrow> review_state" where
  "start_review env m conflicts =
     fold (auto_accept m) (filter (\<lambda>p. p \<notin> mc_path ` set conflicts) (rv_enum env (dom m)))
       \<lparr> vs_decisions = [], vs_diffs = [], vs_accepted = 0, vs_resolved = 0, vs_rejected = 0 \<rparr>"

definition review :: "review_env \<Rightarrow> contribution list \<Rightarrow> review_conflict list \<Rightarrow> review_outcome" where
  "review env cs conflicts =
     (if cs = [] then Reviewed \<lparr> rr_decisions = [], rr_diff = [], rr_resolved = 0, rr_accepted = 0,
        rr_rejected = 0, rr_summary = ''No contributions to review.'' \<rparr>
      else let m = review_map_of cs; s = start_review env m conflicts in
        if conflicts = [] then Reviewed \<lparr> rr_decisions = vs_decisions s, rr_diff = join_str [newline] (vs_diffs s),
          rr_resolved = 0, rr_accepted = vs_accepted s, rr_rejected = 0,
          rr_summary = ''No conflicts detected. Auto-accepted '' @ show_nat (vs_accepted s) @ '' files.'' \<rparr>
        else case call_llm env (rv_prompt env conflicts m cs) of
          Inl e \<Rightarrow> ReviewFailed e
        | Inr raw \<Rightarrow>
            (let ds = parse_llm_decisions (rv_parse env) raw conflicts;
                 s1 = fold (apply_decision m) ds s in
             if rv_checks env \<and> count_underflows s1 then ReviewPanics
             else Reviewed \<lparr> rr_decisions = vs_decisions s1 @ ds, rr_diff = join_str [newline] (vs_diffs s1),
               rr_resolved = vs_resolved s1, rr_accepted = vs_accepted s1, rr_rejected = vs_rejected s1,
               rr_summary = ''Reviewed '' @ show_nat (length cs) @ '' contributions: '' @ show_nat (auto_count s1)
                 @ '' files auto-accepted, '' @ show_nat (vs_resolved s1) @ '' conflicts resolved by LLM, ''
                 @ show_nat (vs_rejected s1) @ '' rejected.'' \<rparr>))"

section \<open>What \<open>detect\<close> finds\<close>

text \<open>All changes of a path, with the positions of their contributions.\<close>

definition changes_of :: "contribution list \<Rightarrow> string \<Rightarrow> (nat \<times> file_change) list" where
  "changes_of cs p = concat (map (\<lambda>(i, c). map (Pair i) (filter (\<lambda>fc. fc_path fc = p) (co_changes c)))
     (List.enumerate 0 cs))"

definition touched :: "contribution list \<Rightarrow> string set" where
  "touched cs = {fc_path fc | fc c. c \<in> set cs \<and> fc \<in> set (co_changes c)}"

lemma touched_iff: "p \<in> touched cs \<longleftrightarrow> (\<exists>c\<in>set cs. \<exists>fc\<in>set (co_changes c). fc_path fc = p)"
  by (auto simp: touched_def)

lemma add_changes:
  "unwrap_or [] (fold (add_change i) fcs m p)
     = unwrap_or [] (m p) @ map (Pair i) (filter (\<lambda>fc. fc_path fc = p) fcs)"
  "dom (fold (add_change i) fcs m) = dom m \<union> fc_path ` set fcs"
  by (induction fcs arbitrary: m) (auto simp: add_change_def)

lemma file_map_steps:
  "unwrap_or [] (fold (\<lambda>(i, c). fold (add_change i) (co_changes c)) ics m p)
     = unwrap_or [] (m p)
       @ concat (map (\<lambda>(i, c). map (Pair i) (filter (\<lambda>fc. fc_path fc = p) (co_changes c))) ics)"
  "dom (fold (\<lambda>(i, c). fold (add_change i) (co_changes c)) ics m)
     = dom m \<union> (\<Union>c\<in>snd ` set ics. fc_path ` set (co_changes c))"
  by (induction ics arbitrary: m) (simp_all add: add_changes split_beta Un_assoc)

lemma file_map_lookup: "unwrap_or [] (file_map_of cs p) = changes_of cs p"
  by (simp add: file_map_of_def changes_of_def file_map_steps)

lemma file_map_dom: "dom (file_map_of cs) = touched cs"
proof -
  have "dom (file_map_of cs) = (\<Union>c\<in>snd ` set (List.enumerate 0 cs). fc_path ` set (co_changes c))"
    by (simp add: file_map_of_def file_map_steps)
  also have "snd ` set (List.enumerate 0 cs) = set cs" by (metis map_snd_enumerate set_map)
  finally show ?thesis by (auto simp: touched_def)
qed

lemma finite_touched [simp]: "finite (touched cs)"
proof -
  have "touched cs = (\<Union>c\<in>set cs. fc_path ` set (co_changes c))" by (auto simp: touched_def)
  then show ?thesis by simp
qed

lemma changes_of_set:
  "(i, fc) \<in> set (changes_of cs p) \<longleftrightarrow> i < length cs \<and> fc \<in> set (co_changes (cs ! i)) \<and> fc_path fc = p"
proof -
  have "(i, fc) \<in> set (changes_of cs p)
      \<longleftrightarrow> (\<exists>c. (i, c) \<in> set (List.enumerate 0 cs) \<and> fc \<in> set (co_changes c) \<and> fc_path fc = p)"
  proof -
    have "(i, fc) \<in> set (changes_of cs p)
        \<longleftrightarrow> (\<exists>ic\<in>set (List.enumerate 0 cs). i = fst ic \<and> fc \<in> set (co_changes (snd ic)) \<and> fc_path fc = p)"
      unfolding changes_of_def by (auto simp: split_beta image_iff)
    then show ?thesis by (metis fst_conv snd_conv prod.collapse)
  qed
  then show ?thesis by (simp add: in_set_enumerate_eq)
qed

lemma touched_changes: "p \<in> touched cs \<longleftrightarrow> changes_of cs p \<noteq> []"
proof -
  have "changes_of cs p \<noteq> [] \<longleftrightarrow> (\<exists>i fc. (i, fc) \<in> set (changes_of cs p))"
    by (cases "changes_of cs p") auto
  also have "\<dots> \<longleftrightarrow> p \<in> touched cs"
    unfolding changes_of_set touched_iff by (metis in_set_conv_nth)
  finally show ?thesis by simp
qed

text \<open>Two hunks share lines, or one inserts strictly inside the lines of the other.\<close>

definition cross :: "diff_hunk \<Rightarrow> diff_hunk \<Rightarrow> bool" where
  "cross a b \<longleftrightarrow> unat (dh_old_start a) < unat (dh_old_start b) + unat (dh_old_count b)
     \<and> unat (dh_old_start b) < unat (dh_old_start a) + unat (dh_old_count a)"

definition in_range :: "diff_hunk \<Rightarrow> bool" where
  "in_range h \<longleftrightarrow> unat (dh_old_start h) + unat (dh_old_count h) < 2 ^ 32"

definition rivals :: "nat \<times> file_change \<Rightarrow> nat \<times> file_change \<Rightarrow> bool" where
  "rivals e e' \<longleftrightarrow> fst e \<noteq> fst e'
     \<and> (\<exists>a\<in>set (fc_hunks (snd e)). \<exists>b\<in>set (fc_hunks (snd e')). cross a b)"

definition agents_cross :: "(nat \<times> file_change) list \<Rightarrow> bool" where
  "agents_cross es \<longleftrightarrow> (\<exists>e\<in>set es. \<exists>e'\<in>set es. rivals e e')"

lemma rivals_sym: "rivals e e' \<longleftrightarrow> rivals e' e"
  by (auto simp: rivals_def cross_def)

lemma rivals_irrefl [simp]: "\<not> rivals e e"
  by (simp add: rivals_def)

lemma or_else_found_Some [simp]: "or_else_found (Some a) (Some b) = Some (a \<or> b)"
  by (cases a) (simp_all add: or_else_found_def)

lemma hunk_end_in_range:
  assumes "in_range h"
  obtains e where "hunk_end checks h = Some e" and "unat e = unat (dh_old_start h) + unat (dh_old_count h)"
proof -
  have "unat (dh_old_start h + dh_old_count h) = unat (dh_old_start h) + unat (dh_old_count h)"
    using assms by (simp add: in_range_def unat_word_ariths)
  then show ?thesis using that assms by (simp add: hunk_end_def in_range_def)
qed

lemma meets_hunk_spec:
  assumes "unat i_end = unat (dh_old_start a) + unat (dh_old_count a)" and "\<forall>b\<in>set bs. in_range b"
  shows "meets_hunk checks a i_end bs = Some (\<exists>b\<in>set bs. cross a b)"
  using assms(2)
proof (induction bs)
  case Nil
  then show ?case by simp
next
  case (Cons b bs)
  from Cons.prems have "in_range b" by simp
  then obtain e where e: "hunk_end checks b = Some e" "unat e = unat (dh_old_start b) + unat (dh_old_count b)"
    by (rule hunk_end_in_range)
  with Cons assms(1) show ?case by (auto simp: cross_def word_less_nat_alt)
qed

lemma hunks_meet_spec:
  assumes "\<forall>a\<in>set as. in_range a" and "\<forall>b\<in>set bs. in_range b"
  shows "hunks_meet checks as bs = Some (\<exists>a\<in>set as. \<exists>b\<in>set bs. cross a b)"
  using assms(1)
proof (induction as)
  case Nil
  then show ?case by simp
next
  case (Cons a as)
  from Cons.prems have "in_range a" by simp
  then obtain e where "hunk_end checks a = Some e" "unat e = unat (dh_old_start a) + unat (dh_old_count a)"
    by (rule hunk_end_in_range)
  with Cons show ?case by (simp add: meets_hunk_spec assms(2))
qed

definition entries_in_range :: "(nat \<times> file_change) list \<Rightarrow> bool" where
  "entries_in_range es \<longleftrightarrow> (\<forall>e\<in>set es. \<forall>h\<in>set (fc_hunks (snd e)). in_range h)"

lemma meets_later_spec:
  assumes "entries_in_range (e # es)"
  shows "meets_later checks e es = Some (\<exists>e'\<in>set es. rivals e e')"
  using assms
proof (induction es)
  case Nil
  then show ?case by simp
next
  case (Cons e' es)
  have r: "\<forall>h\<in>set (fc_hunks (snd e)). in_range h" "\<forall>h\<in>set (fc_hunks (snd e')). in_range h"
    using Cons.prems by (simp_all add: entries_in_range_def)
  have "entries_in_range (e # es)" using Cons.prems by (simp add: entries_in_range_def)
  from Cons.IH [OF this] show ?case by (simp add: hunks_meet_spec [OF r] rivals_def)
qed

lemma agents_cross_Cons: "agents_cross (e # es) \<longleftrightarrow> (\<exists>e'\<in>set es. rivals e e') \<or> agents_cross es"
  using rivals_sym [of e] by (auto simp: agents_cross_def)

lemma overlap_spec: "entries_in_range es \<Longrightarrow> hunks_overlap_between_agents checks es = Some (agents_cross es)"
proof (induction es)
  case Nil
  then show ?case by (simp add: agents_cross_def)
next
  case (Cons e es)
  then have "entries_in_range es" by (simp add: entries_in_range_def)
  from Cons.IH [OF this] show ?case
    by (simp add: meets_later_spec [OF Cons.prems] agents_cross_Cons)
qed

definition deletion_conflict :: "(nat \<times> file_change) list \<Rightarrow> bool" where
  "deletion_conflict es \<longleftrightarrow> (\<exists>e\<in>set es. fc_type (snd e) = Deleted) \<and> (\<exists>e\<in>set es. fc_type (snd e) \<noteq> Deleted)"

definition severity_of :: "(nat \<times> file_change) list \<Rightarrow> severity" where
  "severity_of es = (if deletion_conflict es then Critical else if agents_cross es then Medium else Low)"

lemma file_conflict_spec:
  assumes "entries_in_range es"
  shows "\<exists>c. file_conflict checks cs p es = Some c \<and> (c = None \<longleftrightarrow> length es \<le> 1)
    \<and> (\<forall>x. c = Some x \<longrightarrow> mc_path x = p \<and> mc_agents x = map (\<lambda>e. co_agent_id (cs ! fst e)) es
        \<and> mc_severity x = severity_of es)"
proof (cases "length es \<le> 1")
  case True
  then show ?thesis by (simp add: file_conflict_def)
next
  case False
  have d: "list_ex (\<lambda>(_, fc). fc_type fc = Deleted) es \<and> list_ex (\<lambda>(_, fc). fc_type fc \<noteq> Deleted) es
      \<longleftrightarrow> deletion_conflict es"
    by (simp add: deletion_conflict_def list_ex_iff split_beta)
  show ?thesis
    using False unfolding file_conflict_def d
    by (simp add: overlap_spec [OF assms] severity_of_def split_beta)
qed

text \<open>The conflicts in the order of the table.\<close>

lemma file_conflicts_spec:
  assumes "\<And>p. entries_in_range (unwrap_or [] (m p))"
  shows "\<exists>ds. file_conflicts checks cs m ps = Some ds
    \<and> map mc_path ds = filter (\<lambda>p. 2 \<le> length (unwrap_or [] (m p))) ps
    \<and> (\<forall>d\<in>set ds. mc_agents d = map (\<lambda>e. co_agent_id (cs ! fst e)) (unwrap_or [] (m (mc_path d)))
        \<and> mc_severity d = severity_of (unwrap_or [] (m (mc_path d))))"
proof (induction ps)
  case Nil
  then show ?case by simp
next
  case (Cons p ps)
  then obtain ds where ds: "file_conflicts checks cs m ps = Some ds"
      "map mc_path ds = filter (\<lambda>p. 2 \<le> length (unwrap_or [] (m p))) ps"
      "\<forall>d\<in>set ds. mc_agents d = map (\<lambda>e. co_agent_id (cs ! fst e)) (unwrap_or [] (m (mc_path d)))
        \<and> mc_severity d = severity_of (unwrap_or [] (m (mc_path d)))" by blast
  obtain c where c: "file_conflict checks cs p (unwrap_or [] (m p)) = Some c"
      "c = None \<longleftrightarrow> length (unwrap_or [] (m p)) \<le> 1"
      "\<And>x. c = Some x \<Longrightarrow> mc_path x = p \<and> mc_agents x = map (\<lambda>e. co_agent_id (cs ! fst e)) (unwrap_or [] (m p))
        \<and> mc_severity x = severity_of (unwrap_or [] (m p))"
    using file_conflict_spec [OF assms, of checks cs p p] by blast
  show ?case
  proof (cases c)
    case None
    then have "\<not> 2 \<le> length (unwrap_or [] (m p))" using c(2) by simp
    then show ?thesis using c(1) ds None by auto
  next
    case (Some x)
    then have "2 \<le> length (unwrap_or [] (m p))" using c(2) by simp
    then show ?thesis using c(1) c(3) [OF Some] ds Some by auto
  qed
qed

lemma by_severity_props:
  "set (by_severity ds) = set ds" "mset (by_severity ds) = mset ds"
  "sorted_wrt (\<lambda>a b. mc_severity b \<le> mc_severity a) (by_severity ds)"
proof -
  show "set (by_severity ds) = set ds" by (simp add: by_severity_def)
  show "mset (by_severity ds) = mset ds" by (simp add: by_severity_def)
  have "sorted_wrt (\<lambda>a b. mc_severity a \<le> mc_severity b) (sort_key mc_severity (rev ds))"
    using sorted_sort_key [of mc_severity "rev ds"] by (simp add: sorted_map)
  then show "sorted_wrt (\<lambda>a b. mc_severity b \<le> mc_severity a) (by_severity ds)"
    by (simp add: by_severity_def sorted_wrt_rev)
qed

text \<open>
  C27. For contributions whose line numbers do not overflow, \<open>detect\<close> reports each file that is changed at
  least twice exactly once and no other, the severest conflicts first: critical if it is deleted and changed,
  medium if hunks of two contributions cross, and low otherwise. Two changes of one contribution count,
  too; and two insertions at the same place do not cross.
\<close>

theorem detect_finds_conflicts:
  assumes "hash_order enum"
    and "\<forall>c\<in>set cs. \<forall>fc\<in>set (co_changes c). \<forall>h\<in>set (fc_hunks fc). in_range h"
  shows "\<exists>ds. detect checks enum cs = Some ds \<and> distinct (map mc_path ds)
    \<and> set (map mc_path ds) = {p. 2 \<le> length (changes_of cs p)}
    \<and> sorted_wrt (\<lambda>a b. mc_severity b \<le> mc_severity a) ds
    \<and> (\<forall>d\<in>set ds. mc_agents d = map (\<lambda>e. co_agent_id (cs ! fst e)) (changes_of cs (mc_path d))
        \<and> mc_severity d = severity_of (changes_of cs (mc_path d)))"
proof -
  have r: "entries_in_range (unwrap_or [] (file_map_of cs p))" for p
    using assms(2) nth_mem by (fastforce simp: entries_in_range_def file_map_lookup changes_of_set)
  let ?ps = "enum (touched cs)"
  have ps: "set ?ps = touched cs" "distinct ?ps" using assms(1) by simp_all
  obtain ds where ds: "file_conflicts checks cs (file_map_of cs) ?ps = Some ds"
      "map mc_path ds = filter (\<lambda>p. 2 \<le> length (changes_of cs p)) ?ps"
      "\<forall>d\<in>set ds. mc_agents d = map (\<lambda>e. co_agent_id (cs ! fst e)) (changes_of cs (mc_path d))
        \<and> mc_severity d = severity_of (changes_of cs (mc_path d))"
    using file_conflicts_spec [where m = "file_map_of cs" and checks = checks and cs = cs and ps = "?ps", OF r] unfolding file_map_lookup by blast
  have "detect checks enum cs = Some (by_severity ds)" by (simp add: detect_def file_map_dom ds(1))
  moreover have "mset (map mc_path (by_severity ds)) = mset (map mc_path ds)"
    using by_severity_props(2) by (metis mset_map)
  then have "distinct (map mc_path (by_severity ds))"
    using ds(2) ps(2) by (metis distinct_filter mset_eq_imp_distinct_iff)
  moreover have "set (map mc_path (by_severity ds)) = set (map mc_path ds)"
    by (simp add: by_severity_props(1))
  then have "set (map mc_path (by_severity ds)) = {p \<in> touched cs. 2 \<le> length (changes_of cs p)}"
    unfolding ds(2) by (auto simp: ps(1))
  then have "set (map mc_path (by_severity ds)) = {p. 2 \<le> length (changes_of cs p)}"
    using touched_changes by force
  ultimately show ?thesis using by_severity_props(1,3) [of ds] ds(3) by auto
qed

section \<open>What becomes of every file\<close>

definition authored :: "contribution list \<Rightarrow> string \<Rightarrow> (string \<times> string \<times> file_change) list" where
  "authored cs p = concat (map (\<lambda>c. map (\<lambda>fc. (co_agent_id c, co_description c, fc))
     (filter (\<lambda>fc. fc_path fc = p) (co_changes c))) cs)"

lemma add_entries:
  "unwrap_or [] (fold (add_entry c) fcs m p) = unwrap_or [] (m p)
     @ map (\<lambda>fc. (co_agent_id c, co_description c, fc)) (filter (\<lambda>fc. fc_path fc = p) fcs)"
  "dom (fold (add_entry c) fcs m) = dom m \<union> fc_path ` set fcs"
  by (induction fcs arbitrary: m) (auto simp: add_entry_def)

lemma review_map_steps:
  "unwrap_or [] (fold (\<lambda>c. fold (add_entry c) (co_changes c)) cs m p) = unwrap_or [] (m p) @ authored cs p"
  "dom (fold (\<lambda>c. fold (add_entry c) (co_changes c)) cs m) = dom m \<union> touched cs"
  by (induction cs arbitrary: m) (auto simp: add_entries authored_def touched_def)

lemma review_map_dom: "dom (review_map_of cs) = touched cs"
  by (simp add: review_map_of_def review_map_steps)

lemma authored_nonempty: "p \<in> touched cs \<Longrightarrow> authored cs p \<noteq> []"
  by (auto simp: authored_def touched_def filter_empty_conv)

lemma review_map_touched: "p \<in> touched cs \<Longrightarrow> review_map_of cs p = Some (authored cs p)"
proof -
  assume "p \<in> touched cs"
  then obtain es where "review_map_of cs p = Some es" using review_map_dom by blast
  moreover have "unwrap_or [] (review_map_of cs p) = authored cs p"
    by (simp add: review_map_of_def review_map_steps)
  ultimately show ?thesis by simp
qed

definition accepted :: "contribution list \<Rightarrow> string \<Rightarrow> merge_decision \<times> string" where
  "accepted cs p = (case hd (authored cs p) of (agent, _, fc) \<Rightarrow>
     (\<lparr> md_path = p, md_action = Accept agent, md_content = None,
        md_reasoning = ''Single agent modification '' @ em_dash @ '' auto-accepted without LLM.'' \<rparr>, fc_raw fc))"

lemma auto_accept_touched:
  assumes "p \<in> touched cs"
  shows "auto_accept (review_map_of cs) p s =
    s\<lparr> vs_decisions := vs_decisions s @ [fst (accepted cs p)],
       vs_diffs := vs_diffs s @ filter (\<lambda>d. d \<noteq> []) [snd (accepted cs p)],
       vs_accepted := vs_accepted s + 1 \<rparr>"
proof -
  obtain a t fc es where "authored cs p = (a, t, fc) # es"
    using authored_nonempty [OF assms] by (cases "authored cs p") auto
  then show ?thesis
    by (simp add: auto_accept_def review_map_touched [OF assms] accepted_def)
qed

lemma auto_accept_all:
  "set ps \<subseteq> touched cs \<Longrightarrow> fold (auto_accept (review_map_of cs)) ps s =
     s\<lparr> vs_decisions := vs_decisions s @ map (fst \<circ> accepted cs) ps,
        vs_diffs := vs_diffs s @ filter (\<lambda>d. d \<noteq> []) (map (snd \<circ> accepted cs) ps),
        vs_accepted := vs_accepted s + length ps \<rparr>"
  by (induction ps arbitrary: s) (simp_all add: auto_accept_touched)

lemma apply_decisions:
  "vs_decisions (fold (apply_decision m) ds s) = vs_decisions s"
  "\<exists>others. vs_diffs (fold (apply_decision m) ds s) = vs_diffs s @ others"
proof (induction ds arbitrary: s)
  case (Cons d ds)
  {
    case 1
    show ?case using Cons(1) [of "apply_decision m d s"] by (simp add: apply_decision_def split: merge_action.split)
  next
    case 2
    obtain x where "vs_diffs (apply_decision m d s) = vs_diffs s @ x"
      by (cases "md_action d") (simp_all add: apply_decision_def)
    then show ?case using Cons(2) [of "apply_decision m d s"] by auto
  }
qed simp_all

lemma decision_counts:
  "vs_accepted (fold (apply_decision m) ds s) + length (filter (\<lambda>d. md_action d = Delete) ds)
     + vs_rejected (fold (apply_decision m) ds s) = vs_accepted s + vs_rejected s + length ds"
  "vs_resolved (fold (apply_decision m) ds s) = vs_resolved s + length ds"
  "vs_rejected s \<le> vs_rejected (fold (apply_decision m) ds s)"
  "vs_rejected (fold (apply_decision m) ds s) + length (filter (\<lambda>d. md_action d = Delete) ds) \<le> vs_rejected s + length ds"
proof (induction ds arbitrary: s)
  case (Cons d ds)
  define k where "k = (if md_action d = Delete then 1 else 0 :: nat)"
  have s: "vs_resolved (apply_decision m d s) = vs_resolved s + 1"
    "vs_accepted (apply_decision m d s) + k + vs_rejected (apply_decision m d s)
       = vs_accepted s + vs_rejected s + 1"
    "vs_rejected s \<le> vs_rejected (apply_decision m d s)"
    "vs_rejected (apply_decision m d s) + k \<le> vs_rejected s + 1" for s
    by (cases "md_action d"; simp add: apply_decision_def k_def)+
  have l: "length (filter (\<lambda>d. md_action d = Delete) (d # ds))
      = length (filter (\<lambda>d. md_action d = Delete) ds) + k" by (simp add: k_def)
  {
    case 1 show ?case using Cons(1) [of "apply_decision m d s"] s(2) [of s]
      unfolding l fold_Cons o_apply length_Cons by simp
  next
    case 2 show ?case using Cons(2) [of "apply_decision m d s"] s(1) [of s] by simp
  next
    case 3 show ?case using Cons(3) [of "apply_decision m d s"] s(3) [of s] by simp
  next
    case 4 show ?case using Cons(4) [of "apply_decision m d s"] s(4) [of s]
      unfolding l fold_Cons o_apply length_Cons by simp
  }
qed simp_all

lemma underflow_iff:
  assumes "vs_resolved s = 0" and "vs_rejected s = 0"
  shows "count_underflows (fold (apply_decision m) ds s)
    \<longleftrightarrow> vs_accepted s < length (filter (\<lambda>d. md_action d = Delete) ds)"
  using decision_counts(1,2,4) [where m = m and ds = ds and s = s] assms
  unfolding count_underflows_def by linarith

lemma fill_gaps: "mc_path ` set conflicts \<union> md_path ` set ds \<subseteq> md_path ` set (fold fill_gap conflicts ds)"
proof (induction conflicts arbitrary: ds)
  case Nil
  then show ?case by simp
next
  case (Cons c conflicts)
  have "insert (mc_path c) (md_path ` set ds) \<subseteq> md_path ` set (fill_gap c ds)"
    by (auto simp: fill_gap_def image_iff Bex_def)
  also have "\<dots> \<subseteq> md_path ` set (fold fill_gap conflicts (fill_gap c ds))"
    using Cons [of "fill_gap c ds"] by blast
  finally show ?case using Cons [of "fill_gap c ds"] by simp
qed

lemma decisions_cover: "mc_path ` set conflicts \<subseteq> md_path ` set (parse_llm_decisions parse raw conflicts)"
proof (cases "Option.bind (parse (clean_answer raw)) jarr")
  case None
  then show ?thesis by (simp add: parse_llm_decisions_def fallback_decisions_def image_image)
next
  case (Some items)
  then show ?thesis using fill_gaps [of conflicts] by (simp add: parse_llm_decisions_def)
qed

lemma join_contains: "x \<in> set xs \<Longrightarrow> contains_sub x (join_str sep xs)"
proof (induction sep xs rule: join_str.induct)
  case (2 sep x')
  then have "join_str sep [x'] = [] @ x @ []" by simp
  then show ?case unfolding contains_sub_iff by blast
next
  case (3 sep x' y xs)
  show ?case
  proof (cases "x = x'")
    case True
    have "join_str sep (x' # y # xs) = [] @ x @ (sep @ join_str sep (y # xs))" by (simp add: True)
    then show ?thesis unfolding contains_sub_iff by blast
  next
    case False
    then have "contains_sub x (join_str sep (y # xs))" using 3 by simp
    then obtain u v where "join_str sep (y # xs) = u @ x @ v" unfolding contains_sub_iff by blast
    then have "join_str sep (x' # y # xs) = (x' @ sep @ u) @ x @ v" by simp
    then show ?thesis unfolding contains_sub_iff by blast
  qed
qed simp_all

text \<open>The files that no conflict concerns, in the order of the table.\<close>

definition free_paths :: "review_env \<Rightarrow> contribution list \<Rightarrow> review_conflict list \<Rightarrow> string list" where
  "free_paths env cs conflicts = filter (\<lambda>p. p \<notin> mc_path ` set conflicts) (rv_enum env (touched cs))"

lemma start_review_eq:
  assumes "hash_order (rv_enum env)"
  shows "start_review env (review_map_of cs) conflicts =
    \<lparr> vs_decisions = map (fst \<circ> accepted cs) (free_paths env cs conflicts),
       vs_diffs = filter (\<lambda>d. d \<noteq> []) (map (snd \<circ> accepted cs) (free_paths env cs conflicts)),
       vs_accepted = length (free_paths env cs conflicts), vs_resolved = 0, vs_rejected = 0 \<rparr>"
proof -
  have "set (free_paths env cs conflicts) \<subseteq> touched cs" using assms by (auto simp: free_paths_def)
  then show ?thesis
    by (simp add: start_review_def review_map_dom auto_accept_all flip: free_paths_def)
qed

text \<open>The cases of a review.\<close>

lemma review_cases:
  assumes "hash_order (rv_enum env)" and "cs \<noteq> []"
  obtains (quiet) r where "conflicts = []" "review env cs conflicts = Reviewed r"
      "rr_decisions r = map (fst \<circ> accepted cs) (free_paths env cs conflicts)"
      "rr_diff r = join_str [newline] (filter (\<lambda>d. d \<noteq> []) (map (snd \<circ> accepted cs) (free_paths env cs conflicts)))"
  | (failed) e where "conflicts \<noteq> []" "call_llm env (rv_prompt env conflicts (review_map_of cs) cs) = Inl e"
      "review env cs conflicts = ReviewFailed e"
  | (answered) raw ds s where "conflicts \<noteq> []"
      "call_llm env (rv_prompt env conflicts (review_map_of cs) cs) = Inr raw"
      "ds = parse_llm_decisions (rv_parse env) raw conflicts"
      "s = fold (apply_decision (review_map_of cs)) ds (start_review env (review_map_of cs) conflicts)"
      "if rv_checks env \<and> count_underflows s then review env cs conflicts = ReviewPanics
       else \<exists>r. review env cs conflicts = Reviewed r \<and> rr_decisions r = vs_decisions s @ ds
              \<and> rr_diff r = join_str [newline] (vs_diffs s)"
proof (cases "conflicts = []")
  case True
  then show ?thesis
    using quiet assms by (simp add: review_def Let_def start_review_eq [OF assms(1)])
next
  case False
  show ?thesis
  proof (cases "call_llm env (rv_prompt env conflicts (review_map_of cs) cs)")
    case (Inl e)
    then show ?thesis using failed [OF False Inl] assms(2) False by (simp add: review_def Let_def)
  next
    case (Inr raw)
    show ?thesis
      using answered [OF False Inr refl refl] assms(2) False Inr by (simp add: review_def Let_def)
  qed
qed

lemma diff_part: "x \<in> set xs \<Longrightarrow> contains_sub x (join_str sep (filter (\<lambda>d. d \<noteq> []) xs @ others))"
proof (cases "x = []")
  case True
  have "join_str sep (filter (\<lambda>d. d \<noteq> []) xs @ others) = [] @ x @ join_str sep (filter (\<lambda>d. d \<noteq> []) xs @ others)"
    by (simp add: True)
  then show ?thesis unfolding contains_sub_iff by blast
next
  case False
  moreover assume "x \<in> set xs"
  ultimately show ?thesis by (intro join_contains) simp
qed

text \<open>
  C28. A review that returns leaves no file out: every file that no conflict concerns is accepted from the first
  contribution that changes it, and the diff of that change is part of the final diff; and there is a
  decision for the file of every conflict, whatever the model answered.
\<close>

theorem review_decides_every_file:
  assumes "hash_order (rv_enum env)" and "cs \<noteq> []" and "review env cs conflicts = Reviewed r"
  shows "(\<forall>p\<in>touched cs - mc_path ` set conflicts. \<exists>d\<in>set (rr_decisions r). \<exists>a t fc.
      hd (authored cs p) = (a, t, fc) \<and> md_path d = p \<and> md_action d = Accept a
      \<and> contains_sub (fc_raw fc) (rr_diff r))
    \<and> mc_path ` set conflicts \<subseteq> md_path ` set (rr_decisions r)"
proof -
  let ?ps = "free_paths env cs conflicts"
  obtain ds others where r: "rr_decisions r = map (fst \<circ> accepted cs) ?ps @ ds"
      "rr_diff r = join_str [newline] (filter (\<lambda>d. d \<noteq> []) (map (snd \<circ> accepted cs) ?ps) @ others)"
      "mc_path ` set conflicts \<subseteq> md_path ` set ds"
    using assms(1,2)
  proof (cases rule: review_cases [of env cs conflicts])
    case (quiet r')
    then show ?thesis using that [of "[]" "[]"] assms(3) by simp
  next
    case (failed e)
    then show ?thesis using assms(3) by simp
  next
    case (answered raw ds s)
    obtain others where others: "vs_diffs s = vs_diffs (start_review env (review_map_of cs) conflicts) @ others"
      using apply_decisions(2) answered(4) by blast
    have "vs_decisions s = map (fst \<circ> accepted cs) ?ps"
      unfolding answered(4) apply_decisions(1) by (simp add: start_review_eq [OF assms(1)])
    moreover have "mc_path ` set conflicts \<subseteq> md_path ` set ds" unfolding answered(3) by (rule decisions_cover)
    ultimately show ?thesis
      using that [of ds others] answered(5) assms(3) others by (simp add: start_review_eq [OF assms(1)] split: if_splits)
  qed
  have "\<exists>d\<in>set (rr_decisions r). \<exists>a t fc. hd (authored cs p) = (a, t, fc) \<and> md_path d = p
      \<and> md_action d = Accept a \<and> contains_sub (fc_raw fc) (rr_diff r)"
    if "p \<in> touched cs - mc_path ` set conflicts" for p
  proof -
    have p: "p \<in> set ?ps" using that assms(1) by (simp add: free_paths_def)
    obtain a t fc where e: "hd (authored cs p) = (a, t, fc)" by (cases "hd (authored cs p)")
    have "contains_sub (snd (accepted cs p)) (rr_diff r)" unfolding r(2) using p by (intro diff_part) simp
    moreover have "fst (accepted cs p) \<in> set (rr_decisions r)" using p by (simp add: r(1))
    ultimately show ?thesis
      using e by (intro bexI [of _ "fst (accepted cs p)"] exI [of _ a] exI [of _ t] exI [of _ fc])
        (simp_all add: accepted_def)
  qed
  with r show ?thesis by auto
qed

text \<open>
  With overflow checks the summary of a review makes it panic exactly when the model's decisions delete more
  files than were accepted without it: the deletions are subtracted from a count to which they were not
  added. Nothing else makes it panic.
\<close>

theorem review_panics_iff:
  assumes "hash_order (rv_enum env)"
  shows "review env cs conflicts = ReviewPanics \<longleftrightarrow> rv_checks env \<and> cs \<noteq> [] \<and> conflicts \<noteq> []
    \<and> (\<exists>raw. call_llm env (rv_prompt env conflicts (review_map_of cs) cs) = Inr raw
        \<and> card (touched cs - mc_path ` set conflicts)
            < length (filter (\<lambda>d. md_action d = Delete) (parse_llm_decisions (rv_parse env) raw conflicts)))"
proof (cases "cs = []")
  case True
  then show ?thesis by (simp add: review_def)
next
  case False
  have n: "length (free_paths env cs conflicts) = card (touched cs - mc_path ` set conflicts)"
  proof -
    have "distinct (free_paths env cs conflicts)" using assms by (simp add: free_paths_def)
    moreover have "set (free_paths env cs conflicts) = touched cs - mc_path ` set conflicts"
      using assms by (auto simp: free_paths_def)
    ultimately show ?thesis by (metis distinct_card)
  qed
  show ?thesis
    using assms False
  proof (cases rule: review_cases [of env cs conflicts])
    case (quiet r)
    then show ?thesis by simp
  next
    case (failed e)
    then show ?thesis by simp
  next
    case (answered raw ds s)
    have "count_underflows s \<longleftrightarrow> card (touched cs - mc_path ` set conflicts) < length (filter (\<lambda>d. md_action d = Delete) ds)"
      unfolding answered(4) n [symmetric] by (simp add: underflow_iff start_review_eq [OF assms])
    then show ?thesis using answered False by (auto split: if_splits)
  qed
qed

section \<open>Instances\<close>

definition demo_change :: "string \<Rightarrow> change_type \<Rightarrow> file_change" where
  "demo_change p ct = \<lparr> fc_path = p, fc_type = ct,
     fc_hunks = [\<lparr> dh_old_start = 1, dh_old_count = 3, dh_new_start = 1, dh_new_count = 3, dh_content = [] \<rparr>],
     fc_raw = p \<rparr>"

definition demo_contribution :: "string \<Rightarrow> file_change list \<Rightarrow> contribution" where
  "demo_contribution a fcs = \<lparr> co_agent_id = a, co_task_id = a, co_description = [], co_changes = fcs, co_raw = [] \<rparr>"

definition demo_contributions :: "contribution list" where
  "demo_contributions = [demo_contribution ''A'' [demo_change ''x'' Modified],
     demo_contribution ''B'' [demo_change ''x'' Deleted, demo_change ''y'' Modified]]"

lemma demo_in_range:
  "\<forall>c\<in>set demo_contributions. \<forall>fc\<in>set (co_changes c). \<forall>h\<in>set (fc_hunks fc). in_range h"
  by (simp add: demo_contributions_def demo_contribution_def demo_change_def in_range_def)

lemma detect_finds_conflicts_witness:
  "\<exists>ds. detect True sorted_list_of_set demo_contributions = Some ds
    \<and> set (map mc_path ds) = {p. 2 \<le> length (changes_of demo_contributions p)}"
  using detect_finds_conflicts [OF hash_order_sorted demo_in_range, of True] by blast

definition demo_review_env :: review_env where
  "demo_review_env = \<lparr> rv_checks = True, rv_enum = sorted_list_of_set, rv_generate = (\<lambda>_ _. Inr []),
     rv_parse = (\<lambda>_. Some (JArr [JObj [(''file_path'', JStr ''x''), (''action'', JStr ''delete'')]])),
     rv_prompt = (\<lambda>_ _ _. []) \<rparr>"

definition demo_conflict :: review_conflict where
  "demo_conflict = \<lparr> mc_type = DeleteModify, mc_path = ''x'', mc_agents = [''A'', ''B''], mc_description = [],
     mc_severity = Critical \<rparr>"

lemma demo_hash_order: "hash_order (rv_enum demo_review_env)"
  by (simp add: demo_review_env_def hash_order_sorted)

lemma demo_fields: "rv_enum demo_review_env = sorted_list_of_set" "mc_path demo_conflict = ''x''"
  by (simp_all add: demo_review_env_def demo_conflict_def)

lemma demo_touched:
  "touched demo_contributions = {''x'', ''y''}" "touched (take 1 demo_contributions) = {''x''}"
  by (auto simp: touched_iff demo_contributions_def demo_contribution_def demo_change_def)

lemma demo_decisions:
  "call_llm demo_review_env prompt = Inr []"
  "parse_llm_decisions (rv_parse demo_review_env) raw [demo_conflict] =
     [\<lparr> md_path = ''x'', md_action = Delete, md_content = None,
        md_reasoning = ''LLM decision '' @ em_dash @ '' no reasoning provided'' \<rparr>]"
  by (simp_all add: call_llm_def numeral_3_eq_3 demo_review_env_def parse_llm_decisions_def
      item_decision_def jget_str_def List.map_filter_def fill_gap_def demo_conflict_def)

lemma review_panics_iff_witness:
  "review demo_review_env (take 1 demo_contributions) [demo_conflict] = ReviewPanics"
proof -
  have "take 1 demo_contributions \<noteq> []" by (simp add: demo_contributions_def)
  moreover have "rv_checks demo_review_env" by (simp add: demo_review_env_def)
  moreover have "card (touched (take 1 demo_contributions) - mc_path ` set [demo_conflict]) = 0"
    unfolding demo_touched by (simp add: demo_conflict_def)
  ultimately show ?thesis
    using review_panics_iff [OF demo_hash_order, of "take 1 demo_contributions" "[demo_conflict]"]
    by (simp add: demo_decisions)
qed

lemma review_decides_every_file_witness:
  "\<exists>r. review demo_review_env demo_contributions [demo_conflict] = Reviewed r
    \<and> ''x'' \<in> md_path ` set (rr_decisions r)"
proof -
  have ne: "demo_contributions \<noteq> []" by (simp add: demo_contributions_def)
  have "card (touched demo_contributions - mc_path ` set [demo_conflict]) = 1"
    unfolding demo_touched by (simp add: demo_conflict_def)
  obtain r where r: "review demo_review_env demo_contributions [demo_conflict] = Reviewed r"
    using demo_hash_order ne
  proof (cases rule: review_cases [of demo_review_env demo_contributions "[demo_conflict]"])
    case (answered raw ds s)
    have "\<not> count_underflows s"
      unfolding answered(3,4) demo_decisions
      by (subst underflow_iff)
         (simp_all add: start_review_eq [OF demo_hash_order] free_paths_def demo_touched demo_fields)
    then show ?thesis using that answered(5) by auto
  qed (use demo_decisions in auto)
  then show ?thesis
    using review_decides_every_file [OF demo_hash_order ne r] by (auto simp: demo_conflict_def)
qed

end
