(* ===== verification/Verify_Loop.thy ===== *)
theory Verify_Loop
  imports Scheduler Text_Tools "HOL-Library.Multiset"
begin

text \<open>
  The verification of a sandbox (\<open>agentd/src/orchestration/verification.rs\<close>): a model plans commands once, every
  round runs all of them, and failures are handed to agents that may fix them. Containers, the socket, agents
  and the model are parameters that may do anything to the world \<open>'w\<close>. The answer of the socket
  is that of \<open>agentd/src/socket_server.rs\<close>.
\<close>

section \<open>JSON in an answer\<close>

text \<open>The blocks between fences, trimmed, without the empty ones; the rest of the first line is the language.\<close>

definition block_start :: "string \<Rightarrow> string" where
  "block_start s = (case find_sub [newline] s of Some nl \<Rightarrow> drop (nl + 1) s | None \<Rightarrow> s)"

lemma length_block_start: "length (block_start s) \<le> length s"
  by (simp add: block_start_def split: option.split)

function fenced_blocks :: "string \<Rightarrow> string list" where
  "fenced_blocks rest =
     (case find_sub fence rest of
        None \<Rightarrow> []
      | Some i \<Rightarrow>
          let content = block_start (drop (i + 3) rest) in
          case find_sub fence content of
            None \<Rightarrow> []
          | Some e \<Rightarrow> (let c = trim (take e content) in if c = [] then [] else [c])
              @ fenced_blocks (drop (e + 3) content))"
  by pat_completeness auto

termination
proof (relation "measure length")
  fix rest content :: string and i e :: nat
  assume i: "find_sub fence rest = Some i" and c: "content = block_start (drop (i + 3) rest)"
  have "length content \<le> length rest - (i + 3)" using length_block_start [of "drop (i + 3) rest"] c by simp
  moreover have "i + 3 \<le> length rest" using find_sub_bound [OF i] by (simp add: fence_def)
  ultimately show "(drop (e + 3) content, rest) \<in> measure length" by simp
qed simp

declare fenced_blocks.simps [simp del]

text \<open>The end of the object that starts at the beginning of the text; the arguments are the loop's variables.\<close>

fun scan_object :: "string \<Rightarrow> int \<Rightarrow> bool \<Rightarrow> bool \<Rightarrow> nat \<Rightarrow> nat option" where
  "scan_object [] depth in_string escape_next i = None"
| "scan_object (c # cs) depth in_string escape_next i =
     (if escape_next then scan_object cs depth in_string False (Suc i)
      else if c = CHR 0x5C \<and> in_string then scan_object cs depth in_string True (Suc i)
      else if c = CHR 0x22 then scan_object cs depth (\<not> in_string) False (Suc i)
      else if c = CHR ''{'' \<and> \<not> in_string then scan_object cs (depth + 1) in_string False (Suc i)
      else if c = CHR ''}'' \<and> \<not> in_string
      then (if depth - 1 = 0 then Some (Suc i) else scan_object cs (depth - 1) in_string False (Suc i))
      else scan_object cs depth in_string False (Suc i))"

lemma scan_object_bounds: "scan_object s d q x i = Some e \<Longrightarrow> i < e \<and> e \<le> i + length s"
  by (induction s d q x i rule: scan_object.induct) (auto split: if_splits)

function find_object :: "(string \<Rightarrow> bool) \<Rightarrow> string \<Rightarrow> string option" where
  "find_object valid s =
     (case find_sub ''{'' s of
        None \<Rightarrow> None
      | Some b \<Rightarrow>
          (case scan_object (drop b s) 0 False False 0 of
             None \<Rightarrow> None
           | Some e \<Rightarrow>
               let c = trim (take e (drop b s)) in
               if valid c then Some c else find_object valid (drop (b + e) s)))"
  by pat_completeness auto

termination
proof (relation "measure (\<lambda>(valid, s). length s)")
  fix valid :: "string \<Rightarrow> bool" and s b e
  assume b: "find_sub ''{'' s = Some b" and e: "scan_object (drop b s) 0 False False 0 = Some e"
  have "b < length s" using find_sub_bound [OF b] by simp
  moreover have "0 < e" using scan_object_bounds [OF e] by simp
  ultimately show "((valid, drop (b + e) s), (valid, s)) \<in> measure (\<lambda>(valid, s). length s)" by simp
qed simp

declare find_object.simps [simp del]

definition extract_json :: "(string \<Rightarrow> bool) \<Rightarrow> string \<Rightarrow> string" where
  "extract_json valid t =
     (case find valid (fenced_blocks t) of
        Some c \<Rightarrow> c
      | None \<Rightarrow> if valid (trim t) then trim t
                else case find_object valid (trim t) of Some c \<Rightarrow> c | None \<Rightarrow> trim t)"

section \<open>The plan\<close>

record verification_function =
  vf_id :: work_id
  vf_description :: string
  vf_command :: string
  vf_expected_schema :: "string option"
  vf_assertion :: "string option"
  vf_deps :: "work_id list"
  vf_timeout_secs :: u64

datatype verification_status = NotStarted | VRunning | Passed | PartiallyVerified | VFailed | TimedOut

record verification_result =
  vr_status :: verification_status
  vr_passed :: "work_id list"
  vr_failed :: "work_id list"
  vr_rounds :: nat
  vr_diff :: "string option"

text \<open>The outcome of the request to the socket: \<open>TaskError\<close> if the blocking task panics, \<open>NoAnswer\<close> after the timeout.\<close>

datatype socket_outcome = Answered json | SocketError string | TaskError string | NoAnswer

record 'w verify_env =
  ve_max_rounds :: nat
  ve_generate :: "string \<Rightarrow> 'w \<Rightarrow> (string + string) \<times> 'w"
  ve_valid :: "string \<Rightarrow> bool"
  ve_parse_plan :: "string \<Rightarrow> verification_function list option"
  ve_parse_fixes :: "string \<Rightarrow> agent_task list option"
  ve_create :: "sandbox_name \<Rightarrow> work_id \<Rightarrow> 'w \<Rightarrow> (string + agent_handle) \<times> 'w"
  ve_request :: "json \<Rightarrow> nat \<Rightarrow> 'w \<Rightarrow> socket_outcome \<times> 'w"
  ve_destroy :: "string \<Rightarrow> 'w \<Rightarrow> 'w"
  ve_execute :: "agent_handle \<Rightarrow> agent_task \<Rightarrow> 'w \<Rightarrow> (string + agent_result) \<times> 'w"
  ve_apply :: "sandbox_name \<Rightarrow> string \<Rightarrow> 'w \<Rightarrow> (string + unit) \<times> 'w"
  ve_capture :: "sandbox_name \<Rightarrow> 'w \<Rightarrow> (string + string) \<times> 'w"
  ve_plan_prompt :: "sandbox_name \<Rightarrow> string \<Rightarrow> agent_task list \<Rightarrow> string"
  ve_fix_prompt :: "work_id \<Rightarrow> string \<Rightarrow> string \<Rightarrow> string"
  ve_duration :: "'w \<Rightarrow> nat"

definition generate_plan ::
  "'w verify_env \<Rightarrow> sandbox_name \<Rightarrow> string \<Rightarrow> agent_task list \<Rightarrow> 'w \<Rightarrow> (string + verification_function list) \<times> 'w" where
  "generate_plan env sb diff tasks w =
     (case ve_generate env (ve_plan_prompt env sb diff tasks) w of
        (Inl e, w1) \<Rightarrow> (Inl ''LLM VF planning request failed'', w1)
      | (Inr text, w1) \<Rightarrow>
          (case ve_parse_plan env (extract_json (ve_valid env) text) of
             None \<Rightarrow> (Inl ''Failed to parse VF plan JSON'', w1)
           | Some vfs \<Rightarrow> (Inr vfs, w1)))"

text \<open>A failed request or an answer that does not parse gives no tasks.\<close>

definition generate_fix_tasks ::
  "'w verify_env \<Rightarrow> work_id \<Rightarrow> string \<Rightarrow> string \<Rightarrow> 'w \<Rightarrow> agent_task list \<times> 'w" where
  "generate_fix_tasks env i cmd output w =
     (case ve_generate env (ve_fix_prompt env i cmd output) w of
        (Inl e, w1) \<Rightarrow> ([], w1)
      | (Inr text, w1) \<Rightarrow> (unwrap_or [] (ve_parse_fixes env (extract_json (ve_valid env) text)), w1))"

section \<open>Running a function\<close>

definition show_int :: "int \<Rightarrow> string" where
  "show_int i = (if i < 0 then CHR ''-'' # show_nat (nat (- i)) else show_nat (nat i))"

definition show_bool :: "bool \<Rightarrow> string" where
  "show_bool b = (if b then ''true'' else ''false'')"

definition vf_request :: "verification_function \<Rightarrow> agent_handle \<Rightarrow> json" where
  "vf_request vf agent = JObj [(''request_type'', JStr ''invoke_tool''),
     (''sandbox'', JStr (ah_container_id agent)), (''container'', JStr (ah_container_id agent)),
     (''name'', JStr ''run_command''),
     (''input'', JObj [(''cmd'', JStr (vf_command vf)), (''cwd'', JStr ''/workspace''),
        (''timeout'', JInt (int (unat (max (vf_timeout_secs vf) 10))))])]"

text \<open>What the loop makes of an answer: whether the function passed, and its output.\<close>

definition judge :: "nat \<Rightarrow> json \<Rightarrow> bool \<times> string" where
  "judge duration resp =
     (let exit_code = unwrap_or (- 1) (Option.bind (jget resp ''exit_code'') ji64);
          stdout = unwrap_or [] (jget_str resp ''stdout'');
          stderr = unwrap_or [] (jget_str resp ''stderr'');
          timed_out = unwrap_or False (Option.bind (jget resp ''timed_out'') jbool);
          passed = (exit_code = 0 \<and> \<not> timed_out) in
      (passed,
       if passed then stdout
       else ''Exit code: '' @ show_int exit_code @ [newline] @ ''Stdout: '' @ stdout @ [newline] @ ''Stderr: '' @ stderr
         @ [newline] @ ''Timed out: '' @ show_bool timed_out @ [newline] @ ''Duration: '' @ show_nat duration @ ''ms''))"

definition execute_vf ::
  "'w verify_env \<Rightarrow> sandbox_name \<Rightarrow> verification_function \<Rightarrow> 'w \<Rightarrow> (string + bool \<times> string) \<times> 'w" where
  "execute_vf env sb vf w =
     (case ve_create env sb (vf_id vf) w of
        (Inl e, w1) \<Rightarrow> (Inl (''Failed to create container for VF '' @ vf_id vf @ '' in sandbox '' @ sb), w1)
      | (Inr agent, w1) \<Rightarrow>
          let timeout_secs = max (vf_timeout_secs vf) 10 in
          case ve_request env (vf_request vf agent) (unat (timeout_secs + 5)) w1 of
            (outcome, w2) \<Rightarrow>
              let w3 = ve_destroy env (ah_agent_id agent) w2 in
              (Inr (case outcome of
                      Answered resp \<Rightarrow> judge (ve_duration env w3) resp
                    | SocketError e \<Rightarrow> (False, ''Socket error: '' @ e)
                    | TaskError e \<Rightarrow> (False, ''Task spawn error: '' @ e)
                    | NoAnswer \<Rightarrow> (False, ''Timeout after '' @ show_nat (unat timeout_secs) @ ''s'')), w3))"

section \<open>The rounds\<close>

record 'w verify_state =
  vy_passed :: "work_id list"
  vy_failed :: "work_id list"
  vy_rounds :: nat
  vy_diff :: string
  vy_world :: 'w

type_synonym vf_failure = "work_id \<times> string \<times> string"

definition run_vf ::
  "'w verify_env \<Rightarrow> sandbox_name \<Rightarrow> verification_function \<Rightarrow> 'w verify_state \<times> vf_failure list
     \<Rightarrow> 'w verify_state \<times> vf_failure list" where
  "run_vf env sb vf = (\<lambda>(s, failures).
     case execute_vf env sb vf (vy_world s) of
       (Inr (True, _), w) \<Rightarrow> (s\<lparr> vy_passed := vy_passed s @ [vf_id vf], vy_world := w \<rparr>, failures)
     | (Inr (False, output), w) \<Rightarrow>
         (s\<lparr> vy_failed := vy_failed s @ [vf_id vf], vy_world := w \<rparr>, failures @ [(vf_id vf, vf_command vf, output)])
     | (Inl e, w) \<Rightarrow>
         (s\<lparr> vy_failed := vy_failed s @ [vf_id vf], vy_world := w \<rparr>, failures @ [(vf_id vf, vf_command vf, e)]))"

text \<open>One task that should fix a failure; its agent is destroyed in every case.\<close>

definition apply_fix ::
  "'w verify_env \<Rightarrow> sandbox_name \<Rightarrow> agent_result \<Rightarrow> 'w verify_state \<Rightarrow> 'w verify_state" where
  "apply_fix env sb r s =
     (case (res_success r, res_git_diff r) of
        (True, Some diff) \<Rightarrow>
          if diff = [] then s
          else (case ve_apply env sb diff (vy_world s) of
                  (Inl e, w1) \<Rightarrow> s\<lparr> vy_world := w1 \<rparr>
                | (Inr _, w1) \<Rightarrow>
                    (case ve_capture env sb w1 of
                       (Inr updated, w2) \<Rightarrow> s\<lparr> vy_diff := updated, vy_world := w2 \<rparr>
                     | (Inl e, w2) \<Rightarrow> s\<lparr> vy_world := w2 \<rparr>))
      | _ \<Rightarrow> s)"

definition run_fix :: "'w verify_env \<Rightarrow> sandbox_name \<Rightarrow> agent_task \<Rightarrow> 'w verify_state \<Rightarrow> 'w verify_state" where
  "run_fix env sb task s =
     (case ve_create env sb (at_id task) (vy_world s) of
        (Inl e, w1) \<Rightarrow> s\<lparr> vy_world := w1 \<rparr>
      | (Inr agent, w1) \<Rightarrow>
          (let s2 = (case ve_execute env agent task w1 of
                       (Inl e, w2) \<Rightarrow> s\<lparr> vy_world := w2 \<rparr>
                     | (Inr r, w2) \<Rightarrow> apply_fix env sb r (s\<lparr> vy_world := w2 \<rparr>)) in
           s2\<lparr> vy_world := ve_destroy env (ah_agent_id agent) (vy_world s2) \<rparr>))"

definition fix_failure :: "'w verify_env \<Rightarrow> sandbox_name \<Rightarrow> vf_failure \<Rightarrow> 'w verify_state \<Rightarrow> 'w verify_state" where
  "fix_failure env sb = (\<lambda>(i, cmd, output) s.
     case generate_fix_tasks env i cmd output (vy_world s) of
       (tasks, w) \<Rightarrow> fold (run_fix env sb) tasks (s\<lparr> vy_world := w \<rparr>))"

text \<open>The rounds that are left; \<open>break\<close> ends the loop.\<close>

fun verify_rounds ::
  "'w verify_env \<Rightarrow> sandbox_name \<Rightarrow> verification_function list \<Rightarrow> nat \<Rightarrow> 'w verify_state \<Rightarrow> 'w verify_state" where
  "verify_rounds env sb vfs 0 s = s"
| "verify_rounds env sb vfs (Suc left) s =
     (case fold (run_vf env sb) vfs
             (s\<lparr> vy_rounds := vy_rounds s + 1, vy_passed := [], vy_failed := [] \<rparr>, []) of
        (s1, failures) \<Rightarrow>
          if failures = [] then s1
          else verify_rounds env sb vfs left (if 0 < left then fold (fix_failure env sb) failures s1 else s1))"

definition determine_status :: "work_id list \<Rightarrow> work_id list \<Rightarrow> nat \<Rightarrow> nat \<Rightarrow> verification_status" where
  "determine_status failed passed rounds max_rounds =
     (if passed = [] \<and> failed = [] then NotStarted
      else if failed = [] then Passed
      else if max_rounds \<le> rounds then PartiallyVerified
      else VFailed)"

definition verify_sandbox ::
  "'w verify_env \<Rightarrow> sandbox_name \<Rightarrow> string \<Rightarrow> agent_task list \<Rightarrow> 'w \<Rightarrow> (string + verification_result) \<times> 'w" where
  "verify_sandbox env sb diff tasks w =
     (case generate_plan env sb diff tasks w of
        (Inl e, w1) \<Rightarrow> (Inl e, w1)
      | (Inr vfs, w1) \<Rightarrow>
          if vfs = [] then (Inr \<lparr> vr_status = NotStarted, vr_passed = [], vr_failed = [], vr_rounds = 0, vr_diff = Some diff \<rparr>, w1)
          else let s = verify_rounds env sb vfs (ve_max_rounds env)
                         \<lparr> vy_passed = [], vy_failed = [], vy_rounds = 0, vy_diff = diff, vy_world = w1 \<rparr> in
            (Inr \<lparr> vr_status = determine_status (vy_failed s) (vy_passed s) (vy_rounds s) (ve_max_rounds env),
                   vr_passed = vy_passed s, vr_failed = vy_failed s, vr_rounds = vy_rounds s,
                   vr_diff = Some (vy_diff s) \<rparr>, vy_world s))"

section \<open>The answers of the daemon\<close>

text \<open>\<open>SocketResponse\<close> and its serialisation; an absent value is \<open>null\<close>.\<close>

record socket_response =
  sr_status :: string
  sr_result :: "json option"
  sr_error :: "string option"

definition response_json :: "socket_response \<Rightarrow> json" where
  "response_json r = JObj [(''status'', JStr (sr_status r)), (''result'', unwrap_or JNull (sr_result r)),
     (''error'', case sr_error r of Some e \<Rightarrow> JStr e | None \<Rightarrow> JNull)]"

definition socket_ok :: "json option \<Rightarrow> socket_response" where
  "socket_ok result = \<lparr> sr_status = ''ok'', sr_result = result, sr_error = None \<rparr>"

definition socket_err :: "string \<Rightarrow> socket_response" where
  "socket_err e = \<lparr> sr_status = ''error'', sr_result = None, sr_error = Some e \<rparr>"

section \<open>Extracting JSON\<close>

text \<open>
  Whatever stands around it, a fenced block that is valid JSON is what \<open>extract_json\<close> returns, without
  the fences, the language and the white space around it, when no fence stands before it.
\<close>

theorem extract_fenced_block:
  assumes "CHR 0x60 \<notin> set pre" and "newline \<notin> set lang" and "CHR 0x60 \<notin> set body"
    and "trim body \<noteq> []" and "valid (trim body)"
  shows "extract_json valid (pre @ fence @ lang @ newline # body @ fence @ post) = trim body"
proof -
  have f: "find_sub fence (u @ fence @ v) = Some (length u)" if "CHR 0x60 \<notin> set u" for u v
    using that by (induction u) (auto simp: fence_def numeral_3_eq_3)
  let ?t = "pre @ fence @ lang @ newline # body @ fence @ post"
  have "drop (length pre + 3) ?t = lang @ newline # body @ fence @ post" by (simp add: fence_def)
  moreover have "block_start (lang @ newline # body @ fence @ post) = body @ fence @ post"
    by (simp add: block_start_def find_char_at [OF assms(2)])
  ultimately have "fenced_blocks ?t = trim body # fenced_blocks (drop (length body + 3) (body @ fence @ post))"
    by (subst fenced_blocks.simps) (simp add: f assms(1,3,4) Let_def)
  then show ?thesis using assms(5) by (simp add: extract_json_def)
qed

section \<open>What a result says\<close>

lemma apply_fix_keeps:
  "vy_passed (apply_fix env sb r s) = vy_passed s" "vy_failed (apply_fix env sb r s) = vy_failed s"
  "vy_rounds (apply_fix env sb r s) = vy_rounds s"
  by (simp_all add: apply_fix_def split: bool.split option.split sum.split prod.split)

lemma run_fix_keeps:
  "vy_passed (run_fix env sb t s) = vy_passed s" "vy_failed (run_fix env sb t s) = vy_failed s"
  "vy_rounds (run_fix env sb t s) = vy_rounds s"
  by (simp_all add: run_fix_def Let_def apply_fix_keeps split: sum.split prod.split)

lemma run_fixes_keep:
  "vy_passed (fold (run_fix env sb) ts s) = vy_passed s" "vy_failed (fold (run_fix env sb) ts s) = vy_failed s"
  "vy_rounds (fold (run_fix env sb) ts s) = vy_rounds s"
  by (induction ts arbitrary: s) (simp_all add: run_fix_keeps)

lemma fix_failures_keep:
  "vy_passed (fold (fix_failure env sb) fs s) = vy_passed s" "vy_failed (fold (fix_failure env sb) fs s) = vy_failed s"
  "vy_rounds (fold (fix_failure env sb) fs s) = vy_rounds s"
  by (induction fs arbitrary: s) (simp_all add: fix_failure_def run_fixes_keep split: prod.split)

lemma run_vf_step:
  assumes "run_vf env sb vf (s, fs) = (s', fs')"
  shows "mset (vy_passed s' @ vy_failed s') = add_mset (vf_id vf) (mset (vy_passed s @ vy_failed s))"
    and "vy_rounds s' = vy_rounds s"
    and "map fst fs = vy_failed s \<Longrightarrow> map fst fs' = vy_failed s'"
  using assms by (auto simp: run_vf_def split: sum.splits prod.splits bool.splits)

lemma run_vfs:
  "fold (run_vf env sb) vfs (s, fs) = (s', fs')
     \<Longrightarrow> mset (vy_passed s' @ vy_failed s') = mset (vy_passed s @ vy_failed s) + mset (map vf_id vfs)
       \<and> vy_rounds s' = vy_rounds s \<and> (map fst fs = vy_failed s \<longrightarrow> map fst fs' = vy_failed s')"
proof (induction vfs arbitrary: s fs)
  case Nil
  then show ?case by simp
next
  case (Cons vf vfs)
  obtain s1 fs1 where s1: "run_vf env sb vf (s, fs) = (s1, fs1)" by fastforce
  have "fold (run_vf env sb) vfs (s1, fs1) = (s', fs')" using Cons.prems s1 by simp
  from Cons.IH [OF this] run_vf_step [OF s1] show ?case by simp
qed

text \<open>A round that ran, and the rounds together.\<close>

lemma verify_rounds_result:
  assumes "0 < left"
  shows "mset (vy_passed (verify_rounds env sb vfs left s) @ vy_failed (verify_rounds env sb vfs left s)) = mset (map vf_id vfs)
    \<and> vy_rounds s < vy_rounds (verify_rounds env sb vfs left s)
    \<and> vy_rounds (verify_rounds env sb vfs left s) \<le> vy_rounds s + left
    \<and> (vy_failed (verify_rounds env sb vfs left s) \<noteq> [] \<longrightarrow> vy_rounds (verify_rounds env sb vfs left s) = vy_rounds s + left)"
  using assms
proof (induction left arbitrary: s)
  case 0
  then show ?case by simp
next
  case (Suc left)
  obtain s1 fs where r: "fold (run_vf env sb) vfs (s\<lparr> vy_rounds := vy_rounds s + 1, vy_passed := [], vy_failed := [] \<rparr>, [])
      = (s1, fs)" by fastforce
  note s1 = run_vfs [OF r, simplified]
  have eq: "verify_rounds env sb vfs (Suc left) s = (if fs = [] then s1
      else verify_rounds env sb vfs left (if 0 < left then fold (fix_failure env sb) fs s1 else s1))"
    unfolding verify_rounds.simps r by simp
  consider "fs = []" | "fs \<noteq> []" "left = 0" | "fs \<noteq> []" "0 < left" by blast
  then show ?case
  proof cases
    case 1
    then have "verify_rounds env sb vfs (Suc left) s = s1" and "vy_failed s1 = []" using eq s1 by simp_all
    then show ?thesis using s1 by simp
  next
    case 2
    then have "verify_rounds env sb vfs (Suc left) s = s1" using eq by simp
    then show ?thesis using s1 2 by simp
  next
    case 3
    have e: "verify_rounds env sb vfs (Suc left) s = verify_rounds env sb vfs left (fold (fix_failure env sb) fs s1)"
      using eq 3 by simp
    show ?thesis
      using Suc.IH [OF 3(2), of "fold (fix_failure env sb) fs s1"] s1 unfolding e fix_failures_keep by simp
  qed
qed

lemma verify_sandbox_run:
  assumes "generate_plan env sb diff tasks w = (Inr vfs, w1)" and "vfs \<noteq> []"
    and "verify_sandbox env sb diff tasks w = (Inr r, w')"
  obtains s where "s = verify_rounds env sb vfs (ve_max_rounds env)
      \<lparr> vy_passed = [], vy_failed = [], vy_rounds = 0, vy_diff = diff, vy_world = w1 \<rparr>"
    and "r = \<lparr> vr_status = determine_status (vy_failed s) (vy_passed s) (vy_rounds s) (ve_max_rounds env),
      vr_passed = vy_passed s, vr_failed = vy_failed s, vr_rounds = vy_rounds s, vr_diff = Some (vy_diff s) \<rparr>"
    and "w' = vy_world s"
  using assms by (simp add: verify_sandbox_def Let_def)

text \<open>
  C29. In the result of a verification every planned function has passed or failed in the last round, each once;
  the status is \<open>Passed\<close> exactly if none failed and \<open>PartiallyVerified\<close> otherwise, and only after all rounds were
  used; it is never \<open>Failed\<close>. Without functions or rounds it is \<open>NotStarted\<close>.
\<close>

theorem verification_result_correct:
  assumes "generate_plan env sb diff tasks w = (Inr vfs, w1)"
    and "verify_sandbox env sb diff tasks w = (Inr r, w')"
  shows "if vfs = [] \<or> ve_max_rounds env = 0
    then vr_status r = NotStarted \<and> vr_passed r = [] \<and> vr_failed r = [] \<and> vr_rounds r = 0
    else mset (vr_passed r @ vr_failed r) = mset (map vf_id vfs)
      \<and> 0 < vr_rounds r \<and> vr_rounds r \<le> ve_max_rounds env
      \<and> vr_status r = (if vr_failed r = [] then Passed else PartiallyVerified)
      \<and> (vr_failed r \<noteq> [] \<longrightarrow> vr_rounds r = ve_max_rounds env)"
proof (cases "vfs = []")
  case True
  then show ?thesis using assms by (auto simp: verify_sandbox_def)
next
  case False
  obtain s where s: "s = verify_rounds env sb vfs (ve_max_rounds env)
      \<lparr> vy_passed = [], vy_failed = [], vy_rounds = 0, vy_diff = diff, vy_world = w1 \<rparr>"
    and r: "r = \<lparr> vr_status = determine_status (vy_failed s) (vy_passed s) (vy_rounds s) (ve_max_rounds env),
      vr_passed = vy_passed s, vr_failed = vy_failed s, vr_rounds = vy_rounds s, vr_diff = Some (vy_diff s) \<rparr>"
    using verify_sandbox_run [OF assms(1) False assms(2)] by blast
  show ?thesis
  proof (cases "ve_max_rounds env")
    case 0
    then show ?thesis by (simp add: r s determine_status_def)
  next
    case (Suc n)
    note v = verify_rounds_result [of "ve_max_rounds env" env sb vfs
        "\<lparr> vy_passed = [], vy_failed = [], vy_rounds = 0, vy_diff = diff, vy_world = w1 \<rparr>", folded s]
    have ne: "vy_passed s \<noteq> [] \<or> vy_failed s \<noteq> []" using v Suc False by (cases vfs) auto
    then show ?thesis using v Suc False by (auto simp: r determine_status_def)
  qed
qed

section \<open>No function ever passes\<close>

definition daemon_answers :: "'w verify_env \<Rightarrow> bool" where
  "daemon_answers env \<longleftrightarrow> (\<forall>req t w resp. fst (ve_request env req t w) = Answered resp \<longrightarrow> (\<exists>r. resp = response_json r))"

lemma judge_response: "\<not> fst (judge n (response_json r))"
  by (simp add: judge_def response_json_def jget_str_def Let_def)

lemma execute_vf_fails: "daemon_answers env \<Longrightarrow> fst (execute_vf env sb vf w) \<noteq> Inr (True, out)"
  using judge_response [of _ r for r]
  by (auto simp: execute_vf_def Let_def daemon_answers_def split: sum.split prod.split socket_outcome.split)
    (metis fst_conv judge_response)+

lemma run_vf_fails:
  assumes "daemon_answers env"
  shows "vy_passed (fst (run_vf env sb vf (s, fs))) = vy_passed s"
  using execute_vf_fails [OF assms, of sb vf "vy_world s"]
  by (cases "execute_vf env sb vf (vy_world s)") (auto simp: run_vf_def split: sum.split prod.split bool.split)

lemma run_vfs_fail:
  "daemon_answers env \<Longrightarrow> vy_passed (fst (fold (run_vf env sb) vfs (s, fs))) = vy_passed s"
proof (induction vfs arbitrary: s fs)
  case (Cons vf vfs)
  obtain s1 fs1 where s1: "run_vf env sb vf (s, fs) = (s1, fs1)" by fastforce
  then have "vy_passed s1 = vy_passed s" using run_vf_fails [OF Cons.prems, of sb vf s fs] by simp
  with Cons s1 show ?case by simp
qed simp

lemma verify_rounds_fail:
  assumes "daemon_answers env"
  shows "vy_passed s = [] \<Longrightarrow> vy_passed (verify_rounds env sb vfs left s) = []"
proof (induction left arbitrary: s)
  case (Suc left)
  obtain s1 fs where r: "fold (run_vf env sb) vfs (s\<lparr> vy_rounds := vy_rounds s + 1, vy_passed := [], vy_failed := [] \<rparr>, [])
      = (s1, fs)" by fastforce
  have "vy_passed s1 = []"
    using run_vfs_fail [OF assms, of sb vfs "s\<lparr> vy_rounds := vy_rounds s + 1, vy_passed := [], vy_failed := [] \<rparr>" "[]"]
    unfolding r by simp
  with Suc.IH show ?case unfolding verify_rounds.simps r by (simp add: fix_failures_keep)
qed simp

text \<open>
  With a daemon that answers as \<open>SocketResponse\<close> is serialised no verification ever passes: the exit code is looked
  for beside the result instead of in it, so every function fails in every round, all rounds are used and the
  status is \<open>PartiallyVerified\<close>.
\<close>

theorem verification_never_passes:
  assumes "daemon_answers env" and "generate_plan env sb diff tasks w = (Inr vfs, w1)" and "vfs \<noteq> []"
    and "0 < ve_max_rounds env" and "verify_sandbox env sb diff tasks w = (Inr r, w')"
  shows "vr_passed r = [] \<and> mset (vr_failed r) = mset (map vf_id vfs) \<and> vr_rounds r = ve_max_rounds env
    \<and> vr_status r = PartiallyVerified"
proof -
  obtain s where s: "s = verify_rounds env sb vfs (ve_max_rounds env)
      \<lparr> vy_passed = [], vy_failed = [], vy_rounds = 0, vy_diff = diff, vy_world = w1 \<rparr>"
    and r: "r = \<lparr> vr_status = determine_status (vy_failed s) (vy_passed s) (vy_rounds s) (ve_max_rounds env),
      vr_passed = vy_passed s, vr_failed = vy_failed s, vr_rounds = vy_rounds s, vr_diff = Some (vy_diff s) \<rparr>"
    using verify_sandbox_run [OF assms(2,3,5)] by blast
  have p: "vy_passed s = []" unfolding s by (rule verify_rounds_fail [OF assms(1)]) simp
  note v = verify_rounds_result [OF assms(4), of env sb vfs
      "\<lparr> vy_passed = [], vy_failed = [], vy_rounds = 0, vy_diff = diff, vy_world = w1 \<rparr>", folded s]
  have "vy_failed s \<noteq> []" using v p assms(3) by auto
  then show ?thesis using v p by (simp add: r determine_status_def)
qed

section \<open>No container is left\<close>

text \<open>The containers that exist in a world: creating adds a new one, destroying removes it, and nothing else changes them.\<close>

definition tracks :: "'w verify_env \<Rightarrow> ('w \<Rightarrow> string set) \<Rightarrow> bool" where
  "tracks env live \<longleftrightarrow>
     (\<forall>sb i w. live (snd (ve_create env sb i w)) = (case fst (ve_create env sb i w) of
        Inl _ \<Rightarrow> live w | Inr a \<Rightarrow> insert (ah_agent_id a) (live w)))
     \<and> (\<forall>sb i w a. fst (ve_create env sb i w) = Inr a \<longrightarrow> ah_agent_id a \<notin> live w)
     \<and> (\<forall>a w. live (ve_destroy env a w) = live w - {a})
     \<and> (\<forall>p w. live (snd (ve_generate env p w)) = live w)
     \<and> (\<forall>req t w. live (snd (ve_request env req t w)) = live w)
     \<and> (\<forall>a t w. live (snd (ve_execute env a t w)) = live w)
     \<and> (\<forall>sb d w. live (snd (ve_apply env sb d w)) = live w)
     \<and> (\<forall>sb w. live (snd (ve_capture env sb w)) = live w)"

lemma tracksD:
  assumes "tracks env live"
  shows "ve_create env sb i w = (Inl e, w1) \<Longrightarrow> live w1 = live w"
    and "ve_create env sb i w = (Inr a, w1) \<Longrightarrow> live w1 = insert (ah_agent_id a) (live w) \<and> ah_agent_id a \<notin> live w"
    and "live (ve_destroy env b w) = live w - {b}"
    and "ve_generate env p w = (x, w1) \<Longrightarrow> live w1 = live w"
    and "ve_request env req n w = (y, w1) \<Longrightarrow> live w1 = live w"
    and "ve_execute env a t w = (z, w1) \<Longrightarrow> live w1 = live w"
    and "ve_apply env sb d w = (u, w1) \<Longrightarrow> live w1 = live w"
    and "ve_capture env sb w = (v, w1) \<Longrightarrow> live w1 = live w"
  using assms unfolding tracks_def by (metis fst_conv snd_conv sum.case)+

lemma execute_vf_live:
  assumes "tracks env live"
  shows "live (snd (execute_vf env sb vf w)) = live w"
proof (cases "ve_create env sb (vf_id vf) w")
  case (Pair x w1)
  show ?thesis
  proof (cases x)
    case (Inl e)
    then show ?thesis using Pair tracksD(1) [OF assms] by (simp add: execute_vf_def)
  next
    case (Inr a)
    obtain y w2 where q: "ve_request env (vf_request vf a) (unat (max (vf_timeout_secs vf) 10 + 5)) w1 = (y, w2)"
      by fastforce
    then show ?thesis
      using Pair Inr tracksD(2) [OF assms, of sb "vf_id vf" w a w1] tracksD(5) [OF assms q]
      by (simp add: execute_vf_def Let_def tracksD(3) [OF assms])
  qed
qed

lemma run_vfs_live:
  assumes "tracks env live"
  shows "live (vy_world (fst (fold (run_vf env sb) vfs (s, fs)))) = live (vy_world s)"
proof (induction vfs arbitrary: s fs)
  case (Cons vf vfs)
  obtain s1 fs1 where s1: "run_vf env sb vf (s, fs) = (s1, fs1)" by fastforce
  then have "vy_world s1 = snd (execute_vf env sb vf (vy_world s))"
    by (auto simp: run_vf_def split: sum.splits prod.splits bool.splits)
  then show ?case using Cons s1 execute_vf_live [OF assms] by simp
qed simp

lemma apply_fix_live:
  assumes "tracks env live"
  shows "live (vy_world (apply_fix env sb r s)) = live (vy_world s)"
  using tracksD(7,8) [OF assms]
  by (auto simp: apply_fix_def split: bool.split option.split sum.split prod.split)

lemma run_fix_live:
  assumes "tracks env live"
  shows "live (vy_world (run_fix env sb t s)) = live (vy_world s)"
proof (cases "ve_create env sb (at_id t) (vy_world s)")
  case (Pair x w1)
  show ?thesis
  proof (cases x)
    case (Inl e)
    then show ?thesis using Pair tracksD(1) [OF assms] by (simp add: run_fix_def)
  next
    case (Inr a)
    obtain y w2 where q: "ve_execute env a t w1 = (y, w2)" by fastforce
    show ?thesis
      using Pair Inr q tracksD(2) [OF assms, of sb "at_id t" "vy_world s" a w1] tracksD(6) [OF assms q]
      by (cases y) (simp_all add: run_fix_def Let_def tracksD(3) [OF assms] apply_fix_live [OF assms])
  qed
qed

lemma fix_failures_live:
  assumes "tracks env live"
  shows "live (vy_world (fold (fix_failure env sb) fs s)) = live (vy_world s)"
proof -
  have tasks: "live (vy_world (fold (run_fix env sb) ts s)) = live (vy_world s)" for ts s
    by (induction ts arbitrary: s) (simp_all add: run_fix_live [OF assms])
  have g: "live (snd (generate_fix_tasks env i cmd out w)) = live w" for i cmd out w
    using tracksD(4) [OF assms] by (auto simp: generate_fix_tasks_def split: sum.split prod.split)
  have "live (vy_world (fix_failure env sb f s)) = live (vy_world s)" for f s
    using g by (cases f) (simp add: fix_failure_def tasks split_beta)
  then show ?thesis by (induction fs arbitrary: s) simp_all
qed

lemma verify_rounds_live:
  assumes "tracks env live"
  shows "live (vy_world (verify_rounds env sb vfs left s)) = live (vy_world s)"
proof (induction left arbitrary: s)
  case (Suc left)
  obtain s1 fs where r: "fold (run_vf env sb) vfs (s\<lparr> vy_rounds := vy_rounds s + 1, vy_passed := [], vy_failed := [] \<rparr>, [])
      = (s1, fs)" by fastforce
  have "live (vy_world s1) = live (vy_world s)"
    using run_vfs_live [OF assms, of sb vfs "s\<lparr> vy_rounds := vy_rounds s + 1, vy_passed := [], vy_failed := [] \<rparr>" "[]"]
    unfolding r by simp
  with Suc.IH show ?case unfolding verify_rounds.simps r by (simp add: fix_failures_live [OF assms])
qed simp


section \<open>An instance\<close>

text \<open>The world counts the containers; the model plans one function, and the daemon answers that it succeeded.\<close>

definition demo_vf :: verification_function where
  "demo_vf = \<lparr> vf_id = ''vf-build'', vf_description = [], vf_command = ''true'', vf_expected_schema = None,
     vf_assertion = None, vf_deps = [], vf_timeout_secs = 60 \<rparr>"

definition demo_agent_of :: "nat \<Rightarrow> agent_handle" where
  "demo_agent_of n = \<lparr> ah_agent_id = replicate n (CHR ''a''), ah_sandbox_name = [], ah_container_id = [], ah_task_id = None,
     ah_layer = \<lparr> ol_level = LayerAgent, ol_mount_path = [], ol_upper_dir = [], ol_work_dir = [], ol_lower_dirs = [] \<rparr> \<rparr>"

definition demo_verify_env :: "(nat \<times> string list) verify_env" where
  "demo_verify_env = \<lparr> ve_max_rounds = 2, ve_generate = (\<lambda>_ w. (Inr [], w)), ve_valid = (\<lambda>_. True),
     ve_parse_plan = (\<lambda>_. Some [demo_vf]), ve_parse_fixes = (\<lambda>_. None),
     ve_create = (\<lambda>_ _ (n, ids). (let m = Suc (fold max (map length ids) 0) in
        (Inr (demo_agent_of m), (m, replicate m (CHR ''a'') # ids)))),
     ve_request = (\<lambda>_ _ w. (Answered (response_json (socket_ok (Some (JObj [(''exit_code'', JInt 0)])))), w)),
     ve_destroy = (\<lambda>a (n, ids). (n, removeAll a ids)),
     ve_execute = (\<lambda>_ _ w. (Inl [], w)), ve_apply = (\<lambda>_ _ w. (Inr (), w)), ve_capture = (\<lambda>_ w. (Inl [], w)),
     ve_plan_prompt = (\<lambda>_ _ _. []), ve_fix_prompt = (\<lambda>_ _ _. []), ve_duration = (\<lambda>_. 0) \<rparr>"

lemma demo_daemon_answers: "daemon_answers demo_verify_env"
  by (auto simp: daemon_answers_def demo_verify_env_def)

lemma demo_plan: "generate_plan demo_verify_env sb diff tasks w = (Inr [demo_vf], w)"
  by (simp add: generate_plan_def demo_verify_env_def)

lemma demo_rounds: "0 < ve_max_rounds demo_verify_env"
  by (simp add: demo_verify_env_def)

lemma demo_verifies: "\<exists>r w'. verify_sandbox demo_verify_env sb diff tasks w = (Inr r, w')"
  by (simp add: verify_sandbox_def demo_plan Let_def)

lemma fold_max_length: "x \<in> set ids \<Longrightarrow> length x \<le> fold max (map length ids) (0 :: nat)"
proof -
  assume "x \<in> set ids"
  then have "length x \<in> set (0 # map length ids)" by simp
  then have "length x \<le> Max (set (0 # map length ids))" by (intro Max_ge) simp_all
  then show ?thesis by (simp only: Max.set_eq_fold)
qed

lemma demo_tracks: "tracks demo_verify_env (set \<circ> snd)"
proof -
  have "replicate (Suc (fold max (map length ids) 0)) (CHR ''a'') \<notin> set ids" for ids :: "string list"
    using fold_max_length [of "replicate (Suc (fold max (map length ids) 0)) (CHR ''a'')" ids] by auto
  then show ?thesis
    by (auto simp: tracks_def demo_verify_env_def demo_agent_of_def Let_def split_beta)
qed

lemma extract_fenced_block_witness:
  "extract_json (\<lambda>c. c = ''{}'') (''Here: '' @ fence @ ''json'' @ newline # (''{}'' @ [newline]) @ fence @ ''.'') = ''{}''"
proof -
  have "trim (''{}'' @ [newline]) = ''{}''" by code_simp
  then show ?thesis
    using extract_fenced_block [of "''Here: ''" "''json''" "''{}'' @ [newline]" "\<lambda>c. c = ''{}''" "''.''"]
    by (simp add: newline_def)
qed

lemma verification_result_correct_witness:
  "\<exists>r :: verification_result. mset (vr_passed r @ vr_failed r) = {#''vf-build''#} \<and> vr_status r \<noteq> VFailed"
proof -
  obtain r w' where r: "verify_sandbox demo_verify_env [] [] [] (0, []) = (Inr r, w')" using demo_verifies by blast
  from verification_result_correct [OF demo_plan r] demo_rounds
  show ?thesis by (intro exI [of _ r]) (simp add: demo_vf_def)
qed

lemma verification_never_passes_witness:
  "\<exists>r w'. verify_sandbox demo_verify_env [] [] [] (0, []) = (Inr r, w') \<and> vr_status r = PartiallyVerified"
proof -
  obtain r w' where r: "verify_sandbox demo_verify_env [] [] [] (0, []) = (Inr r, w')" using demo_verifies by blast
  from verification_never_passes [OF demo_daemon_answers demo_plan _ demo_rounds r] r show ?thesis by simp
qed


end
