(* ===== verification/Socket_Client.thy ===== *)
theory Socket_Client
  imports Text_Tools "HOL-Library.Multiset"
begin

text \<open>
  How the orchestrator of the daemon talks to its socket server: \<open>socket_roundtrip\<close>
  (\<open>agentd/src/orchestration/mod.rs\<close>), and the client with a pool of threads
  (\<open>agentd/src/orchestration/socket_client.rs\<close>). Both write a request as one line, read one line, and try again
  after some of the errors. The operating system is a parameter; the model keeps for every
  connection the bytes that it accepted.
\<close>

section \<open>The operating system\<close>

datatype io_kind = KWouldBlock | KTimedOut | KConnectionReset | KBrokenPipe | KInterrupted | KWriteZero | KOther

record io_error =
  io_kind :: io_kind
  io_text :: string

record 'w socket_os =
  so_connect :: "string \<Rightarrow> 'w \<Rightarrow> (io_error + unit) \<times> 'w"
  so_read_timeout :: "nat \<Rightarrow> 'w \<Rightarrow> (io_error + unit) \<times> 'w"
  so_write_timeout :: "nat \<Rightarrow> 'w \<Rightarrow> (io_error + unit) \<times> 'w"
  so_write :: "string \<Rightarrow> 'w \<Rightarrow> (io_error + nat) \<times> 'w"
  so_flush :: "'w \<Rightarrow> (io_error + unit) \<times> 'w"
  so_read_line :: "'w \<Rightarrow> (io_error + string) \<times> 'w"
  so_shutdown :: "'w \<Rightarrow> 'w"

text \<open>The world, and what each connection accepted, the newest last.\<close>

record 'w link =
  lk_world :: 'w
  lk_sent :: "string list"

definition append_last :: "string \<Rightarrow> string list \<Rightarrow> string list" where
  "append_last x ds = butlast ds @ [last ds @ x]"

definition sock_connect :: "'w socket_os \<Rightarrow> string \<Rightarrow> 'w link \<Rightarrow> (io_error + unit) \<times> 'w link" where
  "sock_connect os path s =
     (case so_connect os path (lk_world s) of
        (Inl e, w) \<Rightarrow> (Inl e, s\<lparr> lk_world := w \<rparr>)
      | (Inr _, w) \<Rightarrow> (Inr (), s\<lparr> lk_world := w, lk_sent := lk_sent s @ [[]] \<rparr>))"

definition sock_write :: "'w socket_os \<Rightarrow> string \<Rightarrow> 'w link \<Rightarrow> (io_error + nat) \<times> 'w link" where
  "sock_write os buf s =
     (case so_write os buf (lk_world s) of
        (Inl e, w) \<Rightarrow> (Inl e, s\<lparr> lk_world := w \<rparr>)
      | (Inr n, w) \<Rightarrow> (Inr n, s\<lparr> lk_world := w, lk_sent := append_last (take n buf) (lk_sent s) \<rparr>))"

definition on_world :: "('w \<Rightarrow> 'r \<times> 'w) \<Rightarrow> 'w link \<Rightarrow> 'r \<times> 'w link" where
  "on_world f s = (case f (lk_world s) of (r, w) \<Rightarrow> (r, s\<lparr> lk_world := w \<rparr>))"

definition sock_timeouts :: "'w socket_os \<Rightarrow> nat \<Rightarrow> nat \<Rightarrow> 'w link \<Rightarrow> (string + unit) \<times> 'w link" where
  "sock_timeouts os r w s =
     (case on_world (so_read_timeout os r) s of
        (Inl e, s1) \<Rightarrow> (Inl ''set read timeout'', s1)
      | (Inr _, s1) \<Rightarrow>
          (case on_world (so_write_timeout os w) s1 of
             (Inl e, s2) \<Rightarrow> (Inl ''set write timeout'', s2)
           | (Inr _, s2) \<Rightarrow> (Inr (), s2)))"

section \<open>Trying again\<close>

text \<open>
  The loops \<open>for attempt in 0..=n\<close> of the two clients and of the agents: an error carries whether another
  attempt may follow it; after the last attempt its error is returned. \<open>None\<close> is an attempt that
  never ends.
\<close>

type_synonym ('s, 'a) attempt = "'s \<Rightarrow> (((string \<times> bool) + 'a) \<times> 's) option"

fun retry :: "('s, 'a) attempt \<Rightarrow> nat \<Rightarrow> 's \<Rightarrow> ((string + 'a) \<times> 's) option" where
  "retry att 0 s =
     (case att s of None \<Rightarrow> None
      | Some (Inr x, s1) \<Rightarrow> Some (Inr x, s1)
      | Some (Inl (e, _), s1) \<Rightarrow> Some (Inl e, s1))"
| "retry att (Suc n) s =
     (case att s of None \<Rightarrow> None
      | Some (Inr x, s1) \<Rightarrow> Some (Inr x, s1)
      | Some (Inl (e, again), s1) \<Rightarrow> if again then retry att n s1 else Some (Inl e, s1))"

section \<open>The pooled client\<close>

definition zero_write :: io_error where
  "zero_write = \<lparr> io_kind = KWriteZero, io_text = ''socket closed by server'' \<rparr>"

text \<open>\<open>write_all\<close>; a write that is interrupted is repeated without a bound.\<close>

partial_function (option) sock_write_all ::
  "'w socket_os \<Rightarrow> string \<Rightarrow> 'w link \<Rightarrow> ((io_error + unit) \<times> 'w link) option" where
  "sock_write_all os buf s =
     (if buf = [] then Some (Inr (), s)
      else case sock_write os buf s of
             (Inr n, s1) \<Rightarrow> if n = 0 then Some (Inl zero_write, s1) else sock_write_all os (drop n buf) s1
           | (Inl e, s1) \<Rightarrow> if io_kind e = KInterrupted then sock_write_all os buf s1 else Some (Inl e, s1))"

definition is_retryable_write :: "io_error \<Rightarrow> bool" where
  "is_retryable_write e \<longleftrightarrow> io_kind e \<in> {KConnectionReset, KBrokenPipe, KWouldBlock, KInterrupted}"

definition is_retryable_read :: "io_error \<Rightarrow> bool" where
  "is_retryable_read e \<longleftrightarrow> io_kind e \<in> {KWouldBlock, KTimedOut, KConnectionReset, KBrokenPipe, KInterrupted}"

definition READ_TIMEOUT_SECS :: nat where "READ_TIMEOUT_SECS = 600"
definition WRITE_TIMEOUT_SECS :: nat where "WRITE_TIMEOUT_SECS = 10"
definition MAX_RETRIES :: nat where "MAX_RETRIES = 3"

text \<open>One attempt of \<open>execute_request\<close>: connect, write, flush, read a line, parse it.\<close>

definition execute_attempt ::
  "'w socket_os \<Rightarrow> (string \<Rightarrow> json option) \<Rightarrow> string \<Rightarrow> string \<Rightarrow> ('w link, json) attempt" where
  "execute_attempt os parse path payload s =
     (case sock_connect os path s of
        (Inl e, s1) \<Rightarrow> Some (Inl (''connect: '' @ io_text e, True), s1)
      | (Inr _, s1) \<Rightarrow>
     (case sock_timeouts os READ_TIMEOUT_SECS WRITE_TIMEOUT_SECS s1 of
        (Inl m, s2) \<Rightarrow> Some (Inl (m, False), s2)
      | (Inr _, s2) \<Rightarrow>
     (case sock_write_all os payload s2 of
        None \<Rightarrow> None
      | Some (Inl e, s3) \<Rightarrow> Some (Inl (''write: '' @ io_text e, is_retryable_write e), s3)
      | Some (Inr _, s3) \<Rightarrow>
     (case on_world (so_flush os) s3 of
        (Inl e, s4) \<Rightarrow> Some (Inl (''flush: '' @ io_text e, False), s4)
      | (Inr _, s4) \<Rightarrow>
     (case on_world (so_read_line os) s4 of
        (Inl e, s5) \<Rightarrow> Some (Inl (''read: '' @ io_text e, is_retryable_read e), s5)
      | (Inr line, s5) \<Rightarrow>
          if line = [] then Some (Inl (''read: server closed connection'', True), s5)
          else
            let s6 = s5\<lparr> lk_world := so_shutdown os (lk_world s5) \<rparr> in
            if trim line = [] then Some (Inl (''empty response from server'', False), s6)
            else (case parse (trim line) of
                    None \<Rightarrow> Some (Inl (''parse server response JSON'', False), s6)
                  | Some v \<Rightarrow> Some (Inr v, s6)))))))"

definition execute_request ::
  "'w socket_os \<Rightarrow> (string \<Rightarrow> json option) \<Rightarrow> string \<Rightarrow> string \<Rightarrow> 'w link \<Rightarrow> ((string + json) \<times> 'w link) option" where
  "execute_request os parse path payload s = retry (execute_attempt os parse path payload) MAX_RETRIES s"

definition request_line :: "(json \<Rightarrow> string) \<Rightarrow> json \<Rightarrow> string" where
  "request_line show req = show req @ [newline]"

definition request_type :: "json \<Rightarrow> string" where
  "request_type req = unwrap_or ''unknown'' (jget_str req ''request_type'')"

section \<open>\<open>socket_roundtrip\<close>\<close>

text \<open>The loop that writes the line; its errors are texts.\<close>

partial_function (option) write_line ::
  "'w socket_os \<Rightarrow> string \<Rightarrow> nat \<Rightarrow> 'w link \<Rightarrow> ((string + unit) \<times> 'w link) option" where
  "write_line os bytes written s =
     (if length bytes \<le> written then
        (case on_world (so_flush os) s of
           (Inl e, s1) \<Rightarrow> Some (Inl (''flush socket: '' @ io_text e), s1)
         | (Inr _, s1) \<Rightarrow> Some (Inr (), s1))
      else case sock_write os (drop written bytes) s of
             (Inr n, s1) \<Rightarrow>
               if n = 0 then Some (Inl ''write socket: socket closed by server'', s1)
               else write_line os bytes (written + n) s1
           | (Inl e, s1) \<Rightarrow>
               if io_kind e = KInterrupted then write_line os bytes written s1
               else Some (Inl (''write socket: '' @ io_text e), s1))"

text \<open>Whether a write is tried again depends on the text of its error, as it is spelled here.\<close>

definition write_retryable :: "string \<Rightarrow> bool" where
  "write_retryable msg \<longleftrightarrow> contains_sub ''connection reset'' msg \<or> contains_sub ''socket closed'' msg
     \<or> contains_sub ''broken pipe'' msg"

definition roundtrip_attempt ::
  "'w socket_os \<Rightarrow> (string \<Rightarrow> json option) \<Rightarrow> string \<Rightarrow> string \<Rightarrow> string \<Rightarrow> ('w link, json) attempt" where
  "roundtrip_attempt os parse path kind line s =
     (case sock_connect os path s of
        (Inl e, s1) \<Rightarrow> Some (Inl (''UnixStream::connect'', False), s1)
      | (Inr _, s1) \<Rightarrow>
     (case sock_timeouts os 60 10 s1 of
        (Inl m, s2) \<Rightarrow> Some (Inl (m, False), s2)
      | (Inr _, s2) \<Rightarrow>
     (case write_line os line 0 s2 of
        None \<Rightarrow> None
      | Some (Inl m, s3) \<Rightarrow> Some (Inl (m, write_retryable m), s3)
      | Some (Inr _, s3) \<Rightarrow>
     (case on_world (so_read_line os) s3 of
        (Inl e, s4) \<Rightarrow> Some (Inl (''read socket: '' @ io_text e, is_retryable_read e), s4)
      | (Inr reply, s4) \<Rightarrow>
          if reply = [] then Some (Inl (''read socket: socket closed by server'', True), s4)
          else if trim reply = [] then Some (Inl (''empty socket response for request: '' @ kind, False), s4)
          else (case parse (trim reply) of
                  None \<Rightarrow> Some (Inl (''parse socket JSON (request: '' @ kind @ '')'', False), s4)
                | Some v \<Rightarrow> Some (Inr v, s4))))))"

definition socket_roundtrip ::
  "'w socket_os \<Rightarrow> (json \<Rightarrow> string) \<Rightarrow> (string \<Rightarrow> json option) \<Rightarrow> string \<Rightarrow> json \<Rightarrow> 'w link
     \<Rightarrow> ((string + json) \<times> 'w link) option" where
  "socket_roundtrip os show parse path req s =
     retry (roundtrip_attempt os parse path (request_type req) (request_line show req)) 3 s"

text \<open>\<open>parse_ok_field\<close>: a text or an unsigned number of a successful answer, as a text.\<close>

definition parse_ok_field :: "json \<Rightarrow> string \<Rightarrow> string + string" where
  "parse_ok_field resp key =
     (if jget_str resp ''status'' \<noteq> Some ''ok''
      then Inl (''socket: '' @ unwrap_or ''unknown socket error'' (jget_str resp ''error''))
      else case jget resp ''result'' of
             None \<Rightarrow> Inl ''socket response missing result''
           | Some result \<Rightarrow>
               (case jget_str result key of
                  Some t \<Rightarrow> Inr t
                | None \<Rightarrow>
                    (case Option.bind (jget result key) ju64 of
                       Some n \<Rightarrow> Inr (show_nat n)
                     | None \<Rightarrow> Inl (''result missing string/number field '' @ [CHR 0x27] @ key @ [CHR 0x27]))))"

section \<open>Interface: attempts\<close>

text \<open>
  What is known of one failed attempt (\<open>lost\<close>) and of one that succeeded (\<open>won\<close>) gives what is known of
  the loop.
\<close>

locale attempts =
  fixes att :: "('s, 'a) attempt"
    and lost :: "'s \<Rightarrow> 's \<Rightarrow> bool"
    and won :: "'s \<Rightarrow> 'a \<Rightarrow> 's \<Rightarrow> bool"
  assumes att_lost: "att s = Some (Inl e, s1) \<Longrightarrow> lost s s1"
    and att_won: "att s = Some (Inr x, s1) \<Longrightarrow> won s x s1"
begin

lemma retry_error: "retry att n s = Some (Inl e, s') \<Longrightarrow> \<exists>k\<le>n. (lost ^^ Suc k) s s'"
proof (induction n arbitrary: s)
  case 0
  then have "lost s s'" by (auto intro: att_lost split: option.splits sum.splits)
  then show ?case by auto
next
  case (Suc n)
  from Suc.prems consider (stop) again where "att s = Some (Inl (e, again), s')"
    | (go) e1 s1 where "att s = Some (Inl (e1, True), s1)" "retry att n s1 = Some (Inl e, s')"
    by (auto split: option.splits sum.splits if_splits)
  then show ?case
  proof cases
    case stop
    then have "(lost ^^ Suc 0) s s'" using att_lost by auto
    then show ?thesis by blast
  next
    case go
    then obtain k where "k \<le> n" "(lost ^^ Suc k) s1 s'" using Suc.IH by blast
    then have "(lost ^^ Suc (Suc k)) s s'" using att_lost [OF go(1)] by (meson relpowp_Suc_I2)
    with \<open>k \<le> n\<close> show ?thesis by (meson Suc_le_mono)
  qed
qed

lemma retry_success: "retry att n s = Some (Inr x, s') \<Longrightarrow> \<exists>k\<le>n. \<exists>s1. (lost ^^ k) s s1 \<and> won s1 x s'"
proof (induction n arbitrary: s)
  case 0
  then have "won s x s'" by (auto intro: att_won split: option.splits sum.splits)
  then show ?case by auto
next
  case (Suc n)
  from Suc.prems consider (win) "att s = Some (Inr x, s')"
    | (go) e1 s1 where "att s = Some (Inl (e1, True), s1)" "retry att n s1 = Some (Inr x, s')"
    by (auto split: option.splits sum.splits if_splits)
  then show ?case
  proof cases
    case win
    then have "(lost ^^ 0) s s \<and> won s x s'" using att_won by auto
    then show ?thesis by blast
  next
    case go
    then obtain k s2 where k: "k \<le> n" "(lost ^^ k) s1 s2" "won s2 x s'" using Suc.IH by blast
    then have "(lost ^^ Suc k) s s2" using att_lost [OF go(1)] by (meson relpowp_Suc_I2)
    with k show ?thesis by (meson Suc_le_mono)
  qed
qed

end

lemma retry_returns: "(\<And>s. att s \<noteq> None) \<Longrightarrow> retry att n s \<noteq> None"
  by (induction n arbitrary: s) (auto split: option.splits sum.splits)

section \<open>What a connection gets\<close>

lemma sent_on_world [simp]: "on_world f s = (r, s1) \<Longrightarrow> lk_sent s1 = lk_sent s"
  by (auto simp: on_world_def split: prod.splits)

lemma sent_timeouts: "sock_timeouts os r w s = (x, s1) \<Longrightarrow> lk_sent s1 = lk_sent s"
  by (auto simp: sock_timeouts_def split: prod.splits sum.splits)

lemma sent_connect:
  "sock_connect os path s = (Inl e, s1) \<Longrightarrow> lk_sent s1 = lk_sent s"
  "sock_connect os path s = (Inr u, s1) \<Longrightarrow> lk_sent s1 = lk_sent s @ [[]]"
  by (auto simp: sock_connect_def split: prod.splits sum.splits)

lemma sent_write:
  "sock_write os buf s = (Inl e, s1) \<Longrightarrow> lk_sent s1 = lk_sent s"
  "sock_write os buf s = (Inr n, s1) \<Longrightarrow> lk_sent s1 = append_last (take n buf) (lk_sent s)"
  by (auto simp: sock_write_def split: prod.splits sum.splits)

lemma append_last_snoc [simp]: "append_last x (ds @ [d]) = ds @ [d @ x]"
  by (simp add: append_last_def)

lemmas sock_write_all_induct = sock_write_all.raw_induct [rotated, consumes 1, case_names step]
lemmas write_line_induct = write_line.raw_induct [rotated, consumes 1, case_names step]

text \<open>A loop that writes sends a prefix of its buffer, and all of it when it succeeds.\<close>

lemma write_all_sends:
  assumes "sock_write_all os buf s = Some y" and "lk_sent s = ds @ [d]"
  shows "\<exists>u v. buf = u @ v \<and> lk_sent (snd y) = ds @ [d @ u] \<and> (fst y = Inr () \<longrightarrow> v = [])"
  using assms
proof (induction arbitrary: d rule: sock_write_all_induct)
  case (step f os buf s y)
  note IH = step.IH and body = step.hyps and sent = step.prems
  show ?case
  proof (cases "buf = []")
    case True
    then show ?thesis using body sent by auto
  next
    case False
    obtain r s1 where w: "sock_write os buf s = (r, s1)" by (cases "sock_write os buf s")
    show ?thesis
    proof (cases r)
      case (Inl e)
      have s1: "lk_sent s1 = ds @ [d]" using sent_write(1) [of os buf s e s1] w Inl sent by simp
      show ?thesis
      proof (cases "io_kind e = KInterrupted")
        case True
        then have "f os buf s1 = Some y" using body False w Inl by simp
        from IH [OF this s1] show ?thesis .
      next
        case other: False
        then have "y = (Inl e, s1)" using body False w Inl by simp
        then show ?thesis using s1 by auto
      qed
    next
      case (Inr n)
      have s1: "lk_sent s1 = ds @ [d @ take n buf]" using sent_write(2) [of os buf s n s1] w Inr sent by simp
      show ?thesis
      proof (cases "n = 0")
        case True
        then have "y = (Inl zero_write, s1)" using body False w Inr by simp
        then show ?thesis using s1 True by auto
      next
        case pos: False
        then have "f os (drop n buf) s1 = Some y" using body False w Inr by simp
        from IH [OF this s1] obtain u v where u: "drop n buf = u @ v"
          "lk_sent (snd y) = ds @ [(d @ take n buf) @ u]" "fst y = Inr () \<longrightarrow> v = []" by blast
        have "buf = (take n buf @ u) @ v" using u(1) by (metis append.assoc append_take_drop_id)
        then show ?thesis using u(2,3) by (metis append.assoc)
      qed
    qed
  qed
qed

text \<open>The loop of \<open>socket_roundtrip\<close> does the same as \<open>sock_write_all\<close> from the byte it has come to, and then flushes.\<close>

definition after_write :: "'w socket_os \<Rightarrow> (io_error + unit) \<times> 'w link \<Rightarrow> (string + unit) \<times> 'w link" where
  "after_write os y =
     (case y of
        (Inl e, s) \<Rightarrow> (Inl (''write socket: '' @ io_text e), s)
      | (Inr _, s) \<Rightarrow>
          (case on_world (so_flush os) s of
             (Inl e, s1) \<Rightarrow> (Inl (''flush socket: '' @ io_text e), s1)
           | (Inr _, s1) \<Rightarrow> (Inr (), s1)))"

lemma write_line_if_write_all:
  "sock_write_all os buf s = Some y \<Longrightarrow> buf = drop n bytes \<Longrightarrow> write_line os bytes n s = Some (after_write os y)"
proof (induction arbitrary: n rule: sock_write_all_induct)
  case (step f os buf s y)
  note IH = step.IH and body = step.hyps and buf = step.prems
  show ?case
  proof (cases "buf = []")
    case True
    then show ?thesis using body buf
      by (subst write_line.simps) (auto simp: after_write_def split: prod.splits sum.splits)
  next
    case False
    then have n: "\<not> length bytes \<le> n" using buf by auto
    obtain r s1 where w: "sock_write os (drop n bytes) s = (r, s1)" by (cases "sock_write os (drop n bytes) s")
    show ?thesis
    proof (cases r)
      case (Inl e)
      then show ?thesis
        using body False w buf n IH [of os buf s1 y n]
        by (subst write_line.simps) (auto simp: after_write_def split: if_splits)
    next
      case (Inr m)
      have "drop m buf = drop (n + m) bytes" using buf by (simp add: add.commute)
      then show ?thesis
        using body False w buf n Inr IH [of os "drop m buf" s1 y "n + m"]
        by (subst write_line.simps) (auto simp: after_write_def zero_write_def split: if_splits)
    qed
  qed
qed

lemma write_all_if_write_line:
  "write_line os bytes n s = Some z \<Longrightarrow> \<exists>y. sock_write_all os (drop n bytes) s = Some y"
proof (induction rule: write_line_induct)
  case (step f os bytes n s z)
  note IH = step.IH and body = step.hyps
  show ?case
  proof (cases "length bytes \<le> n")
    case True
    then show ?thesis by (subst sock_write_all.simps) simp
  next
    case False
    then have n: "drop n bytes \<noteq> []" by simp
    obtain r s1 where w: "sock_write os (drop n bytes) s = (r, s1)" by (cases "sock_write os (drop n bytes) s")
    show ?thesis
    proof (cases r)
      case (Inl e)
      then show ?thesis
        using body False w n IH [of os bytes n s1 z] by (subst sock_write_all.simps) (auto split: if_splits)
    next
      case (Inr m)
      then show ?thesis
        using body False w n IH [of os bytes "n + m" s1 z]
        by (subst sock_write_all.simps) (auto simp: add.commute split: if_splits)
    qed
  qed
qed

lemma write_line_eq: "write_line os bytes n s = map_option (after_write os) (sock_write_all os (drop n bytes) s)"
  using write_line_if_write_all [of os "drop n bytes" s _ n bytes] write_all_if_write_line [of os bytes n s]
  by (cases "sock_write_all os (drop n bytes) s"; cases "write_line os bytes n s") auto

lemma sent_after_write: "lk_sent (snd (after_write os y)) = lk_sent (snd y)"
  by (cases y) (auto simp: after_write_def split: sum.splits prod.splits)

text \<open>A write that is not interrupted for ever comes to an end.\<close>

definition stops_interrupting :: "'w socket_os \<Rightarrow> ('w \<Rightarrow> nat) \<Rightarrow> bool" where
  "stops_interrupting os m \<longleftrightarrow>
     (\<forall>buf w e w1. so_write os buf w = (Inl e, w1) \<longrightarrow> io_kind e = KInterrupted \<longrightarrow> m w1 < m w)"

lemma write_all_returns:
  assumes "stops_interrupting os m"
  shows "sock_write_all os buf s \<noteq> None"
proof (induction "(length buf, m (lk_world s))" arbitrary: buf s
    rule: wf_induct_rule [OF wf_lex_prod [OF wf_measure [of id] wf_measure [of id]]])
  case 1
  note IH = "1.hyps"
  obtain r s1 where w: "sock_write os buf s = (r, s1)" by (cases "sock_write os buf s")
  show ?case
  proof (cases r)
    case (Inl e)
    then have "m (lk_world s1) < m (lk_world s)" if "io_kind e = KInterrupted"
      using that w assms by (auto simp: sock_write_def stops_interrupting_def split: prod.splits sum.splits)
    then show ?thesis
      using w Inl IH [of buf s1] by (subst sock_write_all.simps) (auto simp del: not_None_eq)
  next
    case (Inr k)
    then show ?thesis
      using w IH [of "drop k buf" s1] by (subst sock_write_all.simps) (auto simp del: not_None_eq)
  qed
qed

section \<open>Both clients\<close>

text \<open>A failed attempt sends a prefix of the request, or nothing; one that succeeds sends all of it.\<close>

definition tried :: "string \<Rightarrow> 'w link \<Rightarrow> 'w link \<Rightarrow> bool" where
  "tried line s s1 \<longleftrightarrow> lk_sent s1 = lk_sent s \<or> (\<exists>d. prefix d line \<and> lk_sent s1 = lk_sent s @ [d])"

definition delivered :: "string \<Rightarrow> 'w link \<Rightarrow> json \<Rightarrow> 'w link \<Rightarrow> bool" where
  "delivered line s v s1 \<longleftrightarrow> lk_sent s1 = lk_sent s @ [line]"

lemma write_all_tried:
  assumes "sock_write_all os buf s1 = Some (r, s2)" and "lk_sent s1 = lk_sent s @ [[]]"
  shows "\<exists>d. prefix d buf \<and> lk_sent s2 = lk_sent s @ [d] \<and> (r = Inr () \<longrightarrow> d = buf)"
  using write_all_sends [OF assms] by auto

lemma write_line_tried:
  assumes "write_line os line 0 s1 = Some (r, s2)" and "lk_sent s1 = lk_sent s @ [[]]"
  shows "\<exists>d. prefix d line \<and> lk_sent s2 = lk_sent s @ [d] \<and> (r = Inr () \<longrightarrow> d = line)"
proof -
  from assms(1) obtain x s3 where y: "sock_write_all os line s1 = Some (x, s3)" "after_write os (x, s3) = (r, s2)"
    by (auto simp: write_line_eq)
  have "lk_sent s2 = lk_sent s3" using sent_after_write [of os "(x, s3)"] y(2) by simp
  moreover have "r = Inr () \<Longrightarrow> x = Inr ()"
    using y(2) by (auto simp: after_write_def split: sum.splits)
  ultimately show ?thesis using write_all_tried [OF y(1) assms(2)] by metis
qed

lemma execute_attempt_sends:
  assumes "execute_attempt os parse path payload s = Some (r, s')"
  shows "case r of Inl e \<Rightarrow> tried payload s s' | Inr v \<Rightarrow> delivered payload s v s'"
proof -
  obtain c s1 where c: "sock_connect os path s = (c, s1)" by (cases "sock_connect os path s")
  obtain t s2 where t: "sock_timeouts os READ_TIMEOUT_SECS WRITE_TIMEOUT_SECS s1 = (t, s2)"
    by (cases "sock_timeouts os READ_TIMEOUT_SECS WRITE_TIMEOUT_SECS s1")
  note sent = sent_connect [of os path s] sent_timeouts [OF t]
  show ?thesis
  proof (cases c)
    case (Inl e)
    then show ?thesis using assms c sent by (auto simp: execute_attempt_def tried_def)
  next
    case (Inr u)
    then have s1: "lk_sent s1 = lk_sent s @ [[]]" "lk_sent s2 = lk_sent s @ [[]]" using c sent by auto
    show ?thesis
    proof (cases t)
      case Inl': (Inl e)
      then show ?thesis using assms c t Inr s1 by (auto simp: execute_attempt_def tried_def)
    next
      case t': (Inr u')
      then obtain x s3 where w: "sock_write_all os payload s2 = Some (x, s3)"
        using assms c t Inr by (auto simp: execute_attempt_def split: option.splits)
      then obtain d where d: "prefix d payload" "lk_sent s3 = lk_sent s @ [d]" "x = Inr () \<longrightarrow> d = payload"
        using write_all_tried s1(2) by blast
      show ?thesis
        using assms c t Inr t' w d
        by (auto simp: execute_attempt_def tried_def delivered_def Let_def split: sum.splits prod.splits if_splits option.splits)
    qed
  qed
qed

lemma roundtrip_attempt_sends:
  assumes "roundtrip_attempt os parse path kind line s = Some (r, s')"
  shows "case r of Inl e \<Rightarrow> tried line s s' | Inr v \<Rightarrow> delivered line s v s'"
proof -
  obtain c s1 where c: "sock_connect os path s = (c, s1)" by (cases "sock_connect os path s")
  obtain t s2 where t: "sock_timeouts os 60 10 s1 = (t, s2)" by (cases "sock_timeouts os 60 10 s1")
  note sent = sent_connect [of os path s] sent_timeouts [OF t]
  show ?thesis
  proof (cases c)
    case (Inl e)
    then show ?thesis using assms c sent by (auto simp: roundtrip_attempt_def tried_def)
  next
    case (Inr u)
    then have s1: "lk_sent s1 = lk_sent s @ [[]]" "lk_sent s2 = lk_sent s @ [[]]" using c sent by auto
    show ?thesis
    proof (cases t)
      case Inl': (Inl e)
      then show ?thesis using assms c t Inr s1 by (auto simp: roundtrip_attempt_def tried_def)
    next
      case t': (Inr u')
      then obtain x s3 where w: "write_line os line 0 s2 = Some (x, s3)"
        using assms c t Inr by (auto simp: roundtrip_attempt_def split: option.splits)
      then obtain d where d: "prefix d line" "lk_sent s3 = lk_sent s @ [d]" "x = Inr () \<longrightarrow> d = line"
        using write_line_tried s1(2) by blast
      show ?thesis
        using assms c t Inr t' w d
        by (auto simp: roundtrip_attempt_def tried_def delivered_def split: sum.splits prod.splits if_splits option.splits)
    qed
  qed
qed

interpretation pooled: attempts "execute_attempt os parse path payload" "tried payload" "delivered payload"
  for os parse path payload
  by unfold_locales (use execute_attempt_sends in \<open>fastforce dest: execute_attempt_sends\<close>)+

interpretation direct: attempts "roundtrip_attempt os parse path kind line" "tried line" "delivered line"
  for os parse path kind line
  by unfold_locales (use roundtrip_attempt_sends in \<open>fastforce dest: roundtrip_attempt_sends\<close>)+

lemma tries_send: "(tried line ^^ k) s s' \<Longrightarrow>
  \<exists>ds. lk_sent s' = lk_sent s @ ds \<and> length ds \<le> k \<and> list_all (\<lambda>d. prefix d line) ds"
proof (induction k arbitrary: s')
  case 0
  then show ?case by auto
next
  case (Suc k)
  then obtain s1 where s1: "(tried line ^^ k) s s1" "tried line s1 s'" by auto
  then obtain ds where ds: "lk_sent s1 = lk_sent s @ ds" "length ds \<le> k" "list_all (\<lambda>d. prefix d line) ds"
    using Suc.IH by blast
  from s1(2) show ?case
    unfolding tried_def
  proof
    assume "lk_sent s' = lk_sent s1"
    then show ?thesis using ds by (auto intro!: exI [of _ ds])
  next
    assume "\<exists>d. prefix d line \<and> lk_sent s' = lk_sent s1 @ [d]"
    then obtain d where "prefix d line" "lk_sent s' = lk_sent s1 @ [d]" by blast
    then show ?thesis using ds by (auto intro!: exI [of _ "ds @ [d]"])
  qed
qed

text \<open>What a client has sent when it returns \<open>r\<close>: the form of the two theorems.\<close>

definition sent_by_client :: "string \<Rightarrow> string + json \<Rightarrow> string list \<Rightarrow> string list \<Rightarrow> bool" where
  "sent_by_client line r before after \<longleftrightarrow>
     (\<exists>ds. after = before @ ds \<and> length ds \<le> 4 \<and> list_all (\<lambda>d. prefix d line) ds
        \<and> (case r of Inl e \<Rightarrow> True | Inr v \<Rightarrow> ds \<noteq> [] \<and> last ds = line))"

lemma sent_by_client_error: "(tried line ^^ Suc k) s s' \<Longrightarrow> k \<le> 3 \<Longrightarrow> sent_by_client line (Inl e) (lk_sent s) (lk_sent s')"
  using tries_send [where line = line and k = "Suc k" and s = s and s' = s'] by (auto simp: sent_by_client_def)

lemma sent_by_client_success:
  assumes "(tried line ^^ k) s s1" and "k \<le> 3" and "delivered line s1 v s'"
  shows "sent_by_client line (Inr v) (lk_sent s) (lk_sent s')"
proof -
  obtain ds where "lk_sent s1 = lk_sent s @ ds" "length ds \<le> k" "list_all (\<lambda>d. prefix d line) ds"
    using tries_send [OF assms(1)] by blast
  then show ?thesis using assms(2,3)
    by (auto simp: sent_by_client_def delivered_def intro!: exI [of _ "ds @ [line]"])
qed

lemma write_all_not_None: "stops_interrupting os m \<Longrightarrow> (sock_write_all os buf s = None) = False"
  using write_all_returns by blast

lemma execute_attempt_returns: "stops_interrupting os m \<Longrightarrow> execute_attempt os parse path payload s \<noteq> None"
  by (auto simp: execute_attempt_def Let_def write_all_not_None split: sum.splits prod.splits option.splits)

lemma roundtrip_attempt_returns: "stops_interrupting os m \<Longrightarrow> roundtrip_attempt os parse path kind line s \<noteq> None"
  by (auto simp: roundtrip_attempt_def write_line_eq write_all_not_None split: sum.splits prod.splits option.splits)

text \<open>
  A server that accepts a request and answers later than the read timeout, as it does for a command
  that runs longer.
\<close>

definition slow_server :: "'w socket_os \<Rightarrow> string \<Rightarrow> bool" where
  "slow_server os path \<longleftrightarrow>
     (\<forall>w. fst (so_connect os path w) = Inr () \<and> (\<forall>n. fst (so_read_timeout os n w) = Inr ())
        \<and> (\<forall>n. fst (so_write_timeout os n w) = Inr ()) \<and> (\<forall>buf. fst (so_write os buf w) = Inr (length buf))
        \<and> fst (so_flush os w) = Inr ()
        \<and> (\<exists>e. fst (so_read_line os w) = Inl e \<and> io_kind e \<in> {KWouldBlock, KTimedOut}))"

lemma slow_write_all:
  assumes "slow_server os path" and "buf \<noteq> []" and "lk_sent s = ds @ [d]"
  shows "\<exists>s'. sock_write_all os buf s = Some (Inr (), s') \<and> lk_sent s' = ds @ [d @ buf]"
proof -
  have "fst (so_write os buf (lk_world s)) = Inr (length buf)" using assms(1) by (simp add: slow_server_def)
  then obtain w where "so_write os buf (lk_world s) = (Inr (length buf), w)" by (metis prod.collapse)
  then show ?thesis using assms(2,3)
    by (subst sock_write_all.simps) (simp add: sock_write_def, subst sock_write_all.simps, simp)
qed

lemma slow_attempts:
  assumes slow: "slow_server os path" and line: "line \<noteq> []"
  shows "\<exists>e s'. roundtrip_attempt os parse path kind line s = Some (Inl (e, True), s') \<and> lk_sent s' = lk_sent s @ [line]"
    and "\<exists>e s'. execute_attempt os parse path line s = Some (Inl (e, True), s') \<and> lk_sent s' = lk_sent s @ [line]"
proof -
  have os: "fst (so_connect os path w) = Inr ()" "fst (so_read_timeout os n w) = Inr ()"
      "fst (so_write_timeout os n w) = Inr ()" "fst (so_flush os w) = Inr ()" for n w
    using slow by (simp_all add: slow_server_def)
  have rd: "\<exists>e. fst (so_read_line os w) = Inl e \<and> is_retryable_read e" for w
    using slow by (auto simp: slow_server_def is_retryable_read_def)
  obtain s1 where c: "sock_connect os path s = (Inr (), s1)" "lk_sent s1 = lk_sent s @ [[]]"
    using os(1) [of "lk_world s"] by (cases "so_connect os path (lk_world s)") (auto simp: sock_connect_def)
  have t: "\<exists>s2. sock_timeouts os r k s1 = (Inr (), s2) \<and> lk_sent s2 = lk_sent s @ [[]]" for r k
    using os(2) [of r "lk_world s1"] os(3) c(2)
    by (auto simp: sock_timeouts_def on_world_def split: prod.splits sum.splits) (metis Inl_Inr_False fst_conv)+
  have flush: "\<exists>s4. on_world (so_flush os) s3 = (Inr (), s4) \<and> lk_sent s4 = lk_sent s3" for s3
    using os(4) [of "lk_world s3"] by (cases "so_flush os (lk_world s3)") (auto simp: on_world_def)
  have read: "\<exists>e s5. on_world (so_read_line os) s4 = (Inl e, s5) \<and> is_retryable_read e \<and> lk_sent s5 = lk_sent s4" for s4
    using rd [of "lk_world s4"] by (cases "so_read_line os (lk_world s4)") (auto simp: on_world_def)
  obtain s2 where s2: "sock_timeouts os 60 10 s1 = (Inr (), s2)" "lk_sent s2 = lk_sent s @ [[]]" using t by blast
  obtain s3 where s3: "sock_write_all os line s2 = Some (Inr (), s3)" "lk_sent s3 = lk_sent s @ [line]"
    using slow_write_all [OF slow line s2(2)] by auto
  obtain s4 where s4: "on_world (so_flush os) s3 = (Inr (), s4)" "lk_sent s4 = lk_sent s3" using flush by blast
  obtain e s5 where s5: "on_world (so_read_line os) s4 = (Inl e, s5)" "is_retryable_read e" "lk_sent s5 = lk_sent s4"
    using read by blast
  show "\<exists>e s'. roundtrip_attempt os parse path kind line s = Some (Inl (e, True), s') \<and> lk_sent s' = lk_sent s @ [line]"
    using c s2 s3 s4 s5 by (simp add: roundtrip_attempt_def write_line_eq after_write_def)
  obtain s2' where s2': "sock_timeouts os READ_TIMEOUT_SECS WRITE_TIMEOUT_SECS s1 = (Inr (), s2')"
    "lk_sent s2' = lk_sent s @ [[]]" using t by blast
  obtain s3' where s3': "sock_write_all os line s2' = Some (Inr (), s3')" "lk_sent s3' = lk_sent s @ [line]"
    using slow_write_all [OF slow line s2'(2)] by auto
  obtain s4' where s4': "on_world (so_flush os) s3' = (Inr (), s4')" "lk_sent s4' = lk_sent s3'" using flush by blast
  obtain e' s5' where s5': "on_world (so_read_line os) s4' = (Inl e', s5')" "is_retryable_read e'" "lk_sent s5' = lk_sent s4'"
    using read by blast
  show "\<exists>e s'. execute_attempt os parse path line s = Some (Inl (e, True), s') \<and> lk_sent s' = lk_sent s @ [line]"
    using c s2' s3' s4' s5' by (simp add: execute_attempt_def)
qed

lemma retry_lost_always:
  assumes "\<And>s. \<exists>e s'. att s = Some (Inl (e, True), s') \<and> lk_sent s' = lk_sent s @ ds"
  shows "\<exists>e s'. retry att n s = Some (Inl e, s') \<and> lk_sent s' = lk_sent s @ concat (replicate (Suc n) ds)"
proof (induction n arbitrary: s)
  case 0
  then show ?case using assms [of s] by auto
next
  case (Suc n)
  obtain e s1 where "att s = Some (Inl (e, True), s1)" "lk_sent s1 = lk_sent s @ ds" using assms by blast
  then show ?case using Suc.IH [of s1] by auto
qed

lemma slow_roundtrip:
  assumes "slow_server os path"
  shows "\<exists>e s'. socket_roundtrip os show parse path req s = Some (Inl e, s')
      \<and> lk_sent s' = lk_sent s @ replicate 4 (request_line show req)"
proof -
  have "\<exists>e s'. roundtrip_attempt os parse path (request_type req) (request_line show req) s = Some (Inl (e, True), s')
      \<and> lk_sent s' = lk_sent s @ [request_line show req]" for s
    by (rule slow_attempts(1) [OF assms]) (simp add: request_line_def)
  from retry_lost_always [where n = 3, OF this] show ?thesis
    by (simp add: socket_roundtrip_def numeral_eq_Suc)
qed

section \<open>Properties of the clients\<close>


text \<open>
  Both clients return: if the operating system does not interrupt writes for ever, a request ends
  with an answer or an error, whatever the server does.
\<close>

theorem clients_return:
  assumes "stops_interrupting os m"
  shows "(\<exists>r s'. socket_roundtrip os show parse path req s = Some (r, s'))
    \<and> (\<exists>r s'. execute_request os parse path payload s = Some (r, s'))"
  using retry_returns [OF roundtrip_attempt_returns [OF assms], where s = s and n = 3]
    retry_returns [OF execute_attempt_returns [OF assms], where s = s and n = MAX_RETRIES]
  by (auto simp: socket_roundtrip_def execute_request_def simp del: retry.simps)

text \<open>
  A server that answers after the read timeout gets the whole request four times: the client
  takes the timeout for a lost request and sends the line again on every attempt.
\<close>

theorem slow_request_sent_4_times:
  assumes "slow_server os path"
  shows "\<exists>e s'. socket_roundtrip os show parse path req s = Some (Inl e, s')
      \<and> lk_sent s' = lk_sent s @ replicate 4 (request_line show req)"
  by (rule slow_roundtrip [OF assms])

text \<open>An operating system on which every connection gets the request and every read times out.\<close>

definition demo_slow_os :: "unit socket_os" where
  "demo_slow_os = \<lparr> so_connect = \<lambda>_ w. (Inr (), w), so_read_timeout = \<lambda>_ w. (Inr (), w),
     so_write_timeout = \<lambda>_ w. (Inr (), w), so_write = \<lambda>buf w. (Inr (length buf), w), so_flush = \<lambda>w. (Inr (), w),
     so_read_line = \<lambda>w. (Inl \<lparr> io_kind = KTimedOut, io_text = ''timed out'' \<rparr>, w), so_shutdown = \<lambda>w. w \<rparr>"

lemma demo_slow: "slow_server demo_slow_os path" "stops_interrupting demo_slow_os (\<lambda>_. 0)"
  by (simp_all add: slow_server_def stops_interrupting_def demo_slow_os_def)

theorem slow_request_sent_4_times_witness:
  "\<exists>e s'. socket_roundtrip demo_slow_os (\<lambda>_. ''{}'') (\<lambda>_. None) ''/tmp/agentd.sock'' (JObj [])
       \<lparr> lk_world = (), lk_sent = [] \<rparr> = Some (Inl e, s')
     \<and> lk_sent s' = replicate 4 (''{}'' @ [newline])"
  using slow_request_sent_4_times [OF demo_slow(1), of "\<lambda>_. ''{}''" "\<lambda>_. None" "''/tmp/agentd.sock''" "JObj []"
      "\<lparr> lk_world = (), lk_sent = [] \<rparr>"]
  by (simp add: request_line_def)

theorem clients_return_witness:
  "\<exists>r s'. socket_roundtrip demo_slow_os (\<lambda>_. ''{}'') (\<lambda>_. None) ''/tmp/agentd.sock'' (JObj [])
       \<lparr> lk_world = (), lk_sent = [] \<rparr> = Some (r, s')"
  using clients_return [OF demo_slow(2)] by blast

lemma demo_slow_ends:
  "\<exists>e s'. execute_request demo_slow_os (\<lambda>_. None) ''/tmp/agentd.sock'' ''{}'' \<lparr> lk_world = (), lk_sent = [] \<rparr>
     = Some (Inl e, s') \<and> lk_sent s' = replicate 4 ''{}''"
  unfolding execute_request_def MAX_RETRIES_def
  using retry_lost_always [where n = 3 and s = "\<lparr> lk_world = (), lk_sent = [] \<rparr>",
      OF slow_attempts(2) [OF demo_slow(1), of "''{}''" "\<lambda>_. None" "''/tmp/agentd.sock''"]]
  by (simp add: numeral_eq_Suc)


definition reset_error :: io_error where
  "reset_error = \<lparr> io_kind = KConnectionReset, io_text = ''Connection reset by peer (os error 104)'' \<rparr>"

definition demo_reset_os :: "unit socket_os" where
  "demo_reset_os = demo_slow_os\<lparr> so_write := \<lambda>_ w. (Inl reset_error, w) \<rparr>"

lemma reset_not_retryable: "\<not> write_retryable (''write socket: '' @ io_text reset_error)"
  by (simp add: write_retryable_def reset_error_def contains_sub_def)

lemma demo_reset_write: "buf \<noteq> [] \<Longrightarrow> sock_write_all demo_reset_os buf s = Some (Inl reset_error, s)"
  by (subst sock_write_all.simps) (simp add: sock_write_def demo_reset_os_def reset_error_def)

lemma demo_reset_connects:
  "sock_connect demo_reset_os path s = (Inr (), s\<lparr> lk_sent := lk_sent s @ [[]] \<rparr>)"
  "sock_timeouts demo_reset_os r k s = (Inr (), s)"
  by (cases s; simp add: sock_connect_def sock_timeouts_def on_world_def demo_reset_os_def demo_slow_os_def)+

lemma demo_reset_attempts:
  "line \<noteq> [] \<Longrightarrow> roundtrip_attempt demo_reset_os parse path kind line s
     = Some (Inl (''write socket: '' @ io_text reset_error, False), s\<lparr> lk_sent := lk_sent s @ [[]] \<rparr>)"
  "line \<noteq> [] \<Longrightarrow> execute_attempt demo_reset_os parse path line s
     = Some (Inl (''write: '' @ io_text reset_error, True), s\<lparr> lk_sent := lk_sent s @ [[]] \<rparr>)"
  using reset_not_retryable
  by (simp_all add: roundtrip_attempt_def execute_attempt_def write_line_eq demo_reset_write after_write_def
      demo_reset_connects is_retryable_write_def) (simp_all add: reset_error_def)

text \<open>
  A connection that is reset while a request is written: \<open>socket_roundtrip\<close> gives up at once,
  as the operating system spells \<open>Connection reset\<close> with a capital and the code looks for small letters; the pooled
  client, which looks at the kind of the error, connects four times.
\<close>

theorem reset_retried_only_by_pool:
  "map_option (lk_sent \<circ> snd) (socket_roundtrip demo_reset_os show parse path req \<lparr> lk_world = (), lk_sent = [] \<rparr>)
      = Some [[]]
   \<and> map_option (lk_sent \<circ> snd) (execute_request demo_reset_os parse path (request_line show req)
      \<lparr> lk_world = (), lk_sent = [] \<rparr>) = Some (replicate 4 [])"
proof -
  have "request_line show req \<noteq> []" by (simp add: request_line_def)
  then show ?thesis
    by (simp add: socket_roundtrip_def execute_request_def MAX_RETRIES_def numeral_eq_Suc demo_reset_attempts)
qed

end
