(* ===== verification/Socket_Pool.thy ===== *)
theory Socket_Pool
  imports Socket_Client
begin

text \<open>
  The pool of \<open>agentd/src/orchestration/socket_client.rs\<close>: callers put requests into a bounded queue and
  block; threads take them under a lock, execute them and reply. A step is an operation that
  may block; callers, threads and their order are not determined. \<open>run c r\<close> says that \<open>r\<close> is a result of
  \<open>execute_request\<close> for the request of the caller \<open>c\<close>.
\<close>

section \<open>State\<close>

datatype 'r caller = Sending | Awaiting | Served 'r

datatype pool_thread = Waiting | Locking | Serving nat

record 'r socket_pool =
  sp_callers :: "'r caller list"
  sp_queue :: "nat list"
  sp_threads :: "pool_thread list"
  sp_replies :: "(nat \<times> 'r) list"

definition SLOW_WORKERS :: nat where "SLOW_WORKERS = 128"
definition POOL_WORKERS :: nat where "POOL_WORKERS = SLOW_WORKERS * 3 div 4"
definition QUEUE_DEPTH :: nat where "QUEUE_DEPTH = 512"

definition new_socket_pool :: "'r socket_pool" where
  "new_socket_pool = \<lparr> sp_callers = [], sp_queue = [], sp_threads = replicate POOL_WORKERS Waiting, sp_replies = [] \<rparr>"

section \<open>Steps\<close>

datatype spool_act = Arrives | Sends nat | Locks nat | Takes nat nat | Replies nat nat | Receives nat

text \<open>
  A caller arrives; it sends when the queue has room; a thread takes the lock of the receiver, and keeps it
  until there is a request; it executes the request and replies, which never blocks as every reply channel holds
  one value; the caller receives the reply.
\<close>

inductive spool_step :: "(nat \<Rightarrow> 'r \<Rightarrow> bool) \<Rightarrow> 'r socket_pool \<Rightarrow> spool_act \<Rightarrow> 'r socket_pool \<Rightarrow> bool"
  for run :: "nat \<Rightarrow> 'r \<Rightarrow> bool" where
  arrives: "p' = p\<lparr> sp_callers := sp_callers p @ [Sending] \<rparr> \<Longrightarrow> spool_step run p Arrives p'"
| sends: "c < length (sp_callers p) \<Longrightarrow> sp_callers p ! c = Sending \<Longrightarrow> length (sp_queue p) < QUEUE_DEPTH \<Longrightarrow>
    p' = p\<lparr> sp_callers := (sp_callers p)[c := Awaiting], sp_queue := sp_queue p @ [c] \<rparr>
    \<Longrightarrow> spool_step run p (Sends c) p'"
| locks: "t < length (sp_threads p) \<Longrightarrow> sp_threads p ! t = Waiting \<Longrightarrow> Locking \<notin> set (sp_threads p) \<Longrightarrow>
    p' = p\<lparr> sp_threads := (sp_threads p)[t := Locking] \<rparr> \<Longrightarrow> spool_step run p (Locks t) p'"
| takes: "t < length (sp_threads p) \<Longrightarrow> sp_threads p ! t = Locking \<Longrightarrow> sp_queue p = c # q \<Longrightarrow>
    p' = p\<lparr> sp_threads := (sp_threads p)[t := Serving c], sp_queue := q \<rparr> \<Longrightarrow> spool_step run p (Takes t c) p'"
| replies: "t < length (sp_threads p) \<Longrightarrow> sp_threads p ! t = Serving c \<Longrightarrow> run c r \<Longrightarrow>
    p' = p\<lparr> sp_threads := (sp_threads p)[t := Waiting], sp_replies := sp_replies p @ [(c, r)] \<rparr>
    \<Longrightarrow> spool_step run p (Replies t c) p'"
| receives: "c < length (sp_callers p) \<Longrightarrow> sp_callers p ! c = Awaiting \<Longrightarrow> (c, r) \<in> set (sp_replies p) \<Longrightarrow>
    p' = p\<lparr> sp_callers := (sp_callers p)[c := Served r],
            sp_replies := filter (\<lambda>x. fst x \<noteq> c) (sp_replies p) \<rparr> \<Longrightarrow> spool_step run p (Receives c) p'"

inductive spool_run :: "(nat \<Rightarrow> 'r \<Rightarrow> bool) \<Rightarrow> 'r socket_pool \<Rightarrow> spool_act list \<Rightarrow> 'r socket_pool \<Rightarrow> bool"
  for run :: "nat \<Rightarrow> 'r \<Rightarrow> bool" where
  none: "spool_run run p [] p"
| more_steps: "spool_run run p tr p1 \<Longrightarrow> spool_step run p1 a p2 \<Longrightarrow> spool_run run p (tr @ [a]) p2"

section \<open>Invariant\<close>

definition serving :: "pool_thread \<Rightarrow> nat list" where
  "serving t = (case t of Serving c \<Rightarrow> [c] | _ \<Rightarrow> [])"

text \<open>Where the requests are: in the queue, with a thread, or answered.\<close>

definition places :: "'r socket_pool \<Rightarrow> nat list" where
  "places p = sp_queue p @ concat (map serving (sp_threads p)) @ map fst (sp_replies p)"

definition spool_inv :: "(nat \<Rightarrow> 'r \<Rightarrow> bool) \<Rightarrow> 'r socket_pool \<Rightarrow> bool" where
  "spool_inv run p \<longleftrightarrow>
     length (sp_queue p) \<le> QUEUE_DEPTH \<and> length (sp_threads p) = POOL_WORKERS
     \<and> count_list (sp_threads p) Locking \<le> 1
     \<and> (\<forall>c. count_list (places p) c = (if c < length (sp_callers p) \<and> sp_callers p ! c = Awaiting then 1 else 0))
     \<and> (\<forall>c r. (c, r) \<in> set (sp_replies p) \<longrightarrow> run c r)
     \<and> (\<forall>c r. c < length (sp_callers p) \<longrightarrow> sp_callers p ! c = Served r \<longrightarrow> run c r)"

lemma count_concat_update:
  "i < length xs \<Longrightarrow> count_list (concat (map f (xs[i := x]))) c + count_list (f (xs ! i)) c
     = count_list (concat (map f xs)) c + count_list (f x) c"
proof (induction xs arbitrary: i)
  case (Cons y ys)
  show ?case
  proof (cases i)
    case (Suc j)
    then show ?thesis using Cons.IH [of j] Cons.prems by simp
  qed simp
qed simp

lemma count_list_update:
  "i < length xs \<Longrightarrow> count_list (xs[i := x]) c + (if xs ! i = c then 1 else 0)
     = count_list xs c + (if x = c then 1 else 0)"
proof (induction xs arbitrary: i)
  case (Cons y ys)
  show ?case
  proof (cases i)
    case (Suc j)
    then show ?thesis using Cons.IH [of j] Cons.prems by (cases "x = c"; cases "ys ! j = c") auto
  qed simp
qed simp

lemma serving_simps [simp]: "serving Waiting = []" "serving Locking = []" "serving (Serving c) = [c]"
  by (simp_all add: serving_def)

lemma count_filter_replies:
  "count_list (map fst (filter (\<lambda>x. fst x \<noteq> c) rs)) d = (if d = c then 0 else count_list (map fst rs) d)"
  by (induction rs) auto

lemma count_list_distinct: "(\<And>x. count_list xs x \<le> 1) \<Longrightarrow> distinct xs"
proof (induction xs)
  case (Cons y ys)
  have "count_list ys x \<le> 1" for x using Cons.prems [of x] by (simp split: if_splits)
  moreover have "y \<notin> set ys" using Cons.prems [of y] by (simp add: count_list_0_iff)
  ultimately show ?case using Cons.IH by simp
qed simp

lemma count_reply: "(c, r) \<in> set rs \<Longrightarrow> 0 < count_list (map fst rs) c"
  by (induction rs) auto

lemma spool_inv_new: "spool_inv run new_socket_pool"
  by (simp add: spool_inv_def new_socket_pool_def places_def)

text \<open>How the places change with each operation.\<close>

lemma places_after:
  "count_list (places (p\<lparr> sp_callers := cs, sp_queue := sp_queue p @ [c] \<rparr>)) d
     = count_list (places p) d + (if c = d then 1 else 0)"
  "t < length (sp_threads p) \<Longrightarrow> sp_threads p ! t = Waiting \<Longrightarrow>
     count_list (places (p\<lparr> sp_threads := (sp_threads p)[t := Locking] \<rparr>)) d = count_list (places p) d"
  "t < length (sp_threads p) \<Longrightarrow> sp_threads p ! t = Locking \<Longrightarrow> sp_queue p = c # q \<Longrightarrow>
     count_list (places (p\<lparr> sp_threads := (sp_threads p)[t := Serving c], sp_queue := q \<rparr>)) d = count_list (places p) d"
  "t < length (sp_threads p) \<Longrightarrow> sp_threads p ! t = Serving c \<Longrightarrow>
     count_list (places (p\<lparr> sp_threads := (sp_threads p)[t := Waiting], sp_replies := sp_replies p @ [(c, r)] \<rparr>)) d
       = count_list (places p) d"
  using count_concat_update [of t "sp_threads p" serving Locking d]
    count_concat_update [of t "sp_threads p" serving "Serving c" d]
    count_concat_update [of t "sp_threads p" serving Waiting d]
  by (auto simp: places_def)

lemma places_received:
  assumes "count_list (places p) c = 1" and "(c, r) \<in> set (sp_replies p)"
  shows "count_list (places (p\<lparr> sp_callers := cs, sp_replies := filter (\<lambda>x. fst x \<noteq> c) (sp_replies p) \<rparr>)) d
     = (if d = c then 0 else count_list (places p) d)"
  using assms count_reply [OF assms(2)] count_filter_replies [of c "sp_replies p" d]
  by (auto simp: places_def)

lemma spool_inv_step:
  assumes "spool_inv run p" and "spool_step run p a p'"
  shows "spool_inv run p'"
  using assms(2)
proof (cases rule: spool_step.cases)
  case arrives
  then show ?thesis using assms(1) by (auto simp: spool_inv_def places_def nth_append)
next
  case (sends c)
  then show ?thesis using assms(1) by (auto simp: spool_inv_def places_after nth_list_update)
next
  case (locks t)
  then have "count_list (sp_threads p) Locking = 0" by (simp add: count_list_0_iff)
  then show ?thesis using assms(1) locks count_list_update [of t "sp_threads p" Locking Locking]
    by (auto simp: spool_inv_def places_after)
next
  case (takes t c q)
  then show ?thesis using assms(1) count_list_update [of t "sp_threads p" "Serving c" Locking]
    by (auto simp: spool_inv_def places_after)
next
  case (replies t c r)
  then show ?thesis using assms(1) count_list_update [of t "sp_threads p" Waiting Locking]
    by (auto simp: spool_inv_def places_after)
next
  case (receives c r)
  then have "count_list (places p) c = 1" using assms(1) by (simp add: spool_inv_def)
  then show ?thesis using assms(1) receives places_received [of p c r]
    by (auto simp: spool_inv_def nth_list_update)
qed

lemma spool_inv_run: "spool_run run p0 tr p \<Longrightarrow> spool_inv run p0 \<Longrightarrow> spool_inv run p"
  by (induction rule: spool_run.induct) (auto intro: spool_inv_step)

section \<open>Progress\<close>

text \<open>Every step but an arrival brings a request nearer to its caller.\<close>

definition caller_weight :: "'r caller \<Rightarrow> nat" where
  "caller_weight c = (case c of Sending \<Rightarrow> 5 | _ \<Rightarrow> 0)"

definition thread_weight :: "pool_thread \<Rightarrow> nat" where
  "thread_weight t = (case t of Waiting \<Rightarrow> 1 | Locking \<Rightarrow> 0 | Serving _ \<Rightarrow> 3)"

definition pool_work :: "'r socket_pool \<Rightarrow> nat" where
  "pool_work p = sum_list (map caller_weight (sp_callers p)) + 4 * length (sp_queue p)
     + sum_list (map thread_weight (sp_threads p)) + length (sp_replies p)"

lemma sum_list_map_update:
  fixes f :: "'a \<Rightarrow> nat"
  shows "i < length xs \<Longrightarrow> sum_list (map f (xs[i := x])) + f (xs ! i) = sum_list (map f xs) + f x"
proof (induction xs arbitrary: i)
  case (Cons y ys)
  show ?case
  proof (cases i)
    case (Suc j)
    then show ?thesis using Cons.IH [of j] Cons.prems by simp
  qed simp
qed simp

lemma pool_work_decreases:
  assumes "spool_step run p a p'" and "a \<noteq> Arrives"
  shows "pool_work p' < pool_work p"
  using assms(1)
proof (cases rule: spool_step.cases)
  case arrives
  then show ?thesis using assms(2) by simp
next
  case (sends c)
  then show ?thesis using sum_list_map_update [of c "sp_callers p" caller_weight Awaiting]
    by (simp add: pool_work_def caller_weight_def)
next
  case (locks t)
  then show ?thesis using sum_list_map_update [of t "sp_threads p" thread_weight Locking]
    by (simp add: pool_work_def thread_weight_def)
next
  case (takes t c q)
  then show ?thesis using sum_list_map_update [of t "sp_threads p" thread_weight "Serving c"]
    by (simp add: pool_work_def thread_weight_def)
next
  case (replies t c r)
  then show ?thesis using sum_list_map_update [of t "sp_threads p" thread_weight Waiting]
    by (simp add: pool_work_def thread_weight_def)
next
  case (receives c r)
  then have "length (filter (\<lambda>x. fst x \<noteq> c) (sp_replies p)) < length (sp_replies p)"
    by (intro length_filter_less [of "(c, r)"]) auto
  then show ?thesis using receives sum_list_map_update [of c "sp_callers p" caller_weight "Served r"]
    by (simp add: pool_work_def caller_weight_def)
qed

lemma thread_can_go_on:
  assumes inv: "spool_inv run p" and "sp_queue p \<noteq> []" and run: "\<And>c. \<exists>r. run c r"
  shows "\<exists>a p'. a \<noteq> Arrives \<and> spool_step run p a p'"
proof -
  obtain c q where q: "sp_queue p = c # q" using assms(2) by (cases "sp_queue p") auto
  have n: "0 < length (sp_threads p)" using inv by (simp add: spool_inv_def POOL_WORKERS_def SLOW_WORKERS_def)
  show ?thesis
  proof (cases "Locking \<in> set (sp_threads p)")
    case True
    then obtain t where "t < length (sp_threads p)" "sp_threads p ! t = Locking" by (auto simp: in_set_conv_nth)
    with q show ?thesis by (blast intro: spool_step.takes)
  next
    case False
    then consider "sp_threads p ! 0 = Waiting" | d where "sp_threads p ! 0 = Serving d"
      using nth_mem [OF n] by (cases "sp_threads p ! 0") auto
    then show ?thesis
      using n False run by cases (blast intro: spool_step.locks spool_step.replies)+
  qed
qed

lemma caller_can_go_on:
  assumes inv: "spool_inv run p" and c: "c < length (sp_callers p)" "\<nexists>r. sp_callers p ! c = Served r"
    and run: "\<And>c. \<exists>r. run c r"
  shows "\<exists>a p'. a \<noteq> Arrives \<and> spool_step run p a p'"
proof (cases "sp_queue p = []")
  case False
  then show ?thesis by (rule thread_can_go_on [OF inv _ run])
next
  case True
  show ?thesis
  proof (cases "sp_callers p ! c")
    case Sending
    then have "spool_step run p (Sends c) (p\<lparr> sp_callers := (sp_callers p)[c := Awaiting], sp_queue := sp_queue p @ [c] \<rparr>)"
      using c(1) True by (intro spool_step.sends) (simp_all add: QUEUE_DEPTH_def)
    then show ?thesis by blast
  next
    case Awaiting
    then have "count_list (places p) c = 1" using inv c(1) by (simp add: spool_inv_def)
    then have "c \<in> set (places p)" by (metis count_notin zero_neq_one)
    then consider t where "t < length (sp_threads p)" "sp_threads p ! t = Serving c"
      | r where "(c, r) \<in> set (sp_replies p)"
      using True by (auto simp: places_def serving_def in_set_conv_nth split: pool_thread.splits)
    then show ?thesis
    proof cases
      case 1
      moreover obtain r where "run c r" using run by blast
      ultimately show ?thesis by (blast intro: spool_step.replies)
    next
      case 2
      then show ?thesis using c(1) Awaiting by (blast intro: spool_step.receives)
    qed
  next
    case (Served r)
    then show ?thesis using c(2) by blast
  qed
qed

lemma quiet_run_bounded:
  "spool_run run p tr p' \<Longrightarrow> Arrives \<notin> set tr \<Longrightarrow> pool_work p' + length tr \<le> pool_work p"
  by (induction rule: spool_run.induct) (auto dest: pool_work_decreases)

section \<open>Properties\<close>

text \<open>
  C32. Safety of the pool, in every state that it can reach: the queue holds at most 512 requests, there
  are 96 threads and at most one of them waits for a request; every request that was
  sent and not answered is in exactly one place, and every answer is one of the caller's own request.
\<close>

theorem socket_pool_safe:
  assumes "spool_run run new_socket_pool tr p"
  shows "length (sp_queue p) \<le> 512 \<and> length (sp_threads p) = 96 \<and> count_list (sp_threads p) Locking \<le> 1
    \<and> distinct (places p) \<and> set (places p) = {c. c < length (sp_callers p) \<and> sp_callers p ! c = Awaiting}
    \<and> (\<forall>c r. c < length (sp_callers p) \<longrightarrow> sp_callers p ! c = Served r \<longrightarrow> run c r)"
proof -
  have inv: "spool_inv run p" by (rule spool_inv_run [OF assms spool_inv_new])
  then have n: "count_list (places p) c = (if c < length (sp_callers p) \<and> sp_callers p ! c = Awaiting then 1 else 0)" for c
    by (simp add: spool_inv_def)
  have "distinct (places p)" by (rule count_list_distinct) (simp add: n)
  moreover have "c \<in> set (places p) \<longleftrightarrow> c < length (sp_callers p) \<and> sp_callers p ! c = Awaiting" for c
    using n [of c] count_list_0_iff [of "places p" c] by (auto split: if_splits)
  ultimately show ?thesis
    using inv by (auto simp: spool_inv_def QUEUE_DEPTH_def POOL_WORKERS_def SLOW_WORKERS_def)
qed

text \<open>
  C33. Every caller is served: from every state that the pool can reach, the steps that follow without new
  callers are at most \<open>pool_work p\<close>, and as long as a caller has no answer there is such a step (requests being
  executed come to an end). So the pool cannot deadlock, although a full queue blocks the callers and
  the threads share one lock.
\<close>

theorem socket_pool_serves_all:
  assumes "spool_run run new_socket_pool tr p" and "\<And>c. \<exists>r. run c r"
  shows "(spool_run run p quiet p' \<and> Arrives \<notin> set quiet \<longrightarrow> length quiet \<le> pool_work p)
    \<and> (c < length (sp_callers p) \<and> (\<nexists>r. sp_callers p ! c = Served r) \<longrightarrow>
        (\<exists>a p'. a \<noteq> Arrives \<and> spool_step run p a p'))"
  using quiet_run_bounded [of run p quiet p']
    caller_can_go_on [OF spool_inv_run [OF assms(1) spool_inv_new] _ _ assms(2)] by fastforce

text \<open>One caller, whose request is in the queue.\<close>

definition demo_answers :: "nat \<Rightarrow> nat \<Rightarrow> bool" where
  "demo_answers c r \<longleftrightarrow> r = c + 100"

definition demo_socket_pool :: "nat socket_pool" where
  "demo_socket_pool = new_socket_pool\<lparr> sp_callers := [Awaiting], sp_queue := [0] \<rparr>"

lemma demo_socket_pool_run: "spool_run demo_answers new_socket_pool [Arrives, Sends 0] demo_socket_pool"
proof -
  let ?p1 = "new_socket_pool\<lparr> sp_callers := [Sending] \<rparr> :: nat socket_pool"
  have "spool_step demo_answers new_socket_pool Arrives ?p1"
    by (rule spool_step.arrives) (simp add: new_socket_pool_def)
  then have 1: "spool_run demo_answers new_socket_pool [Arrives] ?p1"
    using spool_run.more_steps [OF spool_run.none] by fastforce
  have "spool_step demo_answers ?p1 (Sends 0) demo_socket_pool"
    by (rule spool_step.sends) (simp_all add: new_socket_pool_def demo_socket_pool_def QUEUE_DEPTH_def)
  then show ?thesis using spool_run.more_steps [OF 1] by fastforce
qed

lemma demo_socket_pool_waits:
  "length (sp_callers demo_socket_pool) = 1" "sp_callers demo_socket_pool ! 0 = Awaiting"
  by (simp_all add: demo_socket_pool_def)

theorem socket_pool_safe_witness:
  "distinct (places demo_socket_pool)
    \<and> set (places demo_socket_pool)
        = {c. c < length (sp_callers demo_socket_pool) \<and> sp_callers demo_socket_pool ! c = Awaiting}"
  using socket_pool_safe [OF demo_socket_pool_run] by blast

theorem socket_pool_serves_all_witness:
  "\<exists>a p'. a \<noteq> Arrives \<and> spool_step demo_answers demo_socket_pool a p'"
proof -
  have "\<exists>r. demo_answers c r" for c by (simp add: demo_answers_def)
  from socket_pool_serves_all [OF demo_socket_pool_run this, where c = 0] demo_socket_pool_waits
  show ?thesis by auto
qed

end
