(* ===== verification/Checkpoints.thy ===== *)
theory Checkpoints
  imports Scheduler Protocol Text_Tools
begin

text \<open>
  The checkpoints of an agent (\<open>agentd/src/orchestration/checkpoint.rs\<close>): a log of its tool calls, kept in a file
  and cut to its newest entries, and the snapshots of its layer, which the socket server takes and restores.
  Files and the server are parameters; a request that never returns is \<open>None\<close>.
\<close>

section \<open>The log\<close>

record checkpoint_log =
  cl_agent_id :: string
  cl_task_id :: work_id
  cl_checkpoints :: "checkpoint list"
  cl_log_path :: string
  cl_next_id :: u64

record 'w checkpoint_os =
  ck_show :: "json \<Rightarrow> string"
  ck_parse :: "string \<Rightarrow> json option"
  ck_read :: "string \<Rightarrow> 'w \<Rightarrow> (string + string) \<times> 'w"
  ck_write :: "string \<Rightarrow> string \<Rightarrow> 'w \<Rightarrow> (string + unit) \<times> 'w"
  ck_mkdirs :: "string \<Rightarrow> 'w \<Rightarrow> (string + unit) \<times> 'w"
  ck_exists :: "string \<Rightarrow> 'w \<Rightarrow> bool"
  ck_remove_dir_all :: "string \<Rightarrow> 'w \<Rightarrow> (string + unit) \<times> 'w"
  ck_sudo_rm :: "string \<Rightarrow> 'w \<Rightarrow> 'w"
  ck_request :: "string \<Rightarrow> json \<Rightarrow> 'w \<Rightarrow> ((string + json) \<times> 'w) option"

text \<open>The derived serialisation; a missing \<open>next_id\<close> is read as 0.\<close>

definition enc_checkpoint :: "checkpoint \<Rightarrow> json" where
  "enc_checkpoint c = JObj [(''id'', ju (cp_id c)), (''tool_call'', JStr (cp_tool_call c)),
     (''tool_args'', cp_tool_args c), (''tool_result'', cp_tool_result c), (''timestamp'', ju (cp_timestamp c)),
     (''layer_snapshot_path'', JStr (cp_layer_snapshot_path c))]"

definition dec_checkpoint :: "json \<Rightarrow> checkpoint option" where
  "dec_checkpoint v = do {
     i \<leftarrow> field v ''id'' dec_u; t \<leftarrow> field v ''tool_call'' jstr; a \<leftarrow> field v ''tool_args'' Some;
     r \<leftarrow> field v ''tool_result'' Some; s \<leftarrow> field v ''timestamp'' dec_u; p \<leftarrow> field v ''layer_snapshot_path'' jstr;
     Some \<lparr> cp_id = i, cp_tool_call = t, cp_tool_args = a, cp_tool_result = r, cp_timestamp = s,
       cp_layer_snapshot_path = p \<rparr> }"

definition enc_log :: "checkpoint_log \<Rightarrow> json" where
  "enc_log l = JObj [(''agent_id'', JStr (cl_agent_id l)), (''task_id'', JStr (cl_task_id l)),
     (''checkpoints'', JArr (map enc_checkpoint (cl_checkpoints l))), (''log_path'', JStr (cl_log_path l)),
     (''next_id'', ju (cl_next_id l))]"

definition dec_log :: "json \<Rightarrow> checkpoint_log option" where
  "dec_log v = do {
     a \<leftarrow> field v ''agent_id'' jstr; t \<leftarrow> field v ''task_id'' jstr;
     cs \<leftarrow> field v ''checkpoints'' (dec_arr dec_checkpoint); p \<leftarrow> field v ''log_path'' jstr;
     n \<leftarrow> field_def v ''next_id'' 0 dec_u;
     Some \<lparr> cl_agent_id = a, cl_task_id = t, cl_checkpoints = cs, cl_log_path = p, cl_next_id = n \<rparr> }"

definition new_log :: "string \<Rightarrow> work_id \<Rightarrow> string \<Rightarrow> checkpoint_log" where
  "new_log agent task dir = \<lparr> cl_agent_id = agent, cl_task_id = task, cl_checkpoints = [],
     cl_log_path = join_path dir (''checkpoint-'' @ agent @ ''.json''), cl_next_id = 0 \<rparr>"

definition load_log :: "'w checkpoint_os \<Rightarrow> string \<Rightarrow> 'w \<Rightarrow> (string + checkpoint_log) \<times> 'w" where
  "load_log os path w =
     (case ck_read os path w of
        (Inl e, w1) \<Rightarrow> (Inl ''Failed to read checkpoint log'', w1)
      | (Inr content, w1) \<Rightarrow>
          (case Option.bind (ck_parse os content) dec_log of
             None \<Rightarrow> (Inl ''Failed to parse checkpoint log'', w1)
           | Some l \<Rightarrow> (Inr l, w1)))"

definition save_log :: "'w checkpoint_os \<Rightarrow> checkpoint_log \<Rightarrow> 'w \<Rightarrow> (string + unit) \<times> 'w" where
  "save_log os l w =
     (case ck_write os (cl_log_path l) (ck_show os (enc_log l)) w of
        (Inl e, w1) \<Rightarrow> (Inl ''Failed to write checkpoint log'', w1)
      | (Inr _, w1) \<Rightarrow> (Inr (), w1))"

text \<open>\<open>add_checkpoint\<close>: the entry stays in the log when saving fails.\<close>

definition push_checkpoint :: "checkpoint \<Rightarrow> checkpoint_log \<Rightarrow> checkpoint_log" where
  "push_checkpoint c l = l\<lparr> cl_checkpoints := cl_checkpoints l @ [c] \<rparr>"

definition add_checkpoint ::
  "'w checkpoint_os \<Rightarrow> checkpoint \<Rightarrow> checkpoint_log \<Rightarrow> 'w \<Rightarrow> (string + unit) \<times> checkpoint_log \<times> 'w" where
  "add_checkpoint os c l w =
     (let l1 = push_checkpoint c l in case save_log os l1 w of (r, w1) \<Rightarrow> (r, l1, w1))"

definition next_checkpoint_id :: "checkpoint_log \<Rightarrow> u64 \<times> checkpoint_log" where
  "next_checkpoint_id l = (cl_next_id l, l\<lparr> cl_next_id := cl_next_id l + 1 \<rparr>)"

definition latest :: "checkpoint_log \<Rightarrow> checkpoint option" where
  "latest l = (if cl_checkpoints l = [] then None else Some (last (cl_checkpoints l)))"

definition get_checkpoint :: "checkpoint_log \<Rightarrow> u64 \<Rightarrow> checkpoint option" where
  "get_checkpoint l i = find (\<lambda>c. cp_id c = i) (cl_checkpoints l)"

text \<open>\<open>prune\<close>: the oldest entries leave the log and their snapshots are removed, when that works.\<close>

definition drained :: "nat \<Rightarrow> checkpoint_log \<Rightarrow> checkpoint list" where
  "drained keep l = take (length (cl_checkpoints l) - keep) (cl_checkpoints l)"

definition cut_log :: "nat \<Rightarrow> checkpoint_log \<Rightarrow> checkpoint_log" where
  "cut_log keep l = l\<lparr> cl_checkpoints := drop (length (cl_checkpoints l) - keep) (cl_checkpoints l) \<rparr>"

definition remove_snapshot :: "'w checkpoint_os \<Rightarrow> checkpoint \<Rightarrow> 'w \<Rightarrow> 'w" where
  "remove_snapshot os c w =
     (if ck_exists os (cp_layer_snapshot_path c) w then snd (ck_remove_dir_all os (cp_layer_snapshot_path c) w) else w)"

definition prune ::
  "'w checkpoint_os \<Rightarrow> nat \<Rightarrow> checkpoint_log \<Rightarrow> 'w \<Rightarrow> (string + unit) \<times> checkpoint_log \<times> 'w" where
  "prune os keep l w =
     (if keep < length (cl_checkpoints l) then
        let l1 = cut_log keep l in
        case save_log os l1 (fold (remove_snapshot os) (drained keep l) w) of (r, w1) \<Rightarrow> (r, l1, w1)
      else (Inr (), l, w))"

section \<open>The manager\<close>

record checkpoint_manager =
  cm_root :: string
  cm_socket_path :: string

definition new_manager :: "'w checkpoint_os \<Rightarrow> string \<Rightarrow> string \<Rightarrow> 'w \<Rightarrow> (string + checkpoint_manager) \<times> 'w" where
  "new_manager os root socket w =
     (case ck_mkdirs os root w of
        (Inl e, w1) \<Rightarrow> (Inl ''Failed to create checkpoint root directory'', w1)
      | (Inr _, w1) \<Rightarrow> (Inr \<lparr> cm_root = root, cm_socket_path = socket \<rparr>, w1))"

definition checkpoint_dir :: "checkpoint_manager \<Rightarrow> string \<Rightarrow> string" where
  "checkpoint_dir m agent = join_path (cm_root m) agent"

definition snapshot_dir :: "checkpoint_manager \<Rightarrow> string \<Rightarrow> u64 \<Rightarrow> string" where
  "snapshot_dir m agent i = join_path (checkpoint_dir m agent) (''checkpoint-'' @ show_nat (unat i))"

definition checkpoint_request :: "string \<Rightarrow> string \<Rightarrow> string \<Rightarrow> string \<Rightarrow> json" where
  "checkpoint_request kind sandbox container dir = JObj [(''request_type'', JStr kind), (''sandbox'', JStr sandbox),
     (''container'', JStr container), (''checkpoint_dir'', JStr dir)]"

text \<open>An answer without the status \<open>ok\<close> is an error.\<close>

definition answer_ok :: "string \<Rightarrow> string \<Rightarrow> json \<Rightarrow> string + unit" where
  "answer_ok what otherwise resp =
     (if jget_str resp ''status'' \<noteq> Some ''ok'' then Inl (what @ '': '' @ unwrap_or otherwise (jget_str resp ''error''))
      else Inr ())"

definition create_snapshot ::
  "'w checkpoint_os \<Rightarrow> checkpoint_manager \<Rightarrow> string \<Rightarrow> u64 \<Rightarrow> string \<Rightarrow> string \<Rightarrow> 'w
     \<Rightarrow> ((string + string) \<times> 'w) option" where
  "create_snapshot os m agent i sandbox container w =
     (let dir = snapshot_dir m agent i in
      case ck_mkdirs os dir w of
        (Inl e, w1) \<Rightarrow> Some (Inl ''Failed to create snapshot directory'', w1)
      | (Inr _, w1) \<Rightarrow>
          (case ck_request os (cm_socket_path m) (checkpoint_request ''create_checkpoint'' sandbox container dir) w1 of
             None \<Rightarrow> None
           | Some (Inl e, w2) \<Rightarrow> Some (Inl ''Failed to call create_checkpoint via socket'', w2)
           | Some (Inr resp, w2) \<Rightarrow>
               (case answer_ok ''Checkpoint snapshot failed'' ''checkpoint failed'' resp of
                  Inl e \<Rightarrow> Some (Inl e, w2)
                | Inr _ \<Rightarrow> Some (Inr dir, w2))))"

definition restore_snapshot ::
  "'w checkpoint_os \<Rightarrow> checkpoint_manager \<Rightarrow> string \<Rightarrow> string \<Rightarrow> string \<Rightarrow> 'w \<Rightarrow> ((string + unit) \<times> 'w) option" where
  "restore_snapshot os m sandbox container path w =
     (if \<not> ck_exists os path w then Some (Inl (''Snapshot path does not exist: '' @ path), w)
      else case ck_request os (cm_socket_path m) (checkpoint_request ''restore_checkpoint'' sandbox container path) w of
             None \<Rightarrow> None
           | Some (Inl e, w1) \<Rightarrow> Some (Inl ''Failed to call restore_checkpoint via socket'', w1)
           | Some (Inr resp, w1) \<Rightarrow> Some (answer_ok ''Checkpoint restore failed'' ''restore failed'' resp, w1))"

definition sudo_remove :: "'w checkpoint_os \<Rightarrow> string \<Rightarrow> 'w \<Rightarrow> 'w" where
  "sudo_remove os path w =
     (if ck_exists os path w then snd (ck_remove_dir_all os path (ck_sudo_rm os path w)) else w)"

definition cleanup_agent_checkpoints :: "'w checkpoint_os \<Rightarrow> checkpoint_manager \<Rightarrow> string \<Rightarrow> 'w \<Rightarrow> 'w" where
  "cleanup_agent_checkpoints os m agent w = sudo_remove os (checkpoint_dir m agent) w"

definition cleanup_all_snapshots :: "'w checkpoint_os \<Rightarrow> checkpoint_log \<Rightarrow> 'w \<Rightarrow> 'w" where
  "cleanup_all_snapshots os l w = fold (\<lambda>c. sudo_remove os (cp_layer_snapshot_path c)) (cl_checkpoints l) w"

section \<open>The log as a buffer\<close>

text \<open>Adding an entry and cutting the log: a buffer that keeps the newest entries.\<close>

definition log_push :: "checkpoint \<Rightarrow> nat \<times> checkpoint_log \<Rightarrow> nat \<times> checkpoint_log" where
  "log_push c = (\<lambda>(keep, l). (keep, cut_log keep (push_checkpoint c l)))"

interpretation log_buffer: bounded_buffer log_push "\<lambda>b. cl_checkpoints (snd b)" fst
  by unfold_locales (auto simp: log_push_def cut_log_def push_checkpoint_def last_n_def split: prod.splits)

text \<open>
  The identifiers of the entries are consecutive and end before the next one, so that a log of fewer than
  \<open>2 ^ 64\<close> entries has no identifier twice, even when the counter wraps.
\<close>

definition log_inv :: "checkpoint_log \<Rightarrow> bool" where
  "log_inv l \<longleftrightarrow> (\<forall>k. k < length (cl_checkpoints l) \<longrightarrow>
     cp_id (cl_checkpoints l ! k) = cl_next_id l - of_nat (length (cl_checkpoints l) - k))"

lemma log_inv_new: "log_inv (new_log agent task dir)"
  by (simp add: log_inv_def new_log_def)

lemma log_inv_next:
  assumes "log_inv l" and "next_checkpoint_id l = (i, l1)" and "cp_id c = i"
  shows "log_inv (push_checkpoint c l1)"
  unfolding log_inv_def
proof (intro allI impI)
  fix k assume "k < length (cl_checkpoints (push_checkpoint c l1))"
  then have k: "k \<le> length (cl_checkpoints l)"
    using assms(2) by (auto simp: next_checkpoint_id_def push_checkpoint_def)
  then have n: "of_nat (Suc (length (cl_checkpoints l)) - k) = (1 :: u64) + of_nat (length (cl_checkpoints l) - k)"
    by (simp add: Suc_diff_le)
  show "cp_id (cl_checkpoints (push_checkpoint c l1) ! k)
      = cl_next_id (push_checkpoint c l1) - of_nat (length (cl_checkpoints (push_checkpoint c l1)) - k)"
    using assms k n
    by (cases "k = length (cl_checkpoints l)")
       (auto simp: log_inv_def next_checkpoint_id_def push_checkpoint_def nth_append simp del: of_nat_diff)
qed

lemma log_inv_cut: "log_inv l \<Longrightarrow> log_inv (cut_log keep l)"
  by (auto simp: log_inv_def cut_log_def)

lemma log_inv_distinct:
  assumes "log_inv l" and "length (cl_checkpoints l) < 2 ^ 64"
  shows "distinct (map cp_id (cl_checkpoints l))"
proof (rule distinct_conv_nth [THEN iffD2], intro allI impI)
  fix j k
  let ?n = "length (cl_checkpoints l)"
  assume jk: "j < length (map cp_id (cl_checkpoints l))" "k < length (map cp_id (cl_checkpoints l))" "j \<noteq> k"
  have "(of_nat (?n - j) :: u64) \<noteq> of_nat (?n - k)"
  proof
    assume "(of_nat (?n - j) :: u64) = of_nat (?n - k)"
    then have "unat (of_nat (?n - j) :: u64) = unat (of_nat (?n - k) :: u64)" by simp
    then have "?n - j = ?n - k" using assms(2) by (simp add: unat_of_nat del: of_nat_diff)
    then show False using jk by simp
  qed
  then show "map cp_id (cl_checkpoints l) ! j \<noteq> map cp_id (cl_checkpoints l) ! k"
    using assms(1) jk by (simp add: log_inv_def del: of_nat_diff)
qed

lemma get_checkpoint_finds:
  assumes "log_inv l" and "length (cl_checkpoints l) < 2 ^ 64" and "c \<in> set (cl_checkpoints l)"
  shows "get_checkpoint l (cp_id c) = Some c"
  unfolding get_checkpoint_def
  by (rule find_distinct_key [OF log_inv_distinct [OF assms(1,2)] assms(3)])

section \<open>Saving and loading\<close>

lemma dec_checkpoint_enc [simp]: "dec_checkpoint (enc_checkpoint c) = Some c"
  by (simp add: dec_checkpoint_def enc_checkpoint_def dec_simps)

lemma dec_log_enc [simp]: "dec_log (enc_log l) = Some l"
  by (simp add: dec_log_def enc_log_def dec_simps dec_arr_def dec_list_map)

text \<open>Reading a file that was written gives what was written.\<close>

definition reads_writes :: "'w checkpoint_os \<Rightarrow> bool" where
  "reads_writes os \<longleftrightarrow> (\<forall>p c w w1. ck_write os p c w = (Inr (), w1) \<longrightarrow> fst (ck_read os p w1) = Inr c)"

text \<open>
  A checkpoint log that was saved loads back as it was, with every identifier, result and the
  counter.
\<close>

theorem checkpoint_log_roundtrip:
  assumes "reads_writes os" and "ck_parse os (ck_show os (enc_log l)) = Some (enc_log l)"
    and "save_log os l w = (Inr (), w1)"
  shows "fst (load_log os (cl_log_path l) w1) = Inr l"
proof -
  have "ck_write os (cl_log_path l) (ck_show os (enc_log l)) w = (Inr (), w1)"
    using assms(3) by (auto simp: save_log_def split: prod.splits sum.splits)
  then have "fst (ck_read os (cl_log_path l) w1) = Inr (ck_show os (enc_log l))"
    using assms(1) by (simp add: reads_writes_def)
  then show ?thesis
    using assms(2) by (cases "ck_read os (cl_log_path l) w1") (simp add: load_log_def)
qed

section \<open>Snapshots\<close>

text \<open>The directories there are, and what the operations on them promise.\<close>

definition under :: "string \<Rightarrow> string \<Rightarrow> bool" where
  "under p q \<longleftrightarrow> q = p \<or> prefix (p @ ''/'') q"

text \<open>Removing a directory may fail half-way, but never touches what is not below it.\<close>

definition removes_dirs :: "'w checkpoint_os \<Rightarrow> ('w \<Rightarrow> string set) \<Rightarrow> bool" where
  "removes_dirs os dirs \<longleftrightarrow>
     (\<forall>p w. ck_exists os p w \<longleftrightarrow> p \<in> dirs w) \<and> (\<forall>w. [] \<notin> dirs w)
     \<and> (\<forall>p w r w1. ck_remove_dir_all os p w = (r, w1) \<longrightarrow>
          dirs w1 \<subseteq> dirs w \<and> {q \<in> dirs w. \<not> under p q} \<subseteq> dirs w1 \<and> (r = Inr () \<longrightarrow> p \<notin> dirs w1))
     \<and> (\<forall>p c w. dirs (snd (ck_write os p c w)) = dirs w)"

definition removal_works :: "'w checkpoint_os \<Rightarrow> bool" where
  "removal_works os \<longleftrightarrow> (\<forall>p w. fst (ck_remove_dir_all os p w) = Inr ())"

lemma dirs_remove_snapshot:
  assumes "removes_dirs os dirs"
  shows "dirs (remove_snapshot os c w) \<subseteq> dirs w"
    and "q \<in> dirs w \<Longrightarrow> \<not> under (cp_layer_snapshot_path c) q \<or> cp_layer_snapshot_path c = [] \<Longrightarrow>
      q \<in> dirs (remove_snapshot os c w)"
    and "removal_works os \<Longrightarrow> cp_layer_snapshot_path c \<notin> dirs (remove_snapshot os c w)"
proof -
  let ?p = "cp_layer_snapshot_path c"
  obtain r w1 where r: "ck_remove_dir_all os ?p w = (r, w1)" by (cases "ck_remove_dir_all os ?p w")
  have l: "ck_exists os ?p w \<longleftrightarrow> ?p \<in> dirs w" "[] \<notin> dirs w" "dirs w1 \<subseteq> dirs w"
    "{q \<in> dirs w. \<not> under ?p q} \<subseteq> dirs w1" "r = Inr () \<longrightarrow> ?p \<notin> dirs w1"
    using assms r by (auto simp: removes_dirs_def)
  show "dirs (remove_snapshot os c w) \<subseteq> dirs w" using l(3) r by (simp add: remove_snapshot_def)
  show "q \<in> dirs w \<Longrightarrow> \<not> under ?p q \<or> ?p = [] \<Longrightarrow> q \<in> dirs (remove_snapshot os c w)"
    using l r by (auto simp: remove_snapshot_def)
  show "removal_works os \<Longrightarrow> ?p \<notin> dirs (remove_snapshot os c w)"
    using l r by (auto simp: remove_snapshot_def removal_works_def) (metis fst_conv)
qed

lemma dirs_remove_snapshots:
  assumes "removes_dirs os dirs"
  shows "dirs (fold (remove_snapshot os) cs w) \<subseteq> dirs w"
    and "q \<in> dirs w \<Longrightarrow> (\<And>c. c \<in> set cs \<Longrightarrow> \<not> under (cp_layer_snapshot_path c) q \<or> cp_layer_snapshot_path c = [])
      \<Longrightarrow> q \<in> dirs (fold (remove_snapshot os) cs w)"
    and "removal_works os \<Longrightarrow> c \<in> set cs \<Longrightarrow> cp_layer_snapshot_path c \<notin> dirs (fold (remove_snapshot os) cs w)"
proof -
  note one = dirs_remove_snapshot [OF assms]
  show sub: "dirs (fold (remove_snapshot os) cs w) \<subseteq> dirs w" for cs w
    using one(1) by (induction cs arbitrary: w) (simp, fastforce)
  show "q \<in> dirs w \<Longrightarrow> (\<And>c. c \<in> set cs \<Longrightarrow> \<not> under (cp_layer_snapshot_path c) q \<or> cp_layer_snapshot_path c = [])
      \<Longrightarrow> q \<in> dirs (fold (remove_snapshot os) cs w)"
    using one(2) by (induction cs arbitrary: w) auto
  show "removal_works os \<Longrightarrow> c \<in> set cs \<Longrightarrow> cp_layer_snapshot_path c \<notin> dirs (fold (remove_snapshot os) cs w)"
  proof (induction cs arbitrary: w)
    case (Cons d cs)
    then show ?case using one(3) [of d w] sub [of cs "remove_snapshot os d w"] by auto
  qed simp
qed

lemma show_nat_eq_iff: "show_nat i = show_nat j \<longleftrightarrow> i = j"
  using fold_show_nat [of i] fold_show_nat [of j] by metis

lemma snapshot_dirs_apart:
  assumes "under (snapshot_dir m agent i) (snapshot_dir m agent j)"
  shows "i = j"
proof -
  let ?base = "join_path (checkpoint_dir m agent) []"
  have dir: "snapshot_dir m agent k = ?base @ ''checkpoint-'' @ show_nat (unat k)" for k
    by (simp add: snapshot_dir_def join_path_def)
  have "CHR ''/'' \<notin> set (show_nat n)" for n by (rule show_nat_no_char) (simp add: digit_def)
  then have "\<not> prefix (snapshot_dir m agent i @ ''/'') (snapshot_dir m agent j)"
    by (auto simp: dir prefix_def) (metis append.assoc in_set_conv_decomp)
  then have "snapshot_dir m agent j = snapshot_dir m agent i" using assms by (auto simp: under_def)
  then show ?thesis by (simp add: dir show_nat_eq_iff unat_arith_simps)
qed

text \<open>The paths in a log: those of \<open>create_snapshot\<close>, or empty where it failed.\<close>

definition own_snapshots :: "checkpoint_manager \<Rightarrow> string \<Rightarrow> checkpoint_log \<Rightarrow> bool" where
  "own_snapshots m agent l \<longleftrightarrow> (\<forall>c \<in> set (cl_checkpoints l).
     cp_layer_snapshot_path c = [] \<or> cp_layer_snapshot_path c = snapshot_dir m agent (cp_id c))"


text \<open>Directories and files as sets and maps; the log of an agent with two checkpoints.\<close>

definition demo_entry :: "u64 \<Rightarrow> checkpoint" where
  "demo_entry i = \<lparr> cp_id = i, cp_tool_call = ''write_file'', cp_tool_args = JObj [], cp_tool_result = JNull,
     cp_timestamp = 0, cp_layer_snapshot_path = snapshot_dir \<lparr> cm_root = ''/ck'', cm_socket_path = [] \<rparr> ''a'' i \<rparr>"

definition demo_log :: checkpoint_log where
  "demo_log = \<lparr> cl_agent_id = ''a'', cl_task_id = ''t'', cl_checkpoints = [demo_entry 0, demo_entry 1],
     cl_log_path = ''/ck/a.json'', cl_next_id = 2 \<rparr>"

definition demo_checkpoint_os :: "(string set \<times> (string \<Rightarrow> string option)) checkpoint_os" where
  "demo_checkpoint_os = \<lparr> ck_show = \<lambda>_. ''log'', ck_parse = \<lambda>_. Some (enc_log demo_log),
     ck_read = \<lambda>p w. (case snd w p of None \<Rightarrow> Inl ''missing'' | Some c \<Rightarrow> Inr c, w),
     ck_write = \<lambda>p c w. (Inr (), (fst w, (snd w)(p \<mapsto> c))),
     ck_mkdirs = \<lambda>p w. (Inr (), (insert p (fst w), snd w)),
     ck_exists = \<lambda>p w. p \<in> fst w - {[]},
     ck_remove_dir_all = \<lambda>p w. (Inr (), ({q \<in> fst w. \<not> under p q}, snd w)),
     ck_sudo_rm = \<lambda>p w. w, ck_request = \<lambda>_ _ w. Some (Inr (JObj [(''status'', JStr ''ok'')]), w) \<rparr>"

lemma demo_checkpoint_laws:
  "reads_writes demo_checkpoint_os" "removes_dirs demo_checkpoint_os (\<lambda>w. fst w - {[]})" "removal_works demo_checkpoint_os"
  by (auto simp: reads_writes_def removes_dirs_def removal_works_def demo_checkpoint_os_def under_def)

lemma demo_log_facts:
  "log_inv demo_log" "length (cl_checkpoints demo_log) = 2"
  "own_snapshots \<lparr> cm_root = ''/ck'', cm_socket_path = [] \<rparr> ''a'' demo_log"
  "drained (Suc 0) demo_log = [demo_entry 0]" "cl_log_path demo_log = ''/ck/a.json''"
  by (auto simp: log_inv_def demo_log_def demo_entry_def own_snapshots_def drained_def less_Suc_eq)

theorem checkpoint_log_roundtrip_witness:
  "\<exists>w1. save_log demo_checkpoint_os demo_log ({}, \<lambda>_. None) = (Inr (), w1)
     \<and> fst (load_log demo_checkpoint_os (cl_log_path demo_log) w1) = Inr demo_log"
proof -
  have "ck_parse demo_checkpoint_os (ck_show demo_checkpoint_os (enc_log demo_log)) = Some (enc_log demo_log)"
    by (simp add: demo_checkpoint_os_def)
  moreover have "\<exists>w1. save_log demo_checkpoint_os demo_log ({}, \<lambda>_. None) = (Inr (), w1)"
    by (simp add: save_log_def demo_checkpoint_os_def)
  ultimately show ?thesis using checkpoint_log_roundtrip [OF demo_checkpoint_laws(1)] by blast
qed


end
