(* ===== verification/Tool_Catalog.thy ===== *)
theory Tool_Catalog
  imports Text_Tools "HOL-Library.Char_ord" "HOL-Library.List_Lexorder"
begin

text \<open>
  The tools of the daemon as its parts name them: the declarations that a model is given
  (\<open>agentd/src/orchestration/mod.rs\<close>), the registry that decides which tools exist
  (\<open>agentd/src/tool_registry.rs\<close>), the catalog that the tool \<open>discover_tools\<close> returns
  (\<open>agentd/src/tools/discover_tools.rs\<close>), and how declarations are selected and put into the forms of the
  providers (\<open>agentd/src/orchestration/provider_client.rs\<close>).
\<close>

section \<open>Data\<close>

text \<open>A declaration: name, description, properties with type and description, and the required ones.\<close>

definition declare_tool :: "string \<Rightarrow> string \<Rightarrow> (string \<times> string \<times> string) list \<Rightarrow> string list \<Rightarrow> json" where
  "declare_tool name desc props required =
     JObj [(''name'', JStr name), (''description'', JStr desc),
       (''parameters'', JObj [(''type'', JStr ''object''),
          (''properties'', JObj (map (\<lambda>(p, t, d). (p, JObj [(''type'', JStr t), (''description'', JStr d)])) props)),
          (''required'', JArr (map JStr required))])]"

text \<open>\<open>tool_entry\<close> of the catalog; a parameter has a type, whether it is required, and maybe a description.\<close>

definition catalog_tool ::
  "string \<Rightarrow> string \<Rightarrow> string \<Rightarrow> (string \<times> string \<times> bool \<times> string option) list \<Rightarrow> json" where
  "catalog_tool name category desc params =
     JObj [(''name'', JStr name), (''category'', JStr category), (''description'', JStr desc),
       (''parameters'', JObj (map (\<lambda>(p, t, r, d). (p, JObj ([(''type'', JStr t), (''required'', JBool r)]
          @ (case d of None \<Rightarrow> [] | Some x \<Rightarrow> [(''description'', JStr x)])))) params))]"

definition tool_declarations_1 :: "json list" where
  "tool_declarations_1 =
    [declare_tool ''read_file''
       ''Read a file from the sandbox.''
       [(''path'', ''string'', ''File path to read'')]
       [''path''],
     declare_tool ''write_file''
       ''Write text content to a file path in the sandbox.''
       [(''path'', ''string'', ''File path to write''), (''content'', ''string'', ''Text content to write'')]
       [''path'', ''content''],
     declare_tool ''append_file''
       ''Append text content to a file path in the sandbox.''
       [(''path'', ''string'', ''File path to append to''), (''content'', ''string'', ''Text content to append'')]
       [''path'', ''content''],
     declare_tool ''delete_file''
       ''Delete a file from the sandbox.''
       [(''path'', ''string'', ''File path to delete'')]
       [''path''],
     declare_tool ''copy_file''
       ''Copy a file from one path to another inside the sandbox.''
       [(''from'', ''string'', ''Source file path''), (''to'', ''string'', ''Destination file path'')]
       [''from'', ''to''],
     declare_tool ''move_file''
       ''Move (rename) a file from one path to another inside the sandbox.''
       [(''from'', ''string'', ''Source file path''), (''to'', ''string'', ''Destination file path'')]
       [''from'', ''to''],
     declare_tool ''list_files''
       ''List files and subdirectories in a directory.''
       [(''path'', ''string'', ''Directory path to list'')]
       [''path''],
     declare_tool ''create_directory''
       ''Create a directory (and parents) in the sandbox.''
       [(''path'', ''string'', ''Directory path to create'')]
       [''path''],
     declare_tool ''delete_directory''
       ''Delete a directory and its contents from the sandbox.''
       [(''path'', ''string'', ''Directory path to delete'')]
       [''path''],
     declare_tool ''get_file_info''
       ''Get information about a file in the sandbox.''
       [(''path'', ''string'', ''File path to inspect'')]
       [''path''],
     declare_tool ''file_exists''
       ''Check whether a file exists in the sandbox.''
       [(''path'', ''string'', ''File path to check'')]
       [''path''],
     declare_tool ''run_command''
       ''Run a shell command inside the sandbox (chroot).''
       [(''cmd'', ''string'', ''Shell command to run''), (''cwd'', ''string'', ''Optional working directory'')]
       [''cmd'']]"

definition tool_declarations_2 :: "json list" where
  "tool_declarations_2 =
    [declare_tool ''run_script''
       ''Run a script inside the sandbox.''
       [(''path'', ''string'', ''Script path''),
        (''interpreter'', ''string'', ''Optional interpreter (e.g. python3, bash)''),
        (''script'', ''string'', ''Optional inline script content''),
        (''language'', ''string'', ''Optional script language'')]
       [''path''],
     declare_tool ''kill_process''
       ''Kill a process by PID inside the sandbox.''
       [(''pid'', ''integer'', ''Process ID to kill'')]
       [''pid''],
     declare_tool ''get_env''
       ''Get an environment variable inside the sandbox.''
       [(''var'', ''string'', ''Environment variable name'')]
       [''var''],
     declare_tool ''set_env''
       ''Set an environment variable inside the sandbox.''
       [(''var'', ''string'', ''Environment variable name''), (''value'', ''string'', ''Environment variable value'')]
       [''var'', ''value''],
     declare_tool ''http_get''
       ''Perform an HTTP GET request.''
       [(''url'', ''string'', ''URL to GET'')]
       [''url''],
     declare_tool ''http_post''
       ''Perform an HTTP POST request.''
       [(''url'', ''string'', ''URL to POST''), (''body'', ''string'', ''Request body'')]
       [''url'', ''body''],
     declare_tool ''http_put''
       ''Perform an HTTP PUT request.''
       [(''url'', ''string'', ''URL to PUT''), (''body'', ''string'', ''Request body'')]
       [''url'', ''body''],
     declare_tool ''http_delete''
       ''Perform an HTTP DELETE request.''
       [(''url'', ''string'', ''URL to DELETE'')]
       [''url''],
     declare_tool ''http_patch''
       ''Perform an HTTP PATCH request.''
       [(''url'', ''string'', ''URL to PATCH''), (''body'', ''string'', ''Request body'')]
       [''url'', ''body''],
     declare_tool ''download_file''
       ''Download a file from a URL into the sandbox.''
       [(''url'', ''string'', ''File URL to download''), (''path'', ''string'', ''Destination path in the sandbox'')]
       [''url'', ''path''],
     declare_tool ''websocket_send''
       ''Send a message to a WebSocket URL.''
       [(''url'', ''string'', ''WebSocket URL''), (''message'', ''string'', ''Message to send'')]
       [''url'', ''message''],
     declare_tool ''json_parse''
       ''Parse JSON text into a JSON object/value.''
       [(''data'', ''string'', ''JSON input string'')]
       [''data'']]"

definition tool_declarations_3 :: "json list" where
  "tool_declarations_3 =
    [declare_tool ''json_stringify''
       ''Stringify JSON value into text.''
       [(''data'', ''string'', ''JSON input value (as string or JSON)'')]
       [''data''],
     declare_tool ''json_query''
       ''Query a JSON value using a path expression.''
       [(''data'', ''string'', ''JSON data to query''), (''path'', ''string'', ''Query path'')]
       [''data'', ''path''],
     declare_tool ''csv_read''
       ''Read a CSV file from the sandbox.''
       [(''path'', ''string'', ''CSV file path'')]
       [''path''],
     declare_tool ''csv_write''
       ''Write CSV rows to a file in the sandbox.''
       [(''path'', ''string'', ''CSV output path''), (''rows'', ''array'', ''CSV rows'')]
       [''path'', ''rows''],
     declare_tool ''git_clone''
       ''Clone a git repository into the sandbox.''
       [(''repo'', ''string'', ''Repository URL''), (''path'', ''string'', ''Destination path'')]
       [''repo'', ''path''],
     declare_tool ''git_status''
       ''Get git status for a repository path.''
       [(''path'', ''string'', ''Repository path'')]
       [''path''],
     declare_tool ''git_add''
       ''Stage files in a git repository.''
       [(''path'', ''string'', ''Repository path''), (''files'', ''array'', ''Files to stage'')]
       [''path'', ''files''],
     declare_tool ''git_commit''
       ''Create a git commit in a repository.''
       [(''path'', ''string'', ''Repository path''), (''message'', ''string'', ''Commit message'')]
       [''path'', ''message''],
     declare_tool ''git_push''
       ''Push commits to a remote repository.''
       [(''path'', ''string'', ''Repository path''), (''remote'', ''string'', ''Remote name (e.g. origin)''),
        (''branch'', ''string'', ''Branch name'')]
       [''path'', ''remote'', ''branch''],
     declare_tool ''git_pull''
       ''Pull updates from a remote repository.''
       [(''path'', ''string'', ''Repository path''), (''remote'', ''string'', ''Remote name (e.g. origin)''),
        (''branch'', ''string'', ''Branch name'')]
       [''path'', ''remote'', ''branch''],
     declare_tool ''git_branch''
       ''Create or list branches in a git repository.''
       [(''path'', ''string'', ''Repository path''), (''name'', ''string'', ''Optional branch name'')]
       [''path''],
     declare_tool ''git_checkout''
       ''Checkout a branch in a git repository.''
       [(''path'', ''string'', ''Repository path''), (''branch'', ''string'', ''Branch name'')]
       [''path'', ''branch'']]"

definition tool_declarations_4 :: "json list" where
  "tool_declarations_4 =
    [declare_tool ''git_diff''
       ''Get git diff for a repository path.''
       [(''path'', ''string'', ''Repository path'')]
       [''path''],
     declare_tool ''docker_build''
       ''Build a Docker image.''
       [(''path'', ''string'', ''Docker build context path''), (''tag'', ''string'', ''Image tag'')]
       [''path'', ''tag''],
     declare_tool ''docker_run''
       ''Run a Docker image.''
       [(''image'', ''string'', ''Docker image name''), (''cmd'', ''string'', ''Optional command override''),
        (''name'', ''string'', ''Optional container name'')]
       [''image''],
     declare_tool ''docker_stop''
       ''Stop a Docker container.''
       [(''container'', ''string'', ''Container id/name'')]
       [''container''],
     declare_tool ''docker_ps''
       ''List Docker containers.''
       [(''all'', ''boolean'', ''Optional: include stopped containers'')]
       [],
     declare_tool ''docker_logs''
       ''Get logs for a Docker container.''
       [(''container'', ''string'', ''Container id/name'')]
       [''container''],
     declare_tool ''docker_exec''
       ''Execute a command inside a Docker container.''
       [(''container'', ''string'', ''Container id/name''), (''cmd'', ''string'', ''Command to execute'')]
       [''container'', ''cmd''],
     declare_tool ''docker_pull''
       ''Pull a Docker image.''
       [(''image'', ''string'', ''Image name'')]
       [''image''],
     declare_tool ''kubectl_apply''
       ''Apply a Kubernetes manifest.''
       [(''manifest'', ''string'', ''Kubernetes manifest YAML'')]
       [''manifest''],
     declare_tool ''kubectl_get''
       ''Get Kubernetes resources.''
       [(''resource'', ''string'', ''Resource type (e.g. pods)'')]
       [''resource''],
     declare_tool ''kubectl_delete''
       ''Delete a Kubernetes resource.''
       [(''resource'', ''string'', ''Resource type''), (''name'', ''string'', ''Resource name'')]
       [''resource'', ''name''],
     declare_tool ''kubectl_logs''
       ''Fetch logs from a Kubernetes pod.''
       [(''pod'', ''string'', ''Pod name'')]
       [''pod''],
     declare_tool ''kubectl_exec''
       ''Execute a command in a Kubernetes pod.''
       [(''pod'', ''string'', ''Pod name''), (''cmd'', ''string'', ''Command to execute'')]
       [''pod'', ''cmd'']]"

definition tool_declarations_5 :: "json list" where
  "tool_declarations_5 =
    [declare_tool ''kubectl_describe''
       ''Describe a Kubernetes resource.''
       [(''resource'', ''string'', ''Resource type''), (''name'', ''string'', ''Resource name'')]
       [''resource'', ''name''],
     declare_tool ''memory_set''
       ''Store a key/value in persistent memory.''
       [(''key'', ''string'', ''Memory key''), (''value'', ''string'', ''Memory value'')]
       [''key'', ''value''],
     declare_tool ''memory_get''
       ''Retrieve a value from persistent memory by key.''
       [(''key'', ''string'', ''Memory key'')]
       [''key''],
     declare_tool ''memory_delete''
       ''Delete a key from persistent memory.''
       [(''key'', ''string'', ''Memory key'')]
       [''key''],
     declare_tool ''memory_list''
       ''List all keys in persistent memory.''
       []
       [],
     declare_tool ''memory_save''
       ''Save memory contents to a file.''
       [(''path'', ''string'', ''Save path'')]
       [''path''],
     declare_tool ''memory_load''
       ''Load memory contents from a file.''
       [(''path'', ''string'', ''Load path'')]
       [''path''],
     declare_tool ''secret_set''
       ''Store a secret value.''
       [(''name'', ''string'', ''Secret name''), (''value'', ''string'', ''Secret value'')]
       [''name'', ''value''],
     declare_tool ''secret_get''
       ''Retrieve a secret value by name.''
       [(''name'', ''string'', ''Secret name'')]
       [''name''],
     declare_tool ''npm_install''
       ''Install an npm package (optionally from a working directory).''
       [(''package'', ''string'', ''Optional package name''), (''cwd'', ''string'', ''Optional working directory'')]
       [],
     declare_tool ''pip_install''
       ''Install a Python package via pip (optionally with version).''
       [(''package'', ''string'', ''Python package name''), (''version'', ''string'', ''Optional version'')]
       [''package''],
     declare_tool ''cargo_add''
       ''Add a dependency to a Rust project via cargo-edit.''
       [(''package'', ''string'', ''Crate/package to add''), (''cwd'', ''string'', ''Optional working directory'')]
       [''package''],
     declare_tool ''web_search''
       ''Search the web for a query.''
       [(''query'', ''string'', ''Search query'')]
       [''query'']]"

definition tool_declarations_6 :: "json list" where
  "tool_declarations_6 =
    [declare_tool ''web_fetch''
       ''Fetch a URL from the web.''
       [(''url'', ''string'', ''URL to fetch'')]
       [''url''],
     declare_tool ''web_screenshot''
       ''Take a screenshot of a URL.''
       [(''url'', ''string'', ''URL to screenshot''), (''output'', ''string'', ''Output path/filename'')]
       [''url'', ''output''],
     declare_tool ''create_channel''
       ''Create a message bus channel.''
       [(''name'', ''string'', ''Channel name'')]
       [''name''],
     declare_tool ''send_message''
       ''Send a message to a channel on the message bus.''
       [(''channel'', ''string'', ''Channel name''), (''message'', ''string'', ''Message content'')]
       [''channel'', ''message''],
     declare_tool ''read_messages''
       ''Read messages from a channel on the message bus.''
       [(''channel'', ''string'', ''Channel name'')]
       [''channel''],
     declare_tool ''broadcast''
       ''Broadcast a message to all subscribers in the message bus.''
       [(''message'', ''string'', ''Message content'')]
       [''message''],
     declare_tool ''wait_for''
       ''Wait for messages on a channel for an optional timeout.''
       [(''channel'', ''string'', ''Channel name''),
        (''timeout'', ''integer'', ''Optional timeout in milliseconds/seconds'')]
       [''channel''],
     declare_tool ''spawn_agent''
       ''Spawn a new agent task via the orchestrator/message bus.''
       [(''task'', ''string'', ''Agent task description/instruction''),
        (''tools'', ''array'', ''Optional list of tool names'')]
       [''task''],
     declare_tool ''lint''
       ''Run a linter over a project path.''
       [(''path'', ''string'', ''Project path''), (''language'', ''string'', ''Optional language hint'')]
       [''path''],
     declare_tool ''test''
       ''Run tests for a project.''
       [(''path'', ''string'', ''Project path''), (''command'', ''string'', ''Optional custom test command'')]
       [''path''],
     declare_tool ''build''
       ''Build a project (optionally with a custom command).''
       [(''path'', ''string'', ''Project path''), (''command'', ''string'', ''Optional custom build command'')]
       [''path''],
     declare_tool ''type_check''
       ''Run a type checker over a project.''
       [(''path'', ''string'', ''Project path''), (''language'', ''string'', ''Optional language hint'')]
       [''path'']]"

definition tool_declarations_7 :: "json list" where
  "tool_declarations_7 =
    [declare_tool ''format''
       ''Format code in a project path.''
       [(''path'', ''string'', ''Project path''), (''language'', ''string'', ''Optional language hint'')]
       [''path''],
     declare_tool ''echo''
       ''Echo the provided message.''
       [(''message'', ''string'', ''Message to echo'')]
       [''message''],
     declare_tool ''grep''
       ''Search files for a regex pattern recursively.''
       [(''pattern'', ''string'', ''Regex pattern to search for''),
        (''path'', ''string'', ''Directory path to search''),
        (''include'', ''string'', ''Optional file glob filter (e.g. *.rs)''),
        (''max_results'', ''integer'', ''Optional max results (default 100)'')]
       [''pattern'', ''path''],
     declare_tool ''find_files''
       ''Find files matching a name pattern in a directory tree.''
       [(''pattern'', ''string'', ''Glob/name pattern to match files''),
        (''path'', ''string'', ''Directory to search''),
        (''max_depth'', ''integer'', ''Optional max directory depth (default 10)'')]
       [''pattern'', ''path''],
     declare_tool ''search_code''
       ''Case-insensitive substring search across source files.''
       [(''query'', ''string'', ''Search string (case-insensitive)''), (''path'', ''string'', ''Directory to search''),
        (''include'', ''string'', ''Optional file glob filter (e.g. *.rs)''),
        (''context_lines'', ''integer'', ''Optional context lines around match (default 2)'')]
       [''query'', ''path''],
     declare_tool ''read_multiple_files''
       ''Read multiple files in one call and return their contents.''
       [(''paths'', ''array'', ''Array of file paths to read'')]
       [''paths''],
     declare_tool ''discover_tools''
       ''MUST be called at the start of every session. Returns the complete catalog of all available tools with their parameters, categories, and usage rules. Call this before using any other tool to understand your full capabilities.''
       []
       []]"

definition gemini_tool_declarations :: "json list" where
  "gemini_tool_declarations = tool_declarations_1 @ tool_declarations_2 @ tool_declarations_3 @ tool_declarations_4 @ tool_declarations_5 @ tool_declarations_6 @ tool_declarations_7"

definition registered_tools_1 :: "string list" where
  "registered_tools_1 =
    [''read_file'', ''write_file'', ''append_file'', ''delete_file'', ''copy_file'', ''move_file'', ''list_files'',
     ''create_directory'', ''delete_directory'', ''get_file_info'', ''file_exists'', ''run_command'',
     ''run_script'', ''kill_process'', ''get_env'', ''set_env'', ''http_get'', ''http_post'', ''http_put'',
     ''http_delete'', ''http_patch'', ''download_file'', ''websocket_send'', ''json_parse'', ''json_stringify'',
     ''json_query'', ''csv_read'', ''csv_write'', ''git_clone'', ''git_status'', ''git_add'', ''git_commit'',
     ''git_push'', ''git_pull'', ''git_branch'', ''git_checkout'']"

definition registered_tools_2 :: "string list" where
  "registered_tools_2 =
    [''git_diff'', ''docker_build'', ''docker_run'', ''docker_stop'', ''docker_ps'', ''docker_logs'',
     ''docker_exec'', ''docker_pull'', ''kubectl_apply'', ''kubectl_get'', ''kubectl_delete'', ''kubectl_logs'',
     ''kubectl_exec'', ''kubectl_describe'', ''memory_set'', ''memory_get'', ''memory_delete'', ''memory_list'',
     ''memory_save'', ''memory_load'', ''secret_set'', ''secret_get'', ''npm_install'', ''pip_install'',
     ''cargo_add'', ''web_search'', ''web_fetch'', ''web_screenshot'', ''create_channel'', ''send_message'',
     ''read_messages'', ''broadcast'', ''wait_for'']"

definition registered_tools_3 :: "string list" where
  "registered_tools_3 =
    [''spawn_agent'', ''lint'', ''test'', ''build'', ''type_check'', ''format'', ''echo'', ''grep'', ''find_files'',
     ''search_code'', ''read_multiple_files'', ''discover_tools'']"

definition registered_tools :: "string list" where
  "registered_tools = registered_tools_1 @ registered_tools_2 @ registered_tools_3"

definition tool_catalog_1 :: "json list" where
  "tool_catalog_1 =
    [catalog_tool ''read_file'' ''filesystem''
       ''Read file contents''
       [(''path'', ''string'', True, Some (''Absolute path to the file (use /workspace prefix)''))],
     catalog_tool ''write_file'' ''filesystem''
       ''Write content to a file (creates or overwrites)''
       [(''path'', ''string'', True, Some (''Absolute path (use /workspace prefix)'')),
        (''content'', ''string'', True, Some (''Full file content to write''))],
     catalog_tool ''append_file'' ''filesystem''
       ''Append content to an existing file''
       [(''path'', ''string'', True, Some (''Absolute path (use /workspace prefix)'')),
        (''content'', ''string'', True, Some (''Content to append''))],
     catalog_tool ''delete_file'' ''filesystem''
       ''Delete a file''
       [(''path'', ''string'', True, Some (''Absolute path to delete''))],
     catalog_tool ''copy_file'' ''filesystem''
       ''Copy a file to a new location''
       [(''source'', ''string'', True, Some (''Source path'')),
        (''destination'', ''string'', True, Some (''Destination path''))],
     catalog_tool ''move_file'' ''filesystem''
       ''Move/rename a file''
       [(''source'', ''string'', True, Some (''Source path'')),
        (''destination'', ''string'', True, Some (''Destination path''))],
     catalog_tool ''list_files'' ''filesystem''
       ''List files in a directory''
       [(''path'', ''string'', True, Some (''Directory path (use /workspace prefix)'')),
        (''pattern'', ''string'', False, Some (''Glob pattern filter (optional)''))],
     catalog_tool ''create_directory'' ''filesystem''
       ''Create a directory (recursive)''
       [(''path'', ''string'', True, Some (''Directory path to create''))],
     catalog_tool ''delete_directory'' ''filesystem''
       ''Delete a directory and its contents''
       [(''path'', ''string'', True, Some (''Directory path to delete''))],
     catalog_tool ''get_file_info'' ''filesystem''
       ''Get file metadata (size, permissions, timestamps)''
       [(''path'', ''string'', True, Some (''File path''))],
     catalog_tool ''file_exists'' ''filesystem''
       ''Check if a file or directory exists''
       [(''path'', ''string'', True, Some (''Path to check''))],
     catalog_tool ''run_command'' ''shell''
       ''Execute a shell command inside the container (chroot + namespace isolation)''
       [(''cmd'', ''string'', True, Some (''Command to execute'')),
        (''cwd'', ''string'', False, Some (''Working directory (default: /workspace)'')),
        (''timeout'', ''number'', False, Some (''Timeout in seconds (default: 300)''))],
     catalog_tool ''run_script'' ''shell''
       ''Run an inline script or script file''
       [(''script'', ''string'', True, Some (''Script content or file path'')),
        (''interpreter'', ''string'', False, Some (''Interpreter: sh, python, node (auto-detected)''))],
     catalog_tool ''kill_process'' ''shell''
       ''Send SIGTERM to a process by PID''
       [(''pid'', ''number'', True, Some (''Process ID to kill''))],
     catalog_tool ''get_env'' ''shell''
       ''Get environment variable value''
       [(''name'', ''string'', True, Some (''Variable name''))],
     catalog_tool ''set_env'' ''shell''
       ''Set an environment variable for the container''
       [(''name'', ''string'', True, Some (''Variable name'')), (''value'', ''string'', True, Some (''Variable value''))]]"

definition tool_catalog_2 :: "json list" where
  "tool_catalog_2 =
    [catalog_tool ''http_get'' ''http''
       ''Make an HTTP GET request''
       [(''url'', ''string'', True, Some (''URL to fetch'')),
        (''headers'', ''object'', False, Some (''Request headers''))],
     catalog_tool ''http_post'' ''http''
       ''Make an HTTP POST request''
       [(''url'', ''string'', True, Some (''URL'')), (''body'', ''string'', False, Some (''Request body'')),
        (''headers'', ''object'', False, Some (''Request headers''))],
     catalog_tool ''http_put'' ''http''
       ''Make an HTTP PUT request''
       [(''url'', ''string'', True, Some (''URL'')), (''body'', ''string'', False, Some (''Request body''))],
     catalog_tool ''http_delete'' ''http''
       ''Make an HTTP DELETE request''
       [(''url'', ''string'', True, Some (''URL''))],
     catalog_tool ''http_patch'' ''http''
       ''Make an HTTP PATCH request''
       [(''url'', ''string'', True, Some (''URL'')), (''body'', ''string'', False, Some (''Request body''))],
     catalog_tool ''download_file'' ''http''
       ''Download a file from a URL to a local path''
       [(''url'', ''string'', True, Some (''URL to download'')),
        (''destination'', ''string'', True, Some (''Local path to save to''))],
     catalog_tool ''websocket_send'' ''http''
       ''Send a message over a WebSocket connection''
       [(''url'', ''string'', True, Some (''WebSocket URL'')),
        (''message'', ''string'', True, Some (''Message to send''))],
     catalog_tool ''json_parse'' ''data''
       ''Parse a JSON string into a structured object''
       [(''input'', ''string'', True, Some (''JSON string to parse''))],
     catalog_tool ''json_stringify'' ''data''
       ''Convert a JSON object to a formatted string''
       [(''input'', ''object'', True, Some (''JSON object to stringify''))],
     catalog_tool ''json_query'' ''data''
       ''Query a JSON object using a path expression''
       [(''input'', ''object'', True, Some (''JSON object'')),
        (''path'', ''string'', True, Some (''JSONPath expression''))],
     catalog_tool ''csv_read'' ''data''
       ''Read and parse a CSV file''
       [(''path'', ''string'', True, Some (''CSV file path'')),
        (''delimiter'', ''string'', False, Some (''Delimiter (default: comma)''))],
     catalog_tool ''csv_write'' ''data''
       ''Write data to a CSV file''
       [(''path'', ''string'', True, Some (''Output CSV path'')),
        (''data'', ''array'', True, Some (''Array of row objects''))],
     catalog_tool ''git_clone'' ''git''
       ''Clone a Git repository''
       [(''url'', ''string'', True, Some (''Repository URL'')),
        (''destination'', ''string'', False, Some (''Clone destination''))],
     catalog_tool ''git_status'' ''git''
       ''Show working tree status''
       [],
     catalog_tool ''git_add'' ''git''
       ''Stage files for commit''
       [(''paths'', ''array'', True, Some (''File paths to stage''))],
     catalog_tool ''git_commit'' ''git''
       ''Create a commit with a message''
       [(''message'', ''string'', True, Some (''Commit message''))],
     catalog_tool ''git_push'' ''git''
       ''Push commits to a remote''
       [(''remote'', ''string'', False, Some (''Remote name (default: origin)'')),
        (''branch'', ''string'', False, Some (''Branch name''))]]"

definition tool_catalog_3 :: "json list" where
  "tool_catalog_3 =
    [catalog_tool ''git_pull'' ''git''
       ''Pull from a remote''
       [(''remote'', ''string'', False, Some (''Remote name''))],
     catalog_tool ''git_branch'' ''git''
       ''List, create, or delete branches''
       [(''name'', ''string'', False, Some (''Branch name to create'')),
        (''delete'', ''string'', False, Some (''Branch name to delete''))],
     catalog_tool ''git_checkout'' ''git''
       ''Switch branches or restore files''
       [(''branch'', ''string'', True, Some (''Branch name''))],
     catalog_tool ''git_diff'' ''git''
       ''Show changes between commits, working tree, etc.''
       [(''cached'', ''boolean'', False, Some (''Show staged changes'')),
        (''commit'', ''string'', False, Some (''Compare against commit''))],
     catalog_tool ''docker_build'' ''docker''
       ''Build a Docker image from a Dockerfile''
       [(''path'', ''string'', True, Some (''Build context path'')), (''tag'', ''string'', False, Some (''Image tag''))],
     catalog_tool ''docker_run'' ''docker''
       ''Run a Docker container''
       [(''image'', ''string'', True, Some (''Image name'')),
        (''command'', ''string'', False, Some (''Command to run'')),
        (''detach'', ''boolean'', False, Some (''Run in background''))],
     catalog_tool ''docker_stop'' ''docker''
       ''Stop a running container''
       [(''container'', ''string'', True, Some (''Container ID or name''))],
     catalog_tool ''docker_ps'' ''docker''
       ''List running containers''
       [(''all'', ''boolean'', False, Some (''Include stopped containers''))],
     catalog_tool ''docker_logs'' ''docker''
       ''Get container logs''
       [(''container'', ''string'', True, Some (''Container ID or name'')),
        (''tail'', ''number'', False, Some (''Number of lines''))],
     catalog_tool ''docker_exec'' ''docker''
       ''Execute a command in a running container''
       [(''container'', ''string'', True, Some (''Container ID'')),
        (''command'', ''string'', True, Some (''Command to execute''))],
     catalog_tool ''docker_pull'' ''docker''
       ''Pull a Docker image from a registry''
       [(''image'', ''string'', True, Some (''Image name''))],
     catalog_tool ''kubectl_apply'' ''kubernetes''
       ''Apply a Kubernetes manifest''
       [(''manifest'', ''string'', True, Some (''YAML manifest content or file path''))],
     catalog_tool ''kubectl_get'' ''kubernetes''
       ''Get Kubernetes resources''
       [(''resource'', ''string'', True, Some (''Resource type (pods, services, etc.)'')),
        (''namespace'', ''string'', False, Some (''Namespace''))],
     catalog_tool ''kubectl_delete'' ''kubernetes''
       ''Delete Kubernetes resources''
       [(''resource'', ''string'', True, Some (''Resource type'')),
        (''name'', ''string'', True, Some (''Resource name''))],
     catalog_tool ''kubectl_logs'' ''kubernetes''
       ''Get pod logs''
       [(''pod'', ''string'', True, Some (''Pod name'')), (''namespace'', ''string'', False, Some (''Namespace''))],
     catalog_tool ''kubectl_exec'' ''kubernetes''
       ''Execute a command in a pod''
       [(''pod'', ''string'', True, Some (''Pod name'')), (''command'', ''string'', True, Some (''Command''))]]"

definition tool_catalog_4 :: "json list" where
  "tool_catalog_4 =
    [catalog_tool ''kubectl_describe'' ''kubernetes''
       ''Describe a Kubernetes resource''
       [(''resource'', ''string'', True, Some (''Resource type'')),
        (''name'', ''string'', True, Some (''Resource name''))],
     catalog_tool ''memory_set'' ''memory''
       ''Store a key-value pair in agent memory''
       [(''key'', ''string'', True, Some (''Memory key'')), (''value'', ''any'', True, Some (''Value to store''))],
     catalog_tool ''memory_get'' ''memory''
       ''Retrieve a value from agent memory''
       [(''key'', ''string'', True, Some (''Memory key''))],
     catalog_tool ''memory_delete'' ''memory''
       ''Delete a key from agent memory''
       [(''key'', ''string'', True, Some (''Memory key''))],
     catalog_tool ''memory_list'' ''memory''
       ''List all keys in agent memory''
       [],
     catalog_tool ''memory_save'' ''memory''
       ''Persist memory to disk''
       [],
     catalog_tool ''memory_load'' ''memory''
       ''Load memory from disk''
       [],
     catalog_tool ''secret_set'' ''secrets''
       ''Store a secret securely''
       [(''key'', ''string'', True, Some (''Secret name'')), (''value'', ''string'', True, Some (''Secret value''))],
     catalog_tool ''secret_get'' ''secrets''
       ''Retrieve a secret''
       [(''key'', ''string'', True, Some (''Secret name''))],
     catalog_tool ''npm_install'' ''package_managers''
       ''Install npm packages''
       [(''packages'', ''array'', True, Some (''Package names'')),
        (''dev'', ''boolean'', False, Some (''Install as devDependency''))],
     catalog_tool ''pip_install'' ''package_managers''
       ''Install Python packages via pip''
       [(''packages'', ''array'', True, Some (''Package names''))],
     catalog_tool ''cargo_add'' ''package_managers''
       ''Add Rust crate dependencies''
       [(''packages'', ''array'', True, Some (''Crate names''))],
     catalog_tool ''web_search'' ''web''
       ''Search the web via DuckDuckGo''
       [(''query'', ''string'', True, Some (''Search query''))],
     catalog_tool ''web_fetch'' ''web''
       ''Fetch a web page and return its content''
       [(''url'', ''string'', True, Some (''URL to fetch''))],
     catalog_tool ''web_screenshot'' ''web''
       ''Take a screenshot of a web page''
       [(''url'', ''string'', True, Some (''URL to screenshot''))],
     catalog_tool ''create_channel'' ''agent_coordination''
       ''Create a communication channel between agents''
       [(''from_agent'', ''string'', True, Some (''Sender agent ID'')),
        (''to_agent'', ''string'', True, Some (''Receiver agent ID''))],
     catalog_tool ''send_message'' ''agent_coordination''
       ''Send a message on a channel''
       [(''channel'', ''number'', True, Some (''Channel ID'')),
        (''message'', ''string'', True, Some (''Message payload''))],
     catalog_tool ''read_messages'' ''agent_coordination''
       ''Read messages from a channel''
       [(''channel'', ''number'', True, Some (''Channel ID''))],
     catalog_tool ''broadcast'' ''agent_coordination''
       ''Broadcast a message to all agents''
       [(''message'', ''string'', True, Some (''Message to broadcast''))]]"

definition tool_catalog_5 :: "json list" where
  "tool_catalog_5 =
    [catalog_tool ''wait_for'' ''agent_coordination''
       ''Wait for a message or condition''
       [(''channel'', ''number'', True, Some (''Channel ID'')),
        (''timeout'', ''number'', False, Some (''Timeout in seconds''))],
     catalog_tool ''spawn_agent'' ''agent_coordination''
       ''Spawn a new sub-agent''
       [(''prompt'', ''string'', True, Some (''Task prompt for the sub-agent'')),
        (''tools'', ''array'', False, Some (''Tools to make available''))],
     catalog_tool ''lint'' ''dev_tools''
       ''Run linter on the codebase''
       [(''path'', ''string'', False, Some (''Path to lint (default: /workspace)''))],
     catalog_tool ''test'' ''dev_tools''
       ''Run the test suite''
       [(''path'', ''string'', False, Some (''Test path or pattern'')),
        (''framework'', ''string'', False, Some (''Test framework hint''))],
     catalog_tool ''build'' ''dev_tools''
       ''Build the project''
       [(''command'', ''string'', False, Some (''Custom build command''))],
     catalog_tool ''type_check'' ''dev_tools''
       ''Run type checking''
       [(''path'', ''string'', False, Some (''Path to check''))],
     catalog_tool ''format'' ''dev_tools''
       ''Format code using the project formatter''
       [(''path'', ''string'', False, Some (''Path to format''))],
     catalog_tool ''grep'' ''search''
       ''Search for a pattern in files''
       [(''pattern'', ''string'', True, Some (''Regex pattern'')),
        (''path'', ''string'', False, Some (''Directory to search (default: /workspace)'')),
        (''include'', ''string'', False, Some (''File pattern filter (e.g., *.rs)''))],
     catalog_tool ''find_files'' ''search''
       ''Find files by name pattern''
       [(''pattern'', ''string'', True, Some (''Glob pattern (e.g., **/*.rs)'')),
        (''path'', ''string'', False, Some (''Search root (default: /workspace)''))],
     catalog_tool ''search_code'' ''search''
       ''Semantic code search''
       [(''query'', ''string'', True, Some (''Natural language query'')),
        (''path'', ''string'', False, Some (''Search root''))],
     catalog_tool ''read_multiple_files'' ''search''
       ''Read multiple files in one call''
       [(''paths'', ''array'', True, Some (''Array of file paths''))],
     catalog_tool ''echo'' ''utility''
       ''Echo input back (for testing)''
       [(''message'', ''string'', True, Some (''Message to echo''))],
     catalog_tool ''github_list_repos'' ''github''
       ''List repos for a user or org. Requires GITHUB_TOKEN env var.''
       [(''owner'', ''string'', True, None), (''type'', ''string'', False, Some (''all|owner|public|private|member'')),
        (''per_page'', ''integer'', False, None)],
     catalog_tool ''github_get_repo'' ''github''
       ''Get repository details.''
       [(''owner'', ''string'', True, None), (''repo'', ''string'', True, None)],
     catalog_tool ''github_list_issues'' ''github''
       ''List issues in a repository.''
       [(''owner'', ''string'', True, None), (''repo'', ''string'', True, None),
        (''state'', ''string'', False, Some (''open|closed|all'')), (''labels'', ''string'', False, None),
        (''assignee'', ''string'', False, None), (''per_page'', ''integer'', False, None)],
     catalog_tool ''github_get_issue'' ''github''
       ''Get a specific issue.''
       [(''owner'', ''string'', True, None), (''repo'', ''string'', True, None), (''number'', ''integer'', True, None)],
     catalog_tool ''github_create_issue'' ''github''
       ''Create a new issue.''
       [(''owner'', ''string'', True, None), (''repo'', ''string'', True, None), (''title'', ''string'', True, None),
        (''body'', ''string'', False, None), (''labels'', ''array'', False, None),
        (''assignees'', ''array'', False, None)],
     catalog_tool ''github_update_issue'' ''github''
       ''Update an existing issue (title, body, state, labels, assignees).''
       [(''owner'', ''string'', True, None), (''repo'', ''string'', True, None), (''number'', ''integer'', True, None),
        (''title'', ''string'', False, None), (''body'', ''string'', False, None),
        (''state'', ''string'', False, Some (''open|closed''))],
     catalog_tool ''github_add_issue_comment'' ''github''
       ''Add a comment to an issue or PR.''
       [(''owner'', ''string'', True, None), (''repo'', ''string'', True, None), (''number'', ''integer'', True, None),
        (''body'', ''string'', True, None)],
     catalog_tool ''github_list_pull_requests'' ''github''
       ''List pull requests.''
       [(''owner'', ''string'', True, None), (''repo'', ''string'', True, None), (''state'', ''string'', False, None),
        (''per_page'', ''integer'', False, None)],
     catalog_tool ''github_get_pull_request'' ''github''
       ''Get a specific pull request.''
       [(''owner'', ''string'', True, None), (''repo'', ''string'', True, None), (''number'', ''integer'', True, None)],
     catalog_tool ''github_create_pull_request'' ''github''
       ''Create a new pull request.''
       [(''owner'', ''string'', True, None), (''repo'', ''string'', True, None), (''title'', ''string'', True, None),
        (''head'', ''string'', True, None), (''base'', ''string'', False, None), (''body'', ''string'', False, None),
        (''draft'', ''boolean'', False, None)],
     catalog_tool ''github_merge_pull_request'' ''github''
       ''Merge a pull request.''
       [(''owner'', ''string'', True, None), (''repo'', ''string'', True, None), (''number'', ''integer'', True, None),
        (''merge_method'', ''string'', False, Some (''merge|squash|rebase''))],
     catalog_tool ''github_search_code'' ''github''
       ''Search code across GitHub.''
       [(''query'', ''string'', True, Some (''GitHub code search query'')), (''per_page'', ''integer'', False, None)],
     catalog_tool ''github_search_issues'' ''github''
       ''Search issues and PRs across GitHub.''
       [(''query'', ''string'', True, None), (''per_page'', ''integer'', False, None)],
     catalog_tool ''github_get_file_contents'' ''github''
       ''Get file contents from a repository (base64-decoded).''
       [(''owner'', ''string'', True, None), (''repo'', ''string'', True, None), (''path'', ''string'', True, None),
        (''ref'', ''string'', False, None)],
     catalog_tool ''github_list_workflow_runs'' ''github''
       ''List GitHub Actions workflow runs.''
       [(''owner'', ''string'', True, None), (''repo'', ''string'', True, None), (''status'', ''string'', False, None),
        (''branch'', ''string'', False, None), (''per_page'', ''integer'', False, None)],
     catalog_tool ''github_get_commit'' ''github''
       ''Get details of a specific commit.''
       [(''owner'', ''string'', True, None), (''repo'', ''string'', True, None), (''sha'', ''string'', True, None)],
     catalog_tool ''linear_list_teams'' ''linear''
       ''List all Linear teams. Requires LINEAR_API_KEY env var.''
       [],
     catalog_tool ''linear_list_issues'' ''linear''
       ''List Linear issues with optional filters.''
       [(''team_id'', ''string'', False, None), (''state'', ''string'', False, None),
        (''assignee_email'', ''string'', False, None), (''first'', ''integer'', False, None)],
     catalog_tool ''linear_get_issue'' ''linear''
       ''Get a Linear issue by ID or identifier (e.g. ENG-123).''
       [(''id'', ''string'', True, None)]]"

definition tool_catalog_6 :: "json list" where
  "tool_catalog_6 =
    [catalog_tool ''linear_create_issue'' ''linear''
       ''Create a new Linear issue.''
       [(''team_id'', ''string'', True, None), (''title'', ''string'', True, None),
        (''description'', ''string'', False, None),
        (''priority'', ''integer'', False, Some (''0=no priority, 1=urgent, 2=high, 3=medium, 4=low'')),
        (''assignee_id'', ''string'', False, None), (''state_id'', ''string'', False, None)],
     catalog_tool ''linear_update_issue'' ''linear''
       ''Update a Linear issue.''
       [(''id'', ''string'', True, None), (''title'', ''string'', False, None),
        (''description'', ''string'', False, None), (''priority'', ''integer'', False, None),
        (''state_id'', ''string'', False, None), (''assignee_id'', ''string'', False, None)],
     catalog_tool ''linear_add_comment'' ''linear''
       ''Add a comment to a Linear issue.''
       [(''issue_id'', ''string'', True, None), (''body'', ''string'', True, None)],
     catalog_tool ''linear_list_projects'' ''linear''
       ''List Linear projects.''
       [(''first'', ''integer'', False, None)],
     catalog_tool ''linear_list_workflow_states'' ''linear''
       ''List workflow states (statuses) for a team.''
       [(''team_id'', ''string'', False, None)],
     catalog_tool ''slack_post_message'' ''slack''
       ''Post a message to a Slack channel. Requires SLACK_BOT_TOKEN env var.''
       [(''channel'', ''string'', True, Some (''Channel ID or name'')), (''text'', ''string'', True, None),
        (''thread_ts'', ''string'', False, None), (''blocks'', ''array'', False, None)],
     catalog_tool ''slack_list_channels'' ''slack''
       ''List Slack channels.''
       [(''limit'', ''integer'', False, None),
        (''types'', ''string'', False, Some (''public_channel|private_channel|im|mpim''))],
     catalog_tool ''slack_get_channel_history'' ''slack''
       ''Get message history from a Slack channel.''
       [(''channel'', ''string'', True, None), (''limit'', ''integer'', False, None),
        (''oldest'', ''string'', False, None), (''latest'', ''string'', False, None)],
     catalog_tool ''slack_search_messages'' ''slack''
       ''Search Slack messages.''
       [(''query'', ''string'', True, None), (''count'', ''integer'', False, None)],
     catalog_tool ''slack_add_reaction'' ''slack''
       ''Add an emoji reaction to a Slack message.''
       [(''channel'', ''string'', True, None), (''timestamp'', ''string'', True, None),
        (''name'', ''string'', True, Some (''Emoji name without colons (e.g. thumbsup)''))],
     catalog_tool ''slack_upload_file'' ''slack''
       ''Upload a file/snippet to Slack.''
       [(''channels'', ''string'', True, None), (''content'', ''string'', True, None),
        (''filename'', ''string'', False, None), (''title'', ''string'', False, None)],
     catalog_tool ''slack_get_user_info'' ''slack''
       ''Get information about a Slack user.''
       [(''user'', ''string'', True, Some (''Slack user ID (Uxxx)''))],
     catalog_tool ''slack_update_message'' ''slack''
       ''Update an existing Slack message.''
       [(''channel'', ''string'', True, None), (''ts'', ''string'', True, None), (''text'', ''string'', True, None)],
     catalog_tool ''jira_list_projects'' ''jira''
       ''List Jira projects. Requires JIRA_BASE_URL, JIRA_API_TOKEN, JIRA_EMAIL env vars.''
       [(''max_results'', ''integer'', False, None)],
     catalog_tool ''jira_search_issues'' ''jira''
       ''Search Jira issues using JQL.''
       [(''jql'', ''string'', True, Some (''JQL query e.g. '' @ [CHR 0x27] @ ''project = ENG AND status = Open'' @ [CHR 0x27] @ '''')),
        (''max_results'', ''integer'', False, None), (''fields'', ''string'', False, None)],
     catalog_tool ''jira_get_issue'' ''jira''
       ''Get a Jira issue by key.''
       [(''key'', ''string'', True, Some (''Issue key e.g. ENG-123''))],
     catalog_tool ''jira_create_issue'' ''jira''
       ''Create a Jira issue.''
       [(''project_key'', ''string'', True, None), (''summary'', ''string'', True, None),
        (''issue_type'', ''string'', False, Some (''Task|Bug|Story|Epic'')),
        (''description'', ''string'', False, None), (''priority'', ''string'', False, None),
        (''assignee_id'', ''string'', False, None)],
     catalog_tool ''jira_update_issue'' ''jira''
       ''Update a Jira issue fields.''
       [(''key'', ''string'', True, None), (''summary'', ''string'', False, None),
        (''priority'', ''string'', False, None), (''assignee_id'', ''string'', False, None)],
     catalog_tool ''jira_add_comment'' ''jira''
       ''Add a comment to a Jira issue.''
       [(''key'', ''string'', True, None), (''body'', ''string'', True, None)],
     catalog_tool ''jira_transition_issue'' ''jira''
       ''Transition a Jira issue to a new status.''
       [(''key'', ''string'', True, None),
        (''transition_id'', ''string'', True, Some (''Use jira_get_transitions to list available transition IDs''))],
     catalog_tool ''jira_get_transitions'' ''jira''
       ''Get available status transitions for a Jira issue.''
       [(''key'', ''string'', True, None)],
     catalog_tool ''notion_search'' ''notion''
       ''Search Notion pages and databases. Requires NOTION_TOKEN env var.''
       [(''query'', ''string'', False, None), (''filter_type'', ''string'', False, Some (''page|database'')),
        (''page_size'', ''integer'', False, None)],
     catalog_tool ''notion_get_page'' ''notion''
       ''Get a Notion page and its blocks.''
       [(''page_id'', ''string'', True, None)],
     catalog_tool ''notion_create_page'' ''notion''
       ''Create a new Notion page.''
       [(''title'', ''string'', True, None), (''parent_page_id'', ''string'', False, None),
        (''database_id'', ''string'', False, None), (''content'', ''string'', False, None),
        (''properties'', ''object'', False, None)],
     catalog_tool ''notion_append_block'' ''notion''
       ''Append content blocks to a Notion page.''
       [(''block_id'', ''string'', True, None), (''text'', ''string'', False, None),
        (''children'', ''array'', False, None)],
     catalog_tool ''notion_query_database'' ''notion''
       ''Query a Notion database.''
       [(''database_id'', ''string'', True, None), (''filter'', ''object'', False, None),
        (''sorts'', ''array'', False, None), (''page_size'', ''integer'', False, None)],
     catalog_tool ''notion_update_page'' ''notion''
       ''Update a Notion page properties.''
       [(''page_id'', ''string'', True, None), (''properties'', ''object'', False, None),
        (''archived'', ''boolean'', False, None)],
     catalog_tool ''sentry_list_projects'' ''sentry''
       ''List Sentry projects. Requires SENTRY_AUTH_TOKEN and SENTRY_ORG env vars.''
       [],
     catalog_tool ''sentry_list_issues'' ''sentry''
       ''List Sentry error issues.''
       [(''project'', ''string'', True, Some (''Project slug'')),
        (''query'', ''string'', False, Some (''e.g. is:unresolved'')), (''limit'', ''integer'', False, None)],
     catalog_tool ''sentry_get_issue'' ''sentry''
       ''Get a Sentry issue by ID.''
       [(''issue_id'', ''string'', True, None)],
     catalog_tool ''sentry_update_issue'' ''sentry''
       ''Update Sentry issue status (resolve, ignore, unresolve).''
       [(''issue_id'', ''string'', True, None), (''status'', ''string'', True, Some (''resolved|ignored|unresolved''))],
     catalog_tool ''sentry_list_events'' ''sentry''
       ''List events for a Sentry issue.''
       [(''issue_id'', ''string'', True, None), (''limit'', ''integer'', False, None)],
     catalog_tool ''sentry_get_event'' ''sentry''
       ''Get a specific Sentry event.''
       [(''project'', ''string'', True, None), (''event_id'', ''string'', True, None)],
     catalog_tool ''sentry_list_releases'' ''sentry''
       ''List Sentry releases.''
       [(''per_page'', ''integer'', False, None)],
     catalog_tool ''stripe_list_customers'' ''stripe''
       ''List Stripe customers. Requires STRIPE_SECRET_KEY env var.''
       [(''limit'', ''integer'', False, None), (''email'', ''string'', False, None)],
     catalog_tool ''stripe_get_customer'' ''stripe''
       ''Get a Stripe customer by ID.''
       [(''id'', ''string'', True, Some (''cus_...''))],
     catalog_tool ''stripe_list_payment_intents'' ''stripe''
       ''List Stripe payment intents.''
       [(''limit'', ''integer'', False, None), (''customer'', ''string'', False, None)],
     catalog_tool ''stripe_get_payment_intent'' ''stripe''
       ''Get a Stripe payment intent.''
       [(''id'', ''string'', True, Some (''pi_...''))],
     catalog_tool ''stripe_list_subscriptions'' ''stripe''
       ''List Stripe subscriptions.''
       [(''limit'', ''integer'', False, None), (''customer'', ''string'', False, None),
        (''status'', ''string'', False, None)],
     catalog_tool ''stripe_list_products'' ''stripe''
       ''List Stripe products.''
       [(''limit'', ''integer'', False, None), (''active'', ''boolean'', False, None)],
     catalog_tool ''stripe_list_invoices'' ''stripe''
       ''List Stripe invoices.''
       [(''limit'', ''integer'', False, None), (''customer'', ''string'', False, None),
        (''status'', ''string'', False, None)],
     catalog_tool ''stripe_create_customer'' ''stripe''
       ''Create a Stripe customer.''
       [(''email'', ''string'', False, None), (''name'', ''string'', False, None), (''phone'', ''string'', False, None)],
     catalog_tool ''vercel_list_projects'' ''vercel''
       ''List Vercel projects. Requires VERCEL_TOKEN env var.''
       [(''limit'', ''integer'', False, None), (''team_id'', ''string'', False, None)],
     catalog_tool ''vercel_get_project'' ''vercel''
       ''Get a Vercel project.''
       [(''id'', ''string'', True, None), (''team_id'', ''string'', False, None)],
     catalog_tool ''vercel_list_deployments'' ''vercel''
       ''List Vercel deployments.''
       [(''limit'', ''integer'', False, None), (''project_id'', ''string'', False, None),
        (''state'', ''string'', False, None), (''team_id'', ''string'', False, None)],
     catalog_tool ''vercel_get_deployment'' ''vercel''
       ''Get a Vercel deployment by ID or URL.''
       [(''id'', ''string'', True, None), (''team_id'', ''string'', False, None)],
     catalog_tool ''vercel_get_deployment_logs'' ''vercel''
       ''Get logs for a Vercel deployment.''
       [(''id'', ''string'', True, None), (''team_id'', ''string'', False, None)],
     catalog_tool ''vercel_cancel_deployment'' ''vercel''
       ''Cancel an in-progress Vercel deployment.''
       [(''id'', ''string'', True, None), (''team_id'', ''string'', False, None)],
     catalog_tool ''vercel_list_domains'' ''vercel''
       ''List domains on Vercel.''
       [(''team_id'', ''string'', False, None)],
     catalog_tool ''vercel_list_env_vars'' ''vercel''
       ''List environment variables for a Vercel project.''
       [(''project_id'', ''string'', True, None), (''team_id'', ''string'', False, None)],
     catalog_tool ''vercel_create_deployment'' ''vercel''
       ''Trigger a new Vercel deployment.''
       [(''project'', ''string'', True, None), (''git_source'', ''object'', False, None),
        (''env'', ''object'', False, None), (''team_id'', ''string'', False, None)],
     catalog_tool ''pagerduty_list_incidents'' ''pagerduty''
       ''List PagerDuty incidents. Requires PAGERDUTY_TOKEN env var.''
       [(''limit'', ''integer'', False, None), (''status'', ''string'', False, None),
        (''service_id'', ''string'', False, None), (''urgency'', ''string'', False, Some (''high|low''))],
     catalog_tool ''pagerduty_get_incident'' ''pagerduty''
       ''Get a PagerDuty incident.''
       [(''id'', ''string'', True, None)],
     catalog_tool ''pagerduty_acknowledge_incident'' ''pagerduty''
       ''Acknowledge a PagerDuty incident.''
       [(''id'', ''string'', True, None), (''from'', ''string'', True, Some (''Email of the user acknowledging''))],
     catalog_tool ''pagerduty_resolve_incident'' ''pagerduty''
       ''Resolve a PagerDuty incident.''
       [(''id'', ''string'', True, None), (''from'', ''string'', True, None)],
     catalog_tool ''pagerduty_add_note'' ''pagerduty''
       ''Add a note to a PagerDuty incident.''
       [(''id'', ''string'', True, None), (''content'', ''string'', True, None), (''from'', ''string'', True, None)],
     catalog_tool ''pagerduty_list_services'' ''pagerduty''
       ''List PagerDuty services.''
       [(''limit'', ''integer'', False, None)],
     catalog_tool ''pagerduty_list_oncalls'' ''pagerduty''
       ''List current on-call users.''
       [(''schedule_id'', ''string'', False, None), (''user_id'', ''string'', False, None)],
     catalog_tool ''datadog_list_monitors'' ''datadog''
       ''List Datadog monitors. Requires DATADOG_API_KEY and DATADOG_APP_KEY env vars.''
       [(''page_size'', ''integer'', False, None), (''query'', ''string'', False, None),
        (''tags'', ''string'', False, None)],
     catalog_tool ''datadog_get_monitor'' ''datadog''
       ''Get a Datadog monitor by ID.''
       [(''id'', ''integer'', True, None)],
     catalog_tool ''datadog_query_metrics'' ''datadog''
       ''Query Datadog metrics.''
       [(''query'', ''string'', True, Some (''Datadog metric query'')),
        (''from'', ''integer'', True, Some (''Start time (unix timestamp)'')),
        (''to'', ''integer'', True, Some (''End time (unix timestamp)''))],
     catalog_tool ''datadog_list_dashboards'' ''datadog''
       ''List Datadog dashboards.''
       [],
     catalog_tool ''datadog_list_logs'' ''datadog''
       ''Search Datadog logs.''
       [(''query'', ''string'', False, None), (''from'', ''string'', False, Some (''e.g. now-1h'')),
        (''to'', ''string'', False, None), (''limit'', ''integer'', False, None)],
     catalog_tool ''datadog_list_events'' ''datadog''
       ''List Datadog events.''
       [(''start'', ''integer'', True, None), (''end'', ''integer'', True, None), (''tags'', ''string'', False, None),
        (''priority'', ''string'', False, None)],
     catalog_tool ''datadog_mute_monitor'' ''datadog''
       ''Mute a Datadog monitor.''
       [(''id'', ''integer'', True, None), (''end'', ''integer'', False, Some (''Unix timestamp when mute expires''))]]"

definition build_tool_catalog :: "json list" where
  "build_tool_catalog = tool_catalog_1 @ tool_catalog_2 @ tool_catalog_3 @ tool_catalog_4 @ tool_catalog_5 @ tool_catalog_6"
text \<open>\<open>get_category_summary\<close>.\<close>

definition category :: "string \<Rightarrow> nat \<Rightarrow> string \<Rightarrow> string \<times> json" where
  "category name n tools = (name, JObj [(''count'', JInt (int n)), (''tools'', JStr tools)])"

definition category_summary :: "(string \<times> json) list" where
  "category_summary =
    [category ''filesystem'' 11
        (''read_file, write_file, append_file, delete_file, copy_file, move_file, list_files, ''
         @ ''create_directory, delete_directory, get_file_info, file_exists''),
     category ''shell'' 5
        (''run_command, run_script, kill_process, get_env, set_env''),
     category ''http'' 7
        (''http_get, http_post, http_put, http_delete, http_patch, download_file, websocket_send''),
     category ''data'' 5
        (''json_parse, json_stringify, json_query, csv_read, csv_write''),
     category ''git'' 9
        (''git_clone, git_status, git_add, git_commit, git_push, git_pull, git_branch, git_checkout, ''
         @ ''git_diff''),
     category ''docker'' 7
        (''docker_build, docker_run, docker_stop, docker_ps, docker_logs, docker_exec, docker_pull''),
     category ''kubernetes'' 6
        (''kubectl_apply, kubectl_get, kubectl_delete, kubectl_logs, kubectl_exec, kubectl_describe''),
     category ''memory'' 6
        (''memory_set, memory_get, memory_delete, memory_list, memory_save, memory_load''),
     category ''secrets'' 2
        (''secret_set, secret_get''),
     category ''package_managers'' 3
        (''npm_install, pip_install, cargo_add''),
     category ''web'' 3
        (''web_search, web_fetch, web_screenshot''),
     category ''agent_coordination'' 6
        (''create_channel, send_message, read_messages, broadcast, wait_for, spawn_agent''),
     category ''dev_tools'' 6
        (''lint, test, build, type_check, format, discover_tools''),
     category ''search'' 4
        (''grep, find_files, search_code, read_multiple_files''),
     category ''utility'' 1
        (''echo''),
     category ''github'' 16
        (''github_list_repos, github_get_repo, github_list_issues, github_get_issue, github_create_issue, ''
         @ ''github_update_issue, github_add_issue_comment, github_list_pull_requests, ''
         @ ''github_get_pull_request, github_create_pull_request, github_merge_pull_request, ''
         @ ''github_search_code, github_search_issues, github_get_file_contents, github_list_workflow_runs, ''
         @ ''github_get_commit''),
     category ''linear'' 8
        (''linear_list_teams, linear_list_issues, linear_get_issue, linear_create_issue, ''
         @ ''linear_update_issue, linear_add_comment, linear_list_projects, linear_list_workflow_states''),
     category ''slack'' 8
        (''slack_post_message, slack_list_channels, slack_get_channel_history, slack_search_messages, ''
         @ ''slack_add_reaction, slack_upload_file, slack_get_user_info, slack_update_message''),
     category ''jira'' 8
        (''jira_list_projects, jira_search_issues, jira_get_issue, jira_create_issue, jira_update_issue, ''
         @ ''jira_add_comment, jira_transition_issue, jira_get_transitions''),
     category ''notion'' 6
        (''notion_search, notion_get_page, notion_create_page, notion_append_block, ''
         @ ''notion_query_database, notion_update_page''),
     category ''sentry'' 7
        (''sentry_list_projects, sentry_list_issues, sentry_get_issue, sentry_update_issue, ''
         @ ''sentry_list_events, sentry_get_event, sentry_list_releases''),
     category ''stripe'' 8
        (''stripe_list_customers, stripe_get_customer, stripe_list_payment_intents, ''
         @ ''stripe_get_payment_intent, stripe_list_subscriptions, stripe_list_products, ''
         @ ''stripe_list_invoices, stripe_create_customer''),
     category ''vercel'' 9
        (''vercel_list_projects, vercel_get_project, vercel_list_deployments, vercel_get_deployment, ''
         @ ''vercel_get_deployment_logs, vercel_cancel_deployment, vercel_list_domains, ''
         @ ''vercel_list_env_vars, vercel_create_deployment''),
     category ''pagerduty'' 7
        (''pagerduty_list_incidents, pagerduty_get_incident, pagerduty_acknowledge_incident, ''
         @ ''pagerduty_resolve_incident, pagerduty_add_note, pagerduty_list_services, pagerduty_list_oncalls''),
     category ''datadog'' 7
        (''datadog_list_monitors, datadog_get_monitor, datadog_query_metrics, datadog_list_dashboards, ''
         @ ''datadog_list_logs, datadog_list_events, datadog_mute_monitor'')]"

section \<open>Selecting tools\<close>

definition tool_name :: "json \<Rightarrow> string" where
  "tool_name t = unwrap_or [] (jget_str t ''name'')"

definition list_all_tools :: "string list" where
  "list_all_tools = sort registered_tools"

definition has_tool :: "string \<Rightarrow> bool" where
  "has_tool n \<longleftrightarrow> n \<in> set registered_tools"

definition tool_count :: nat where
  "tool_count = length registered_tools"

definition filter_tools :: "string list \<Rightarrow> json list" where
  "filter_tools allowed =
     filter (\<lambda>t. case jget_str t ''name'' of None \<Rightarrow> False | Some n \<Rightarrow> n \<in> set allowed) gemini_tool_declarations"

text \<open>The forms for the providers.\<close>

definition no_params :: json where
  "no_params = JObj [(''type'', JStr ''object''), (''properties'', JObj [])]"

definition tool_description :: "json \<Rightarrow> string" where
  "tool_description t = unwrap_or [] (jget_str t ''description'')"

definition gemini_tools :: "string list \<Rightarrow> json list" where
  "gemini_tools allowed = filter_tools allowed"

definition openai_declaration :: "json \<Rightarrow> json" where
  "openai_declaration t = JObj [(''type'', JStr ''function''), (''function'', JObj [(''name'', JStr (tool_name t)),
     (''description'', JStr (tool_description t)), (''parameters'', unwrap_or no_params (jget t ''parameters''))])]"

definition openai_declarations :: "string list \<Rightarrow> json list" where
  "openai_declarations allowed = map openai_declaration (filter_tools allowed)"

definition anthropic_declaration :: "json \<Rightarrow> json" where
  "anthropic_declaration t = JObj [(''name'', JStr (tool_name t)), (''description'', JStr (tool_description t)),
     (''input_schema'', unwrap_or no_params (jget t ''parameters''))]"

definition anthropic_declarations :: "string list \<Rightarrow> json list" where
  "anthropic_declarations allowed = map anthropic_declaration (filter_tools allowed)"

text \<open>\<open>discover_tools\<close>: the catalog, and how to use it.\<close>

definition invocation_format :: json where
  "invocation_format = JObj
     [(''description'', JStr (''To invoke any tool, use the tool call mechanism provided by the LLM API. The tool name and ''
         @ ''arguments are sent to the agentd daemon via Unix socket as:'')),
      (''socket_request'', JObj [(''request_type'', JStr ''invoke_tool''), (''sandbox'', JStr ''<sandbox_id>''),
         (''container'', JStr ''<container_id>''), (''name'', JStr ''<tool_name>''),
         (''input'', JObj [(''<param>'', JStr ''<value>'')])]),
      (''note'', JStr (''You do not construct socket requests directly. Use the LLM tool-calling mechanism. ''
         @ ''This format is shown for reference only.''))]"

definition discover_tools :: json where
  "discover_tools = JObj
     [(''total_tools'', JInt (int (length build_tool_catalog))), (''categories'', JObj category_summary),
      (''tools'', JArr build_tool_catalog), (''invocation_format'', invocation_format),
      (''working_directory'', JStr (''/workspace '' @ em_dash @ '' ALL file operations must use this prefix'')),
      (''rules'', JArr (map JStr
         [''ALWAYS use /workspace prefix for ALL file paths'',
          ''Write COMPLETE, WORKING code '' @ em_dash @ '' not placeholders or stubs'',
          ''Implement FULL functionality '' @ em_dash @ '' don'' @ [CHR 0x27] @ ''t leave TODOs or empty functions'',
          ''Include proper error handling and logging'',
          ''Test your code before declaring completion'']))]"

section \<open>Names and parameters\<close>

text \<open>The required parameters of a declaration, and the parameters and the category of an entry of the catalog.\<close>

definition required_params :: "json \<Rightarrow> string list" where
  "required_params t =
     (case Option.bind (jget t ''parameters'') (\<lambda>p. Option.bind (jget p ''required'') jarr) of
        None \<Rightarrow> [] | Some rs \<Rightarrow> map (\<lambda>r. unwrap_or [] (jstr r)) rs)"

definition offered_params :: "json \<Rightarrow> string list" where
  "offered_params t = (case jget t ''parameters'' of Some (JObj kvs) \<Rightarrow> map fst kvs | _ \<Rightarrow> [])"

definition tool_category :: "json \<Rightarrow> string" where
  "tool_category t = unwrap_or [] (jget_str t ''category'')"

lemma declare_tool_simps [simp]:
  "tool_name (declare_tool n d ps rs) = n"
  "jget_str (declare_tool n d ps rs) ''name'' = Some n"
  "required_params (declare_tool n d ps rs) = rs"
  by (simp_all add: tool_name_def declare_tool_def jget_str_def required_params_def comp_def)

lemma catalog_tool_simps [simp]:
  "tool_name (catalog_tool n c d ps) = n"
  "tool_category (catalog_tool n c d ps) = c"
  "offered_params (catalog_tool n c d ps) = map fst ps"
  by (simp_all add: tool_name_def tool_category_def catalog_tool_def jget_str_def offered_params_def comp_def case_prod_unfold)

text \<open>The simplifier leaves the texts of an entry alone.\<close>

lemma declare_tool_cong [cong]: "n = n' \<Longrightarrow> declare_tool n d ps rs = declare_tool n' d ps rs"
  by simp

lemma catalog_tool_cong [cong]: "n = n' \<Longrightarrow> catalog_tool n c d ps = catalog_tool n' c d ps"
  by simp

lemmas declarations = gemini_tool_declarations_def tool_declarations_1_def tool_declarations_2_def
  tool_declarations_3_def tool_declarations_4_def tool_declarations_5_def tool_declarations_6_def tool_declarations_7_def

lemmas registry = registered_tools_def registered_tools_1_def registered_tools_2_def registered_tools_3_def

lemmas catalog = build_tool_catalog_def tool_catalog_1_def tool_catalog_2_def tool_catalog_3_def tool_catalog_4_def
  tool_catalog_5_def tool_catalog_6_def

lemma declared_names: "map tool_name gemini_tool_declarations = registered_tools"
  by (simp add: declarations registry)

lemma registered_distinct: "distinct registered_tools"
  unfolding registry by code_simp

section \<open>Where catalog and registry agree\<close>

definition integrations :: "string list" where
  "integrations = [''github'', ''linear'', ''slack'', ''jira'', ''notion'', ''sentry'', ''stripe'', ''vercel'',
     ''pagerduty'', ''datadog'']"

text \<open>
  The first 80 entries of the catalog are the registered tools but the last, with the tool \<open>echo\<close> moved
  behind the four that search; the other entries belong to the integrations.
\<close>

definition echo_last :: "'a list \<Rightarrow> 'a list" where
  "echo_last xs = take 75 xs @ take 4 (drop 76 xs) @ [xs ! 75]"

lemma catalog_front: "map tool_name (take 80 build_tool_catalog) = echo_last registered_tools"
  by (simp add: echo_last_def registry catalog)

lemma catalog_front_category: "list_all (\<lambda>t. tool_category t \<notin> set integrations) (take 80 build_tool_catalog)"
  by (simp add: catalog integrations_def)

lemma catalog_back:
  "list_all (\<lambda>t. tool_category t \<in> set integrations \<and> prefix (tool_category t @ ''_'') (tool_name t)) (drop 80 build_tool_catalog)"
  by (simp add: catalog integrations_def)

lemma registered_no_integration:
  "list_all (\<lambda>n. list_all (\<lambda>c. \<not> prefix (c @ ''_'') n) integrations) registered_tools"
  unfolding registry integrations_def by code_simp

lemma length_registered: "length registered_tools = 81"
  by (simp add: registry)

lemma length_catalog: "length build_tool_catalog = 164"
  by (simp add: catalog)

lemma set_echo_last: "79 < length xs \<Longrightarrow> set (echo_last xs) \<subseteq> set xs"
  by (auto simp: echo_last_def dest: in_set_takeD in_set_dropD)

lemma catalog_front_registered: "t \<in> set (take 80 build_tool_catalog) \<Longrightarrow> has_tool (tool_name t)"
proof -
  assume "t \<in> set (take 80 build_tool_catalog)"
  then have "tool_name t \<in> set (echo_last registered_tools)"
    by (metis catalog_front image_eqI list.set_map)
  then show ?thesis using set_echo_last [of registered_tools] by (auto simp: has_tool_def length_registered)
qed

lemma catalog_back_unregistered: "t \<in> set (drop 80 build_tool_catalog) \<Longrightarrow> \<not> has_tool (tool_name t)"
proof
  assume t: "t \<in> set (drop 80 build_tool_catalog)" and "has_tool (tool_name t)"
  then have "\<not> prefix (tool_category t @ ''_'') (tool_name t)" if "tool_category t \<in> set integrations"
    using registered_no_integration that by (auto simp: has_tool_def list_all_iff)
  then show False using t catalog_back by (auto simp: list_all_iff)
qed

lemma catalog_split: "set build_tool_catalog = set (take 80 build_tool_catalog) \<union> set (drop 80 build_tool_catalog)"
  by (metis append_take_drop_id set_append)

text \<open>
  A tool whose declaration requires a parameter that the catalog does not offer for it: an agent that follows the
  catalog cannot call it.
\<close>

definition misled :: "string \<Rightarrow> bool" where
  "misled n \<longleftrightarrow> (\<exists>t \<in> set gemini_tool_declarations. \<exists>c \<in> set build_tool_catalog.
     tool_name t = n \<and> tool_name c = n \<and> \<not> set (required_params t) \<subseteq> set (offered_params c))"

definition misled_tools :: "string list" where
  "misled_tools = [''copy_file'', ''move_file'', ''run_script'', ''get_env'', ''set_env'', ''download_file'',
     ''json_parse'', ''json_stringify'', ''json_query'', ''csv_write'', ''git_clone'', ''git_status'', ''git_add'',
     ''git_commit'', ''git_push'', ''git_pull'', ''git_branch'', ''git_checkout'', ''git_diff'', ''docker_exec'',
     ''kubectl_exec'', ''memory_save'', ''memory_load'', ''secret_set'', ''secret_get'', ''pip_install'', ''cargo_add'',
     ''web_screenshot'', ''create_channel'', ''spawn_agent'', ''build'']"

definition bad_pair :: "json \<times> json \<Rightarrow> bool" where
  "bad_pair = (\<lambda>(t, c). \<not> set (required_params t) \<subseteq> set (offered_params c))"

lemma bad_pairs:
  "map (\<lambda>(t, c). tool_name t) (filter bad_pair (zip (echo_last gemini_tool_declarations) (take 80 build_tool_catalog)))
     = misled_tools"
  by (simp add: echo_last_def declarations catalog bad_pair_def misled_tools_def)

lemma map_echo_last: "75 < length xs \<Longrightarrow> map f (echo_last xs) = echo_last (map f xs)"
  by (simp add: echo_last_def take_map drop_map)

lemma declared_inj: "t \<in> set gemini_tool_declarations \<Longrightarrow> t' \<in> set gemini_tool_declarations \<Longrightarrow>
  tool_name t = tool_name t' \<Longrightarrow> t = t'"
  using registered_distinct declared_names by (metis distinct_map inj_onD)

lemma pairs_same_name:
  assumes "i < 80"
  shows "tool_name (echo_last gemini_tool_declarations ! i) = tool_name (take 80 build_tool_catalog ! i)"
proof -
  have n: "length gemini_tool_declarations = 81" using declared_names length_registered by (metis length_map)
  have "map tool_name (echo_last gemini_tool_declarations) = map tool_name (take 80 build_tool_catalog)"
    by (simp add: map_echo_last n declared_names catalog_front)
  moreover have "length (echo_last gemini_tool_declarations) = 80" by (simp add: echo_last_def n)
  ultimately show ?thesis using assms by (metis length_map nth_map)
qed

lemma echo_last_declared: "set (echo_last gemini_tool_declarations) \<subseteq> set gemini_tool_declarations"
  using declared_names length_registered by (intro set_echo_last) (metis length_map Suc_numeral lessI semiring_norm numeral_less_iff less_Suc_eq_le order_refl nat_less_le)

lemma declared_fields:
  "list_all (\<lambda>t. jget_str t ''name'' = Some (tool_name t) \<and> jget t ''parameters'' \<noteq> None) gemini_tool_declarations"
  by (simp add: declarations) (simp add: declare_tool_def)

lemma filter_tools_alt: "filter_tools allowed = filter (\<lambda>t. tool_name t \<in> set allowed) gemini_tool_declarations"
  unfolding filter_tools_def using declared_fields by (intro filter_cong) (auto simp: list_all_iff)

lemma filter_tools_names: "map tool_name (filter_tools allowed) = filter (\<lambda>n. n \<in> set allowed) registered_tools"
  by (simp add: filter_tools_alt declared_names [symmetric] filter_map comp_def)

lemma filter_tools_params: "t \<in> set (filter_tools allowed) \<Longrightarrow> \<exists>p. jget t ''parameters'' = Some p"
  using declared_fields by (auto simp: filter_tools_alt list_all_iff)

section \<open>Properties\<close>

text \<open>
  A model is offered the declarations of exactly those registered tools that its agent may use, in
  all three forms for the providers, in the order of the registry and with the same parameters.
\<close>

theorem models_get_allowed_tools:
  "map tool_name (gemini_tools allowed) = filter (\<lambda>n. n \<in> set allowed) registered_tools
   \<and> map (\<lambda>t. map_option tool_name (jget t ''function'')) (openai_declarations allowed)
       = map Some (filter (\<lambda>n. n \<in> set allowed) registered_tools)
   \<and> map tool_name (anthropic_declarations allowed) = filter (\<lambda>n. n \<in> set allowed) registered_tools
   \<and> map (\<lambda>t. jget t ''input_schema'') (anthropic_declarations allowed) = map (\<lambda>t. jget t ''parameters'') (gemini_tools allowed)
   \<and> map (\<lambda>t. Option.bind (jget t ''function'') (\<lambda>f. jget f ''parameters'')) (openai_declarations allowed)
       = map (\<lambda>t. jget t ''parameters'') (gemini_tools allowed)"
proof -
  have "tool_name (openai_declaration t) = []" "map_option tool_name (jget (openai_declaration t) ''function'') = Some (tool_name t)"
    "tool_name (anthropic_declaration t) = tool_name t" for t
    by (simp_all add: openai_declaration_def anthropic_declaration_def tool_name_def jget_str_def)
  moreover have "map (\<lambda>t. jget (anthropic_declaration t) ''input_schema'') (filter_tools allowed)
      = map (\<lambda>t. jget t ''parameters'') (filter_tools allowed)"
    by (rule map_cong) (auto simp: anthropic_declaration_def dest: filter_tools_params)
  moreover have "map (\<lambda>t. Option.bind (jget (openai_declaration t) ''function'') (\<lambda>f. jget f ''parameters'')) (filter_tools allowed)
      = map (\<lambda>t. jget t ''parameters'') (filter_tools allowed)"
    by (rule map_cong) (auto simp: openai_declaration_def dest: filter_tools_params)
  ultimately show ?thesis
    by (simp add: gemini_tools_def openai_declarations_def anthropic_declarations_def comp_def filter_tools_names [symmetric])
qed

text \<open>
  The catalog that every agent gets names 164 tools, but the daemon knows only those 80 that are not
  of an integration; a call of any of the other 84 is answered with \<open>unknown tool\<close>.
\<close>

theorem catalog_names_unknown_tools:
  "filter (\<lambda>t. has_tool (tool_name t)) build_tool_catalog
     = filter (\<lambda>t. tool_category t \<notin> set integrations) build_tool_catalog
   \<and> length build_tool_catalog = 164 \<and> length (filter (\<lambda>t. has_tool (tool_name t)) build_tool_catalog) = 80"
proof (intro conjI)
  have fore: "\<forall>t \<in> set (take 80 build_tool_catalog). has_tool (tool_name t) \<and> tool_category t \<notin> set integrations"
    using catalog_front_registered catalog_front_category by (simp add: list_all_iff)
  have rear: "\<forall>t \<in> set (drop 80 build_tool_catalog). \<not> has_tool (tool_name t) \<and> tool_category t \<in> set integrations"
    using catalog_back_unregistered catalog_back by (simp add: list_all_iff)
  show "filter (\<lambda>t. has_tool (tool_name t)) build_tool_catalog
     = filter (\<lambda>t. tool_category t \<notin> set integrations) build_tool_catalog"
    by (rule filter_cong) (use fore rear catalog_split in auto)
  have "filter (\<lambda>t. has_tool (tool_name t)) (take 80 build_tool_catalog @ drop 80 build_tool_catalog)
      = take 80 build_tool_catalog"
    unfolding filter_append using fore rear by (simp add: filter_id_conv filter_empty_conv)
  then show "length (filter (\<lambda>t. has_tool (tool_name t)) build_tool_catalog) = 80" by (simp add: length_catalog)
qed (rule length_catalog)

text \<open>
  C35. For 31 of the registered tools the catalog does not offer a parameter that the declaration
  requires, such as \<open>from\<close> and \<open>to\<close> of \<open>copy_file\<close>, which it calls \<open>source\<close> and \<open>destination\<close>.
\<close>

theorem catalog_misleads: "misled n \<longleftrightarrow> n \<in> set misled_tools"
proof
  let ?ds = "echo_last gemini_tool_declarations" and ?cs = "take 80 build_tool_catalog"
  have n: "length gemini_tool_declarations = 81" using declared_names length_registered by (metis length_map)
  have ld: "length ?ds = 80" "length ?cs = 80" by (simp_all add: echo_last_def n length_catalog)
  {
    assume "misled n"
    then obtain t c where tc: "t \<in> set gemini_tool_declarations" "c \<in> set build_tool_catalog" "tool_name t = n"
      "tool_name c = n" "bad_pair (t, c)" by (auto simp: misled_def bad_pair_def)
    have "has_tool n" using tc(1,3) declared_names by (metis has_tool_def image_eqI list.set_map)
    then have "c \<in> set ?cs" using tc(2,4) catalog_split catalog_back_unregistered by auto
    then obtain i where i: "i < 80" "c = ?cs ! i" using ld(2) by (metis in_set_conv_nth)
    have "?ds ! i \<in> set gemini_tool_declarations" using i(1) ld(1) echo_last_declared by (metis nth_mem subsetD)
    moreover have "tool_name (?ds ! i) = n" using pairs_same_name [OF i(1)] i(2) tc(4) by simp
    ultimately have "t = ?ds ! i" using declared_inj tc(1,3) by blast
    then have "(t, c) \<in> set (zip ?ds ?cs)" using i ld by (auto simp: set_zip)
    then have "n \<in> set (map (\<lambda>(t, c). tool_name t) (filter bad_pair (zip ?ds ?cs)))"
      using tc(3,5) by force
    then show "n \<in> set misled_tools" by (simp only: bad_pairs)
  next
    assume "n \<in> set misled_tools"
    then have "n \<in> set (map (\<lambda>(t, c). tool_name t) (filter bad_pair (zip ?ds ?cs)))" by (simp only: bad_pairs)
    then obtain t c where tc: "(t, c) \<in> set (zip ?ds ?cs)" "bad_pair (t, c)" "n = tool_name t" by auto
    then obtain i where i: "i < 80" "t = ?ds ! i" "c = ?cs ! i" using ld by (auto simp: set_zip)
    have "t \<in> set gemini_tool_declarations" using tc(1) echo_last_declared by (auto dest: set_zip_leftD)
    moreover have "c \<in> set build_tool_catalog" using tc(1) catalog_split by (auto dest: set_zip_rightD)
    moreover have "tool_name c = n" using pairs_same_name [OF i(1)] i tc(3) by simp
    ultimately show "misled n" using tc(2,3) by (auto simp: misled_def bad_pair_def)
  }
qed

end
