(* ===== verification/Agent_Exec.thy ===== *)
theory Agent_Exec
  imports Checkpoints Socket_Client Tool_Catalog
begin

text \<open>
  An agent at work on a task (\<open>agentd/src/orchestration/agent_execution.rs\<close>): rounds of a model whose tool calls
  go to the socket server, a checkpoint after each call, and two levels of retries. The tool call itself is
  \<open>invoke_tool_via_socket\<close> of \<open>agentd/src/orchestration/mod.rs\<close>; the conversation is the one of
  \<open>agentd/src/orchestration/provider_client.rs\<close>. A result \<open>None\<close> is a request that never returns.
\<close>

section \<open>Conversation\<close>

record agent_call =
  ac_id :: string
  ac_name :: string
  ac_args :: json

datatype agent_message =
    UserMessage string
  | AssistantText string
  | AssistantToolCalls "agent_call list"
  | ToolResults "(string \<times> string \<times> json) list"

type_synonym agent_conversation = "agent_message list"

record round_result =
  rr_text :: "string option"
  rr_calls :: "agent_call list"

definition agent_push_user :: "string \<Rightarrow> agent_conversation \<Rightarrow> agent_conversation" where
  "agent_push_user t conv = conv @ [UserMessage t]"

definition agent_push_results :: "(agent_call \<times> json) list \<Rightarrow> agent_conversation \<Rightarrow> agent_conversation" where
  "agent_push_results rs conv = conv @ [ToolResults (map (\<lambda>(c, v). (ac_id c, ac_name c, v)) rs)]"

text \<open>What every streaming client adds to the conversation at the end of a round: a text is dropped when there are calls.\<close>

definition agent_push_assistant :: "round_result \<Rightarrow> agent_conversation \<Rightarrow> agent_conversation" where
  "agent_push_assistant r conv =
     (if rr_calls r = [] then (case rr_text r of None \<Rightarrow> conv | Some t \<Rightarrow> conv @ [AssistantText t])
      else conv @ [AssistantToolCalls (rr_calls r)])"

section \<open>State\<close>

text \<open>The events for the user interface (\<open>Tui\<close>) and of the stream for other processes (\<open>Stream\<close>).\<close>

datatype exec_event =
    TuiThinking string string
  | TuiToolCall nat string string
  | TuiToolResult nat string bool string
  | StreamAgentStarted string string string
  | StreamToolCall string string string json
  | StreamToolResult string string u64 bool
  | StreamAgentCompleted string string
  | StreamAgentFailed string string

record 'w agent_env =
  xe_os :: "'w checkpoint_os"
  xe_manager :: checkpoint_manager
  xe_round :: "string \<Rightarrow> agent_conversation \<Rightarrow> string list \<Rightarrow> 'w \<Rightarrow> (string + round_result) \<times> 'w"
  xe_system :: "string \<Rightarrow> string"
  xe_compact :: "json \<Rightarrow> string"
  xe_pretty :: "json \<Rightarrow> string"
  xe_debug_json :: "json \<Rightarrow> string"
  xe_debug_list :: "string list \<Rightarrow> string"
  xe_now :: "'w \<Rightarrow> u64"
  xe_elapsed :: "'w \<Rightarrow> u64"
  xe_listening :: bool
  xe_verbose :: bool
  xe_worker :: nat

text \<open>The world, the log, the events sent so far, and how many rounds of the model there were.\<close>

record 'w agent_state =
  xs_world :: 'w
  xs_log :: checkpoint_log
  xs_events :: "exec_event list"
  xs_rounds :: nat

datatype 'a run = Finished 'a | Panicked

definition MAX_TOOL_ROUNDS :: nat where "MAX_TOOL_ROUNDS = 256"
definition max_tier1_retries :: nat where "max_tier1_retries = 3"
definition max_tier2_retries :: nat where "max_tier2_retries = 2"

definition send_event :: "exec_event \<Rightarrow> 'w agent_state \<Rightarrow> 'w agent_state" where
  "send_event e s = s\<lparr> xs_events := xs_events s @ [e] \<rparr>"

definition send_event_if :: "bool \<Rightarrow> exec_event \<Rightarrow> 'w agent_state \<Rightarrow> 'w agent_state" where
  "send_event_if b e s = (if b then send_event e s else s)"

section \<open>Text\<close>

text \<open>\<open>chars().take(n)\<close> on UTF-8 bytes.\<close>

fun take_chars :: "nat \<Rightarrow> string \<Rightarrow> string" where
  "take_chars 0 s = []"
| "take_chars (Suc n) [] = []"
| "take_chars (Suc n) (c # s) = c # takeWhile continuation_byte s @ take_chars n (dropWhile continuation_byte s)"

text \<open>The slices \<open>[..8.min(len)]\<close> and \<open>[..200]\<close>, which panic inside a character.\<close>

definition short_id :: "string \<Rightarrow> string option" where
  "short_id s = (let n = min 8 (length s) in if char_boundary s n then Some (take n s) else None)"

definition preview :: "string \<Rightarrow> string option" where
  "preview s = (if 200 < length s then if char_boundary s 200 then Some (take 200 s @ ''...'') else None else Some s)"

section \<open>Tool calls\<close>

definition tool_error :: "string \<Rightarrow> json" where
  "tool_error e = JObj [(''error'', JStr e), (''success'', JBool False)]"

definition tool_request :: "string \<Rightarrow> string \<Rightarrow> string \<Rightarrow> json \<Rightarrow> json" where
  "tool_request sandbox container name input = JObj [(''request_type'', JStr ''invoke_tool''),
     (''sandbox'', JStr sandbox), (''container'', JStr container), (''name'', JStr name), (''input'', input)]"

text \<open>What \<open>invoke_tool_via_socket\<close> makes of an answer.\<close>

definition tool_answer :: "json \<Rightarrow> json" where
  "tool_answer resp =
     (if jget_str resp ''status'' = Some ''ok'' then unwrap_or (JObj []) (jget resp ''result'')
      else tool_error (unwrap_or ''tool error'' (jget_str resp ''error'')))"

definition invoke_tool_via_socket ::
  "'w agent_env \<Rightarrow> string \<Rightarrow> string \<Rightarrow> string \<Rightarrow> json \<Rightarrow> 'w \<Rightarrow> ((string + json) \<times> 'w) option" where
  "invoke_tool_via_socket env sandbox container name input w =
     (if name \<notin> set list_all_tools
      then Some (Inr (tool_error (''unknown tool '' @ [CHR 0x27] @ name @ [CHR 0x27])), w)
      else case ck_request (xe_os env) (cm_socket_path (xe_manager env)) (tool_request sandbox container name input) w of
             None \<Rightarrow> None
           | Some (Inl e, w1) \<Rightarrow> Some (Inl e, w1)
           | Some (Inr resp, w1) \<Rightarrow> Some (Inr (tool_answer resp), w1))"

text \<open>\<open>execute_tool\<close>, in the form of an attempt: every error may be retried.\<close>

definition tool_attempt ::
  "'w agent_env \<Rightarrow> string \<Rightarrow> string \<Rightarrow> string \<Rightarrow> json \<Rightarrow> ('w, json) attempt" where
  "tool_attempt env sandbox container name input w =
     (case invoke_tool_via_socket env sandbox container name input w of
        None \<Rightarrow> None
      | Some (Inl e, w1) \<Rightarrow> Some (Inl (e, True), w1)
      | Some (Inr v, w1) \<Rightarrow> Some (Inr v, w1))"

definition execute_tool_with_retry ::
  "'w agent_env \<Rightarrow> string \<Rightarrow> string \<Rightarrow> string \<Rightarrow> json \<Rightarrow> 'w \<Rightarrow> ((string + json) \<times> 'w) option" where
  "execute_tool_with_retry env sandbox container name input w =
     retry (tool_attempt env sandbox container name input) max_tier1_retries w"

section \<open>Checkpoints\<close>

text \<open>
  The checkpoint of a call, with an empty path when the snapshot failed; the log is saved twice, and an error of
  saving ends the attempt.
\<close>

definition record_call ::
  "'w agent_env \<Rightarrow> agent_handle \<Rightarrow> agent_call \<Rightarrow> json \<Rightarrow> 'w agent_state \<Rightarrow> ((string + unit) \<times> 'w agent_state) option" where
  "record_call env agent call result s =
     (let (i, l1) = next_checkpoint_id (xs_log s) in
      case create_snapshot (xe_os env) (xe_manager env) (ah_agent_id agent) i (ah_sandbox_name agent)
             (ah_container_id agent) (xs_world s) of
        None \<Rightarrow> None
      | Some (r, w1) \<Rightarrow>
          let c = \<lparr> cp_id = i, cp_tool_call = ac_name call, cp_tool_args = ac_args call, cp_tool_result = result,
                    cp_timestamp = xe_now env w1,
                    cp_layer_snapshot_path = (case r of Inl _ \<Rightarrow> [] | Inr p \<Rightarrow> p) \<rparr> in
          case add_checkpoint (xe_os env) c l1 w1 of
            (Inl e, l2, w2) \<Rightarrow> Some (Inl e, s\<lparr> xs_world := w2, xs_log := l2 \<rparr>)
          | (Inr _, l2, w2) \<Rightarrow>
              (case prune (xe_os env) 50 l2 w2 of
                 (r3, l3, w3) \<Rightarrow> Some (r3, s\<lparr> xs_world := w3, xs_log := l3 \<rparr>)))"

section \<open>One call\<close>

definition announce_call :: "'w agent_env \<Rightarrow> agent_handle \<Rightarrow> agent_call \<Rightarrow> 'w agent_state \<Rightarrow> 'w agent_state" where
  "announce_call env agent call s =
     send_event (StreamToolCall (ah_agent_id agent) (ah_sandbox_name agent) (ac_name call) (ac_args call))
       (send_event_if (xe_listening env) (TuiToolCall (xe_worker env) (ac_name call) (take_chars 200 (xe_compact env (ac_args call)))) s)"

definition is_error_result :: "json \<Rightarrow> bool" where
  "is_error_result v \<longleftrightarrow> jget v ''error'' \<noteq> None"

text \<open>The event with the preview of a result; \<open>None\<close> if building it panics.\<close>

definition announce_result ::
  "'w agent_env \<Rightarrow> agent_call \<Rightarrow> json \<Rightarrow> 'w agent_state \<Rightarrow> 'w agent_state option" where
  "announce_result env call v s =
     (if \<not> xe_listening env then Some s
      else map_option (\<lambda>p. send_event (TuiToolResult (xe_worker env) (ac_name call) (\<not> is_error_result v) p) s)
             (preview (xe_compact env v)))"

definition run_agent_call ::
  "'w agent_env \<Rightarrow> agent_handle \<Rightarrow> agent_call \<Rightarrow> 'w agent_state \<Rightarrow> ((string + json) run \<times> 'w agent_state) option" where
  "run_agent_call env agent call s =
     (let s1 = announce_call env agent call s in
      case execute_tool_with_retry env (ah_sandbox_name agent) (ah_container_id agent) (ac_name call) (ac_args call)
             (xs_world s1) of
        None \<Rightarrow> None
      | Some (Inl e, w) \<Rightarrow>
          Some (Finished (Inl e), send_event (StreamToolResult (ah_agent_id agent) (ac_name call) (xe_elapsed env w) False)
                  (s1\<lparr> xs_world := w \<rparr>))
      | Some (Inr v, w) \<Rightarrow>
          let s2 = send_event (StreamToolResult (ah_agent_id agent) (ac_name call) (xe_elapsed env w) (\<not> is_error_result v))
                     (s1\<lparr> xs_world := w \<rparr>) in
          case announce_result env call v s2 of
            None \<Rightarrow> Some (Panicked, s2)
          | Some s3 \<Rightarrow>
              (case record_call env agent call v s3 of
                 None \<Rightarrow> None
               | Some (Inl e, s4) \<Rightarrow> Some (Finished (Inl e), s4)
               | Some (Inr _, s4) \<Rightarrow>
                   if xe_verbose env \<and> preview (xe_pretty env v) = None then Some (Panicked, s4)
                   else Some (Finished (Inr v), s4)))"

fun run_agent_calls ::
  "'w agent_env \<Rightarrow> agent_handle \<Rightarrow> agent_call list \<Rightarrow> 'w agent_state
     \<Rightarrow> ((string + (agent_call \<times> json) list) run \<times> 'w agent_state) option" where
  "run_agent_calls env agent [] s = Some (Finished (Inr []), s)"
| "run_agent_calls env agent (c # cs) s =
     (case run_agent_call env agent c s of
        None \<Rightarrow> None
      | Some (Panicked, s1) \<Rightarrow> Some (Panicked, s1)
      | Some (Finished (Inl e), s1) \<Rightarrow> Some (Finished (Inl e), s1)
      | Some (Finished (Inr v), s1) \<Rightarrow>
          (case run_agent_calls env agent cs s1 of
             None \<Rightarrow> None
           | Some (Panicked, s2) \<Rightarrow> Some (Panicked, s2)
           | Some (Finished (Inl e), s2) \<Rightarrow> Some (Finished (Inl e), s2)
           | Some (Finished (Inr rs), s2) \<Rightarrow> Some (Finished (Inr ((c, v) # rs)), s2)))"

section \<open>The diff\<close>

definition run_command_request :: "agent_handle \<Rightarrow> string \<Rightarrow> json" where
  "run_command_request agent cmd =
     tool_request (ah_sandbox_name agent) (ah_container_id agent) ''run_command''
       (JObj [(''cmd'', JStr cmd), (''timeout'', JInt 30)])"

definition git_add_cmd :: string where
  "git_add_cmd = ''cd /workspace && git add -A''"

definition git_diff_cmd :: string where
  "git_diff_cmd = ''cd /workspace && GIT_TERMINAL_PROMPT=0 GIT_PAGER=cat git diff --cached --no-color 2>&1''"

definition read_diff :: "json \<Rightarrow> string + string" where
  "read_diff resp =
     (case jget resp ''result'' of
        None \<Rightarrow> Inr []
      | Some result \<Rightarrow>
          (case jget_str result ''stdout'' of
             Some out \<Rightarrow>
               if trim out \<noteq> [] \<and> contains_sub ''diff --git'' (trim out) then Inr (trim out)
               else (case jget_str result ''stderr'' of
                       Some err \<Rightarrow> if trim err \<noteq> [] \<and> contains_sub ''fatal'' err then Inl (''git diff failed: '' @ err) else Inr []
                     | None \<Rightarrow> Inr [])
           | None \<Rightarrow>
               (case jget_str result ''stderr'' of
                  Some err \<Rightarrow> if trim err \<noteq> [] \<and> contains_sub ''fatal'' err then Inl (''git diff failed: '' @ err) else Inr []
                | None \<Rightarrow> Inr [])))"

definition capture_git_diff :: "'w agent_env \<Rightarrow> agent_handle \<Rightarrow> 'w \<Rightarrow> ((string + string) \<times> 'w) option" where
  "capture_git_diff env agent w =
     (let req = ck_request (xe_os env) (cm_socket_path (xe_manager env)) in
      case req (run_command_request agent git_add_cmd) w of
        None \<Rightarrow> None
      | Some (Inl e, w1) \<Rightarrow> Some (Inl e, w1)
      | Some (Inr _, w1) \<Rightarrow>
          (case req (run_command_request agent git_diff_cmd) w1 of
             None \<Rightarrow> None
           | Some (Inl e, w2) \<Rightarrow> Some (Inl e, w2)
           | Some (Inr resp, w2) \<Rightarrow> Some (read_diff resp, w2)))"

section \<open>The rounds\<close>

abbreviation nl2 :: string where
  "nl2 \<equiv> [newline, newline]"

definition task_message :: "'w agent_env \<Rightarrow> string \<Rightarrow> string list \<Rightarrow> string" where
  "task_message env task tools =
     ''IMPORTANT: All file paths MUST start with /workspace (the project directory).'' @ nl2
     @ ''Task: '' @ task @ nl2 @ ''You have access to these tools: '' @ xe_debug_list env tools @ nl2
     @ ''Complete this task using the available tools.'' @ nl2
     @ ''When using file tools, always use absolute paths starting with /workspace:'' @ [newline]
     @ ''- read_file: path=/workspace/src/file.rs'' @ [newline]
     @ ''- write_file: path=/workspace/src/new_file.rs'' @ [newline]
     @ ''- run_command: Use '' @ [CHR 0x27] @ ''cd /workspace && ...'' @ [CHR 0x27] @ '' to change directory first''"

definition work_line :: "'w agent_env \<Rightarrow> checkpoint \<Rightarrow> string" where
  "work_line env c = ''- '' @ cp_tool_call c @ '' with args '' @ xe_debug_json env (cp_tool_args c) @ '' -> ''
     @ xe_compact env (cp_tool_result c)"

definition recovered_message :: "'w agent_env \<Rightarrow> checkpoint_log \<Rightarrow> string" where
  "recovered_message env l = ''Previous work (recovered from checkpoint):'' @ [newline]
     @ join_str [newline] (map (work_line env) (cl_checkpoints l))"

definition catalog_message :: "'w agent_env \<Rightarrow> json \<Rightarrow> string" where
  "catalog_message env v = ''Here is your complete tool catalog (from discover_tools):'' @ [newline] @ xe_pretty env v
     @ nl2 @ ''Use this reference to select the right tool for each step.''"

definition start_conversation :: "'w agent_env \<Rightarrow> string \<Rightarrow> string list \<Rightarrow> checkpoint_log \<Rightarrow> agent_conversation" where
  "start_conversation env task tools l =
     (let conv = agent_push_user (task_message env task tools) [] in
      if cl_checkpoints l = [] then conv else agent_push_user (recovered_message env l) conv)"

definition agent_result_of ::
  "'w agent_env \<Rightarrow> agent_handle \<Rightarrow> bool \<Rightarrow> string option \<Rightarrow> string option \<Rightarrow> 'w agent_state \<Rightarrow> agent_result" where
  "agent_result_of env agent ok diff err s = \<lparr> res_task_id = unwrap_or [] (ah_task_id agent), res_success = ok,
     res_git_diff = diff, res_error = err, res_checkpoint_log = cl_checkpoints (xs_log s),
     res_timestamp = xe_now env (xs_world s) \<rparr>"

definition finish_agent ::
  "'w agent_env \<Rightarrow> agent_handle \<Rightarrow> 'w agent_state \<Rightarrow> ((string + agent_result) run \<times> 'w agent_state) option" where
  "finish_agent env agent s =
     (case capture_git_diff env agent (xs_world s) of
        None \<Rightarrow> None
      | Some (r, w) \<Rightarrow>
          let s1 = s\<lparr> xs_world := w \<rparr> in
          Some (Finished (Inr (agent_result_of env agent True (case r of Inl _ \<Rightarrow> None | Inr d \<Rightarrow> Some d) None s1)), s1))"

text \<open>The rounds that are left; \<open>sid\<close> is the short identifier of the agent.\<close>

fun agent_rounds ::
  "'w agent_env \<Rightarrow> agent_handle \<Rightarrow> string \<Rightarrow> string \<Rightarrow> string list \<Rightarrow> string \<Rightarrow> nat \<Rightarrow> agent_conversation \<Rightarrow> 'w agent_state
     \<Rightarrow> ((string + agent_result) run \<times> 'w agent_state) option" where
  "agent_rounds env agent sid task tools system 0 conv s =
     Some (Finished (Inr (agent_result_of env agent False None
       (Some ''Max tool rounds exceeded (permanent failure)'') s)), s)"
| "agent_rounds env agent sid task tools system (Suc left) conv s =
     (let s1 = (send_event_if (xe_listening env) (TuiThinking sid (take_chars 80 task)) s)\<lparr> xs_rounds := xs_rounds s + 1 \<rparr> in
      case xe_round env system conv tools (xs_world s1) of
        (Inl e, w) \<Rightarrow> Some (Finished (Inl ''LLM call failed in agent tool loop''), s1\<lparr> xs_world := w \<rparr>)
      | (Inr r, w) \<Rightarrow>
          let s2 = s1\<lparr> xs_world := w \<rparr>; conv1 = agent_push_assistant r conv in
          if rr_calls r = [] then finish_agent env agent s2
          else case run_agent_calls env agent (rr_calls r) s2 of
                 None \<Rightarrow> None
               | Some (Panicked, s3) \<Rightarrow> Some (Panicked, s3)
               | Some (Finished (Inl e), s3) \<Rightarrow> Some (Finished (Inl e), s3)
               | Some (Finished (Inr rs), s3) \<Rightarrow>
                   agent_rounds env agent sid task tools system left (agent_push_results rs conv1) s3)"

definition execute_with_checkpoints ::
  "'w agent_env \<Rightarrow> agent_handle \<Rightarrow> string \<Rightarrow> string list \<Rightarrow> string \<Rightarrow> 'w agent_state
     \<Rightarrow> ((string + agent_result) run \<times> 'w agent_state) option" where
  "execute_with_checkpoints env agent task tools system s =
     (case short_id (ah_agent_id agent) of
        None \<Rightarrow> Some (Panicked, s)
      | Some sid \<Rightarrow>
          let conv = start_conversation env task tools (xs_log s) in
          case execute_tool_with_retry env (ah_sandbox_name agent) (ah_container_id agent) ''discover_tools'' (JObj [])
                 (xs_world s) of
            None \<Rightarrow> None
          | Some (r, w) \<Rightarrow>
              agent_rounds env agent sid task tools (xe_system env system) MAX_TOOL_ROUNDS
                (case r of Inl _ \<Rightarrow> conv | Inr v \<Rightarrow> agent_push_user (catalog_message env v) conv) (s\<lparr> xs_world := w \<rparr>))"

section \<open>The task\<close>

text \<open>Before another try the layer is restored from the last checkpoint, if its snapshot exists.\<close>

definition restore_last ::
  "'w agent_env \<Rightarrow> agent_handle \<Rightarrow> 'w agent_state \<Rightarrow> 'w agent_state option" where
  "restore_last env agent s =
     (case latest (xs_log s) of
        None \<Rightarrow> Some s
      | Some c \<Rightarrow>
          if ck_exists (xe_os env) (cp_layer_snapshot_path c) (xs_world s) then
            map_option (\<lambda>(r, w). s\<lparr> xs_world := w \<rparr>)
              (restore_snapshot (xe_os env) (xe_manager env) (ah_sandbox_name agent) (ah_container_id agent)
                 (cp_layer_snapshot_path c) (xs_world s))
          else Some s)"

definition report_result :: "agent_handle \<Rightarrow> agent_result \<Rightarrow> 'w agent_state \<Rightarrow> 'w agent_state" where
  "report_result agent r s =
     (if res_success r then send_event (StreamAgentCompleted (ah_agent_id agent) (ah_sandbox_name agent)) s
      else send_event (StreamAgentFailed (ah_agent_id agent) (unwrap_or ''agent failed'' (res_error r))) s)"

definition retries_failed :: "nat \<Rightarrow> string \<Rightarrow> string" where
  "retries_failed attempt e = ''Task failed after '' @ show_nat (attempt + 1) @ '' retries: '' @ e"

text \<open>The attempts that are left after this one.\<close>

fun agent_attempts ::
  "'w agent_env \<Rightarrow> agent_handle \<Rightarrow> string \<Rightarrow> string list \<Rightarrow> string \<Rightarrow> nat \<Rightarrow> 'w agent_state
     \<Rightarrow> (agent_result run \<times> 'w agent_state) option" where
  "agent_attempts env agent task tools system left s =
     (case execute_with_checkpoints env agent task tools system s of
        None \<Rightarrow> None
      | Some (Panicked, s1) \<Rightarrow> Some (Panicked, s1)
      | Some (Finished (Inr r), s1) \<Rightarrow>
          Some (Finished r, report_result agent r
            (s1\<lparr> xs_world := cleanup_agent_checkpoints (xe_os env) (xe_manager env) (ah_agent_id agent) (xs_world s1) \<rparr>))
      | Some (Finished (Inl e), s1) \<Rightarrow>
          (case left of
             0 \<Rightarrow>
               let r = agent_result_of env agent False None (Some (retries_failed max_tier2_retries e)) s1 in
               Some (Finished r, send_event (StreamAgentFailed (ah_agent_id agent) (unwrap_or e (res_error r))) s1)
           | Suc k \<Rightarrow>
               (case restore_last env agent s1 of
                  None \<Rightarrow> None
                | Some s2 \<Rightarrow> agent_attempts env agent task tools system k s2)))"

declare agent_attempts.simps [simp del]

definition execute_task ::
  "'w agent_env \<Rightarrow> agent_handle \<Rightarrow> string \<Rightarrow> string list \<Rightarrow> string \<Rightarrow> 'w
     \<Rightarrow> ((string + agent_result) run \<times> exec_event list \<times> 'w) option" where
  "execute_task env agent task tools system w =
     (let start = StreamAgentStarted (ah_agent_id agent) (ah_sandbox_name agent) task;
          dir = checkpoint_dir (xe_manager env) (ah_agent_id agent) in
      case ck_mkdirs (xe_os env) dir w of
        (Inl e, w1) \<Rightarrow> Some (Finished (Inl e), [start], w1)
      | (Inr _, w1) \<Rightarrow>
          (case agent_attempts env agent task tools system max_tier2_retries
                  \<lparr> xs_world = w1, xs_log = new_log (ah_agent_id agent) (unwrap_or [] (ah_task_id agent)) dir,
                    xs_events = [start], xs_rounds = 0 \<rparr> of
             None \<Rightarrow> None
           | Some (Panicked, s) \<Rightarrow> Some (Panicked, xs_events s, xs_world s)
           | Some (Finished r, s) \<Rightarrow> Some (Finished (Inr r), xs_events s, xs_world s)))"

section \<open>What a run keeps\<close>

definition outcome_event :: "exec_event \<Rightarrow> bool" where
  "outcome_event e = (case e of StreamAgentCompleted _ _ \<Rightarrow> True | StreamAgentFailed _ _ \<Rightarrow> True | _ \<Rightarrow> False)"

text \<open>
  The relation between the states before and after a part of an attempt: only events of the work are added, the
  log keeps its invariant, and stays below 50 entries, or the number it had, up to \<open>n\<close> more.
\<close>

definition keeps_outcomes :: "nat \<Rightarrow> 'w agent_state \<Rightarrow> 'w agent_state \<Rightarrow> bool" where
  "keeps_outcomes n s s' \<longleftrightarrow>
     filter outcome_event (xs_events s') = filter outcome_event (xs_events s)
     \<and> (log_inv (xs_log s) \<longrightarrow> log_inv (xs_log s'))
     \<and> length (cl_checkpoints (xs_log s')) \<le> max 50 (length (cl_checkpoints (xs_log s))) + n
     \<and> prefix (xs_events s) (xs_events s')"

lemma keeps_refl: "keeps_outcomes n s s"
  by (simp add: keeps_outcomes_def)

lemma keeps_trans: "keeps_outcomes 0 s s1 \<Longrightarrow> keeps_outcomes n s1 s2 \<Longrightarrow> keeps_outcomes n s s2"
  by (auto simp: keeps_outcomes_def intro: prefix_order.trans)

lemma keeps_mono: "keeps_outcomes 0 s s1 \<Longrightarrow> keeps_outcomes n s s1"
  by (auto simp: keeps_outcomes_def)

lemma keeps_world: "keeps_outcomes n s (s1\<lparr> xs_world := w \<rparr>) \<longleftrightarrow> keeps_outcomes n s s1" "keeps_outcomes n s (s1\<lparr> xs_rounds := r \<rparr>) \<longleftrightarrow> keeps_outcomes n s s1"
  by (simp_all add: keeps_outcomes_def)

lemma keeps_emitI: "\<not> outcome_event e \<Longrightarrow> keeps_outcomes n s s1 \<Longrightarrow> keeps_outcomes n s (send_event e s1)"
  by (auto simp: keeps_outcomes_def send_event_def prefix_def)

lemma keeps_emit_ifI: "\<not> outcome_event e \<Longrightarrow> keeps_outcomes n s s1 \<Longrightarrow> keeps_outcomes n s (send_event_if b e s1)"
  by (simp add: send_event_if_def keeps_emitI)

lemma work_events [simp]:
  "\<not> outcome_event (TuiThinking a b)" "\<not> outcome_event (TuiToolCall n a b)" "\<not> outcome_event (TuiToolResult n a c b)"
  "\<not> outcome_event (StreamAgentStarted a b d)" "\<not> outcome_event (StreamToolCall a b d j)"
  "\<not> outcome_event (StreamToolResult a b u c)"
  "outcome_event (StreamAgentCompleted a b)" "outcome_event (StreamAgentFailed a b)"
  by (simp_all add: outcome_event_def)

lemma add_checkpoint_log: "add_checkpoint os c l w = (r, l1, w1) \<Longrightarrow> l1 = push_checkpoint c l"
  by (auto simp: add_checkpoint_def Let_def split: prod.splits)

lemma cut_log_short: "length (cl_checkpoints l) \<le> n \<Longrightarrow> cut_log n l = l"
  by (simp add: cut_log_def)

lemma prune_log: "prune os n l w = (r, l1, w1) \<Longrightarrow> l1 = cut_log n l"
  by (auto simp: prune_def Let_def cut_log_short split: prod.splits if_splits)

text \<open>The entry of a call, and the log after it.\<close>

definition entry_of :: "agent_call \<Rightarrow> json \<Rightarrow> u64 \<Rightarrow> checkpoint \<Rightarrow> bool" where
  "entry_of call v i c \<longleftrightarrow> cp_id c = i \<and> cp_tool_call c = ac_name call \<and> cp_tool_args c = ac_args call \<and> cp_tool_result c = v"

lemma record_call_log:
  assumes "record_call env agent call v s = Some (r, s')"
  obtains c where "entry_of call v (cl_next_id (xs_log s)) c"
    and "case r of Inl _ \<Rightarrow> xs_log s' = push_checkpoint c (snd (next_checkpoint_id (xs_log s)))
        \<or> xs_log s' = cut_log 50 (push_checkpoint c (snd (next_checkpoint_id (xs_log s))))
      | Inr _ \<Rightarrow> xs_log s' = cut_log 50 (push_checkpoint c (snd (next_checkpoint_id (xs_log s))))"
    and "log_inv (xs_log s) \<Longrightarrow> log_inv (push_checkpoint c (snd (next_checkpoint_id (xs_log s))))"
    and "xs_events s' = xs_events s" and "xs_rounds s' = xs_rounds s"
proof -
  let ?l1 = "snd (next_checkpoint_id (xs_log s))" and ?i = "cl_next_id (xs_log s)"
  obtain r1 w1 where snap: "create_snapshot (xe_os env) (xe_manager env) (ah_agent_id agent) ?i (ah_sandbox_name agent)
      (ah_container_id agent) (xs_world s) = Some (r1, w1)"
    using assms by (auto simp: record_call_def next_checkpoint_id_def split: option.splits)
  define c where "c = \<lparr> cp_id = ?i, cp_tool_call = ac_name call, cp_tool_args = ac_args call, cp_tool_result = v,
      cp_timestamp = xe_now env w1, cp_layer_snapshot_path = (case r1 of Inl _ \<Rightarrow> [] | Inr p \<Rightarrow> p) \<rparr>"
  obtain r2 l2 w2 where add: "add_checkpoint (xe_os env) c ?l1 w1 = (r2, l2, w2)"
    by (cases "add_checkpoint (xe_os env) c ?l1 w1")
  obtain r3 l3 w3 where pr: "prune (xe_os env) 50 l2 w2 = (r3, l3, w3)"
    by (cases "prune (xe_os env) 50 l2 w2")
  note logs = add_checkpoint_log [OF add] prune_log [OF pr]
  show ?thesis
  proof (rule that)
    show "entry_of call v ?i c" by (simp add: entry_of_def c_def)
    show "log_inv (xs_log s) \<Longrightarrow> log_inv (push_checkpoint c ?l1)"
      using log_inv_next [of "xs_log s" ?i ?l1 c] by (auto simp: next_checkpoint_id_def c_def)
    show "case r of Inl _ \<Rightarrow> xs_log s' = push_checkpoint c ?l1 \<or> xs_log s' = cut_log 50 (push_checkpoint c ?l1)
        | Inr _ \<Rightarrow> xs_log s' = cut_log 50 (push_checkpoint c ?l1)"
      and "xs_events s' = xs_events s" and "xs_rounds s' = xs_rounds s"
      using assms snap add pr logs unfolding c_def [symmetric]
      by (auto simp: record_call_def next_checkpoint_id_def c_def [symmetric] Let_def split: sum.splits)
  qed
qed

text \<open>Only a part that ends in an error may leave one entry more than 50.\<close>

definition slack :: "('e + 'a) run \<Rightarrow> nat" where
  "slack r = (case r of Finished (Inr _) \<Rightarrow> 0 | _ \<Rightarrow> 1)"

lemma slack_simps [simp]: "slack (Finished (Inr x)) = 0" "slack (Finished (Inl e)) = 1" "slack Panicked = 1"
  by (simp_all add: slack_def)

lemma length_push_next [simp]:
  "length (cl_checkpoints (push_checkpoint c (snd (next_checkpoint_id l)))) = Suc (length (cl_checkpoints l))"
  by (simp add: push_checkpoint_def next_checkpoint_id_def)

lemma length_cut_log [simp]: "length (cl_checkpoints (cut_log n l)) = min n (length (cl_checkpoints l))"
  by (simp add: cut_log_def)

lemma record_call_keeps:
  assumes "record_call env agent call v s = Some (r, s')"
  shows "keeps_outcomes (slack (Finished r)) s s'" and "xs_rounds s' = xs_rounds s"
proof -
  from assms show "xs_rounds s' = xs_rounds s" by (rule record_call_log) simp
  from assms show "keeps_outcomes (slack (Finished r)) s s'"
    by (rule record_call_log) (cases r; auto simp: keeps_outcomes_def log_inv_cut)
qed

lemma announce_call_keeps: "keeps_outcomes 0 s (announce_call env agent call s)" "xs_rounds (announce_call env agent call s) = xs_rounds s"
    "xs_world (announce_call env agent call s) = xs_world s" "xs_log (announce_call env agent call s) = xs_log s"
  by (auto simp: announce_call_def send_event_if_def send_event_def keeps_outcomes_def)

lemma announce_result_keeps:
  "announce_result env call v s = Some s1 \<Longrightarrow>
     keeps_outcomes 0 s s1 \<and> xs_rounds s1 = xs_rounds s \<and> xs_log s1 = xs_log s \<and> xs_world s1 = xs_world s"
  by (auto simp: announce_result_def send_event_def keeps_outcomes_def split: if_splits)

lemma run_agent_call_cases:
  assumes "run_agent_call env agent call s = Some (r, s')"
  obtains (failed) e s1 where "r = Finished (Inl e)" "keeps_outcomes 0 s s'" "xs_log s' = xs_log s" "xs_rounds s' = xs_rounds s"
  | (panicked) s2 where "r = Panicked" "keeps_outcomes 0 s s'" "xs_log s' = xs_log s" "xs_rounds s' = xs_rounds s"
  | (recorded) v s3 x where "record_call env agent call v s3 = Some (x, s')" "keeps_outcomes 0 s s3" "xs_log s3 = xs_log s"
      "xs_rounds s3 = xs_rounds s" "r = Finished (Inr v) \<and> x = Inr () \<or> r = Panicked \<and> x = Inr () \<or> (\<exists>e. r = Finished (Inl e) \<and> x = Inl e)"
proof -
  let ?s1 = "announce_call env agent call s"
  obtain q w where q: "execute_tool_with_retry env (ah_sandbox_name agent) (ah_container_id agent) (ac_name call)
      (ac_args call) (xs_world ?s1) = Some (q, w)"
    using assms by (auto simp: run_agent_call_def Let_def split: option.splits)
  let ?s2 = "\<lambda>ok. send_event (StreamToolResult (ah_agent_id agent) (ac_name call) (xe_elapsed env w) ok) (?s1\<lparr> xs_world := w \<rparr>)"
  have s2: "keeps_outcomes 0 s (?s2 ok)" "xs_log (?s2 ok) = xs_log s" "xs_rounds (?s2 ok) = xs_rounds s" for ok
    using announce_call_keeps [where s = s and env = env and agent = agent and call = call]
    by (auto intro: keeps_emitI simp: keeps_world) (simp_all add: send_event_def)
  show thesis
  proof (cases q)
    case (Inl e)
    then have "r = Finished (Inl e)" "s' = ?s2 False" using assms q by (simp_all add: run_agent_call_def Let_def)
    then show ?thesis using s2 failed by metis
  next
    case (Inr v)
    note ok = this
    show ?thesis
    proof (cases "announce_result env call v (?s2 (\<not> is_error_result v))")
      case None
      then have "r = Panicked" "s' = ?s2 (\<not> is_error_result v)" using assms q ok by (simp_all add: run_agent_call_def Let_def)
      then show ?thesis using s2 panicked by metis
    next
      case (Some s3)
      note s3 = announce_result_keeps [OF Some]
      obtain x s4 where x: "record_call env agent call v s3 = Some (x, s4)"
        using assms q ok Some by (auto simp: run_agent_call_def Let_def split: option.splits)
      have "s' = s4 \<and> (r = Finished (Inr v) \<and> x = Inr () \<or> r = Panicked \<and> x = Inr () \<or> (\<exists>e. r = Finished (Inl e) \<and> x = Inl e))"
        using assms q ok Some x by (auto simp: run_agent_call_def Let_def split: sum.splits if_splits)
      then show ?thesis
        using recorded [of v s3 x] x s3 s2 keeps_trans [of s "?s2 (\<not> is_error_result v)" 0 s3] by simp
    qed
  qed
qed

lemma run_call_keeps:
  assumes "run_agent_call env agent call s = Some (r, s')"
  shows "keeps_outcomes (slack r) s s' \<and> xs_rounds s' = xs_rounds s"
  using assms
proof (cases rule: run_agent_call_cases)
  case (recorded v s3 x)
  then show ?thesis
    using record_call_keeps [OF recorded(1)] keeps_trans [OF recorded(2)] keeps_mono [of s s' 1] by auto
qed (auto intro: keeps_mono)

lemma run_calls_keeps: "run_agent_calls env agent cs s = Some (r, s') \<Longrightarrow> keeps_outcomes (slack r) s s' \<and> xs_rounds s' = xs_rounds s"
proof (induction cs arbitrary: s r)
  case Nil
  then show ?case by (simp add: keeps_refl)
next
  case (Cons c cs)
  obtain q s1 where q: "run_agent_call env agent c s = Some (q, s1)" using Cons.prems by (auto split: option.splits)
  note k = run_call_keeps [OF q]
  show ?case
  proof (cases "\<exists>v. q = Finished (Inr v)")
    case True
    then obtain v where v: "q = Finished (Inr v)" by blast
    then obtain x where x: "run_agent_calls env agent cs s1 = Some (x, s')" "slack r = slack x"
      using Cons.prems q by (auto split: option.splits run.splits sum.splits)
    then show ?thesis using Cons.IH [OF x(1)] k v keeps_trans [of s s1] by auto
  next
    case False
    then have "s' = s1 \<and> slack r = 1 \<and> slack q = 1"
      using Cons.prems q by (cases q) (auto split: sum.splits)
    then show ?thesis using k by auto
  qed
qed

section \<open>The whole run\<close>

definition describes :: "agent_handle \<Rightarrow> agent_result \<Rightarrow> 'w agent_state \<Rightarrow> bool" where
  "describes agent r s \<longleftrightarrow> res_task_id r = unwrap_or [] (ah_task_id agent) \<and> res_checkpoint_log r = cl_checkpoints (xs_log s)
     \<and> (res_success r \<longleftrightarrow> res_error r = None) \<and> (res_git_diff r \<noteq> None \<longrightarrow> res_success r)"

lemma describes_simps [simp]:
  "describes agent (agent_result_of env agent True d None s) s"
  "describes agent (agent_result_of env agent False None (Some e) s) s"
  "describes agent r (s\<lparr> xs_world := w \<rparr>) = describes agent r s"
  "describes agent r (send_event ev s) = describes agent r s"
  by (simp_all add: describes_def agent_result_of_def send_event_def)

lemma finish_agent_keeps:
  assumes "finish_agent env agent s = Some (r, s')"
  shows "keeps_outcomes 0 s s' \<and> xs_rounds s' = xs_rounds s \<and> (\<exists>x. r = Finished (Inr x) \<and> describes agent x s')"
  using assms by (auto simp: finish_agent_def Let_def keeps_world keeps_refl split: option.splits prod.splits)
     (metis describes_simps(1) describes_simps(3))+

lemma agent_rounds_keeps:
  assumes "agent_rounds env agent sid task tools system left conv s = Some (r, s')"
  shows "keeps_outcomes (slack r) s s' \<and> xs_rounds s' \<le> xs_rounds s + left
    \<and> (\<forall>x. r = Finished (Inr x) \<longrightarrow> describes agent x s')"
  using assms
proof (induction left arbitrary: conv s)
  case 0
  then show ?case by (auto simp: keeps_refl)
next
  case (Suc left)
  define s1 where "s1 = (send_event_if (xe_listening env) (TuiThinking sid (take_chars 80 task)) s)\<lparr> xs_rounds := xs_rounds s + 1 \<rparr>"
  obtain q w where q: "xe_round env system conv tools (xs_world s1) = (q, w)" by (cases "xe_round env system conv tools (xs_world s1)")
  have k1: "keeps_outcomes 0 s (s1\<lparr> xs_world := w \<rparr>)" "xs_rounds (s1\<lparr> xs_world := w \<rparr>) = xs_rounds s + 1"
    by (auto simp: s1_def keeps_world keeps_refl intro: keeps_emit_ifI)
  note prems = Suc.prems [unfolded agent_rounds.simps, folded s1_def, unfolded Let_def q prod.case]
  show ?case
  proof (cases q)
    case (Inl e)
    then have "s' = s1\<lparr> xs_world := w \<rparr>" "slack r = 1" "\<forall>x. r \<noteq> Finished (Inr x)" using prems by auto
    then show ?thesis using keeps_mono [OF k1(1)] k1(2) by auto
  next
    case (Inr rr)
    note q' = this
    show ?thesis
    proof (cases "rr_calls rr = []")
      case True
      then have "finish_agent env agent (s1\<lparr> xs_world := w \<rparr>) = Some (r, s')" using prems q' by simp
      from finish_agent_keeps [OF this] show ?thesis
        using k1(2) keeps_trans [OF k1(1), of "slack r" s'] by auto
    next
      case False
      obtain x s3 where x: "run_agent_calls env agent (rr_calls rr) (s1\<lparr> xs_world := w \<rparr>) = Some (x, s3)"
        using prems q' False by (auto split: option.splits)
      note k2 = run_calls_keeps [OF x]
      show ?thesis
      proof (cases "\<exists>rs. x = Finished (Inr rs)")
        case True
        then obtain rs where rs: "x = Finished (Inr rs)" by blast
        then have "agent_rounds env agent sid task tools system left (agent_push_results rs (agent_push_assistant rr conv)) s3 = Some (r, s')"
          using prems q' False x by simp
        from Suc.IH [OF this] show ?thesis
          using k1 k2 rs keeps_trans [OF k1(1), of 0 s3] keeps_trans [of s s3 "slack r" s'] by auto
      next
        case no: False
        then have "s' = s3 \<and> slack r = 1 \<and> slack x = 1 \<and> (\<forall>y. r \<noteq> Finished (Inr y))"
          using prems q' False x by (cases x) (auto split: sum.splits)
        then show ?thesis using k1 k2 keeps_trans [OF k1(1), of 1 s3] by auto
      qed
    qed
  qed
qed

lemma execute_with_checkpoints_keeps:
  assumes "execute_with_checkpoints env agent task tools system s = Some (r, s')"
  shows "keeps_outcomes (slack r) s s' \<and> xs_rounds s' \<le> xs_rounds s + MAX_TOOL_ROUNDS
    \<and> (\<forall>x. r = Finished (Inr x) \<longrightarrow> describes agent x s')"
proof (cases "short_id (ah_agent_id agent)")
  case None
  then show ?thesis using assms by (auto simp: execute_with_checkpoints_def intro: keeps_mono keeps_refl)
next
  case (Some sid)
  then obtain d w where d: "execute_tool_with_retry env (ah_sandbox_name agent) (ah_container_id agent) ''discover_tools''
      (JObj []) (xs_world s) = Some (d, w)"
    using assms by (auto simp: execute_with_checkpoints_def Let_def split: option.splits)
  then obtain conv where "agent_rounds env agent sid task tools (xe_system env system) MAX_TOOL_ROUNDS conv
      (s\<lparr> xs_world := w \<rparr>) = Some (r, s')"
    using assms Some by (auto simp: execute_with_checkpoints_def Let_def)
  from agent_rounds_keeps [OF this] show ?thesis
    using keeps_trans [of s "s\<lparr> xs_world := w \<rparr>" "slack r" s'] by (auto simp: keeps_world keeps_refl)
qed

lemma restore_last_keeps:
  "restore_last env agent s = Some s1 \<Longrightarrow> keeps_outcomes 0 s s1 \<and> xs_rounds s1 = xs_rounds s \<and> xs_log s1 = xs_log s"
  by (auto simp: restore_last_def keeps_world keeps_refl split: option.splits if_splits prod.splits)

text \<open>The event for the outcome.\<close>

definition final_event :: "agent_handle \<Rightarrow> agent_result \<Rightarrow> exec_event" where
  "final_event agent r = (if res_success r then StreamAgentCompleted (ah_agent_id agent) (ah_sandbox_name agent)
     else StreamAgentFailed (ah_agent_id agent) (unwrap_or ''agent failed'' (res_error r)))"

lemma outcome_of_outcome [simp]: "outcome_event (final_event agent r)"
  by (simp add: final_event_def)

definition ends_with :: "agent_handle \<Rightarrow> agent_result run \<Rightarrow> 'w agent_state \<Rightarrow> 'w agent_state \<Rightarrow> bool" where
  "ends_with agent r s s' \<longleftrightarrow> (case r of Panicked \<Rightarrow> True
     | Finished x \<Rightarrow> describes agent x s' \<and> last (xs_events s') = final_event agent x
         \<and> filter outcome_event (xs_events s') = filter outcome_event (xs_events s) @ [final_event agent x])"

lemma keeps_ends_with: "keeps_outcomes n s s1 \<Longrightarrow> ends_with agent r s1 s' \<Longrightarrow> ends_with agent r s s'"
  by (auto simp: keeps_outcomes_def ends_with_def split: run.splits)

lemma attempt_succeeds:
  assumes "keeps_outcomes 0 s s1" and "describes agent x s1" and "s2 = s1\<lparr> xs_world := w \<rparr>"
  shows "ends_with agent (Finished x) s (report_result agent x s2)"
  using assms
  by (auto simp: ends_with_def report_result_def final_event_def keeps_outcomes_def send_event_def describes_def)

lemma report_result_fields [simp]:
  "xs_log (report_result agent x s) = xs_log s" "xs_rounds (report_result agent x s) = xs_rounds s"
  by (simp_all add: report_result_def send_event_def)

lemma agent_attempts_ends:
  assumes "agent_attempts env agent task tools system left s = Some (r, s')"
  shows "(log_inv (xs_log s) \<longrightarrow> log_inv (xs_log s'))
    \<and> length (cl_checkpoints (xs_log s')) \<le> max 50 (length (cl_checkpoints (xs_log s))) + Suc left
    \<and> xs_rounds s' \<le> xs_rounds s + Suc left * MAX_TOOL_ROUNDS \<and> ends_with agent r s s'"
  using assms
proof (induction left arbitrary: s)
  case 0
  obtain q s1 where q: "execute_with_checkpoints env agent task tools system s = Some (q, s1)"
    using 0 by (subst (asm) agent_attempts.simps) (auto split: option.splits)
  note k = execute_with_checkpoints_keeps [OF q]
  note prems = 0 [unfolded agent_attempts.simps [of _ _ _ _ _ _ s] q option.case prod.case nat.case Let_def]
  show ?case
  proof (cases q)
    case Panicked
    then show ?thesis using prems k by (auto simp: keeps_outcomes_def ends_with_def)
  next
    case (Finished y)
    show ?thesis
    proof (cases y)
      case (Inr x)
      then show ?thesis using prems k Finished attempt_succeeds [of s s1 agent x]
        by (auto simp: keeps_outcomes_def)
    next
      case (Inl e)
      then show ?thesis using prems k Finished
        by (auto simp: keeps_outcomes_def ends_with_def final_event_def send_event_def describes_def agent_result_of_def)
    qed
  qed
next
  case (Suc left)
  obtain q s1 where q: "execute_with_checkpoints env agent task tools system s = Some (q, s1)"
    using Suc.prems by (subst (asm) agent_attempts.simps) (auto split: option.splits)
  note k = execute_with_checkpoints_keeps [OF q]
  note prems = Suc.prems [unfolded agent_attempts.simps [of _ _ _ _ _ _ s] q option.case prod.case nat.case Let_def]
  show ?case
  proof (cases q)
    case Panicked
    then show ?thesis using prems k by (auto simp: keeps_outcomes_def ends_with_def)
  next
    case (Finished y)
    show ?thesis
    proof (cases y)
      case (Inr x)
      then show ?thesis using prems k Finished attempt_succeeds [of s s1 agent x]
        by (auto simp: keeps_outcomes_def)
    next
      case (Inl e)
      then obtain s2 where s2: "restore_last env agent s1 = Some s2"
        "agent_attempts env agent task tools system left s2 = Some (r, s')"
        using prems Finished by (auto split: option.splits)
      note r = restore_last_keeps [OF s2(1)]
      have ks: "keeps_outcomes 1 s s1" "xs_rounds s1 \<le> xs_rounds s + MAX_TOOL_ROUNDS" using k Finished Inl by auto
      then have "ends_with agent r s s'"
        using keeps_ends_with [OF ks(1)] keeps_ends_with [of 0 s1 s2] r Suc.IH [OF s2(2)] by blast
      then show ?thesis using Suc.IH [OF s2(2)] r ks by (auto simp: keeps_outcomes_def)
    qed
  qed
qed

section \<open>Properties\<close>

text \<open>
  C36. The result of an agent: it names the agent's task, succeeds exactly when it carries no error, and has a
  diff only when it succeeds; its log has at most 53 checkpoints, with different identifiers although the log was
  cut and the task tried three times; the model was called at most 768 times; the last event is the
  outcome, and it is the only event of an outcome.
\<close>

theorem agent_result_correct:
  assumes "agent_attempts env agent task tools system max_tier2_retries s = Some (Finished r, s')"
    and "xs_log s = new_log (ah_agent_id agent) t dir" and "xs_events s = [StreamAgentStarted a b c]" and "xs_rounds s = 0"
  shows "res_task_id r = unwrap_or [] (ah_task_id agent) \<and> (res_success r \<longleftrightarrow> res_error r = None)
    \<and> (res_git_diff r \<noteq> None \<longrightarrow> res_success r)
    \<and> length (res_checkpoint_log r) \<le> 53 \<and> distinct (map cp_id (res_checkpoint_log r))
    \<and> xs_rounds s' \<le> 768
    \<and> last (xs_events s') = final_event agent r \<and> filter outcome_event (xs_events s') = [final_event agent r]"
proof -
  note e = agent_attempts_ends [OF assms(1)]
  have l: "log_inv (xs_log s')" "length (cl_checkpoints (xs_log s')) \<le> 53"
    using e assms(2) log_inv_new by (auto simp: new_log_def max_tier2_retries_def)
  then have "distinct (map cp_id (cl_checkpoints (xs_log s')))" by (intro log_inv_distinct) auto
  then show ?thesis
    using e l assms(3,4) by (auto simp: ends_with_def describes_def MAX_TOOL_ROUNDS_def max_tier2_retries_def)
qed

lemma run_call_logged:
  assumes "run_agent_call env agent call s = Some (Finished (Inr v), s')"
  shows "\<exists>c. entry_of call v (cl_next_id (xs_log s)) c \<and> cl_checkpoints (xs_log s') = last_n 50 (cl_checkpoints (xs_log s) @ [c])"
  using assms
proof (cases rule: run_agent_call_cases)
  case (recorded v' s3 x)
  then have r: "record_call env agent call v s3 = Some (Inr (), s')" by auto
  from r obtain c where "entry_of call v (cl_next_id (xs_log s)) c"
    "xs_log s' = cut_log 50 (push_checkpoint c (snd (next_checkpoint_id (xs_log s))))"
    by (rule record_call_log) (simp add: recorded(3))
  then show ?thesis
    by (intro exI [of _ c]) (simp add: cut_log_def push_checkpoint_def next_checkpoint_id_def last_n_def)
qed auto

lemma list_all_tools_iff: "n \<in> set list_all_tools \<longleftrightarrow> has_tool n"
  by (simp add: list_all_tools_def has_tool_def)

text \<open>Every request to the server returns.\<close>

definition answers_all :: "'w checkpoint_os \<Rightarrow> bool" where
  "answers_all os \<longleftrightarrow> (\<forall>path req w. ck_request os path req w \<noteq> None)"

lemma answers_allD: "answers_all os \<Longrightarrow> (ck_request os path req w = None) = False"
  by (simp add: answers_all_def)

lemma execute_tool_returns:
  assumes "answers_all (xe_os env)"
  shows "(execute_tool_with_retry env sandbox container name input w = None) = False"
proof -
  have "tool_attempt env sandbox container name input w \<noteq> None" for w
    by (auto simp: tool_attempt_def invoke_tool_via_socket_def answers_allD [OF assms] split: option.splits sum.splits)
  then have "execute_tool_with_retry env sandbox container name input w \<noteq> None"
    unfolding execute_tool_with_retry_def by (rule retry_returns)
  then show ?thesis by simp
qed

lemma record_call_returns:
  assumes "answers_all (xe_os env)"
  shows "(record_call env agent call v s = None) = False"
  by (auto simp: record_call_def create_snapshot_def next_checkpoint_id_def Let_def answers_allD [OF assms]
      split: option.splits sum.splits prod.splits)

lemma run_calls_returns:
  assumes "answers_all (xe_os env)"
  shows "(run_agent_calls env agent cs s = None) = False"
proof (induction cs arbitrary: s)
  case (Cons c cs)
  have "(run_agent_call env agent c s = None) = False"
    by (auto simp: run_agent_call_def Let_def execute_tool_returns [OF assms] record_call_returns [OF assms]
        split: option.splits sum.splits)
  then show ?case by (auto simp: Cons.IH split: option.splits run.splits sum.splits)
qed simp

lemma finish_agent_returns: "answers_all (xe_os env) \<Longrightarrow> (finish_agent env agent s = None) = False"
  by (auto simp: finish_agent_def capture_git_diff_def Let_def answers_allD simp del: not_None_eq not_Some_eq
      split: option.splits sum.splits)

lemma restore_last_returns: "answers_all (xe_os env) \<Longrightarrow> (restore_last env agent s = None) = False"
  by (auto simp: restore_last_def restore_snapshot_def answers_allD simp del: not_None_eq not_Some_eq
      split: option.splits sum.splits)

lemma agent_rounds_returns:
  assumes "answers_all (xe_os env)"
  shows "(agent_rounds env agent sid task tools system left conv s = None) = False"
proof (induction left arbitrary: conv s)
  case (Suc left)
  then show ?case
    by (auto simp: Let_def Suc.IH run_calls_returns [OF assms] finish_agent_returns [OF assms]
        simp del: not_None_eq not_Some_eq split: option.splits run.splits sum.splits prod.splits)
qed simp

lemma execute_with_checkpoints_returns:
  assumes "answers_all (xe_os env)"
  shows "(execute_with_checkpoints env agent task tools system s = None) = False"
  by (auto simp: execute_with_checkpoints_def Let_def execute_tool_returns [OF assms] agent_rounds_returns [OF assms]
      simp del: not_None_eq not_Some_eq split: option.splits)

lemma agent_attempts_returns:
  assumes "answers_all (xe_os env)"
  shows "(agent_attempts env agent task tools system left s = None) = False"
proof (induction left arbitrary: s)
  case 0
  show ?case
    by (subst agent_attempts.simps)
       (auto simp: Let_def execute_with_checkpoints_returns [OF assms] split: option.splits run.splits sum.splits)
next
  case (Suc left)
  show ?case
    by (subst agent_attempts.simps)
       (auto simp: Suc.IH execute_with_checkpoints_returns [OF assms] restore_last_returns [OF assms]
        simp del: not_None_eq not_Some_eq split: option.splits run.splits sum.splits)
qed

text \<open>
  C37. What a round feeds back to the model is what the log keeps: the results are those of the
  calls, in their order; each has an entry with its name, arguments and result; and the log then holds the
  newest 50 of the entries it had and these.
\<close>

theorem calls_are_logged:
  assumes "run_agent_calls env agent calls s = Some (Finished (Inr results), s')" and "length (cl_checkpoints (xs_log s)) \<le> 50"
  shows "map fst results = calls
    \<and> (\<exists>es. map (\<lambda>c. (cp_tool_call c, cp_tool_args c, cp_tool_result c)) es
             = map (\<lambda>(c, v). (ac_name c, ac_args c, v)) results
         \<and> cl_checkpoints (xs_log s') = last_n 50 (cl_checkpoints (xs_log s) @ es))"
  using assms
proof (induction calls arbitrary: s results)
  case Nil
  then show ?case by (simp add: last_n_def)
next
  case (Cons call calls)
  then obtain v s1 rs where v: "run_agent_call env agent call s = Some (Finished (Inr v), s1)"
    "run_agent_calls env agent calls s1 = Some (Finished (Inr rs), s')" "results = (call, v) # rs"
    by (auto split: option.splits run.splits sum.splits)
  from run_call_logged [OF v(1)] obtain c where c: "entry_of call v (cl_next_id (xs_log s)) c"
    and log: "cl_checkpoints (xs_log s1) = last_n 50 (cl_checkpoints (xs_log s) @ [c])" by blast
  then have "length (cl_checkpoints (xs_log s1)) \<le> 50" by simp
  from Cons.IH [OF v(2) this] obtain es where es: "map fst rs = calls"
    "map (\<lambda>c. (cp_tool_call c, cp_tool_args c, cp_tool_result c)) es = map (\<lambda>(c, v). (ac_name c, ac_args c, v)) rs"
    "cl_checkpoints (xs_log s') = last_n 50 (cl_checkpoints (xs_log s1) @ es)" by blast
  have "cl_checkpoints (xs_log s') = last_n 50 (cl_checkpoints (xs_log s) @ c # es)"
    using es(3) log by (simp add: last_n_append)
  moreover have "map (\<lambda>c. (cp_tool_call c, cp_tool_args c, cp_tool_result c)) (c # es)
      = map (\<lambda>(c, v). (ac_name c, ac_args c, v)) results"
    using es(2) c(1) v(3) by (simp add: entry_of_def)
  ultimately have "\<exists>es. map (\<lambda>c. (cp_tool_call c, cp_tool_args c, cp_tool_result c)) es
      = map (\<lambda>(c, v). (ac_name c, ac_args c, v)) results
    \<and> cl_checkpoints (xs_log s') = last_n 50 (cl_checkpoints (xs_log s) @ es)" by blast
  then show ?case using es(1) v(3) by simp
qed

text \<open>
  C38. One call of a tool on a server that answers after the read timeout sends its request 16
  times: four times on each of the four attempts of \<open>execute_tool_with_retry\<close>. Then the attempt at the task has
  failed, and the whole task is tried again.
\<close>

theorem slow_tool_sent_16_times:
  assumes "ck_request (xe_os env) = socket_roundtrip so enc parse" and "slow_server so (cm_socket_path (xe_manager env))"
    and "has_tool name"
  shows "\<exists>e s'. execute_tool_with_retry env sandbox container name input s = Some (Inl e, s')
    \<and> lk_sent s' = lk_sent s @ replicate 16 (request_line enc (tool_request sandbox container name input))"
proof -
  let ?line = "request_line enc (tool_request sandbox container name input)"
  have "\<exists>e s'. tool_attempt env sandbox container name input s = Some (Inl (e, True), s')
      \<and> lk_sent s' = lk_sent s @ replicate 4 ?line" for s
    using slow_roundtrip [OF assms(2), of enc parse "tool_request sandbox container name input" s]
    by (auto simp: tool_attempt_def invoke_tool_via_socket_def list_all_tools_iff assms(1,3))
  from retry_lost_always [where n = max_tier1_retries, OF this] show ?thesis
    by (simp add: execute_tool_with_retry_def max_tier1_retries_def numeral_eq_Suc)
qed


text \<open>
  A result whose byte 200 is inside a character panics the worker when a user interface listens:
  after the tool has run, and before its checkpoint is taken.
\<close>

theorem preview_panics:
  assumes "execute_tool_with_retry env (ah_sandbox_name agent) (ah_container_id agent) (ac_name call) (ac_args call)
      (xs_world s) = Some (Inr v, w)"
    and "xe_listening env" and "200 < length (xe_compact env v)" and "\<not> char_boundary (xe_compact env v) 200"
  shows "\<exists>s'. run_agent_call env agent call s = Some (Panicked, s') \<and> xs_world s' = w \<and> xs_log s' = xs_log s"
proof -
  have p: "preview (xe_compact env v) = None" using assms(3,4) by (simp add: preview_def)
  show ?thesis
    using assms(1,2) p announce_call_keeps [where s = s and env = env and agent = agent and call = call]
    by (simp add: run_agent_call_def Let_def announce_result_def send_event_def)
qed

text \<open>
  When the snapshot of the last call failed, the next try starts from the layer as the failed try left
  it: nothing is restored, although the model is told that the work was recovered from a checkpoint.
\<close>

theorem lost_snapshot_not_restored:
  assumes "latest (xs_log s) = Some c" and "cp_layer_snapshot_path c = []" and "\<not> ck_exists (xe_os env) [] (xs_world s)"
  shows "restore_last env agent s = Some s
    \<and> start_conversation env task tools (xs_log s)
        = [UserMessage (task_message env task tools), UserMessage (recovered_message env (xs_log s))]"
  using assms by (auto simp: restore_last_def start_conversation_def agent_push_user_def latest_def split: if_splits)

section \<open>Concrete agents\<close>

text \<open>A server that answers with \<open>ok\<close>, files that can be written, and a model that is done at once.\<close>

definition demo_agent_os :: "(string \<Rightarrow> json \<Rightarrow> 'w \<Rightarrow> ((string + json) \<times> 'w) option) \<Rightarrow> 'w checkpoint_os" where
  "demo_agent_os req = \<lparr> ck_show = \<lambda>_. [], ck_parse = \<lambda>_. None, ck_read = \<lambda>_ w. (Inl [], w),
     ck_write = \<lambda>_ _ w. (Inr (), w), ck_mkdirs = \<lambda>_ w. (Inr (), w), ck_exists = \<lambda>_ _. False,
     ck_remove_dir_all = \<lambda>_ w. (Inr (), w), ck_sudo_rm = \<lambda>_ w. w, ck_request = req \<rparr>"

definition demo_agent_env ::
  "(string \<Rightarrow> json \<Rightarrow> 'w \<Rightarrow> ((string + json) \<times> 'w) option) \<Rightarrow> string \<Rightarrow> 'w agent_env" where
  "demo_agent_env req compact = \<lparr> xe_os = demo_agent_os req,
     xe_manager = \<lparr> cm_root = ''/ck'', cm_socket_path = ''/tmp/agentd.sock'' \<rparr>,
     xe_round = \<lambda>_ _ _ w. (Inr \<lparr> rr_text = Some ''done'', rr_calls = [] \<rparr>, w), xe_system = \<lambda>t. t,
     xe_compact = \<lambda>_. compact, xe_pretty = \<lambda>_. [], xe_debug_json = \<lambda>_. [], xe_debug_list = \<lambda>_. [],
     xe_now = \<lambda>_. 0, xe_elapsed = \<lambda>_. 0, xe_listening = True, xe_verbose = False, xe_worker = 0 \<rparr>"

definition demo_answer :: "string \<Rightarrow> json \<Rightarrow> unit \<Rightarrow> ((string + json) \<times> unit) option" where
  "demo_answer _ _ w = Some (Inr (JObj [(''status'', JStr ''ok''), (''result'', JObj [])]), w)"

definition demo_worker_agent :: agent_handle where
  "demo_worker_agent = \<lparr> ah_agent_id = ''a'', ah_sandbox_name = ''sb'', ah_container_id = ''ct'', ah_task_id = Some ''t'',
     ah_layer = \<lparr> ol_level = LayerAgent, ol_mount_path = [], ol_upper_dir = [], ol_work_dir = [], ol_lower_dirs = [] \<rparr> \<rparr>"

definition demo_agent_call :: agent_call where
  "demo_agent_call = \<lparr> ac_id = ''c1'', ac_name = ''read_file'', ac_args = JObj [] \<rparr>"

definition demo_agent_state :: "unit agent_state" where
  "demo_agent_state = \<lparr> xs_world = (), xs_log = new_log ''a'' ''t'' ''/ck/a'',
     xs_events = [StreamAgentStarted ''a'' ''sb'' ''task''], xs_rounds = 0 \<rparr>"

lemma demo_has_tools: "has_tool ''read_file''" "has_tool ''discover_tools''"
  by (simp_all add: has_tool_def registry)

lemma demo_tool_runs:
  "has_tool name \<Longrightarrow> execute_tool_with_retry (demo_agent_env demo_answer t) sb ct name input w = Some (Inr (JObj []), w)"
  by (simp add: execute_tool_with_retry_def max_tier1_retries_def numeral_eq_Suc tool_attempt_def
      invoke_tool_via_socket_def list_all_tools_iff demo_agent_env_def demo_agent_os_def demo_answer_def tool_answer_def jget_str_def)

lemma demo_agent_env_fields:
  "xe_round (demo_agent_env req t) sys conv tools w = (Inr \<lparr> rr_text = Some ''done'', rr_calls = [] \<rparr>, w)"
  "xe_os (demo_agent_env req t) = demo_agent_os req" "ck_request (demo_agent_os req) = req"
  "xe_listening (demo_agent_env req t)" "\<not> xe_verbose (demo_agent_env req t)" "xe_compact (demo_agent_env req t) v = t"
  "cm_socket_path (xe_manager (demo_agent_env req t)) = ''/tmp/agentd.sock''"
  "ck_exists (demo_agent_os req) p w = False"
  "ck_mkdirs (demo_agent_os req) p w = (Inr (), w)" "ck_write (demo_agent_os req) p c w = (Inr (), w)"
  by (simp_all add: demo_agent_env_def demo_agent_os_def)

lemma demo_finishes: "\<exists>x s1. finish_agent (demo_agent_env demo_answer t) agent s = Some (Finished (Inr x), s1)"
  by (simp add: finish_agent_def capture_git_diff_def demo_agent_env_fields demo_answer_def Let_def)

lemma demo_agent_rounds:
  "0 < n \<Longrightarrow> \<exists>x s1. agent_rounds (demo_agent_env demo_answer t) agent sid task tools sys n conv s = Some (Finished (Inr x), s1)"
  by (cases n) (simp_all add: Let_def demo_agent_env_fields demo_finishes)

lemma demo_attempt:
  "\<exists>r s'. agent_attempts (demo_agent_env demo_answer []) demo_worker_agent ''task'' [] [] max_tier2_retries demo_agent_state
     = Some (Finished r, s')"
proof -
  have "short_id (ah_agent_id demo_worker_agent) = Some ''a''"
    by (simp add: demo_worker_agent_def short_id_def char_boundary_def)
  moreover have "0 < MAX_TOOL_ROUNDS" by (simp add: MAX_TOOL_ROUNDS_def)
  ultimately have "\<exists>x s1. execute_with_checkpoints (demo_agent_env demo_answer []) demo_worker_agent ''task'' [] []
      demo_agent_state = Some (Finished (Inr x), s1)"
    by (simp add: execute_with_checkpoints_def Let_def demo_tool_runs [OF demo_has_tools(2)] demo_agent_rounds)
  then show ?thesis by (subst agent_attempts.simps) auto
qed

theorem agent_result_correct_witness:
  "\<exists>r s'. agent_attempts (demo_agent_env demo_answer []) demo_worker_agent ''task'' [] [] max_tier2_retries demo_agent_state
       = Some (Finished r, s')
     \<and> res_task_id r = ''t'' \<and> length (res_checkpoint_log r) \<le> 53 \<and> xs_rounds s' \<le> 768
     \<and> filter outcome_event (xs_events s') = [final_event demo_worker_agent r]"
proof -
  obtain r s' where r: "agent_attempts (demo_agent_env demo_answer []) demo_worker_agent ''task'' [] [] max_tier2_retries
      demo_agent_state = Some (Finished r, s')"
    using demo_attempt by blast
  have "xs_log demo_agent_state = new_log (ah_agent_id demo_worker_agent) ''t'' ''/ck/a''"
    "xs_events demo_agent_state = [StreamAgentStarted ''a'' ''sb'' ''task'']" "xs_rounds demo_agent_state = 0"
    "unwrap_or [] (ah_task_id demo_worker_agent) = ''t''"
    by (simp_all add: demo_agent_state_def demo_worker_agent_def)
  with agent_result_correct [OF r this(1-3)] r show ?thesis by (intro exI [of _ r] exI [of _ s']) simp
qed

lemma demo_record:
  "\<exists>s1. record_call (demo_agent_env demo_answer t) agent call v s = Some (Inr (), s1)"
proof -
  let ?os = "demo_agent_os demo_answer"
  have "create_snapshot ?os m a i sb ct w = Some (Inr (snapshot_dir m a i), w)" for m a i sb ct w
    by (simp add: create_snapshot_def Let_def demo_agent_env_fields demo_answer_def answer_ok_def jget_str_def)
  moreover have "add_checkpoint ?os c l1 w = (Inr (), push_checkpoint c l1, w)" for c l1 and w :: unit
    by (simp add: add_checkpoint_def save_log_def Let_def demo_agent_env_fields)
  moreover have "\<exists>l. prune ?os n l1 w = (Inr (), l, w)" for n l1 and w :: unit
    by (simp add: prune_def save_log_def Let_def demo_agent_env_fields)
  then obtain f where "prune ?os n l1 w = (Inr (), f n l1 w, w)" for n l1 and w :: unit by metis
  ultimately show ?thesis
    by (simp add: record_call_def next_checkpoint_id_def Let_def demo_agent_env_fields)
qed

lemma demo_run_call:
  "\<exists>s'. run_agent_call (demo_agent_env demo_answer []) demo_worker_agent demo_agent_call s = Some (Finished (Inr (JObj [])), s')"
proof -
  have n: "ac_name demo_agent_call = ''read_file''" by (simp add: demo_agent_call_def)
  obtain f where f: "record_call (demo_agent_env demo_answer t) agent call v s = Some (Inr (), f t agent call v s)"
    for t agent call v s using demo_record by metis
  show ?thesis
    by (simp add: run_agent_call_def Let_def n demo_tool_runs [OF demo_has_tools(1)] announce_result_def demo_agent_env_fields
        preview_def f)
qed

theorem calls_are_logged_witness:
  "\<exists>results s'. run_agent_calls (demo_agent_env demo_answer []) demo_worker_agent [demo_agent_call] demo_agent_state
       = Some (Finished (Inr results), s')
     \<and> map fst results = [demo_agent_call]
     \<and> (\<exists>es. map (\<lambda>c. (cp_tool_call c, cp_tool_args c, cp_tool_result c)) es
             = map (\<lambda>(c, v). (ac_name c, ac_args c, v)) results
         \<and> cl_checkpoints (xs_log s') = last_n 50 (cl_checkpoints (xs_log demo_agent_state) @ es))"
proof -
  obtain s' where "run_agent_calls (demo_agent_env demo_answer []) demo_worker_agent [demo_agent_call] demo_agent_state
      = Some (Finished (Inr [(demo_agent_call, JObj [])]), s')"
    using demo_run_call [of demo_agent_state] by auto
  moreover have "length (cl_checkpoints (xs_log demo_agent_state)) \<le> 50" by (simp add: demo_agent_state_def new_log_def)
  ultimately show ?thesis using calls_are_logged by blast
qed

theorem slow_tool_sent_16_times_witness:
  "\<exists>e s'. execute_tool_with_retry (demo_agent_env (socket_roundtrip demo_slow_os (\<lambda>_. ''{}'') (\<lambda>_. None)) []) ''sb'' ''ct''
        ''read_file'' (JObj []) \<lparr> lk_world = (), lk_sent = [] \<rparr> = Some (Inl e, s')
     \<and> lk_sent s' = replicate 16 (''{}'' @ [newline])"
  using slow_tool_sent_16_times [where env = "demo_agent_env (socket_roundtrip demo_slow_os (\<lambda>_. ''{}'') (\<lambda>_. None)) []"
      and so = demo_slow_os and enc = "\<lambda>_. ''{}''" and parse = "\<lambda>_. None" and name = "''read_file''"
      and s = "\<lparr> lk_world = (), lk_sent = [] \<rparr>"]
  by (simp add: demo_agent_env_fields demo_slow demo_has_tools request_line_def)


text \<open>A text of 199 letters and one character of two bytes, which byte 200 is inside of.\<close>

definition demo_long_result :: string where
  "demo_long_result = replicate 199 (CHR ''a'') @ [CHR 0xC3, CHR 0xA9]"

theorem preview_panics_witness:
  "\<exists>s'. run_agent_call (demo_agent_env demo_answer demo_long_result) demo_worker_agent demo_agent_call demo_agent_state
     = Some (Panicked, s')"
proof -
  have "ac_name demo_agent_call = ''read_file''" by (simp add: demo_agent_call_def)
  then have "execute_tool_with_retry (demo_agent_env demo_answer demo_long_result) (ah_sandbox_name demo_worker_agent)
      (ah_container_id demo_worker_agent) (ac_name demo_agent_call) (ac_args demo_agent_call) (xs_world demo_agent_state)
      = Some (Inr (JObj []), xs_world demo_agent_state)"
    by (simp add: demo_tool_runs [OF demo_has_tools(1)])
  from preview_panics [OF this] show ?thesis
    by (auto simp: demo_agent_env_fields demo_long_result_def char_boundary_def continuation_byte_def nth_append)
qed

text \<open>An agent whose only checkpoint has no snapshot.\<close>

definition demo_unsaved_state :: "unit agent_state" where
  "demo_unsaved_state = demo_agent_state\<lparr> xs_log := push_checkpoint ((demo_entry 0)\<lparr> cp_layer_snapshot_path := [] \<rparr>)
     (new_log ''a'' ''t'' ''/ck/a'') \<rparr>"

theorem lost_snapshot_not_restored_witness:
  "restore_last (demo_agent_env demo_answer []) demo_worker_agent demo_unsaved_state = Some demo_unsaved_state"
  using lost_snapshot_not_restored [where s = demo_unsaved_state and c = "(demo_entry 0)\<lparr> cp_layer_snapshot_path := [] \<rparr>"
      and env = "demo_agent_env demo_answer []"]
  by (simp add: demo_unsaved_state_def latest_def push_checkpoint_def new_log_def demo_agent_env_fields)

end
