(* ===== verification/Merge_Tree.thy ===== *)
theory Merge_Tree
  imports Socket_Client "HOL-Library.Multiset"
begin

text \<open>
  The parallel merge of the diffs of many agents (\<open>agentd/src/orchestration/merge_worker.rs\<close>): pairs of diffs
  are merged in rounds, each by a worker that applies both to a clone of the repository and asks
  a model to repair what does not apply. Processes, files and the model are parameters.
\<close>

section \<open>The rounds\<close>

record worker_merge_result =
  mg_success :: bool
  mg_merged_diff :: string
  mg_resolved :: nat
  mg_unresolved :: "string list"

text \<open>What awaiting a worker gives; \<open>WorkerPanicked\<close> is a failed join.\<close>

datatype worker_end = Joined "string + worker_merge_result" | WorkerPanicked

text \<open>The outcome of the \<open>k\<close>-th worker, counted in the order of spawning, on its two diffs.\<close>

type_synonym merge_workers = "nat \<Rightarrow> string \<Rightarrow> string \<Rightarrow> worker_end"

text \<open>\<open>chunks(2)\<close>: the pairs, and the diff that is left over.\<close>

fun pair_up :: "'a list \<Rightarrow> ('a \<times> 'a) list \<times> 'a list" where
  "pair_up (x # y # zs) = (case pair_up zs of (ps, spare) \<Rightarrow> ((x, y) # ps, spare))"
| "pair_up zs = ([], zs)"

text \<open>
  A round: the results are awaited in order; the first failure ends it. \<open>next\<close> is the next level so far, which
  starts with the diff that was left over.
\<close>

datatype round_end = RoundError string | RoundFailed nat "string list" | RoundDone "string list" nat "string list"

fun merge_round ::
  "merge_workers \<Rightarrow> nat \<Rightarrow> (string \<times> string) list \<Rightarrow> string list \<Rightarrow> nat \<Rightarrow> string list \<Rightarrow> round_end" where
  "merge_round mw k [] next resolved unresolved = RoundDone next resolved unresolved"
| "merge_round mw k ((a, b) # ps) next resolved unresolved =
     (case mw k a b of
        WorkerPanicked \<Rightarrow> RoundError ''Merge task panicked''
      | Joined (Inl e) \<Rightarrow> RoundError e
      | Joined (Inr r) \<Rightarrow>
          let resolved1 = resolved + mg_resolved r; unresolved1 = unresolved @ mg_unresolved r in
          if mg_success r then merge_round mw (Suc k) ps (next @ [mg_merged_diff r]) resolved1 unresolved1
          else RoundFailed resolved1 unresolved1)"

lemma merge_round_length:
  "merge_round mw k ps next r u = RoundDone next1 r1 u1 \<Longrightarrow> length next1 = length next + length ps"
  by (induction mw k ps "next" r u rule: merge_round.induct) (auto simp: Let_def split: worker_end.splits sum.splits if_splits)

lemma pair_up_length: "pair_up zs = (ps, spare) \<Longrightarrow> length zs = 2 * length ps + length spare \<and> length spare \<le> 1"
  by (induction zs arbitrary: ps spare rule: pair_up.induct) (auto split: prod.splits)

function merge_levels ::
  "merge_workers \<Rightarrow> nat \<Rightarrow> string list \<Rightarrow> nat \<Rightarrow> string list \<Rightarrow> string + worker_merge_result" where
  "merge_levels mw k level resolved unresolved =
     (if length level \<le> 1
      then Inr \<lparr> mg_success = True, mg_merged_diff = (case level of [] \<Rightarrow> [] | d # _ \<Rightarrow> d), mg_resolved = resolved,
             mg_unresolved = unresolved \<rparr>
      else case merge_round mw k (fst (pair_up level)) (snd (pair_up level)) resolved unresolved of
             RoundError e \<Rightarrow> Inl e
           | RoundFailed r u \<Rightarrow> Inr \<lparr> mg_success = False, mg_merged_diff = [], mg_resolved = r, mg_unresolved = u \<rparr>
           | RoundDone next1 r u \<Rightarrow> merge_levels mw (k + length (fst (pair_up level))) next1 r u)"
  by pat_completeness auto

termination
proof (relation "measure (\<lambda>(mw, k, level, r, u). length level)")
  fix mw k level r u next1 r1 u1
  assume l: "\<not> length (level :: string list) \<le> 1"
    and n: "merge_round mw k (fst (pair_up level)) (snd (pair_up level)) r u = RoundDone next1 r1 u1"
  obtain ps spare where p: "pair_up level = (ps, spare)" by (cases "pair_up level")
  then have "length next1 < length level"
    using merge_round_length [OF n] pair_up_length [OF p] l by (cases ps) simp_all
  then show "((mw, k + length (fst (pair_up level)), next1, r1, u1), (mw, k, level, r, u))
      \<in> measure (\<lambda>(mw, k, level, r, u). length level)" by simp
qed simp

declare merge_levels.simps [simp del]

definition merge_diffs :: "merge_workers \<Rightarrow> string list \<Rightarrow> string + worker_merge_result" where
  "merge_diffs mw diffs =
     (case diffs of
        [] \<Rightarrow> Inr \<lparr> mg_success = True, mg_merged_diff = [], mg_resolved = 0, mg_unresolved = [] \<rparr>
      | [d] \<Rightarrow> Inr \<lparr> mg_success = True, mg_merged_diff = d, mg_resolved = 0, mg_unresolved = [] \<rparr>
      | _ \<Rightarrow> merge_levels mw 0 diffs 0 [])"

section \<open>A worker\<close>

record proc_result =
  pr_success :: bool
  pr_stdout :: string
  pr_stderr :: string

record 'w merge_os =
  mo_uuid :: "'w \<Rightarrow> string \<times> 'w"
  mo_mkdirs :: "string \<Rightarrow> 'w \<Rightarrow> (string + unit) \<times> 'w"
  mo_write :: "string \<Rightarrow> string \<Rightarrow> 'w \<Rightarrow> (string + unit) \<times> 'w"
  mo_remove_dir_all :: "string \<Rightarrow> 'w \<Rightarrow> (string + unit) \<times> 'w"
  mo_git :: "string option \<Rightarrow> string list \<Rightarrow> 'w \<Rightarrow> (string + proc_result) \<times> 'w"
  mo_generate :: "string \<Rightarrow> 'w \<Rightarrow> (string + string) \<times> 'w"

type_synonym ('w, 'a) merge_io = "'w \<Rightarrow> (string + 'a) \<times> 'w"

definition io_then :: "('w, 'a) merge_io \<Rightarrow> ('a \<Rightarrow> ('w, 'b) merge_io) \<Rightarrow> ('w, 'b) merge_io" where
  "io_then m f w = (case m w of (Inl e, w1) \<Rightarrow> (Inl e, w1) | (Inr x, w1) \<Rightarrow> f x w1)"

definition io_return :: "'a \<Rightarrow> ('w, 'a) merge_io" where
  "io_return x w = (Inr x, w)"

definition io_fail :: "string \<Rightarrow> ('w, 'a) merge_io" where
  "io_fail e w = (Inl e, w)"

text \<open>\<open>context\<close> on an operation, and a git command that must succeed.\<close>

definition io_context :: "string \<Rightarrow> ('w, 'a) merge_io \<Rightarrow> ('w, 'a) merge_io" where
  "io_context msg m w = (case m w of (Inl e, w1) \<Rightarrow> (Inl msg, w1) | (Inr x, w1) \<Rightarrow> (Inr x, w1))"

definition git_must ::
  "'w merge_os \<Rightarrow> string \<Rightarrow> string \<Rightarrow> string option \<Rightarrow> string list \<Rightarrow> ('w, proc_result) merge_io" where
  "git_must os msg fail_msg dir args =
     io_then (io_context msg (mo_git os dir args)) (\<lambda>r.
       if pr_success r then io_return r else io_fail (fail_msg @ '': '' @ pr_stderr r))"

definition prepare_merge_repo :: "'w merge_os \<Rightarrow> string \<Rightarrow> string \<Rightarrow> ('w, unit) merge_io" where
  "prepare_merge_repo os repo base =
     io_then (git_must os ''Failed to clone base repo into merge dir'' ''Failed to clone base repo'' None
       [''clone'', base, repo]) (\<lambda>_.
     io_then (git_must os ''Failed to configure merge repo email'' ''Failed to configure merge repo email'' (Some repo)
       [''config'', ''user.email'', ''merge@mowis.ai'']) (\<lambda>_.
     io_then (git_must os ''Failed to configure merge repo user'' ''Failed to configure merge repo user'' (Some repo)
       [''config'', ''user.name'', ''MowisAI Merge'']) (\<lambda>_. io_return ())))"

definition current_head :: "'w merge_os \<Rightarrow> string \<Rightarrow> ('w, string) merge_io" where
  "current_head os repo =
     io_then (git_must os ''Failed to resolve merge base HEAD'' ''Failed to resolve merge base HEAD'' (Some repo)
       [''rev-parse'', ''HEAD'']) (\<lambda>r. io_return (trim (pr_stdout r)))"

text \<open>\<open>apply_diff\<close>: \<open>None\<close> if the patch applies, otherwise the text of the conflict.\<close>

definition apply_diff :: "'w merge_os \<Rightarrow> string \<Rightarrow> string \<Rightarrow> ('w, string option) merge_io" where
  "apply_diff os repo patch =
     io_then (io_context ''Failed to run git apply'' (mo_git os (Some repo) [''apply'', patch])) (\<lambda>r.
       io_return (if pr_success r then None else Some (pr_stderr r)))"

definition capture_merged_diff :: "'w merge_os \<Rightarrow> string \<Rightarrow> string \<Rightarrow> ('w, string) merge_io" where
  "capture_merged_diff os repo base_commit =
     io_then (io_context ''Failed to stage changes'' (mo_git os (Some repo) [''add'', ''-A''])) (\<lambda>_.
     io_then (git_must os ''Failed to capture merged diff'' ''Failed to capture diff'' (Some repo)
       [''diff'', ''--cached'', base_commit]) (\<lambda>r. io_return (pr_stdout r)))"

definition repair_message :: "string \<Rightarrow> string \<Rightarrow> string \<Rightarrow> string" where
  "repair_message d1 d2 conflict =
     ''Diff 1:'' @ [newline] @ d1 @ [newline, newline] @ ''Diff 2:'' @ [newline] @ d2 @ [newline, newline]
     @ ''Conflict:'' @ [newline] @ conflict @ [newline, newline] @ ''Produce a repaired patch that resolves this conflict:''"

text \<open>\<open>repair_conflict\<close>: whatever \<open>max_retries\<close> is, a second answer is asked for once.\<close>

definition repair_conflict :: "'w merge_os \<Rightarrow> nat \<Rightarrow> string \<Rightarrow> string \<Rightarrow> string \<Rightarrow> ('w, string) merge_io" where
  "repair_conflict os max_retries d1 d2 conflict w =
     (let ask = mo_generate os (repair_message d1 d2 conflict) in
      case ask w of
        (Inr t, w1) \<Rightarrow> (Inr t, w1)
      | (Inl e, w1) \<Rightarrow> if 0 < max_retries then ask w1 else (Inl e, w1))"

text \<open>
  One diff: apply it, and if that fails apply what the model makes of it. The result is what is added to
  the resolved and to the unresolved conflicts.
\<close>

definition merge_one ::
  "'w merge_os \<Rightarrow> nat \<Rightarrow> string \<Rightarrow> string \<Rightarrow> string \<Rightarrow> string \<Rightarrow> string \<Rightarrow> string \<Rightarrow> ('w, nat \<times> string list) merge_io" where
  "merge_one os max_retries repo d1 d2 patch dir name =
     io_then (apply_diff os repo patch) (\<lambda>c. case c of
       None \<Rightarrow> io_return (0, [])
     | Some conflict \<Rightarrow> (\<lambda>w.
         case repair_conflict os max_retries d1 d2 conflict w of
           (Inl e, w1) \<Rightarrow> (Inr (0, [''Repair failed: '' @ e]), w1)
         | (Inr repaired, w1) \<Rightarrow>
             (let path = join_path dir name in
              io_then (mo_write os path repaired) (\<lambda>_.
              io_then (apply_diff os repo path) (\<lambda>c2. case c2 of
                None \<Rightarrow> io_return (1, [])
              | Some conflict2 \<Rightarrow> io_return (0, [conflict2])))) w1))"

definition merge_body ::
  "'w merge_os \<Rightarrow> nat \<Rightarrow> string \<Rightarrow> string \<Rightarrow> string \<Rightarrow> string \<Rightarrow> ('w, worker_merge_result) merge_io" where
  "merge_body os max_retries dir base d1 d2 =
     (let repo = join_path dir ''repo''; p1 = join_path dir ''diff1.patch''; p2 = join_path dir ''diff2.patch'' in
      io_then (mo_write os p1 d1) (\<lambda>_.
      io_then (mo_write os p2 d2) (\<lambda>_.
      io_then (prepare_merge_repo os repo base) (\<lambda>_.
      io_then (current_head os repo) (\<lambda>head.
      io_then (merge_one os max_retries repo d1 d2 p1 dir ''diff1_repaired.patch'') (\<lambda>(r1, u1).
      io_then (merge_one os max_retries repo d1 d2 p2 dir ''diff2_repaired.patch'') (\<lambda>(r2, u2).
      io_then (capture_merged_diff os repo head) (\<lambda>final w.
        (Inr \<lparr> mg_success = (u1 @ u2 = []), mg_merged_diff = final, mg_resolved = r1 + r2, mg_unresolved = u1 @ u2 \<rparr>,
         snd (mo_remove_dir_all os dir w))))))))))"

definition merge_two_diffs ::
  "'w merge_os \<Rightarrow> nat \<Rightarrow> string \<Rightarrow> string \<Rightarrow> string \<Rightarrow> string \<Rightarrow> ('w, worker_merge_result) merge_io" where
  "merge_two_diffs os max_retries work_dir base d1 d2 w =
     (case mo_uuid os w of (i, w1) \<Rightarrow>
        let dir = join_path work_dir (''merge-'' @ i) in
        io_then (mo_mkdirs os dir) (\<lambda>_. merge_body os max_retries dir base d1 d2) w1)"

text \<open>\<open>detect_diff_overlap\<close>: whether two diffs name a file in common.\<close>

definition diff_files :: "string \<Rightarrow> string set" where
  "diff_files d = set (map (drop 6) (filter (prefix ''+++ b/'') (str_lines d)))"

definition detect_diff_overlap :: "string \<Rightarrow> string \<Rightarrow> bool" where
  "detect_diff_overlap d1 d2 \<longleftrightarrow> diff_files d1 \<inter> diff_files d2 \<noteq> {}"

section \<open>Merges as trees\<close>

text \<open>Which worker merged what; the result of a tree whose workers all succeed.\<close>

datatype merge_tree = Given string | Merged nat merge_tree merge_tree

fun given :: "merge_tree \<Rightarrow> string multiset" where
  "given (Given d) = {#d#}"
| "given (Merged k l r) = given l + given r"

fun depth :: "merge_tree \<Rightarrow> nat" where
  "depth (Given d) = 0"
| "depth (Merged k l r) = Suc (max (depth l) (depth r))"

fun result_of :: "merge_workers \<Rightarrow> merge_tree \<Rightarrow> (string \<times> nat \<times> string multiset) option" where
  "result_of mw (Given d) = Some (d, 0, {#})"
| "result_of mw (Merged k l r) =
     (case (result_of mw l, result_of mw r) of
        (Some (a, n1, u1), Some (b, n2, u2)) \<Rightarrow>
          (case mw k a b of
             Joined (Inr m) \<Rightarrow>
               if mg_success m
               then Some (mg_merged_diff m, n1 + n2 + mg_resolved m, u1 + u2 + mset (mg_unresolved m)) else None
           | _ \<Rightarrow> None)
      | _ \<Rightarrow> None)"

definition works :: "merge_workers \<Rightarrow> merge_tree \<Rightarrow> bool" where
  "works mw t \<longleftrightarrow> result_of mw t \<noteq> None"

definition diff_of :: "merge_workers \<Rightarrow> merge_tree \<Rightarrow> string" where
  "diff_of mw t = fst (the (result_of mw t))"

definition resolved_in :: "merge_workers \<Rightarrow> merge_tree \<Rightarrow> nat" where
  "resolved_in mw t = fst (snd (the (result_of mw t)))"

definition unresolved_in :: "merge_workers \<Rightarrow> merge_tree \<Rightarrow> string multiset" where
  "unresolved_in mw t = snd (snd (the (result_of mw t)))"

lemma result_of_parts: "works mw t \<Longrightarrow> result_of mw t = Some (diff_of mw t, resolved_in mw t, unresolved_in mw t)"
  by (auto simp: works_def diff_of_def resolved_in_def unresolved_in_def)

lemma merged_node:
  assumes "works mw l" and "works mw r" and "mw k (diff_of mw l) (diff_of mw r) = Joined (Inr m)" and "mg_success m"
  shows "works mw (Merged k l r)" and "diff_of mw (Merged k l r) = mg_merged_diff m"
    and "resolved_in mw (Merged k l r) = resolved_in mw l + resolved_in mw r + mg_resolved m"
    and "unresolved_in mw (Merged k l r) = unresolved_in mw l + unresolved_in mw r + mset (mg_unresolved m)"
proof -
  have "result_of mw (Merged k l r) = Some (mg_merged_diff m, resolved_in mw l + resolved_in mw r + mg_resolved m,
      unresolved_in mw l + unresolved_in mw r + mset (mg_unresolved m))"
    using assms by (simp add: result_of_parts)
  then show "works mw (Merged k l r)" and "diff_of mw (Merged k l r) = mg_merged_diff m"
    and "resolved_in mw (Merged k l r) = resolved_in mw l + resolved_in mw r + mg_resolved m"
    and "unresolved_in mw (Merged k l r) = unresolved_in mw l + unresolved_in mw r + mset (mg_unresolved m)"
    by (simp_all add: works_def diff_of_def resolved_in_def unresolved_in_def)
qed

text \<open>The trees of a level: its diffs, and what is resolved and unresolved so far.\<close>

definition sum_of :: "('a \<Rightarrow> 'b::comm_monoid_add) \<Rightarrow> 'a list \<Rightarrow> 'b" where
  "sum_of f ts = sum_list (map f ts)"

lemma sum_of_simps [simp]: "sum_of f [] = 0" "sum_of f (t # ts) = f t + sum_of f ts" "sum_of f (ts @ us) = sum_of f ts + sum_of f us"
  by (simp_all add: sum_of_def)

definition both :: "('a \<times> 'a) list \<Rightarrow> 'a list" where
  "both ps = concat (map (\<lambda>(x, y). [x, y]) ps)"

lemma both_simps [simp]: "both [] = []" "both ((x, y) # ps) = x # y # both ps"
  by (simp_all add: both_def)

definition level_trees :: "merge_workers \<Rightarrow> merge_tree list \<Rightarrow> nat \<Rightarrow> string list \<Rightarrow> bool" where
  "level_trees mw ts resolved unresolved \<longleftrightarrow> list_all (works mw) ts
     \<and> resolved = sum_of (resolved_in mw) ts \<and> mset unresolved = sum_of (unresolved_in mw) ts"

lemma merge_round_trees:
  assumes "merge_round mw k (map (\<lambda>(l, r). (diff_of mw l, diff_of mw r)) tps) (map (diff_of mw) nts) res unres
      = RoundDone next1 res1 unres1"
    and "level_trees mw (both tps @ nts) res unres" and "list_all (\<lambda>t. depth t \<le> h) (both tps)" and "list_all (\<lambda>t. depth t \<le> Suc h) nts"
  shows "\<exists>ts. next1 = map (diff_of mw) ts \<and> level_trees mw ts res1 unres1
    \<and> sum_of given ts = sum_of given (both tps @ nts) \<and> list_all (\<lambda>t. depth t \<le> Suc h) ts"
  using assms
proof (induction tps arbitrary: k nts res unres)
  case Nil
  then show ?case by (intro exI [of _ nts]) simp
next
  case (Cons p tps)
  obtain l r where p: "p = (l, r)" by (cases p)
  obtain m where m: "mw k (diff_of mw l) (diff_of mw r) = Joined (Inr m)" "mg_success m"
    using Cons.prems(1) p by (auto simp: Let_def split: worker_end.splits sum.splits if_splits)
  have lr: "works mw l" "works mw r" using Cons.prems(2) p by (simp_all add: level_trees_def)
  note node = merged_node [OF lr m]
  let ?t = "Merged k l r"
  have "merge_round mw (Suc k) (map (\<lambda>(l, r). (diff_of mw l, diff_of mw r)) tps) (map (diff_of mw) (nts @ [?t]))
      (res + mg_resolved m) (unres @ mg_unresolved m) = RoundDone next1 res1 unres1"
    using Cons.prems(1) p m node(2) by (simp add: Let_def)
  moreover have "level_trees mw (both tps @ nts @ [?t]) (res + mg_resolved m) (unres @ mg_unresolved m)"
    using Cons.prems(2) p node by (auto simp: level_trees_def ac_simps)
  moreover have "list_all (\<lambda>t. depth t \<le> h) (both tps)" "list_all (\<lambda>t. depth t \<le> Suc h) (nts @ [?t])"
    using Cons.prems(3,4) p by auto
  ultimately obtain ts where "next1 = map (diff_of mw) ts" "level_trees mw ts res1 unres1"
    "sum_of given ts = sum_of given (both tps @ nts @ [?t])" "list_all (\<lambda>t. depth t \<le> Suc h) ts"
    using Cons.IH [of "Suc k" "nts @ [?t]"] by auto
  then show ?case using p by (intro exI [of _ ts]) (simp add: ac_simps)
qed

lemma pair_up_map: "pair_up (map f xs) = (map (\<lambda>(x, y). (f x, f y)) (fst (pair_up xs)), map f (snd (pair_up xs)))"
  by (induction xs rule: pair_up.induct) (auto split: prod.splits)

lemma pair_up_both: "both (fst (pair_up xs)) @ snd (pair_up xs) = xs"
  by (induction xs rule: pair_up.induct) (auto split: prod.splits)

text \<open>The number of rounds for \<open>n\<close> diffs.\<close>

function rounds_for :: "nat \<Rightarrow> nat" where
  "rounds_for n = (if n \<le> 1 then 0 else Suc (rounds_for ((n + 1) div 2)))"
  by pat_completeness auto

termination by (relation "measure id") auto

declare rounds_for.simps [simp del]

lemma rounds_for_bound: "2 \<le> n \<Longrightarrow> 2 ^ rounds_for n \<le> 2 * (n - 1)"
proof (induction n rule: rounds_for.induct)
  case (1 n)
  show ?case
  proof (cases "2 \<le> (n + 1) div 2")
    case True
    then have "2 ^ rounds_for ((n + 1) div 2) \<le> 2 * ((n + 1) div 2 - 1)" using 1 by auto
    then show ?thesis using 1(2) by (subst rounds_for.simps) (auto; presburger)
  next
    case False
    then have "n = 2" using 1(2) by linarith
    then show ?thesis by (simp add: rounds_for.simps [of 2] rounds_for.simps [of 1] rounds_for.simps [of "Suc 0"])
  qed
qed

lemma merge_levels_tree:
  assumes "merge_levels mw k (map (diff_of mw) ts) res unres = Inr m" and "mg_success m" and "ts \<noteq> []"
    and "level_trees mw ts res unres" and "list_all (\<lambda>t. depth t \<le> h) ts"
  shows "\<exists>t. result_of mw t = Some (mg_merged_diff m, mg_resolved m, mset (mg_unresolved m))
    \<and> given t = sum_of given ts \<and> depth t \<le> h + rounds_for (length ts)"
  using assms
proof (induction "length ts" arbitrary: k ts res unres h rule: less_induct)
  case less
  show ?case
  proof (cases "length ts \<le> 1")
    case True
    then obtain t where ts: "ts = [t]" using less.prems(3) by (cases ts) auto
    then have "m = \<lparr> mg_success = True, mg_merged_diff = diff_of mw t, mg_resolved = res, mg_unresolved = unres \<rparr>"
      using less.prems(1) by (subst (asm) merge_levels.simps) simp
    then show ?thesis using less.prems(4,5) ts result_of_parts [of mw t]
      by (intro exI [of _ t]) (simp add: level_trees_def)
  next
    case False
    let ?ps = "fst (pair_up ts)" and ?spare = "snd (pair_up ts)"
    have round: "merge_round mw k (map (\<lambda>(l, r). (diff_of mw l, diff_of mw r)) ?ps) (map (diff_of mw) ?spare) res unres
        = RoundDone n1 r1 u1 \<Longrightarrow> merge_levels mw k (map (diff_of mw) ts) res unres
        = merge_levels mw (k + length ?ps) n1 r1 u1" for n1 r1 u1
      using False by (subst merge_levels.simps) (simp add: pair_up_map)
    obtain n1 r1 u1 where n1: "merge_round mw k (map (\<lambda>(l, r). (diff_of mw l, diff_of mw r)) ?ps)
        (map (diff_of mw) ?spare) res unres = RoundDone n1 r1 u1"
      using less.prems(1,2) False by (subst (asm) merge_levels.simps) (auto simp: pair_up_map split: round_end.splits)
    have "level_trees mw (both ?ps @ ?spare) res unres" using less.prems(4) by (simp add: pair_up_both)
    moreover have "list_all (\<lambda>t. depth t \<le> h) (both ?ps @ ?spare)" using less.prems(5) by (simp add: pair_up_both)
    then have "list_all (\<lambda>t. depth t \<le> h) (both ?ps)" "list_all (\<lambda>t. depth t \<le> Suc h) ?spare"
      by (auto simp: list_all_iff intro: le_SucI)
    ultimately obtain ts1 where ts1: "n1 = map (diff_of mw) ts1" "level_trees mw ts1 r1 u1"
      "sum_of given ts1 = sum_of given ts" "list_all (\<lambda>t. depth t \<le> Suc h) ts1"
      using merge_round_trees [OF n1] by (auto simp: pair_up_both)
    have len: "length ts1 = length ?spare + length ?ps" using merge_round_length [OF n1] ts1(1) by simp
    moreover have "length ts = 2 * length ?ps + length ?spare" "length ?spare \<le> 1"
      using pair_up_length [of ts ?ps ?spare] by simp_all
    ultimately have half: "length ts1 = (length ts + 1) div 2" "length ts1 < length ts" "ts1 \<noteq> []"
      using False by auto
    from less.hyps [OF half(2), of "k + length ?ps" r1 u1 "Suc h"] obtain t
      where "result_of mw t = Some (mg_merged_diff m, mg_resolved m, mset (mg_unresolved m))"
        "given t = sum_of given ts1" "depth t \<le> Suc h + rounds_for (length ts1)"
      using less.prems(1,2) round [OF n1] ts1 half(3) by auto
    moreover have "rounds_for (length ts) = Suc (rounds_for (length ts1))"
      using False half(1) by (subst rounds_for.simps) simp
    ultimately show ?thesis using ts1(3) by auto
  qed
qed

section \<open>Workers\<close>

lemma io_then_Inr: "io_then m f w = (Inr y, w2) \<longleftrightarrow> (\<exists>x w1. m w = (Inr x, w1) \<and> f x w1 = (Inr y, w2))"
  by (auto simp: io_then_def split: prod.splits sum.splits)

lemma merge_one_counts:
  assumes "merge_one os n repo d1 d2 patch dir name w = (Inr (r, u), w1)"
  shows "r + length u \<le> 1"
proof -
  obtain c w2 where c: "apply_diff os repo patch w = (Inr c, w2)"
    using assms by (auto simp: merge_one_def io_then_Inr)
  show ?thesis
  proof (cases c)
    case None
    then show ?thesis using assms c by (simp add: merge_one_def io_then_def io_return_def)
  next
    case (Some conflict)
    obtain q w3 where q: "repair_conflict os n d1 d2 conflict w2 = (q, w3)" by (cases "repair_conflict os n d1 d2 conflict w2")
    show ?thesis
    proof (cases q)
      case (Inl e)
      then show ?thesis using assms c Some q by (auto simp: merge_one_def io_then_def)
    next
      case (Inr repaired)
      then have "io_then (mo_write os (join_path dir name) repaired) (\<lambda>_.
          io_then (apply_diff os repo (join_path dir name)) (\<lambda>c2. case c2 of
            None \<Rightarrow> io_return (Suc 0, []) | Some conflict2 \<Rightarrow> io_return (0, [conflict2]))) w3 = (Inr (r, u), w1)"
        using assms c Some q by (simp add: merge_one_def io_then_def Let_def)
      then show ?thesis by (auto simp: io_then_Inr io_return_def split: option.splits)
    qed
  qed
qed

section \<open>Properties\<close>

text \<open>
  C40. A merge that succeeds is a tree of successful workers over exactly the given diffs, each once: its diff is
  that of the root, the counts are the sums over the workers, and for \<open>n\<close> diffs the depth \<open>h\<close> has
  \<open>2 ^ h \<le> 2 (n - 1)\<close>.
\<close>

theorem merge_is_tree:
  assumes "merge_diffs mw diffs = Inr m" and "mg_success m" and "2 \<le> length diffs"
  shows "\<exists>t. result_of mw t = Some (mg_merged_diff m, mg_resolved m, mset (mg_unresolved m))
    \<and> given t = mset diffs \<and> 2 ^ depth t \<le> 2 * (length diffs - 1)"
proof -
  let ?ts = "map Given diffs"
  have diff: "diff_of mw (Given d) = d" "works mw (Given d)" "resolved_in mw (Given d) = 0" "unresolved_in mw (Given d) = {#}" for d
    by (simp_all add: diff_of_def works_def resolved_in_def unresolved_in_def)
  have "merge_levels mw 0 (map (diff_of mw) ?ts) 0 [] = Inr m"
    using assms(1,3) by (auto simp: merge_diffs_def comp_def diff split: list.splits)
  moreover have "level_trees mw ?ts 0 []"
    by (auto simp: level_trees_def list_all_iff diff sum_of_def comp_def sum_list_triv)
  moreover have "?ts \<noteq> []" "list_all (\<lambda>t. depth t \<le> 0) ?ts" using assms(3) by (auto simp: list_all_iff)
  ultimately obtain t where t: "result_of mw t = Some (mg_merged_diff m, mg_resolved m, mset (mg_unresolved m))"
    "given t = sum_of given ?ts" "depth t \<le> rounds_for (length diffs)"
    using merge_levels_tree [OF _ assms(2), of mw 0 ?ts 0 "[]" 0] by auto
  have "sum_of given (map Given ds) = mset ds" for ds by (induction ds) simp_all
  moreover have "2 ^ depth t \<le> 2 * (length diffs - 1)"
  proof -
    have "(2::nat) ^ depth t \<le> 2 ^ rounds_for (length diffs)" using t(3) by (simp add: power_increasing)
    also have "\<dots> \<le> 2 * (length diffs - 1)" by (rule rounds_for_bound [OF assms(3)])
    finally show ?thesis .
  qed
  ultimately show ?thesis using t by auto
qed

text \<open>
  Of three diffs the last is merged before the others: the diff that is left over in a round stands
  first in the next, so the order of the agents is not kept.
\<close>

theorem spare_diff_goes_first:
  assumes "mw 0 a b = Joined (Inr m)" and "mg_success m" and "mw 1 c (mg_merged_diff m) = Joined (Inr m2)" and "mg_success m2"
  shows "merge_diffs mw [a, b, c] = Inr \<lparr> mg_success = True, mg_merged_diff = mg_merged_diff m2,
    mg_resolved = mg_resolved m + mg_resolved m2, mg_unresolved = mg_unresolved m @ mg_unresolved m2 \<rparr>"
  using assms by (simp add: merge_diffs_def merge_levels.simps)

text \<open>
  A worker that returns a result has handled both diffs: it succeeds exactly if no conflict is left,
  each diff counts for at most one conflict, resolved or not, and its directory was removed last.
\<close>

theorem worker_result:
  assumes "merge_two_diffs os max_retries work_dir base d1 d2 w = (Inr m, w')"
  shows "(mg_success m \<longleftrightarrow> mg_unresolved m = []) \<and> mg_resolved m + length (mg_unresolved m) \<le> 2
    \<and> (\<exists>w2. w' = snd (mo_remove_dir_all os (join_path work_dir (''merge-'' @ fst (mo_uuid os w))) w2))"
proof -
  obtain i w1 where i: "mo_uuid os w = (i, w1)" by (cases "mo_uuid os w")
  let ?dir = "join_path work_dir (''merge-'' @ i)"
  obtain w3 where "merge_body os max_retries ?dir base d1 d2 w3 = (Inr m, w')"
    using assms i by (auto simp: merge_two_diffs_def Let_def io_then_Inr)
  then obtain r1 u1 r2 u2 final wa wb wc wd we where
    m1: "merge_one os max_retries (join_path ?dir ''repo'') d1 d2 (join_path ?dir ''diff1.patch'') ?dir ''diff1_repaired.patch'' wa
      = (Inr (r1, u1), wb)"
    and m2: "merge_one os max_retries (join_path ?dir ''repo'') d1 d2 (join_path ?dir ''diff2.patch'') ?dir ''diff2_repaired.patch'' wc
      = (Inr (r2, u2), wd)"
    and m: "m = \<lparr> mg_success = (u1 @ u2 = []), mg_merged_diff = final, mg_resolved = r1 + r2, mg_unresolved = u1 @ u2 \<rparr>"
    and w': "w' = snd (mo_remove_dir_all os ?dir we)"
    by (auto simp: merge_body_def Let_def io_then_Inr)
  have "r1 + length u1 \<le> 1" "r2 + length u2 \<le> 1" by (rule merge_one_counts [OF m1], rule merge_one_counts [OF m2])
  then show ?thesis using m w' i by auto
qed

text \<open>Workers that succeed with the concatenation of their diffs; a git that accepts everything.\<close>

definition demo_workers :: merge_workers where
  "demo_workers k a b = Joined (Inr \<lparr> mg_success = True, mg_merged_diff = a @ b, mg_resolved = 0, mg_unresolved = [] \<rparr>)"

definition demo_merge_os :: "unit merge_os" where
  "demo_merge_os = \<lparr> mo_uuid = \<lambda>w. (''u'', w), mo_mkdirs = \<lambda>_ w. (Inr (), w), mo_write = \<lambda>_ _ w. (Inr (), w),
     mo_remove_dir_all = \<lambda>_ w. (Inr (), w),
     mo_git = \<lambda>_ _ w. (Inr \<lparr> pr_success = True, pr_stdout = ''out'', pr_stderr = [] \<rparr>, w),
     mo_generate = \<lambda>_ w. (Inl ''no model'', w) \<rparr>"

lemma demo_merge: "merge_diffs demo_workers [''a'', ''b'', ''c''] = Inr \<lparr> mg_success = True, mg_merged_diff = ''cab'',
    mg_resolved = 0, mg_unresolved = [] \<rparr>"
  by (simp add: merge_diffs_def merge_levels.simps demo_workers_def)

theorem merge_is_tree_witness:
  "\<exists>t. result_of demo_workers t = Some (''cab'', 0, {#}) \<and> given t = mset [''a'', ''b'', ''c''] \<and> 2 ^ depth t \<le> (4 :: nat)"
  using merge_is_tree [OF demo_merge] by simp

theorem spare_diff_goes_first_witness:
  "merge_diffs demo_workers [''a'', ''b'', ''c''] = Inr \<lparr> mg_success = True, mg_merged_diff = ''cab'', mg_resolved = 0,
     mg_unresolved = [] \<rparr>"
  using spare_diff_goes_first [where mw = demo_workers and a = "''a''" and b = "''b''" and c = "''c''"
      and m = "\<lparr> mg_success = True, mg_merged_diff = ''ab'', mg_resolved = 0, mg_unresolved = [] \<rparr>"
      and ?m2.0 = "\<lparr> mg_success = True, mg_merged_diff = ''cab'', mg_resolved = 0, mg_unresolved = [] \<rparr>"]
  by (simp add: demo_workers_def)

lemma demo_worker: "\<exists>m w'. merge_two_diffs demo_merge_os 3 ''/w'' ''/base'' ''d1'' ''d2'' () = (Inr m, w')"
  by (simp add: merge_two_diffs_def merge_body_def merge_one_def apply_diff_def prepare_merge_repo_def current_head_def
      git_must_def capture_merged_diff_def io_then_def io_context_def io_return_def Let_def demo_merge_os_def)

theorem worker_result_witness:
  "\<exists>m w'. merge_two_diffs demo_merge_os 3 ''/w'' ''/base'' ''d1'' ''d2'' () = (Inr m, w')
     \<and> mg_resolved m + length (mg_unresolved m) \<le> 2"
  using demo_worker worker_result by metis

end
