(* ===== verification/Spec2Isabelle.thy ===== *)
theory Spec2Isabelle
  imports Plan_Store Config Gateway Review Merger Wave_Captain Conductor_Loop Worker_Pool Initrd Guest Merge_Review Verify_Loop
    Socket_Pool Agent_Exec Merge_Tree
begin

text \<open>
  A verification library for MowisAI: the part of it that plans and builds a project with language models
  (\<open>mowis-orchestration/src\<close>), the wire protocol it speaks with the guest (\<open>mowis-protocol/src/lib.rs\<close>), the
  executor in the guest (\<open>mowis-executor/src\<close>), the builder of its ramdisk (\<open>mowis-host/src/initrd.rs\<close>), and
  the core of the older daemon (\<open>agentd/src/orchestration\<close>): its scheduler, its agents and the merging and
  verification of what they produce.

  \<^bold>\<open>The program.\<close> A user talks to the \<^emph>\<open>conductor\<close> (\<open>conductor.rs\<close>), which drafts a \<^emph>\<open>plan\<close> (\<open>plan.rs\<close>), a
  graph of tasks stored as a directory of TOML files. The \<^emph>\<open>critic\<close> (\<open>critic.rs\<close>) reviews every draft. A
  \<^emph>\<open>captain\<close> (\<open>captain.rs\<close>) runs the tasks of a plan in the order of their dependencies, each by a \<^emph>\<open>crew\<close>
  (\<open>crew.rs\<close>): a loop of rounds of a model (\<open>providers.rs\<close>) whose tool calls go through the \<^emph>\<open>gateway\<close>
  (\<open>tools.rs\<close>) to the local tools (\<open>host_tools.rs\<close>) or to the guest. All parts report to a bus
  (\<open>events.rs\<close>), which the digest of the conductor summarises (\<open>digest.rs\<close>, \<open>summaries.rs\<close>). The guest is a
  virtual machine whose first process is the \<^emph>\<open>executor\<close> (\<open>server.rs\<close>, \<open>sandbox.rs\<close>, \<open>tools.rs\<close>); it boots
  from the archive that \<open>initrd.rs\<close> writes. The daemon has a \<^emph>\<open>scheduler\<close> of its own (\<open>scheduler.rs\<close>), from
  which a pool of workers (\<open>new_orchestrator.rs\<close>) takes tasks, guarded by circuit breakers (\<open>health.rs\<close>).
  A worker has its task executed by an \<^emph>\<open>agent\<close> (\<open>agent_execution.rs\<close>): rounds of a model whose tool calls go to
  the server of the daemon over a socket (\<open>socket_client.rs\<close>, \<open>mod.rs\<close>), each followed by a \<^emph>\<open>checkpoint\<close>
  (\<open>checkpoint.rs\<close>). The diffs of the agents are merged in pairs (\<open>merge_worker.rs\<close>) or reviewed for conflicts
  (\<open>merge_reviewer.rs\<close>), and the result is verified by commands that a model plans (\<open>verification.rs\<close>).

  \<^bold>\<open>Theories and code.\<close>
  \<^item> \<open>Prelude\<close>: strings, JSON and the 64-bit reads of JSON numbers, byte-wise search and replacement.
  \<^item> \<open>Graphs\<close>, \<open>Plan\<close>: the data of \<open>plan.rs\<close>, \<open>Plan::validate\<close> with its depth-first search, model choice and
    tool lists; \<open>Graphs\<close> holds the specification of a well-formed graph and the locale \<open>wave_sort\<close>, the
    contract of a wave-wise topological sort.
  \<^item> \<open>Plan_Store\<close>: \<open>Plan::load\<close>, \<open>save\<close>, \<open>snapshot_to_history\<close> over a map of files, every operation of which
    may fail or tear; \<open>Config\<close>: \<open>config.rs\<close> and \<open>crypto.rs\<close>.
  \<^item> \<open>Protocol\<close>: messages and their line format; \<open>Host_Tools\<close> and \<open>Gateway\<close>: the tools, their jail and the
    allowlists; \<open>Merger\<close> and \<open>Copying\<close>: \<open>merger.rs\<close> and \<open>copy_tree\<close>.
  \<^item> \<open>Events\<close>, \<open>Summaries\<close>, \<open>Review\<close>: bus events and digest, tool summaries, the critic.
  \<^item> \<open>Providers\<close>, \<open>Utf8\<close>, \<open>Streams\<close>: requests, replies and retries of the model clients, and the streamed
    replies as they arrive in chunks of bytes.
  \<^item> \<open>Crew_Loop\<close>, \<open>Task_Machine\<close>, \<open>Captain_Loop\<close>, \<open>Wave_Captain\<close>: the crew, and the two captains of
    \<open>captain.rs\<close>; \<open>Task_Machine\<close> is the abstract machine that \<open>Captain::start_plan\<close> refines.
  \<^item> \<open>Conductor_Text\<close>, \<open>Conductor_Loop\<close>: the text functions and the turns of \<open>conductor.rs\<close>, with the locale
    \<open>bookkeeping\<close> for what no part of the conversation changes.
  \<^item> \<open>Scheduler\<close>, \<open>Health\<close>, \<open>Worker_Pool\<close>: the scheduler of the daemon, which also refines \<open>Task_Machine\<close>, its
    health monitor, and the workers over both as a step relation with every interleaving.
  \<^item> \<open>Text_Tools\<close>, \<open>Initrd\<close>: text functions, and the ramdisk with its cpio writer; \<open>Guest_Tools\<close>, \<open>Guest\<close>:
    the tools of the executor, its sandboxes and its requests.
  \<^item> \<open>Unified_Diff\<close>, \<open>Merge_Review\<close>: the parser of unified diffs, the conflict detector and the review;
    \<open>Verify_Loop\<close>: the rounds of verification and fixing.
  \<^item> \<open>Socket_Client\<close>: both clients of the socket, as instances of the locale \<open>attempts\<close>, the contract of a
    retried attempt; \<open>Socket_Pool\<close>: the threads of the pooled client as a step relation.
  \<^item> \<open>Checkpoints\<close>: the log of an agent, pruned like the bounded buffer of \<open>Events\<close>, and its snapshots;
    \<open>Tool_Catalog\<close>: the tools that are declared, registered and listed; \<open>Agent_Exec\<close>: a task from start to result;
    \<open>Merge_Tree\<close>: the rounds of the merge and its workers.

  \<^bold>\<open>How state is modelled.\<close> A component's struct is a record and its methods are functions on it; the
  conductor threads its state through a small monad whose results are a value, an error or a panic.
  Everything outside the sources is a parameter: the answers of the models (indexed by the number of
  the call), hashes, clocks, processes, HTTP, the TOML and cryptography crates. Strings are lists of
  bytes; a slice inside a UTF-8 character is a panic and shows as \<open>None\<close> or \<open>CPanic\<close>. Integers of the code are words
  where they can wrap. The order in which crews finish is a parameter of the captain.

  \<^bold>\<open>What is shown.\<close> Validation accepts exactly the well-formed graphs; saving is atomic per file and loads
  back; encryption round trips; paths and file tools stay in the work directory; forbidden calls do not
  reach a transport; messages and streams of messages decode to what was encoded; the digest keeps the
  newest events; merging finds exactly the conflicts; a captain on a validated plan completes the tasks
  whose dependencies and crew succeed, and reports it; the topological sort; retries; the assembly of
  streamed replies for any cutting; the crew's discipline and its bounds; and what a message to the
  conductor may start, save or revise. In the daemon a task is handed out once and after its dependencies,
  and workers leave only when all is resolved; in the guest every request is answered once, the table
  of sandboxes stays in order and uploads stay in their sandbox. The diffs of git are read back, conflicts are
  found and every file is decided; a verification passes exactly what its commands passed and leaves no container.
  A request makes at most four connections, the pool of the clients cannot deadlock, an agent returns with a result that
  its log and events agree with, and a merge is a tree over all diffs. Several properties state how the code falls short: they are the
  findings of the manifest.

  \<^bold>\<open>Bounds and fuel.\<close> The captain's loop gets one round more than there are tasks, enough because every
  round removes a task; the topological sort gets one wave more than there are tasks, for the same
  reason; a crew is given 100,001 rounds, enough whenever every answer reports a token, since the token
  budget is 100,000, and the theorem on crews that never end holds for every fuel; a turn of
  the conductor has the five rounds of the code. The write loops of the socket clients are unbounded in the code, as
  an interrupted write is repeated; they are \<open>partial_function (option)\<close>, \<open>None\<close> says that they never end, and
  that an agent returns is proved from the hypothesis that its requests do. An agent
  has the 256 rounds, three attempts and four tries per call of the code; the merge ends because a round halves the list.

  \<^bold>\<open>Not modelled.\<close> A crew that panics makes \<open>Captain::start_plan\<close> wait for ever, as the channel stays open;
  the model of that captain has no panicking crews. Tokens sent before an error of a stream are dropped;
  the effects of crews that still run after \<open>start_plan\<close> returned early are not followed; the
  command loop of the captain handles a command only between plans. Outside the model are the
  terminal and desktop interfaces, the command line tools, the virtual machine manager, the start-up of
  the guest (\<open>init.rs\<close>), and of \<open>agentd\<close> what is not named above: its socket server, the tools behind it, its
  model clients, its sandboxes and the other layers of its orchestrator. Chunks streamed to an interface, log
  lines and pauses between attempts are left out of the agents and clients.
\<close>

text \<open>
  C1. \<open>Plan::validate\<close> accepts a plan exactly when its task graph is well formed: the identifiers are
  distinct, every dependency names a task of the graph, and the dependencies have no cycle. In
  particular the depth-first search finds every cycle and reports none that is not there.
\<close>

theorem validate_accepts_wf:
  "validate p = Inr () \<longleftrightarrow> wf_graph (pl_task_graph p)"
  by (rule validate_ok_iff)

end
